(* ===== verification/QF_Prelude.thy ===== *)
theory QF_Prelude
  imports "HOL-Library.Word" "HOL-Library.List_Lexorder" "HOL-Library.Char_ord"
begin

text \<open>
  Shared vocabulary of the development: the widths of the machine integers, byte strings,
  the error channel of \<open>include/qosfabric/error.hpp\<close>, the budgets of
  \<open>include/qosfabric/limits.hpp\<close>, strict binders for fallible steps, and the lemma
  collections the component theories extend.

  A C++ \<^verbatim>\<open>std::string\<close> is a HOL \<^typ>\<open>string\<close>: a \<^typ>\<open>char\<close> is one byte. The order on
  strings is the lexicographic order on unsigned bytes, as \<^verbatim>\<open>std::string_view\<close>
  compares. Sizes and indices (\<^verbatim>\<open>std::size_t\<close>) are \<^typ>\<open>nat\<close>.
\<close>

section \<open>Machine integers and bytes\<close>

type_synonym u8 = "8 word"
type_synonym u16 = "16 word"
type_synonym u32 = "32 word"
type_synonym u64 = "64 word"
type_synonym bytes = "8 word list"

named_theorems codec \<open>rewriting rules that run a reader over bytes a writer produced\<close>
named_theorems writes_intros \<open>what each writer operation appends\<close>
named_theorems bind_iff \<open>inversion of the strict binders\<close>

definition bytes_of_string :: "string \<Rightarrow> bytes" where
  "bytes_of_string s = map of_char s"

definition string_of_bytes :: "bytes \<Rightarrow> string" where
  "string_of_bytes bs = map (\<lambda>b. char_of (unat b)) bs"

lemma char_of_of_char_u8 [simp]: "char_of (unat (of_char c :: u8)) = c"
proof -
  have "unat (of_char c :: u8) = unat (of_nat (of_char c) :: u8)"
    by (simp only: of_nat_of_char)
  also have "\<dots> = of_char c mod 256"
    by (simp only: unat_of_nat) simp
  finally show ?thesis by simp
qed

lemma of_char_char_of_u8 [simp]: "of_char (char_of (unat b)) = (b :: u8)"
proof -
  have "of_char (char_of (unat b)) = (of_nat (of_char (char_of (unat b))) :: u8)"
    by (simp only: of_nat_of_char)
  also have "\<dots> = of_nat (unat b mod 256)"
    by (simp only: of_char_of)
  also have "unat b mod 256 = unat b"
    using unsigned_less [of b, where 'a = nat] by simp
  finally show ?thesis by simp
qed

lemma length_bytes_of_string [simp]: "length (bytes_of_string s) = length s"
  by (simp add: bytes_of_string_def)

lemma length_string_of_bytes [simp]: "length (string_of_bytes bs) = length bs"
  by (simp add: string_of_bytes_def)

lemma string_of_bytes_inverse [simp]: "string_of_bytes (bytes_of_string s) = s"
  by (simp add: bytes_of_string_def string_of_bytes_def comp_def)

lemma bytes_of_string_inverse [simp]: "bytes_of_string (string_of_bytes bs) = bs"
  by (simp add: bytes_of_string_def string_of_bytes_def comp_def)

lemma bytes_of_string_inject [simp]: "bytes_of_string s = bytes_of_string t \<longleftrightarrow> s = t"
  by (metis string_of_bytes_inverse)

section \<open>Errors as values\<close>

datatype error_code =
    EC_Ok | EC_InvalidArgument | EC_Malformed | EC_TooLarge | EC_NotFound | EC_Duplicate
  | EC_Conflict | EC_Stale | EC_Fenced | EC_Unauthorized | EC_Corrupt | EC_IoError
  | EC_VersionMismatch | EC_Overflow | EC_NotSupported | EC_CapacityExhausted
  | EC_ShuttingDown | EC_Cancelled | EC_Internal

datatype error = Error (err_code: error_code) (err_detail: string)

type_synonym 'a result = "error + 'a"

definition kMaxErrorDetailBytes :: nat where "kMaxErrorDetailBytes = 512"

definition make_error :: "error_code \<Rightarrow> string \<Rightarrow> error" where
  "make_error c detail = Error c (take kMaxErrorDetailBytes detail)"

lemma err_code_make_error [simp]: "err_code (make_error c d) = c"
  by (simp add: make_error_def)

lemma err_detail_budget: "length (err_detail (make_error c d)) \<le> kMaxErrorDetailBytes"
  by (simp add: make_error_def)

definition result_code :: "'a result \<Rightarrow> error_code" where
  "result_code r = (case r of Inl e \<Rightarrow> err_code e | Inr _ \<Rightarrow> EC_Ok)"

lemma result_code_simps [simp]:
  "result_code (Inl e) = err_code e" "result_code (Inr x) = EC_Ok"
  by (simp_all add: result_code_def)

section \<open>Strict binders\<close>

text \<open>
  \<open>bindR\<close> continues on a value and passes an error on; \<open>bindD\<close> does the same for a step
  that also moves a state (a reader, a store); \<open>check_that\<close> is a guard with an early
  error return.
\<close>

definition bindR :: "'a result \<Rightarrow> ('a \<Rightarrow> 'b result) \<Rightarrow> 'b result" where
  "bindR r k = (case r of Inl e \<Rightarrow> Inl e | Inr x \<Rightarrow> k x)"

definition bindD :: "'a result \<times> 's \<Rightarrow> ('a \<Rightarrow> 's \<Rightarrow> 'b result \<times> 's) \<Rightarrow> 'b result \<times> 's" where
  "bindD p k = (case p of (Inl e, s) \<Rightarrow> (Inl e, s) | (Inr x, s) \<Rightarrow> k x s)"

definition check_that :: "bool \<Rightarrow> error_code \<Rightarrow> string \<Rightarrow> unit result \<Rightarrow> unit result" where
  "check_that ok c detail k = (if ok then k else Inl (make_error c detail))"

lemma bindR_simps [simp]: "bindR (Inl e) k = Inl e" "bindR (Inr x) k = k x"
  by (simp_all add: bindR_def)

lemma bindD_simps [simp]: "bindD (Inl e, s) k = (Inl e, s)" "bindD (Inr x, s) k = k x s"
  by (simp_all add: bindD_def)

lemma bindR_Inr_iff [bind_iff]: "bindR r k = Inr y \<longleftrightarrow> (\<exists>x. r = Inr x \<and> k x = Inr y)"
  by (cases r) auto

lemma bindD_Inr_iff [bind_iff]:
  "bindD p k = (Inr y, t) \<longleftrightarrow> (\<exists>x s. p = (Inr x, s) \<and> k x s = (Inr y, t))"
  by (cases p; cases "fst p") auto

lemma check_that_Inr_iff [bind_iff]: "check_that ok c d k = Inr u \<longleftrightarrow> ok \<and> k = Inr u"
  by (simp add: check_that_def)

lemma check_that_True [simp]: "check_that True c d k = k"
  by (simp add: check_that_def)

lemma check_that_False [simp]: "check_that False c d k = Inl (make_error c d)"
  by (simp add: check_that_def)

section \<open>Undefined behaviour as a value\<close>

text \<open>
  An out-of-range read or a null dereference is \<^term>\<open>None\<close>; a model that can reach one
  has an \<^typ>\<open>'a option\<close> result, and its totality is a theorem.
\<close>

definition at :: "'a list \<Rightarrow> nat \<Rightarrow> 'a option" where
  "at xs i = (if i < length xs then Some (xs ! i) else None)"

lemma at_less [simp]: "i < length xs \<Longrightarrow> at xs i = Some (xs ! i)"
  by (simp add: at_def)

lemma at_Some_iff [bind_iff]: "at xs i = Some x \<longleftrightarrow> i < length xs \<and> xs ! i = x"
  by (auto simp: at_def)

fun map_ub :: "('a \<Rightarrow> 'b option) \<Rightarrow> 'a list \<Rightarrow> 'b list option" where
  "map_ub f [] = Some []"
| "map_ub f (x # xs) =
     (case f x of None \<Rightarrow> None
      | Some y \<Rightarrow> (case map_ub f xs of None \<Rightarrow> None | Some ys \<Rightarrow> Some (y # ys)))"

lemma map_ub_total:
  "(\<And>x. x \<in> set xs \<Longrightarrow> \<exists>y. f x = Some y) \<Longrightarrow> \<exists>ys. map_ub f xs = Some ys"
  by (induction xs) fastforce+

lemma map_ub_Some: "map_ub f xs = Some ys \<Longrightarrow> list_all2 (\<lambda>x y. f x = Some y) xs ys"
  by (induction xs arbitrary: ys) (auto split: option.splits)

lemma map_ub_length: "map_ub f xs = Some ys \<Longrightarrow> length ys = length xs"
  using list_all2_lengthD [OF map_ub_Some] by fastforce

lemma map_ub_nth:
  "map_ub f xs = Some ys \<Longrightarrow> i < length xs \<Longrightarrow> f (xs ! i) = Some (ys ! i)"
  using list_all2_nthD [OF map_ub_Some] by fastforce

lemma map_ub_mem: "map_ub f xs = Some ys \<Longrightarrow> y \<in> set ys \<Longrightarrow> \<exists>x \<in> set xs. f x = Some y"
  by (induction xs arbitrary: ys) (auto split: option.splits)

lemma map_ub_Some_map: "map_ub (\<lambda>x. Some (g x)) xs = Some (map g xs)"
  by (induction xs) auto

section \<open>Budgets\<close>

definition kMaxIdentifierLen :: nat where "kMaxIdentifierLen = 96"
definition kMaxLabelLen :: nat where "kMaxLabelLen = 128"
definition kMaxDetailLen :: nat where "kMaxDetailLen = 192"
definition kMaxReasonLen :: nat where "kMaxReasonLen = 256"
definition kMaxOriginLen :: nat where "kMaxOriginLen = 128"
definition kMaxPredicateKeyLen :: nat where "kMaxPredicateKeyLen = 64"

definition kMaxPathComponents :: nat where "kMaxPathComponents = 256"
definition kMaxRequiredPredicates :: nat where "kMaxRequiredPredicates = 64"
definition kMaxCapabilityPredicates :: nat where "kMaxCapabilityPredicates = 64"
definition kMaxObligations :: nat where "kMaxObligations = 128"
definition kMaxDegradations :: nat where "kMaxDegradations = 64"
definition kMaxAuthorityEntries :: nat where
  "kMaxAuthorityEntries = 8 + 2 * kMaxPathComponents"

definition kMaxCanonicalRecordBytes :: nat where "kMaxCanonicalRecordBytes = 1048576"
definition kMaxWireFrameBytes :: nat where "kMaxWireFrameBytes = 262144"
definition kMaxWalRecordBytes :: nat where "kMaxWalRecordBytes = 4194304"
definition kMaxSnapshotBytes :: nat where "kMaxSnapshotBytes = 67108864"
definition kMaxExplainBytes :: nat where "kMaxExplainBytes = 65536"
definition kMaxExplainObligations :: nat where "kMaxExplainObligations = 64"
definition kMaxExplainComponents :: nat where "kMaxExplainComponents = 256"

definition kMaxGenerationsPerId :: nat where "kMaxGenerationsPerId = 8"
definition kMaxClassesRetained :: nat where "kMaxClassesRetained = 512"
definition kMaxPoliciesRetained :: nat where "kMaxPoliciesRetained = 256"
definition kMaxPathsRetained :: nat where "kMaxPathsRetained = 1024"
definition kMaxCapabilitiesRetained :: nat where "kMaxCapabilitiesRetained = 4096"
definition kMaxPublishersRetained :: nat where "kMaxPublishersRetained = 512"
definition kMaxDecisionsRetained :: nat where "kMaxDecisionsRetained = 4096"
definition kMaxJournalIntentsInFlight :: nat where "kMaxJournalIntentsInFlight = 256"

definition kMaxRateBps :: u64 where "kMaxRateBps = 1000000000000"
definition kMaxLatencyUs :: u64 where "kMaxLatencyUs = 3600000000"
definition kMaxJitterUs :: u64 where "kMaxJitterUs = 3600000000"
definition kMaxBurstBytes :: u64 where "kMaxBurstBytes = 1099511627776"
definition kMaxBurstIntervalUs :: u64 where "kMaxBurstIntervalUs = 3600000000"
definition kMaxMtuBytes :: u64 where "kMaxMtuBytes = 16777216"
definition kMaxLossPpm :: u32 where "kMaxLossPpm = 1000000"
definition kMaxRelaxationPpm :: u32 where "kMaxRelaxationPpm = 1000000"
definition kMaxPriorityRank :: u32 where "kMaxPriorityRank = 64"
definition kMaxDisjointPaths :: u32 where "kMaxDisjointPaths = 64"
definition kMaxStaleEpochs :: u32 where "kMaxStaleEpochs = 4096"
definition kMaxLeaseMs :: u64 where "kMaxLeaseMs = 3600000"

lemmas limit_defs =
  kMaxIdentifierLen_def kMaxLabelLen_def kMaxDetailLen_def kMaxReasonLen_def kMaxOriginLen_def
  kMaxPredicateKeyLen_def kMaxPathComponents_def kMaxRequiredPredicates_def
  kMaxCapabilityPredicates_def kMaxObligations_def kMaxDegradations_def
  kMaxAuthorityEntries_def kMaxCanonicalRecordBytes_def kMaxErrorDetailBytes_def
  kMaxWireFrameBytes_def kMaxWalRecordBytes_def kMaxSnapshotBytes_def kMaxExplainBytes_def
  kMaxExplainObligations_def kMaxExplainComponents_def kMaxGenerationsPerId_def
  kMaxClassesRetained_def kMaxPoliciesRetained_def kMaxPathsRetained_def
  kMaxCapabilitiesRetained_def kMaxPublishersRetained_def kMaxDecisionsRetained_def
  kMaxJournalIntentsInFlight_def

lemmas domain_defs =
  kMaxRateBps_def kMaxLatencyUs_def kMaxJitterUs_def kMaxBurstBytes_def
  kMaxBurstIntervalUs_def kMaxMtuBytes_def kMaxLossPpm_def kMaxRelaxationPpm_def
  kMaxPriorityRank_def kMaxDisjointPaths_def kMaxStaleEpochs_def kMaxLeaseMs_def

end
