(* ===== verification/Serialize.thy ===== *)
theory Serialize
  imports QF_Prelude
begin

text \<open>
  The canonical binary encoding: \<open>ByteWriter\<close> and \<open>ByteReader\<close> of
  \<open>include/qosfabric/serialize.hpp\<close> and \<open>src/serialize.cpp\<close>. A writer is its buffer, its
  budget and a sticky failure flag; a reader is its buffer, a cursor and a sticky failure
  flag. Each operation returns the new state, a reading operation the value as well.

  What the two promise each other is stated in \<open>Codec_Laws\<close>.
\<close>

unbundle bit_operations_syntax

section \<open>Little-endian integers\<close>

definition store_le :: "u64 \<Rightarrow> nat \<Rightarrow> bytes" where
  "store_le v width = map (\<lambda>i. ucast (drop_bit (i * 8) v AND 0xFF)) [0..<width]"

definition load_le :: "bytes \<Rightarrow> u64" where
  "load_le bs = fold (\<lambda>(i, b) v. v OR push_bit (i * 8) (ucast b)) (enumerate 0 bs) 0"

section \<open>ByteWriter\<close>

record writer =
  w_buffer :: bytes
  w_limit :: nat
  w_failed :: bool

definition new_writer :: "nat \<Rightarrow> writer" where
  "new_writer limit = \<lparr>w_buffer = [], w_limit = limit, w_failed = False\<rparr>"

definition w_fail :: "writer \<Rightarrow> writer" where
  "w_fail w = w\<lparr>w_failed := True\<rparr>"

definition w_raw :: "bytes \<Rightarrow> writer \<Rightarrow> writer" where
  "w_raw data w =
     (if w_failed w then w
      else if length data > w_limit w \<or> length (w_buffer w) > w_limit w - length data
        then w\<lparr>w_failed := True\<rparr>
      else if length data = 0 then w
      else w\<lparr>w_buffer := w_buffer w @ data\<rparr>)"

definition w_u8 :: "u8 \<Rightarrow> writer \<Rightarrow> writer" where
  "w_u8 v = w_raw [v]"

definition w_u16 :: "u16 \<Rightarrow> writer \<Rightarrow> writer" where
  "w_u16 v = w_raw (store_le (ucast v) 2)"

definition w_u32 :: "u32 \<Rightarrow> writer \<Rightarrow> writer" where
  "w_u32 v = w_raw (store_le (ucast v) 4)"

definition w_u64 :: "u64 \<Rightarrow> writer \<Rightarrow> writer" where
  "w_u64 v = w_raw (store_le v 8)"

definition w_bytes :: "bytes \<Rightarrow> writer \<Rightarrow> writer" where
  "w_bytes v w =
     (if length v > 0xFFFFFFFF then w\<lparr>w_failed := True\<rparr>
      else w_raw v (w_u32 (word_of_nat (length v)) w))"

definition w_str :: "string \<Rightarrow> nat \<Rightarrow> writer \<Rightarrow> writer" where
  "w_str s max_len w =
     (if length s > max_len then w\<lparr>w_failed := True\<rparr>
      else w_raw (bytes_of_string s) (w_u32 (word_of_nat (length s)) w))"

definition w_presence :: "bool \<Rightarrow> writer \<Rightarrow> writer" where
  "w_presence present = w_u8 (if present then 1 else 0)"

definition w_optional :: "bool \<Rightarrow> (writer \<Rightarrow> writer) \<Rightarrow> writer \<Rightarrow> writer" where
  "w_optional present emit w =
     (let w = w_presence present w
      in if present \<and> \<not> w_failed w then emit w else w)"

definition w_counted :: "nat \<Rightarrow> (writer \<Rightarrow> writer) \<Rightarrow> writer \<Rightarrow> writer" where
  "w_counted count emit w =
     (if count > 0xFFFFFFFF then w_fail w
      else let w = w_u32 (word_of_nat count) w
        in if w_failed w then w else emit w)"

text \<open>A sequence of writer statements, and a loop over a container.\<close>

definition w_seq :: "(writer \<Rightarrow> writer) list \<Rightarrow> writer \<Rightarrow> writer" where
  "w_seq fs w = fold (\<lambda>f w. f w) fs w"

definition w_each :: "('a \<Rightarrow> writer \<Rightarrow> writer) \<Rightarrow> 'a list \<Rightarrow> writer \<Rightarrow> writer" where
  "w_each f xs w = fold f xs w"

definition encode_canonical :: "(writer \<Rightarrow> writer) \<Rightarrow> nat \<Rightarrow> bytes" where
  "encode_canonical emit limit =
     (let w = emit (new_writer limit) in if w_failed w then [] else w_buffer w)"

section \<open>ByteReader\<close>

record reader =
  r_data :: bytes
  r_pos :: nat
  r_failed :: bool

definition new_reader :: "bytes \<Rightarrow> reader" where
  "new_reader data = \<lparr>r_data = data, r_pos = 0, r_failed = False\<rparr>"

definition r_fail :: "reader \<Rightarrow> reader" where
  "r_fail r = r\<lparr>r_failed := True\<rparr>"

definition r_remaining :: "reader \<Rightarrow> nat" where
  "r_remaining r = length (r_data r) - r_pos r"

definition r_at_end :: "reader \<Rightarrow> bool" where
  "r_at_end r \<longleftrightarrow> r_pos r = length (r_data r)"

definition r_raw :: "nat \<Rightarrow> reader \<Rightarrow> bytes \<times> reader" where
  "r_raw n r =
     (if r_failed r then ([], r)
      else if n > r_remaining r then ([], r\<lparr>r_failed := True\<rparr>)
      else (take n (drop (r_pos r) (r_data r)), r\<lparr>r_pos := r_pos r + n\<rparr>))"

definition r_u8 :: "reader \<Rightarrow> u8 \<times> reader" where
  "r_u8 r = (let (view, r) = r_raw 1 r in if r_failed r then (0, r) else (hd view, r))"

definition r_u16 :: "reader \<Rightarrow> u16 \<times> reader" where
  "r_u16 r = (let (view, r) = r_raw 2 r in if r_failed r then (0, r) else (ucast (load_le view), r))"

definition r_u32 :: "reader \<Rightarrow> u32 \<times> reader" where
  "r_u32 r = (let (view, r) = r_raw 4 r in if r_failed r then (0, r) else (ucast (load_le view), r))"

definition r_u64 :: "reader \<Rightarrow> u64 \<times> reader" where
  "r_u64 r = (let (view, r) = r_raw 8 r in if r_failed r then (0, r) else (load_le view, r))"

definition r_bytes :: "nat \<Rightarrow> reader \<Rightarrow> bytes \<times> reader" where
  "r_bytes max_len r =
     (let (len, r) = r_u32 r
      in if r_failed r then ([], r)
         else if unat len > max_len then ([], r\<lparr>r_failed := True\<rparr>)
         else let (view, r) = r_raw (unat len) r
           in if r_failed r then ([], r) else (view, r))"

definition r_str :: "nat \<Rightarrow> reader \<Rightarrow> string \<times> reader" where
  "r_str max_len r =
     (let (len, r) = r_u32 r
      in if r_failed r then ([], r)
         else if unat len > max_len then ([], r\<lparr>r_failed := True\<rparr>)
         else let (view, r) = r_raw (unat len) r
           in if r_failed r then ([], r) else (string_of_bytes view, r))"

definition r_presence :: "reader \<Rightarrow> bool \<times> reader" where
  "r_presence r =
     (let (v, r) = r_u8 r
      in if r_failed r then (False, r)
         else if v > 1 then (False, r\<lparr>r_failed := True\<rparr>)
         else (v = 1, r))"

definition r_count :: "nat \<Rightarrow> reader \<Rightarrow> nat option \<times> reader" where
  "r_count max_count r =
     (let (v, r) = r_u32 r
      in if r_failed r then (None, r)
         else if unat v > max_count then (None, r\<lparr>r_failed := True\<rparr>)
         else (Some (unat v), r))"

text \<open>
  The optional combinator: \<^term>\<open>None\<close> as first component is its false return; otherwise the
  value that the callback consumed, if the presence byte was set.
\<close>

definition r_optional :: "(reader \<Rightarrow> 'a \<times> reader) \<Rightarrow> reader \<Rightarrow> 'a option option \<times> reader" where
  "r_optional consume r =
     (let (present, r) = r_presence r
      in if r_failed r then (None, r)
         else if present then
           (let (x, r) = consume r in if r_failed r then (None, r) else (Some (Some x), r))
         else (Some None, r))"

section \<open>Little-endian round trip\<close>

lemma length_store_le [simp]: "length (store_le v n) = n"
  by (simp add: store_le_def)

lemma store_le_nth:
  "i < n \<Longrightarrow> store_le v n ! i = ucast (take_bit 8 (drop_bit (i * 8) v))"
proof -
  have "(0xFF :: u64) = mask 8" by (simp add: mask_eq_exp_minus_1)
  then show "i < n \<Longrightarrow> store_le v n ! i = ucast (take_bit 8 (drop_bit (i * 8) v))"
    by (simp only: store_le_def take_bit_eq_mask) simp
qed

lemma bit_store_le: "i < n \<Longrightarrow> bit (store_le v n ! i) j \<longleftrightarrow> j < 8 \<and> bit v (i * 8 + j)"
  by (auto simp: store_le_nth bit_ucast_iff bit_take_bit_iff bit_drop_bit_eq)

lemma bit_push_byte:
  fixes b :: u8
  shows "bit (push_bit (k * 8) (ucast b) :: u64) n \<longleftrightarrow>
    n < 64 \<and> k * 8 \<le> n \<and> n div 8 = k \<and> bit b (n mod 8)"
proof -
  have eq: "bit (push_bit (k * 8) (ucast b) :: u64) n \<longleftrightarrow> n < 64 \<and> k * 8 \<le> n \<and> bit b (n - k * 8)"
    by (auto simp: bit_push_bit_iff bit_ucast_iff)
  show ?thesis
  proof (cases "k * 8 \<le> n \<and> n < k * 8 + 8")
    case True
    then have "n div 8 = k" by (intro div_nat_eqI) auto
    moreover from this have "n mod 8 = n - k * 8" by (metis minus_div_mult_eq_mod)
    ultimately have "n div 8 = k" "n mod 8 = n - k * 8" by auto
    then show ?thesis using True by (simp add: eq)
  next
    case False
    moreover have "n div 8 * 8 \<le> n" "n < n div 8 * 8 + 8" by linarith+
    ultimately have "n div 8 \<noteq> k" by auto
    moreover have "\<not> (k * 8 \<le> n \<and> bit b (n - k * 8))"
      using False bit_imp_le_length [of b "n - k * 8"] by auto
    ultimately show ?thesis by (auto simp: eq)
  qed
qed

lemma bit_load_le_aux:
  "bit (fold (\<lambda>(i, b) v. v OR push_bit (i * 8) (ucast b)) (enumerate k bs) a) n \<longleftrightarrow>
     bit a n \<or> (n < 64 \<and> k \<le> n div 8 \<and> n div 8 < k + length bs \<and> bit (bs ! (n div 8 - k)) (n mod 8))"
  for a :: u64 and bs :: bytes
proof (induction bs arbitrary: k a)
  case Nil
  then show ?case by auto
next
  case (Cons b bs)
  have "(b # bs) ! (m - k) = (if m = k then b else bs ! (m - Suc k))" if "k \<le> m" for m
    using that by (auto simp: nth_Cons' Suc_diff_Suc)
  then show ?case
    using Cons.IH [of "Suc k" "a OR push_bit (k * 8) (ucast b)"]
    by (auto simp: bit_or_iff bit_push_byte le_Suc_eq Suc_le_eq split: if_splits)
qed

lemma bit_load_le:
  "bit (load_le bs) n \<longleftrightarrow> n < 64 \<and> n div 8 < length bs \<and> bit (bs ! (n div 8)) (n mod 8)"
  using bit_load_le_aux [of 0 bs 0 n] by (simp add: load_le_def)

lemma load_store_le: "load_le (store_le v n) = take_bit (8 * n) v"
proof (rule bit_eqI)
  fix m :: nat
  have "m div 8 * 8 + m mod 8 = m" by simp
  moreover have "m div 8 < n \<longleftrightarrow> m < 8 * n" by auto
  ultimately show "bit (load_le (store_le v n)) m \<longleftrightarrow> bit (take_bit (8 * n) v) m"
    by (auto simp: bit_load_le bit_store_le bit_take_bit_iff dest: bit_imp_le_length)
qed

lemma load_store_le_16: "ucast (load_le (store_le (ucast v) 2)) = (v :: u16)"
  by (rule bit_eqI) (auto simp: load_store_le bit_ucast_iff bit_take_bit_iff dest: bit_imp_le_length)

lemma load_store_le_32: "ucast (load_le (store_le (ucast v) 4)) = (v :: u32)"
  by (rule bit_eqI) (auto simp: load_store_le bit_ucast_iff bit_take_bit_iff dest: bit_imp_le_length)

lemma load_store_le_64: "load_le (store_le v 8) = v"
  by (rule bit_eqI) (auto simp: load_store_le bit_take_bit_iff dest: bit_imp_le_length)

lemma store_load_le: "length bs \<le> 8 \<Longrightarrow> store_le (load_le bs) (length bs) = bs"
proof (rule nth_equalityI)
  fix i assume l: "length bs \<le> 8" and "i < length (store_le (load_le bs) (length bs))"
  then have i: "i < length bs" by simp
  show "store_le (load_le bs) (length bs) ! i = bs ! i"
  proof (rule bit_eqI)
    fix j
    show "bit (store_le (load_le bs) (length bs) ! i) j = bit (bs ! i) j"
    proof (cases "j < 8")
      case True
      then have "(i * 8 + j) div 8 = i" "(i * 8 + j) mod 8 = j" "i * 8 + j < 64"
        using i l by auto
      with True i show ?thesis by (simp only: bit_store_le bit_load_le) simp
    next
      case False
      then show ?thesis using i by (auto simp: bit_store_le dest: bit_imp_le_length)
    qed
  qed
qed simp

lemma store_le_inject: "store_le v 8 = store_le w 8 \<longleftrightarrow> v = w"
  by (metis load_store_le_64)

end
