(* ===== verification/Ids.thy ===== *)
theory Ids
  imports Serialize
begin

text \<open>
  Identities: \<open>include/qosfabric/ids.hpp\<close> and \<open>src/ids.cpp\<close>. A numeric identity
  (generation, epoch, incarnation, attempt, lease, sequence) is its 64-bit value; a nominal
  identity is its string; a boot identity is its sixteen bytes.
\<close>

section \<open>Numeric identities\<close>

type_synonym generation = u64
type_synonym fabric_epoch = u64
type_synonym publisher_incarnation = u64
type_synonym attempt_id = u64
type_synonym lease_id = u64
type_synonym sequence_no = u64

definition try_increment :: "u64 \<Rightarrow> u64 option" where
  "try_increment v = (if v = - 1 then None else Some (v + 1))"

definition next_generation :: "generation \<Rightarrow> generation" where
  "next_generation current = (case try_increment current of None \<Rightarrow> current | Some v \<Rightarrow> v)"

lemma try_increment_unat: "try_increment v = Some w \<Longrightarrow> unat w = Suc (unat v)"
proof -
  assume a: "try_increment v = Some w"
  then have "v + 1 \<noteq> 0" "w = v + 1"
    by (auto simp: try_increment_def split: if_splits) (metis add_eq_0_iff2)
  then show ?thesis by (simp add: unatSuc add.commute)
qed

lemma try_increment_less: "try_increment v = Some w \<Longrightarrow> v < w"
  using try_increment_unat by (fastforce simp: word_less_nat_alt)

lemma try_increment_None: "try_increment v = None \<longleftrightarrow> v = - 1"
  by (simp add: try_increment_def)

section \<open>Nominal identities\<close>

definition is_ascii_alnum :: "char \<Rightarrow> bool" where
  "is_ascii_alnum c \<longleftrightarrow>
     (CHR ''0'' \<le> c \<and> c \<le> CHR ''9'') \<or> (CHR ''a'' \<le> c \<and> c \<le> CHR ''z'') \<or>
     (CHR ''A'' \<le> c \<and> c \<le> CHR ''Z'')"

definition is_valid_identifier_char :: "char \<Rightarrow> bool" where
  "is_valid_identifier_char c \<longleftrightarrow>
     (if is_ascii_alnum c then True
      else c = CHR ''.'' \<or> c = CHR ''_'' \<or> c = CHR ''-'' \<or> c = CHR '':'' \<or> c = CHR ''/'')"

definition is_valid_identifier :: "string \<Rightarrow> nat \<Rightarrow> bool" where
  "is_valid_identifier v max_len \<longleftrightarrow>
     (if v = [] \<or> length v > max_len then False else list_all is_valid_identifier_char v)"

definition parse_string_id :: "string \<Rightarrow> nat \<Rightarrow> string result" where
  "parse_string_id v max_len =
     (if \<not> is_valid_identifier v max_len
      then Inl (make_error EC_InvalidArgument
        ''identifier rejected by canonical alphabet or length'')
      else Inr v)"

abbreviation is_valid :: "string \<Rightarrow> bool" where
  "is_valid v \<equiv> is_valid_identifier v kMaxIdentifierLen"

lemma is_valid_identifier_length: "is_valid_identifier v n \<Longrightarrow> v \<noteq> [] \<and> length v \<le> n"
  by (auto simp: is_valid_identifier_def split: if_splits)

lemma is_valid_identifier_Nil [simp]: "\<not> is_valid_identifier [] n"
  by (simp add: is_valid_identifier_def)

lemma is_valid_identifier_mono:
  "is_valid_identifier v m \<Longrightarrow> m \<le> n \<Longrightarrow> is_valid_identifier v n"
  by (auto simp: is_valid_identifier_def split: if_splits)

text \<open>
  What the alphabet keeps out: no valid identifier holds a byte that could end a line, open
  a path component above it, or be read as white space, a separator or a non-ASCII byte.
\<close>

lemma valid_char_ascii:
  assumes "is_valid_identifier_char c"
  shows "CHR ''-'' \<le> c \<and> c \<le> CHR ''z'' \<and> c \<noteq> CHR '' '' \<and> c \<noteq> CHR ''#'' \<and> c \<noteq> CHR ''@''"
  using assms
  by (auto simp: is_valid_identifier_char_def is_ascii_alnum_def less_eq_char_def split: if_splits)

lemma valid_identifier_chars: "is_valid_identifier v n \<Longrightarrow> c \<in> set v \<Longrightarrow> is_valid_identifier_char c"
  by (auto simp: is_valid_identifier_def list_all_iff split: if_splits)

section \<open>Boot identity\<close>

definition kBootBytes :: nat where "kBootBytes = 16"

definition boot_is_zero :: "bytes \<Rightarrow> bool" where
  "boot_is_zero b \<longleftrightarrow> list_all (\<lambda>x. x = 0) b"

definition xor_bytes :: "bytes \<Rightarrow> bytes \<Rightarrow> bytes" where
  "xor_bytes = map2 (XOR)"

text \<open>
  The entropy source, the two clocks and the process counter are arguments: four 32-bit
  words drawn from the device, the steady and the system clock, the ordinal.
\<close>

definition boot_generate :: "u32 list \<Rightarrow> u64 \<Rightarrow> u64 \<Rightarrow> u64 \<Rightarrow> bytes" where
  "boot_generate device tick wall ordinal =
     (let bs = concat (map (\<lambda>w. store_le (ucast w) 4) device);
          bs = xor_bytes (take 8 bs) (store_le tick 8) @ xor_bytes (drop 8 bs) (store_le wall 8);
          bs = xor_bytes (take 8 bs) (store_le ordinal 8) @ drop 8 bs
      in bs)"

section \<open>Provenance\<close>

record provenance =
  prov_origin :: string
  prov_epoch :: fabric_epoch
  prov_generation :: generation
  prov_sequence :: sequence_no

definition make_provenance :: "string \<Rightarrow> fabric_epoch \<Rightarrow> generation \<Rightarrow> sequence_no \<Rightarrow> provenance" where
  "make_provenance origin epoch generation sequence =
     \<lparr>prov_origin = take kMaxOriginLen origin, prov_epoch = epoch,
      prov_generation = generation, prov_sequence = sequence\<rparr>"

definition empty_provenance :: provenance where
  "empty_provenance = \<lparr>prov_origin = [], prov_epoch = 0, prov_generation = 0, prov_sequence = 0\<rparr>"

text \<open>The class keeps its origin bounded: the constructor is the only way to set it.\<close>

definition provenance_ok :: "provenance \<Rightarrow> bool" where
  "provenance_ok p \<longleftrightarrow> length (prov_origin p) \<le> kMaxOriginLen"

lemma provenance_ok_make [simp]: "provenance_ok (make_provenance a b c d)"
  by (simp add: provenance_ok_def make_provenance_def)

lemma provenance_ok_empty [simp]: "provenance_ok empty_provenance"
  by (simp add: provenance_ok_def empty_provenance_def)

end
