(* ===== verification/Crypto.thy ===== *)
theory Crypto
  imports QF_Prelude
begin

text \<open>
  Content addressing and frame integrity: \<open>include/qosfabric/crypto.hpp\<close> and
  \<open>src/crypto.cpp\<close>. SHA-256 as the streaming class the code has, CRC-32C as the
  table-driven loop the code has, and the hexadecimal form of a digest.
\<close>

unbundle bit_operations_syntax

section \<open>Digests\<close>

type_synonym digest256 = bytes

definition kDigestBytes :: nat where "kDigestBytes = 32"

definition zero_digest :: digest256 where "zero_digest = replicate kDigestBytes 0"

definition digest_is_zero :: "digest256 \<Rightarrow> bool" where
  "digest_is_zero d \<longleftrightarrow> list_all (\<lambda>b. b = 0) d"

definition kHexDigits :: string where "kHexDigits = ''0123456789abcdef''"

definition digest_hex :: "digest256 \<Rightarrow> string" where
  "digest_hex d =
     concat (map (\<lambda>b. [kHexDigits ! unat (drop_bit 4 b AND 0x0F), kHexDigits ! unat (b AND 0x0F)]) d)"

definition parse_nibble :: "char \<Rightarrow> nat option" where
  "parse_nibble c =
     (if CHR ''0'' \<le> c \<and> c \<le> CHR ''9'' then Some (of_char c - of_char (CHR ''0''))
      else if CHR ''a'' \<le> c \<and> c \<le> CHR ''f'' then Some (of_char c - of_char (CHR ''a'') + 10)
      else if CHR ''A'' \<le> c \<and> c \<le> CHR ''F'' then Some (of_char c - of_char (CHR ''A'') + 10)
      else None)"

fun parse_hex_pairs :: "string \<Rightarrow> bytes option" where
  "parse_hex_pairs [] = Some []"
| "parse_hex_pairs [c] = None"
| "parse_hex_pairs (a # b # cs) =
     (case parse_nibble a of None \<Rightarrow> None
      | Some hi \<Rightarrow>
          (case parse_nibble b of None \<Rightarrow> None
           | Some lo \<Rightarrow> map_option (\<lambda>bs. word_of_nat (hi * 16 + lo) # bs) (parse_hex_pairs cs)))"

definition digest_parse_hex :: "string \<Rightarrow> digest256 option" where
  "digest_parse_hex text = (if length text \<noteq> kDigestBytes * 2 then None else parse_hex_pairs text)"

section \<open>SHA-256\<close>

definition kSha256K :: "u32 list" where
  "kSha256K = concat [
    [0x428a2f98, 0x71374491, 0xb5c0fbcf, 0xe9b5dba5],
    [0x3956c25b, 0x59f111f1, 0x923f82a4, 0xab1c5ed5],
    [0xd807aa98, 0x12835b01, 0x243185be, 0x550c7dc3],
    [0x72be5d74, 0x80deb1fe, 0x9bdc06a7, 0xc19bf174],
    [0xe49b69c1, 0xefbe4786, 0x0fc19dc6, 0x240ca1cc],
    [0x2de92c6f, 0x4a7484aa, 0x5cb0a9dc, 0x76f988da],
    [0x983e5152, 0xa831c66d, 0xb00327c8, 0xbf597fc7],
    [0xc6e00bf3, 0xd5a79147, 0x06ca6351, 0x14292967],
    [0x27b70a85, 0x2e1b2138, 0x4d2c6dfc, 0x53380d13],
    [0x650a7354, 0x766a0abb, 0x81c2c92e, 0x92722c85],
    [0xa2bfe8a1, 0xa81a664b, 0xc24b8b70, 0xc76c51a3],
    [0xd192e819, 0xd6990624, 0xf40e3585, 0x106aa070],
    [0x19a4c116, 0x1e376c08, 0x2748774c, 0x34b0bcb5],
    [0x391c0cb3, 0x4ed8aa4a, 0x5b9cca4f, 0x682e6ff3],
    [0x748f82ee, 0x78a5636f, 0x84c87814, 0x8cc70208],
    [0x90befffa, 0xa4506ceb, 0xbef9a3f7, 0xc67178f2]]"

definition kSha256Init :: "u32 list" where
  "kSha256Init = [0x6a09e667, 0xbb67ae85, 0x3c6ef372, 0xa54ff53a, 0x510e527f, 0x9b05688c,
    0x1f83d9ab, 0x5be0cd19]"

definition rotr :: "u32 \<Rightarrow> nat \<Rightarrow> u32" where
  "rotr v bits = drop_bit bits v OR push_bit (32 - bits) v"

text \<open>The message schedule: sixteen big-endian words of the block, then the recurrence.\<close>

definition be_word :: "bytes \<Rightarrow> nat \<Rightarrow> u32" where
  "be_word block i =
     push_bit 24 (ucast (block ! (i * 4))) OR push_bit 16 (ucast (block ! (i * 4 + 1))) OR
     push_bit 8 (ucast (block ! (i * 4 + 2))) OR ucast (block ! (i * 4 + 3))"

definition schedule_step :: "u32 list \<Rightarrow> nat \<Rightarrow> u32 list" where
  "schedule_step w i =
     (let s0 = rotr (w ! (i - 15)) 7 XOR rotr (w ! (i - 15)) 18 XOR drop_bit 3 (w ! (i - 15));
          s1 = rotr (w ! (i - 2)) 17 XOR rotr (w ! (i - 2)) 19 XOR drop_bit 10 (w ! (i - 2))
      in w @ [w ! (i - 16) + s0 + w ! (i - 7) + s1])"

definition schedule :: "bytes \<Rightarrow> u32 list" where
  "schedule block = foldl schedule_step (map (be_word block) [0..<16]) [16..<64]"

type_synonym sha_regs = "u32 \<times> u32 \<times> u32 \<times> u32 \<times> u32 \<times> u32 \<times> u32 \<times> u32"

definition sha_round :: "sha_regs \<Rightarrow> u32 \<times> u32 \<Rightarrow> sha_regs" where
  "sha_round regs kw =
     (case regs of (a, b, c, d, e, f, g, h) \<Rightarrow>
      let s1 = rotr e 6 XOR rotr e 11 XOR rotr e 25;
          ch = (e AND f) XOR ((NOT e) AND g);
          temp1 = h + s1 + ch + fst kw + snd kw;
          s0 = rotr a 2 XOR rotr a 13 XOR rotr a 22;
          maj = (a AND b) XOR (a AND c) XOR (b AND c);
          temp2 = s0 + maj
      in (temp1 + temp2, a, b, c, d + temp1, e, f, g))"

definition sha_compress :: "u32 list \<Rightarrow> bytes \<Rightarrow> u32 list" where
  "sha_compress state block =
     (let start = (state ! 0, state ! 1, state ! 2, state ! 3, state ! 4, state ! 5, state ! 6, state ! 7)
      in case foldl sha_round start (zip kSha256K (schedule block)) of (a, b, c, d, e, f, g, h) \<Rightarrow>
        map2 (+) state [a, b, c, d, e, f, g, h])"

text \<open>
  The streaming object: the chaining state, the bytes of an unfinished block and the length
  absorbed so far. The code keeps the unfinished block in a 64-byte buffer with a fill
  count; the model keeps the filled prefix.
\<close>

record sha256_state =
  sha_state :: "u32 list"
  sha_buffer :: bytes
  sha_total :: u64

definition sha_reset :: sha256_state where
  "sha_reset = \<lparr>sha_state = kSha256Init, sha_buffer = [], sha_total = 0\<rparr>"

function sha_blocks :: "u32 list \<Rightarrow> bytes \<Rightarrow> u32 list \<times> bytes" where
  "sha_blocks state bs =
     (if 64 \<le> length bs then sha_blocks (sha_compress state (take 64 bs)) (drop 64 bs)
      else (state, bs))"
  by pat_completeness auto
termination
  by (relation "measure (\<lambda>(state, bs). length bs)") auto

declare sha_blocks.simps [simp del]

definition sha_update :: "bytes \<Rightarrow> sha256_state \<Rightarrow> sha256_state" where
  "sha_update data s =
     (if length data = 0 then s
      else
        let s = s\<lparr>sha_total := sha_total s + word_of_nat (length data)\<rparr>;
            took = (if 0 < length (sha_buffer s) then min (length data) (64 - length (sha_buffer s)) else 0);
            filled = sha_buffer s @ take took data;
            rest = drop took data;
            s = (if 0 < length (sha_buffer s) \<and> length filled = 64
                 then s\<lparr>sha_state := sha_compress (sha_state s) filled, sha_buffer := []\<rparr>
                 else s\<lparr>sha_buffer := filled\<rparr>);
            (st, left) = sha_blocks (sha_state s) rest
        in if 0 < length left then s\<lparr>sha_state := st, sha_buffer := left\<rparr>
           else s\<lparr>sha_state := st\<rparr>)"

text \<open>
  Padding: one byte 0x80, then zero bytes until 56 are buffered. Each update adds one byte,
  so at most 63 zero bytes are needed; \<open>sha_pad_steps\<close> counts them.
\<close>

definition be_bytes32 :: "u32 \<Rightarrow> bytes" where
  "be_bytes32 v = [ucast (drop_bit 24 v AND 0xFF), ucast (drop_bit 16 v AND 0xFF),
                   ucast (drop_bit 8 v AND 0xFF), ucast (v AND 0xFF)]"

definition be_bytes64 :: "u64 \<Rightarrow> bytes" where
  "be_bytes64 v = map (\<lambda>i. ucast (drop_bit ((7 - i) * 8) v AND 0xFF)) [0..<8]"

fun sha_pad :: "nat \<Rightarrow> sha256_state \<Rightarrow> sha256_state option" where
  "sha_pad 0 s = None"
| "sha_pad (Suc fuel) s =
     (if length (sha_buffer s) = 56 then Some s else sha_pad fuel (sha_update [0] s))"

definition sha_finish :: "sha256_state \<Rightarrow> digest256 option" where
  "sha_finish s =
     (let bit_length = sha_total s * 8 in
      case sha_pad 64 (sha_update [0x80] s) of
        None \<Rightarrow> None
      | Some s \<Rightarrow>
          Some (concat (map be_bytes32
            (sha_compress (sha_state s) (sha_buffer s @ be_bytes64 bit_length)))))"

definition sha256 :: "bytes \<Rightarrow> digest256" where
  "sha256 data = (case sha_finish (sha_update data sha_reset) of None \<Rightarrow> [] | Some d \<Rightarrow> d)"

section \<open>CRC-32C\<close>

definition crc_poly :: u32 where "crc_poly = 0x82F63B78"

definition crc_bit_step :: "u32 \<Rightarrow> u32" where
  "crc_bit_step crc = (if crc AND 1 \<noteq> 0 then drop_bit 1 crc XOR crc_poly else drop_bit 1 crc)"

definition make_crc32c_table :: "u32 list" where
  "make_crc32c_table = map (\<lambda>ordinal. (crc_bit_step ^^ 8) (word_of_nat ordinal)) [0..<256]"

definition kCrc32cTable :: "u32 list" where "kCrc32cTable = make_crc32c_table"

definition crc_byte :: "u32 \<Rightarrow> u8 \<Rightarrow> u32" where
  "crc_byte crc b = kCrc32cTable ! unat ((crc XOR ucast b) AND 0xFF) XOR drop_bit 8 crc"

definition crc32c :: "bytes \<Rightarrow> u32" where
  "crc32c data = foldl crc_byte 0xFFFFFFFF data XOR 0xFFFFFFFF"


section \<open>CRC-32C: the table is eight bit steps\<close>

lemma xor_cancel: "a XOR c = b XOR c \<Longrightarrow> a = b" for a b c :: "'a::len word"
proof -
  assume e: "a XOR c = b XOR c"
  have "bit a n = bit b n" for n
    using arg_cong [OF e, of "\<lambda>x. bit x n"] by (auto simp: bit_xor_iff)
  then show ?thesis by (intro bit_eqI)
qed

lemma crc_bit_step_bit:
  "bit (crc_bit_step c) n \<longleftrightarrow> (bit c (Suc n) \<noteq> (bit c 0 \<and> bit crc_poly n))"
proof -
  have "c AND 1 \<noteq> 0 \<longleftrightarrow> bit c 0"
    by (simp add: and_one_eq odd_iff_mod_2_eq_one bit_0)
  then show ?thesis
    by (auto simp: crc_bit_step_def bit_xor_iff bit_drop_bit_eq)
qed

lemma crc_bit_step_xor: "crc_bit_step (a XOR b) = crc_bit_step a XOR crc_bit_step b"
  by (rule bit_eqI) (auto simp: crc_bit_step_bit bit_xor_iff)

lemma crc_steps_xor: "(crc_bit_step ^^ n) (a XOR b) = (crc_bit_step ^^ n) a XOR (crc_bit_step ^^ n) b"
  by (induction n) (simp_all add: crc_bit_step_xor)

lemma crc_steps_shift:
  "(\<forall>i < n. \<not> bit a i) \<Longrightarrow> (crc_bit_step ^^ n) a = drop_bit n a"
proof (induction n)
  case 0
  then show ?case by simp
next
  case (Suc n)
  have "crc_bit_step (drop_bit n a) = drop_bit (Suc n) a"
    using Suc.prems by (intro bit_eqI) (auto simp: crc_bit_step_bit bit_drop_bit_eq)
  with Suc show ?case by simp
qed

lemma crc_bit_step_inj: "crc_bit_step a = crc_bit_step b \<Longrightarrow> a = b"
proof -
  assume eq: "crc_bit_step a = crc_bit_step b"
  then have e: "bit (crc_bit_step a) n = bit (crc_bit_step b) n" for n by simp
  have top: "bit crc_poly 31" by (simp add: crc_poly_def)
  have "\<not> bit a 32" "\<not> bit b 32" using bit_imp_le_length [of _ 32] by fastforce+
  then have z: "bit a 0 = bit b 0"
    using e [of 31] top by (auto simp: crc_bit_step_bit)
  have "bit a n = bit b n" for n
    using e [of "n - 1"] z by (cases n) (auto simp: crc_bit_step_bit)
  then show ?thesis by (intro bit_eqI)
qed

lemma crc_steps_inj: "(crc_bit_step ^^ n) a = (crc_bit_step ^^ n) b \<Longrightarrow> a = b"
  by (induction n) (auto dest: crc_bit_step_inj)

lemma crc_table_nth: "i < 256 \<Longrightarrow> kCrc32cTable ! i = (crc_bit_step ^^ 8) (word_of_nat i)"
  by (simp add: kCrc32cTable_def make_crc32c_table_def)

lemma crc_byte_eq: "crc_byte crc b = (crc_bit_step ^^ 8) (crc XOR ucast b)"
proof -
  let ?x = "crc XOR ucast b :: u32"
  let ?lo = "?x AND 0xFF"
  have m: "(0xFF :: u32) = mask 8" by (simp add: mask_eq_exp_minus_1)
  have lo: "?lo = take_bit 8 ?x" by (simp only: m take_bit_eq_mask)
  have "unat ?lo < 256"
  proof -
    have "unat ?lo = take_bit 8 (unat ?x)" unfolding lo by (rule unsigned_take_bit_eq)
    also have "\<dots> < 2 ^ 8" by (rule take_bit_nat_less_exp)
    finally show ?thesis by simp
  qed
  then have t: "kCrc32cTable ! unat ?lo = (crc_bit_step ^^ 8) ?lo"
    by (simp add: crc_table_nth)
  have hi: "drop_bit 8 crc = drop_bit 8 (?x XOR ?lo)"
    unfolding lo by (rule bit_eqI)
      (auto simp: bit_drop_bit_eq bit_xor_iff bit_take_bit_iff bit_ucast_iff dest: bit_imp_le_length)
  have "drop_bit 8 (?x XOR ?lo) = (crc_bit_step ^^ 8) (?x XOR ?lo)"
    unfolding lo by (rule crc_steps_shift [symmetric]) (auto simp: bit_xor_iff bit_take_bit_iff)
  then have "crc_byte crc b = (crc_bit_step ^^ 8) ?lo XOR (crc_bit_step ^^ 8) (?x XOR ?lo)"
    unfolding crc_byte_def t hi by simp
  also have "\<dots> = (crc_bit_step ^^ 8) (?lo XOR (?x XOR ?lo))"
    by (simp only: crc_steps_xor)
  also have "?lo XOR (?x XOR ?lo) = ?x"
    by (rule bit_eqI) (auto simp: bit_xor_iff)
  finally show ?thesis .
qed

lemma crc_byte_inj_state: "crc_byte s b = crc_byte t b \<Longrightarrow> s = t"
proof -
  assume "crc_byte s b = crc_byte t b"
  from this [unfolded crc_byte_eq] have "s XOR ucast b = t XOR ucast b" by (rule crc_steps_inj)
  then show "s = t" by (rule xor_cancel)
qed

lemma crc_byte_inj_byte: "crc_byte s a = crc_byte s b \<Longrightarrow> a = b"
proof -
  assume "crc_byte s a = crc_byte s b"
  from this [unfolded crc_byte_eq] have "s XOR ucast a = s XOR ucast b" by (rule crc_steps_inj)
  then have "(ucast a :: u32) XOR s = ucast b XOR s" by (simp only: xor.commute [of s])
  then have e: "(ucast a :: u32) = ucast b" by (rule xor_cancel)
  have "bit a n = bit b n" for n
    using arg_cong [OF e, of "\<lambda>x. bit x n"]
    by (cases "n < 8") (auto simp: bit_ucast_iff dest: bit_imp_le_length)
  then show "a = b" by (intro bit_eqI)
qed

lemma crc_foldl_inj: "foldl crc_byte s bs = foldl crc_byte t bs \<Longrightarrow> s = t"
  by (induction bs arbitrary: s t) (auto dest: crc_byte_inj_state)

lemma crc32c_byte_change:
  assumes "a \<noteq> b"
  shows "crc32c (xs @ a # ys) \<noteq> crc32c (xs @ b # ys)"
proof
  assume "crc32c (xs @ a # ys) = crc32c (xs @ b # ys)"
  then have "foldl crc_byte 0xFFFFFFFF (xs @ a # ys) = foldl crc_byte 0xFFFFFFFF (xs @ b # ys)"
    unfolding crc32c_def by (rule xor_cancel)
  then have "crc_byte (foldl crc_byte 0xFFFFFFFF xs) a = crc_byte (foldl crc_byte 0xFFFFFFFF xs) b"
    by (simp add: crc_foldl_inj)
  with assms show False by (simp add: crc_byte_inj_byte)
qed

section \<open>SHA-256: streaming\<close>

lemma sha_blocks_append:
  "sha_blocks st (a @ b) = (case sha_blocks st a of (st', left) \<Rightarrow> sha_blocks st' (left @ b))"
proof (induction st a rule: sha_blocks.induct)
  case (1 st a)
  show ?case
  proof (cases "64 \<le> length a")
    case True
    have "sha_blocks st (a @ b) = sha_blocks (sha_compress st (take 64 a)) (drop 64 a @ b)"
      using True by (subst sha_blocks.simps) simp
    with 1 True show ?thesis by (subst (2) sha_blocks.simps) simp
  next
    case False
    then show ?thesis by (subst (2) sha_blocks.simps) simp
  qed
qed

lemma sha_blocks_left: "sha_blocks st a = (st', left) \<Longrightarrow> length left < 64"
proof (induction st a rule: sha_blocks.induct)
  case (1 st a)
  then show ?case by (cases "64 \<le> length a") (auto simp: sha_blocks.simps [of st a])
qed

lemma sha_blocks_left_length: "length (snd (sha_blocks st a)) = length a mod 64"
proof (induction st a rule: sha_blocks.induct)
  case (1 st a)
  then show ?case
    by (cases "64 \<le> length a") (auto simp: sha_blocks.simps [of st a] le_mod_geq)
qed

text \<open>What a streaming object stands for: the message absorbed so far.\<close>

definition sha_absorbed :: "sha256_state \<Rightarrow> bytes \<Rightarrow> bool" where
  "sha_absorbed s m \<longleftrightarrow>
     sha_blocks kSha256Init m = (sha_state s, sha_buffer s) \<and> sha_total s = word_of_nat (length m)"

lemma sha_absorbed_reset: "sha_absorbed sha_reset []"
  by (simp add: sha_absorbed_def sha_reset_def sha_blocks.simps)

lemma sha_blocks_short: "length bs < 64 \<Longrightarrow> sha_blocks st bs = (st, bs)"
  by (simp add: sha_blocks.simps)

lemma sha_blocks_full: "length bs = 64 \<Longrightarrow> sha_blocks st (bs @ xs) = sha_blocks (sha_compress st bs) xs"
  by (subst sha_blocks.simps) simp

lemma sha_update_blocks:
  assumes "length (sha_buffer s) < 64"
  shows "sha_update d s = (case sha_blocks (sha_state s) (sha_buffer s @ d) of (st, left) \<Rightarrow>
    \<lparr>sha_state = st, sha_buffer = left, sha_total = sha_total s + word_of_nat (length d)\<rparr>)"
proof (cases "d = []")
  case True
  with assms show ?thesis by (simp add: sha_update_def sha_blocks_short)
next
  case False
  consider (none) "sha_buffer s = []"
    | (full) "sha_buffer s \<noteq> []" "64 - length (sha_buffer s) \<le> length d"
    | (part) "sha_buffer s \<noteq> []" "length d < 64 - length (sha_buffer s)"
    by fastforce
  then show ?thesis
  proof cases
    case none
    with False show ?thesis by (cases s) (auto simp: sha_update_def Let_def split: prod.split)
  next
    case full
    let ?n = "64 - length (sha_buffer s)"
    have "sha_blocks (sha_state s) (sha_buffer s @ d) =
        sha_blocks (sha_compress (sha_state s) (sha_buffer s @ take ?n d)) (drop ?n d)"
      using sha_blocks_full [of "sha_buffer s @ take ?n d" "sha_state s" "drop ?n d"] full assms
      by simp
    with full False assms show ?thesis
      by (cases s) (auto simp: sha_update_def min_def Let_def split: prod.split)
  next
    case part
    with False assms show ?thesis
      by (cases s) (auto simp: sha_update_def min_def sha_blocks_short Let_def split: prod.split)
  qed
qed

lemma sha_absorbed_update:
  assumes "sha_absorbed s m"
  shows "sha_absorbed (sha_update d s) (m @ d)"
proof -
  from assms have b: "sha_blocks kSha256Init m = (sha_state s, sha_buffer s)"
    and t: "sha_total s = word_of_nat (length m)" by (simp_all add: sha_absorbed_def)
  obtain st left where e: "sha_blocks (sha_state s) (sha_buffer s @ d) = (st, left)"
    by (cases "sha_blocks (sha_state s) (sha_buffer s @ d)")
  have "sha_update d s =
      \<lparr>sha_state = st, sha_buffer = left, sha_total = sha_total s + word_of_nat (length d)\<rparr>"
    using sha_update_blocks [OF sha_blocks_left [OF b]] by (simp add: e)
  moreover have "sha_blocks kSha256Init (m @ d) = (st, left)"
    by (subst sha_blocks_append) (simp add: b e)
  ultimately show ?thesis
    by (simp add: sha_absorbed_def t)
qed


lemma sha_absorbed_unique: "sha_absorbed s m \<Longrightarrow> sha_absorbed t m \<Longrightarrow> s = t"
  by (cases s; cases t) (auto simp: sha_absorbed_def)

lemma sha_absorbed_buffer: "sha_absorbed s m \<Longrightarrow> length (sha_buffer s) = length m mod 64"
  using sha_blocks_left_length [of kSha256Init m] by (simp add: sha_absorbed_def)

lemma sha_absorbed_fold: "sha_absorbed s m \<Longrightarrow> sha_absorbed (fold sha_update ds s) (m @ concat ds)"
proof (induction ds arbitrary: s m)
  case Nil
  then show ?case by simp
next
  case (Cons d ds)
  from Cons.IH [OF sha_absorbed_update [OF Cons.prems, of d]] show ?case by simp
qed

text \<open>The padded message of the standard, and the digest as one fold over its blocks.\<close>

definition sha_zeros :: "nat \<Rightarrow> nat" where "sha_zeros len = (120 - len mod 64) mod 64"

definition sha_padded :: "bytes \<Rightarrow> bytes" where
  "sha_padded m =
     (let m1 = m @ [0x80]
      in m1 @ replicate (sha_zeros (length m1)) 0 @ be_bytes64 (word_of_nat (length m) * 8))"

definition sha_spec :: "bytes \<Rightarrow> digest256" where
  "sha_spec m = concat (map be_bytes32 (fst (sha_blocks kSha256Init (sha_padded m))))"

lemma sha_zeros_cases:
  "sha_zeros n = (if n mod 64 \<le> 56 then 56 - n mod 64 else 120 - n mod 64)"
proof -
  have "n mod 64 < 64" by simp
  then show ?thesis by (auto simp: sha_zeros_def mod_if [of "120 - n mod 64"])
qed

lemma sha_zeros_0: "sha_zeros n = 0 \<longleftrightarrow> n mod 64 = 56"
proof -
  have "n mod 64 < 64" by simp
  then show ?thesis by (auto simp: sha_zeros_cases)
qed

lemma sha_zeros_Suc: "n mod 64 \<noteq> 56 \<Longrightarrow> sha_zeros n = Suc (sha_zeros (Suc n))"
proof -
  assume "n mod 64 \<noteq> 56"
  moreover have "n mod 64 < 64" by simp
  ultimately show ?thesis by (auto simp: sha_zeros_cases mod_Suc)
qed

lemma sha_pad_absorbed:
  assumes "sha_absorbed s m" and "sha_zeros (length m) < fuel"
  shows "\<exists>s'. sha_pad fuel s = Some s' \<and> sha_absorbed s' (m @ replicate (sha_zeros (length m)) 0)"
  using assms
proof (induction fuel arbitrary: s m)
  case 0
  then show ?case by simp
next
  case (Suc fuel)
  show ?case
  proof (cases "length m mod 64 = 56")
    case True
    then have "sha_zeros (length m) = 0" by (simp only: sha_zeros_0)
    with True Suc.prems show ?thesis by (simp add: sha_absorbed_buffer)
  next
    case False
    from sha_absorbed_update [OF Suc.prems(1), of "[0]"]
    have "sha_absorbed (sha_update [0] s) (m @ [0])" .
    from Suc.IH [OF this] Suc.prems(2) sha_zeros_Suc [OF False] False Suc.prems(1)
    show ?thesis by (simp add: sha_absorbed_buffer)
  qed
qed

lemma length_be_bytes64 [simp]: "length (be_bytes64 v) = 8"
  by (simp add: be_bytes64_def)

lemma sha_zeros_bound: "sha_zeros n < 64"
  by (simp add: sha_zeros_def)

lemma sha_zeros_mod: "(n + sha_zeros n) mod 64 = 56"
proof -
  have r: "n mod 64 < 64" by simp
  have "(n + sha_zeros n) mod 64 = (n mod 64 + sha_zeros n) mod 64" by (simp add: mod_add_left_eq)
  also have "\<dots> = 56" using r by (simp add: sha_zeros_cases)
  finally show ?thesis .
qed

lemma sha_finish_absorbed:
  assumes "sha_absorbed s m"
  shows "sha_finish s = Some (sha_spec m)"
proof -
  let ?m1 = "m @ [0x80]" let ?m2 = "?m1 @ replicate (sha_zeros (length ?m1)) 0"
  from sha_pad_absorbed [OF sha_absorbed_update [OF assms, of "[0x80]"] sha_zeros_bound]
  obtain s' where p: "sha_pad 64 (sha_update [0x80] s) = Some s'" and a: "sha_absorbed s' ?m2"
    by blast
  have "length (sha_buffer s') = 56"
    using sha_absorbed_buffer [OF a] sha_zeros_mod [of "length ?m1"] by simp
  then have "fst (sha_blocks (sha_state s') (sha_buffer s' @ be_bytes64 (sha_total s * 8))) =
      sha_compress (sha_state s') (sha_buffer s' @ be_bytes64 (sha_total s * 8))"
    using sha_blocks_full [of "sha_buffer s' @ be_bytes64 (sha_total s * 8)" "sha_state s'" "[]"]
    by (simp add: sha_blocks_short)
  moreover have "sha_blocks kSha256Init (?m2 @ be_bytes64 (sha_total s * 8)) =
      sha_blocks (sha_state s') (sha_buffer s' @ be_bytes64 (sha_total s * 8))"
    using a by (subst sha_blocks_append) (simp add: sha_absorbed_def)
  moreover have "sha_total s = word_of_nat (length m)" using assms by (simp add: sha_absorbed_def)
  ultimately show ?thesis
    by (simp add: sha_finish_def p sha_spec_def sha_padded_def Let_def)
qed

lemma sha256_eq_spec: "sha256 m = sha_spec m"
  using sha_finish_absorbed [OF sha_absorbed_update [OF sha_absorbed_reset, of m]]
  by (simp add: sha256_def)

lemma length_concat_const: "(\<And>x. x \<in> set xs \<Longrightarrow> length (f x) = n) \<Longrightarrow> length (concat (map f xs)) = n * length xs"
  by (induction xs) auto

lemma length_sha_compress: "length st = 8 \<Longrightarrow> length (sha_compress st b) = 8"
  by (simp add: sha_compress_def Let_def split: prod.split)

lemma length_sha_blocks: "length st = 8 \<Longrightarrow> length (fst (sha_blocks st bs)) = 8"
proof (induction st bs rule: sha_blocks.induct)
  case (1 st bs)
  then show ?case by (cases "64 \<le> length bs") (auto simp: sha_blocks.simps [of st bs] length_sha_compress)
qed

lemma length_sha256 [simp]: "length (sha256 m) = kDigestBytes"
proof -
  have "length (fst (sha_blocks kSha256Init (sha_padded m))) = 8"
    by (rule length_sha_blocks) (simp add: kSha256Init_def)
  then show ?thesis
    unfolding sha256_eq_spec sha_spec_def
    by (subst length_concat_const [where n = 4]) (auto simp: be_bytes32_def kDigestBytes_def)
qed

section \<open>Hexadecimal form\<close>

lemma parse_nibble_digit: "k < 16 \<Longrightarrow> parse_nibble (kHexDigits ! k) = Some k"
proof -
  assume "k < 16"
  then have "k \<in> {0,1,2,3,4,5,6,7,8,9,10,11,12,13,14,15}" by simp arith
  then show ?thesis
    by (elim insertE emptyE) (simp_all add: kHexDigits_def parse_nibble_def less_eq_char_def)
qed

lemma nibbles:
  fixes b :: u8
  shows "unat (drop_bit 4 b AND 0x0F) = unat b div 16" "unat (b AND 0x0F) = unat b mod 16"
proof -
  have m: "(0x0F :: u8) = mask 4" by (simp add: mask_eq_exp_minus_1)
  have b: "unat b < 256" using unsigned_less [of b, where 'a = nat] by simp
  show "unat (drop_bit 4 b AND 0x0F) = unat b div 16"
    unfolding m take_bit_eq_mask [symmetric] using b
    by (simp only: unsigned_take_bit_eq unsigned_drop_bit_eq) (simp add: drop_bit_eq_div take_bit_eq_mod)
  show "unat (b AND 0x0F) = unat b mod 16"
    unfolding m take_bit_eq_mask [symmetric]
    by (simp only: unsigned_take_bit_eq) (simp add: take_bit_eq_mod)
qed

lemma parse_hex_pairs_hex: "parse_hex_pairs (digest_hex d) = Some d"
proof (induction d)
  case Nil
  then show ?case by (simp add: digest_hex_def)
next
  case (Cons b d)
  have b: "unat b < 256" using unsigned_less [of b, where 'a = nat] by simp
  have w: "word_of_nat (unat b div 16 * 16 + unat b mod 16) = b" by (simp only: div_mult_mod_eq of_nat_unat ucast_id)
  have e: "digest_hex (b # d) = kHexDigits ! (unat b div 16) # kHexDigits ! (unat b mod 16) # digest_hex d"
    using nibbles [of b] by (simp add: digest_hex_def)
  show ?case
    using Cons b w by (simp only: e parse_hex_pairs.simps) (simp add: parse_nibble_digit del: of_nat_add of_nat_mult)
qed

lemma length_digest_hex: "length (digest_hex d) = 2 * length d"
  by (induction d) (auto simp: digest_hex_def)

end
