(* ===== verification/Model.thy ===== *)
theory Model
  imports Ids Crypto "HOL-Library.Product_Lexorder"
begin

text \<open>
  The domain model: \<open>include/qosfabric/model.hpp\<close> and the first half of \<open>src/model.cpp\<close>
  (names, parsers, the obligation tables, validation, summaries). Every enumeration is a
  datatype with the constructors of the source and its rank; every class of the source is a
  record; every \<open>validate\<close> is the list of its guards in the order of the source. The
  canonical encodings are in \<open>Model_Codec\<close>.
\<close>

section \<open>Enumerations\<close>

datatype isolation_level = Iso_None | Iso_Shared | Iso_QueueIsolated | Iso_ResourceIsolated

datatype treatment_mode =
    TM_BestEffort | TM_WeightedFair | TM_RateLimited | TM_PriorityQueue
  | TM_StrictPriorityLowLatency

datatype violation_policy = VP_Reject | VP_DegradeThenReject | VP_ReportOnly

datatype capability_state = Cap_Unknown | Cap_Unavailable | Cap_Degraded | Cap_Available

datatype path_role = PR_Member | PR_Primary | PR_Protection

datatype obligation_kind =
    K_MinRate | K_MaxRate | K_PeakRate | K_Latency | K_Jitter | K_Loss | K_BurstBytes
  | K_BurstInterval | K_Mtu | K_Isolation | K_Treatment | K_PriorityRank | K_Reservation
  | K_DisjointPaths | K_Predicate | K_ResourceState | K_Count

datatype compare_direction = Dir_AtLeast | Dir_AtMost

datatype aggregate_kind =
    Agg_WeakestLink | Agg_Additive | Agg_LossCompose | Agg_WorstCase | Agg_AllPresent
  | Agg_PathDiversity

primrec iso_rank :: "isolation_level \<Rightarrow> u8" where
  "iso_rank Iso_None = 0" | "iso_rank Iso_Shared = 1" | "iso_rank Iso_QueueIsolated = 2"
| "iso_rank Iso_ResourceIsolated = 3"

primrec tm_rank :: "treatment_mode \<Rightarrow> u8" where
  "tm_rank TM_BestEffort = 0" | "tm_rank TM_WeightedFair = 1" | "tm_rank TM_RateLimited = 2"
| "tm_rank TM_PriorityQueue = 3" | "tm_rank TM_StrictPriorityLowLatency = 4"

primrec vp_rank :: "violation_policy \<Rightarrow> u8" where
  "vp_rank VP_Reject = 0" | "vp_rank VP_DegradeThenReject = 1" | "vp_rank VP_ReportOnly = 2"

primrec cap_rank :: "capability_state \<Rightarrow> u8" where
  "cap_rank Cap_Unknown = 0" | "cap_rank Cap_Unavailable = 1" | "cap_rank Cap_Degraded = 2"
| "cap_rank Cap_Available = 3"

primrec pr_rank :: "path_role \<Rightarrow> u8" where
  "pr_rank PR_Member = 0" | "pr_rank PR_Primary = 1" | "pr_rank PR_Protection = 2"

primrec kind_rank :: "obligation_kind \<Rightarrow> u8" where
  "kind_rank K_MinRate = 0" | "kind_rank K_MaxRate = 1" | "kind_rank K_PeakRate = 2"
| "kind_rank K_Latency = 3" | "kind_rank K_Jitter = 4" | "kind_rank K_Loss = 5"
| "kind_rank K_BurstBytes = 6" | "kind_rank K_BurstInterval = 7" | "kind_rank K_Mtu = 8"
| "kind_rank K_Isolation = 9" | "kind_rank K_Treatment = 10" | "kind_rank K_PriorityRank = 11"
| "kind_rank K_Reservation = 12" | "kind_rank K_DisjointPaths = 13"
| "kind_rank K_Predicate = 14" | "kind_rank K_ResourceState = 15" | "kind_rank K_Count = 16"

text \<open>A cast from the raw byte, as \<^verbatim>\<open>static_cast\<close> after the range check makes it.\<close>

definition all_iso :: "isolation_level list" where
  "all_iso = [Iso_None, Iso_Shared, Iso_QueueIsolated, Iso_ResourceIsolated]"
definition all_tm :: "treatment_mode list" where
  "all_tm = [TM_BestEffort, TM_WeightedFair, TM_RateLimited, TM_PriorityQueue,
     TM_StrictPriorityLowLatency]"
definition all_vp :: "violation_policy list" where
  "all_vp = [VP_Reject, VP_DegradeThenReject, VP_ReportOnly]"
definition all_cap :: "capability_state list" where
  "all_cap = [Cap_Unknown, Cap_Unavailable, Cap_Degraded, Cap_Available]"
definition all_pr :: "path_role list" where "all_pr = [PR_Member, PR_Primary, PR_Protection]"
definition all_kind :: "obligation_kind list" where
  "all_kind = [K_MinRate, K_MaxRate, K_PeakRate, K_Latency, K_Jitter, K_Loss, K_BurstBytes,
     K_BurstInterval, K_Mtu, K_Isolation, K_Treatment, K_PriorityRank, K_Reservation,
     K_DisjointPaths, K_Predicate, K_ResourceState, K_Count]"

lemmas all_enum_defs = all_iso_def all_tm_def all_vp_def all_cap_def all_pr_def all_kind_def

lemma all_enum_nth [simp]:
  "all_iso ! unat (iso_rank i) = i" "all_tm ! unat (tm_rank t) = t"
  "all_vp ! unat (vp_rank v) = v" "all_cap ! unat (cap_rank c) = c"
  "all_pr ! unat (pr_rank p) = p" "all_kind ! unat (kind_rank k) = k"
  subgoal by (cases i) (simp_all add: all_enum_defs)
  subgoal by (cases t) (simp_all add: all_enum_defs)
  subgoal by (cases v) (simp_all add: all_enum_defs)
  subgoal by (cases c) (simp_all add: all_enum_defs)
  subgoal by (cases p) (simp_all add: all_enum_defs)
  subgoal by (cases k) (simp_all add: all_enum_defs)
  done

lemma enum_rank_le [simp]:
  "iso_rank i \<le> 3" "tm_rank t \<le> 4" "vp_rank v \<le> 2" "cap_rank c \<le> 3" "pr_rank p \<le> 2"
  "kind_rank k \<le> 16"
  subgoal by (cases i) simp_all
  subgoal by (cases t) simp_all
  subgoal by (cases v) simp_all
  subgoal by (cases c) simp_all
  subgoal by (cases p) simp_all
  subgoal by (cases k) simp_all
  done

lemma kind_rank_inject [simp]: "kind_rank a = kind_rank b \<longleftrightarrow> a = b"
  by (metis all_enum_nth(6))

lemma iso_rank_inject [simp]: "iso_rank a = iso_rank b \<longleftrightarrow> a = b"
  by (metis all_enum_nth(1))

text \<open>
  \<open>ObligationKind\<close> orders by its numeric value, the canonical order of a plan.
\<close>

instantiation obligation_kind :: linorder
begin

definition less_eq_obligation_kind :: "obligation_kind \<Rightarrow> obligation_kind \<Rightarrow> bool" where
  "less_eq_obligation_kind a b \<longleftrightarrow> kind_rank a \<le> kind_rank b"

definition less_obligation_kind :: "obligation_kind \<Rightarrow> obligation_kind \<Rightarrow> bool" where
  "less_obligation_kind a b \<longleftrightarrow> kind_rank a < kind_rank b"

instance
proof
  fix x y :: obligation_kind
  show "x \<le> y \<Longrightarrow> y \<le> x \<Longrightarrow> x = y"
    by (metis antisym kind_rank_inject less_eq_obligation_kind_def)
qed (auto simp: less_eq_obligation_kind_def less_obligation_kind_def less_le_not_le)

end

text \<open>The two ladders compare by rank: higher is stronger.\<close>

instantiation isolation_level :: linorder
begin

definition less_eq_isolation_level :: "isolation_level \<Rightarrow> isolation_level \<Rightarrow> bool" where
  "less_eq_isolation_level a b \<longleftrightarrow> iso_rank a \<le> iso_rank b"

definition less_isolation_level :: "isolation_level \<Rightarrow> isolation_level \<Rightarrow> bool" where
  "less_isolation_level a b \<longleftrightarrow> iso_rank a < iso_rank b"

instance
proof
  fix x y :: isolation_level
  show "x \<le> y \<Longrightarrow> y \<le> x \<Longrightarrow> x = y"
    by (metis antisym iso_rank_inject less_eq_isolation_level_def)
qed (auto simp: less_eq_isolation_level_def less_isolation_level_def less_le_not_le)

end

section \<open>Names\<close>

primrec iso_to_string :: "isolation_level \<Rightarrow> string" where
  "iso_to_string Iso_None = ''none''"
| "iso_to_string Iso_Shared = ''shared''"
| "iso_to_string Iso_QueueIsolated = ''queue-isolated''"
| "iso_to_string Iso_ResourceIsolated = ''resource-isolated''"

primrec tm_to_string :: "treatment_mode \<Rightarrow> string" where
  "tm_to_string TM_BestEffort = ''best-effort''"
| "tm_to_string TM_WeightedFair = ''weighted-fair''"
| "tm_to_string TM_RateLimited = ''rate-limited''"
| "tm_to_string TM_PriorityQueue = ''priority-queue''"
| "tm_to_string TM_StrictPriorityLowLatency = ''strict-priority-low-latency''"

primrec vp_to_string :: "violation_policy \<Rightarrow> string" where
  "vp_to_string VP_Reject = ''reject''"
| "vp_to_string VP_DegradeThenReject = ''degrade-then-reject''"
| "vp_to_string VP_ReportOnly = ''report-only''"

primrec cap_to_string :: "capability_state \<Rightarrow> string" where
  "cap_to_string Cap_Unknown = ''unknown''"
| "cap_to_string Cap_Unavailable = ''unavailable''"
| "cap_to_string Cap_Degraded = ''degraded''"
| "cap_to_string Cap_Available = ''available''"

primrec pr_to_string :: "path_role \<Rightarrow> string" where
  "pr_to_string PR_Member = ''member''"
| "pr_to_string PR_Primary = ''primary''"
| "pr_to_string PR_Protection = ''protection''"

primrec kind_to_string :: "obligation_kind \<Rightarrow> string" where
  "kind_to_string K_MinRate = ''rate.min_bps''"
| "kind_to_string K_MaxRate = ''rate.max_bps''"
| "kind_to_string K_PeakRate = ''rate.peak_bps''"
| "kind_to_string K_Latency = ''latency.max_us''"
| "kind_to_string K_Jitter = ''jitter.max_us''"
| "kind_to_string K_Loss = ''loss.max_ppm''"
| "kind_to_string K_BurstBytes = ''burst.bytes''"
| "kind_to_string K_BurstInterval = ''burst.interval_us''"
| "kind_to_string K_Mtu = ''mtu.min_bytes''"
| "kind_to_string K_Isolation = ''isolation.level''"
| "kind_to_string K_Treatment = ''treatment.mode''"
| "kind_to_string K_PriorityRank = ''priority.min_rank''"
| "kind_to_string K_Reservation = ''reservation.min_rate_bps''"
| "kind_to_string K_DisjointPaths = ''redundancy.disjoint_paths''"
| "kind_to_string K_Predicate = ''capability.predicate''"
| "kind_to_string K_ResourceState = ''resource.state''"
| "kind_to_string K_Count = ''invalid''"

primrec dir_to_string :: "compare_direction \<Rightarrow> string" where
  "dir_to_string Dir_AtLeast = ''at-least''"
| "dir_to_string Dir_AtMost = ''at-most''"

primrec agg_to_string :: "aggregate_kind \<Rightarrow> string" where
  "agg_to_string Agg_WeakestLink = ''weakest-link''"
| "agg_to_string Agg_Additive = ''additive''"
| "agg_to_string Agg_LossCompose = ''loss-compose''"
| "agg_to_string Agg_WorstCase = ''worst-case''"
| "agg_to_string Agg_AllPresent = ''all-present''"
| "agg_to_string Agg_PathDiversity = ''path-diversity''"

text \<open>A parser tries the candidates from the lowest rank to the highest.\<close>

definition parse_name :: "('a \<Rightarrow> string) \<Rightarrow> 'a list \<Rightarrow> string \<Rightarrow> 'a option" where
  "parse_name name candidates text = List.find (\<lambda>c. text = name c) candidates"

definition parse_isolation_level :: "string \<Rightarrow> isolation_level option" where
  "parse_isolation_level = parse_name iso_to_string all_iso"
definition parse_treatment_mode :: "string \<Rightarrow> treatment_mode option" where
  "parse_treatment_mode = parse_name tm_to_string all_tm"
definition parse_path_role :: "string \<Rightarrow> path_role option" where
  "parse_path_role = parse_name pr_to_string all_pr"
definition parse_violation_policy :: "string \<Rightarrow> violation_policy option" where
  "parse_violation_policy = parse_name vp_to_string all_vp"
definition parse_capability_state :: "string \<Rightarrow> capability_state option" where
  "parse_capability_state = parse_name cap_to_string all_cap"

lemmas parse_enum_defs =
  parse_name_def parse_isolation_level_def parse_treatment_mode_def parse_path_role_def
  parse_violation_policy_def parse_capability_state_def

section \<open>The obligation tables\<close>

fun obligation_direction :: "obligation_kind \<Rightarrow> compare_direction" where
  "obligation_direction K_Latency = Dir_AtMost"
| "obligation_direction K_Jitter = Dir_AtMost"
| "obligation_direction K_Loss = Dir_AtMost"
| "obligation_direction K_BurstInterval = Dir_AtMost"
| "obligation_direction _ = Dir_AtLeast"

fun obligation_aggregate :: "obligation_kind \<Rightarrow> aggregate_kind" where
  "obligation_aggregate K_Latency = Agg_Additive"
| "obligation_aggregate K_Jitter = Agg_Additive"
| "obligation_aggregate K_Loss = Agg_LossCompose"
| "obligation_aggregate K_BurstInterval = Agg_WorstCase"
| "obligation_aggregate K_Predicate = Agg_AllPresent"
| "obligation_aggregate K_DisjointPaths = Agg_PathDiversity"
| "obligation_aggregate _ = Agg_WeakestLink"

fun obligation_relaxable :: "obligation_kind \<Rightarrow> bool" where
  "obligation_relaxable K_Isolation = False"
| "obligation_relaxable K_Treatment = False"
| "obligation_relaxable K_PriorityRank = False"
| "obligation_relaxable K_Reservation = False"
| "obligation_relaxable K_Predicate = False"
| "obligation_relaxable K_Count = False"
| "obligation_relaxable _ = True"

section \<open>Records\<close>

record qos_class =
  qc_id :: string
  qc_generation :: generation
  qc_label :: string
  qc_min_rate_bps :: "u64 option"
  qc_max_rate_bps :: "u64 option"
  qc_peak_rate_bps :: "u64 option"
  qc_max_latency_us :: "u64 option"
  qc_max_jitter_us :: "u64 option"
  qc_max_loss_ppm :: "u32 option"
  qc_burst_bytes :: "u64 option"
  qc_burst_interval_us :: "u64 option"
  qc_min_mtu_bytes :: "u64 option"
  qc_isolation :: isolation_level
  qc_treatment :: treatment_mode
  qc_min_priority_rank :: u32
  qc_min_disjoint_paths :: u32
  qc_requires_reservation :: bool
  qc_required_predicates :: "string list"
  qc_allow_degrade :: bool
  qc_degrade_max_relaxation_ppm :: u32
  qc_violation_policy :: violation_policy
  qc_published_epoch :: fabric_epoch
  qc_digest :: digest256
  qc_provenance :: provenance

record policy =
  po_id :: string
  po_generation :: generation
  po_label :: string
  po_degrade_permitted :: bool
  po_max_relaxation_ppm :: u32
  po_max_stale_epochs :: u32
  po_capability_max_age_ms :: u64
  po_max_unknown_components :: u32
  po_required_predicates :: "string list"
  po_denied_classes :: "string list"
  po_published_epoch :: fabric_epoch
  po_digest :: digest256
  po_provenance :: provenance

record path_component =
  pc_resource :: string
  pc_capability_generation :: generation
  pc_diversity_domain :: string
  pc_role :: path_role

record path =
  pa_id :: string
  pa_generation :: generation
  pa_components :: "path_component list"
  pa_fixed_latency_us :: u64
  pa_fixed_jitter_us :: u64
  pa_epoch :: fabric_epoch
  pa_digest :: digest256
  pa_provenance :: provenance

record resource_capability =
  ca_resource :: string
  ca_generation :: generation
  ca_epoch :: fabric_epoch
  ca_publisher :: string
  ca_incarnation :: publisher_incarnation
  ca_published_at_ms :: u64
  ca_expires_at_ms :: u64
  ca_state :: capability_state
  ca_supported_rate_bps :: "u64 option"
  ca_latency_bound_us :: "u64 option"
  ca_jitter_bound_us :: "u64 option"
  ca_loss_ppm :: "u32 option"
  ca_max_burst_bytes :: "u64 option"
  ca_burst_window_us :: "u64 option"
  ca_mtu_bytes :: "u64 option"
  ca_max_isolation :: isolation_level
  ca_max_treatment :: treatment_mode
  ca_max_priority_rank :: u32
  ca_predicates :: "string list"
  ca_diversity_domain :: string
  ca_digest :: digest256
  ca_provenance :: provenance

record reservation =
  rs_resource :: string
  rs_generation :: generation
  rs_class_id :: string
  rs_class_generation :: generation
  rs_reserved_min_rate_bps :: u64
  rs_reserved_burst_bytes :: u64
  rs_epoch :: fabric_epoch
  rs_publisher :: string
  rs_incarnation :: publisher_incarnation
  rs_expires_at_ms :: u64
  rs_digest :: digest256
  rs_provenance :: provenance

record contract_request =
  rq_contract :: string
  rq_contract_generation :: generation
  rq_subject :: string
  rq_subject_generation :: generation
  rq_class_id :: string
  rq_class_generation :: generation
  rq_path :: string
  rq_path_generation :: generation
  rq_policy :: string
  rq_policy_generation :: generation
  rq_priority :: string
  rq_priority_generation :: generation
  rq_observed_epoch :: fabric_epoch
  rq_request_ms :: u64
  rq_provenance :: provenance

definition declares_treatment :: "resource_capability \<Rightarrow> treatment_mode \<Rightarrow> bool" where
  "declares_treatment c mode \<longleftrightarrow> tm_rank (ca_max_treatment c) \<ge> tm_rank mode"

section \<open>Validation\<close>

text \<open>
  A \<open>validate\<close> is a chain of guards with early error returns: \<open>first_error\<close> returns
  the error of the first guard that fires.
\<close>

fun first_error :: "(bool \<times> error_code \<times> string) list \<Rightarrow> unit result" where
  "first_error [] = Inr ()"
| "first_error ((bad, code, detail) # gs) =
     (if bad then Inl (make_error code detail) else first_error gs)"

lemma first_error_Inr_iff [bind_iff]:
  "first_error gs = Inr u \<longleftrightarrow> (\<forall>g \<in> set gs. \<not> fst g)"
  by (induction gs rule: first_error.induct) auto

declare first_error.simps [simp del]

definition opt_gt :: "'a::len word option \<Rightarrow> 'a word option \<Rightarrow> bool" where
  "opt_gt a b = (case (a, b) of (Some x, Some y) \<Rightarrow> x > y | _ \<Rightarrow> False)"

lemma opt_gt_simps [simp]:
  "\<not> opt_gt None b" "\<not> opt_gt a None" "opt_gt (Some x) (Some y) \<longleftrightarrow> x > y"
  by (auto simp: opt_gt_def split: option.splits)

text \<open>\<^verbatim>\<open>std::adjacent_find\<close> on a sorted vector.\<close>

fun adjacent_find :: "'a list \<Rightarrow> bool" where
  "adjacent_find (x # y # xs) \<longleftrightarrow> x = y \<or> adjacent_find (y # xs)"
| "adjacent_find _ \<longleftrightarrow> False"

definition has_duplicate_predicates :: "string list \<Rightarrow> bool" where
  "has_duplicate_predicates keys = adjacent_find (sort keys)"

lemma adjacent_find_sorted: "sorted xs \<Longrightarrow> adjacent_find xs \<longleftrightarrow> \<not> distinct xs"
  by (induction xs rule: adjacent_find.induct) (auto intro: antisym)

lemma has_duplicate_predicates_iff: "has_duplicate_predicates keys \<longleftrightarrow> \<not> distinct keys"
  by (simp add: has_duplicate_predicates_def adjacent_find_sorted)

definition invalid_keys :: "string list \<Rightarrow> nat \<Rightarrow> bool" where
  "invalid_keys keys max_len = list_ex (\<lambda>k. \<not> is_valid_identifier k max_len) keys"

definition validate_class :: "qos_class \<Rightarrow> unit result" where
  "validate_class v = first_error
    [(\<not> is_valid (qc_id v), EC_InvalidArgument, ''class id rejected by canonical alphabet''),
     (qc_generation v = 0, EC_InvalidArgument, ''class generation must be non-zero''),
     (length (qc_label v) > kMaxLabelLen, EC_TooLarge, ''class label exceeds budget''),
     (opt_gt (qc_min_rate_bps v) (Some kMaxRateBps), EC_TooLarge,
        ''min_rate_bps beyond numeric domain''),
     (opt_gt (qc_max_rate_bps v) (Some kMaxRateBps), EC_TooLarge,
        ''max_rate_bps beyond numeric domain''),
     (opt_gt (qc_peak_rate_bps v) (Some kMaxRateBps), EC_TooLarge,
        ''peak_rate_bps beyond numeric domain''),
     (opt_gt (qc_min_rate_bps v) (qc_max_rate_bps v), EC_Conflict,
        ''min_rate_bps exceeds max_rate_bps''),
     (opt_gt (qc_max_rate_bps v) (qc_peak_rate_bps v), EC_Conflict,
        ''peak_rate_bps below max_rate_bps''),
     (opt_gt (qc_min_rate_bps v) (qc_peak_rate_bps v), EC_Conflict,
        ''peak_rate_bps below min_rate_bps''),
     (opt_gt (qc_max_latency_us v) (Some kMaxLatencyUs), EC_TooLarge,
        ''max_latency_us beyond numeric domain''),
     (opt_gt (qc_max_jitter_us v) (Some kMaxJitterUs), EC_TooLarge,
        ''max_jitter_us beyond numeric domain''),
     (opt_gt (qc_max_jitter_us v) (qc_max_latency_us v), EC_Conflict,
        ''max_jitter_us exceeds max_latency_us''),
     (opt_gt (qc_max_loss_ppm v) (Some kMaxLossPpm), EC_TooLarge,
        ''max_loss_ppm beyond numeric domain''),
     (opt_gt (qc_burst_bytes v) (Some kMaxBurstBytes), EC_TooLarge,
        ''burst_bytes beyond numeric domain''),
     (opt_gt (qc_burst_interval_us v) (Some kMaxBurstIntervalUs), EC_TooLarge,
        ''burst_interval_us beyond numeric domain''),
     ((qc_burst_bytes v \<noteq> None) \<noteq> (qc_burst_interval_us v \<noteq> None), EC_Conflict,
        ''burst semantics require both burst_bytes and burst_interval_us''),
     (opt_gt (qc_min_mtu_bytes v) (Some kMaxMtuBytes), EC_TooLarge,
        ''min_mtu_bytes beyond numeric domain''),
     (qc_min_priority_rank v > kMaxPriorityRank, EC_TooLarge,
        ''min_priority_rank beyond numeric domain''),
     (qc_min_disjoint_paths v = 0 \<or> qc_min_disjoint_paths v > kMaxDisjointPaths,
        EC_InvalidArgument, ''min_disjoint_paths outside [1, 64]''),
     (length (qc_required_predicates v) > kMaxRequiredPredicates, EC_TooLarge,
        ''required predicate list exceeds budget''),
     (invalid_keys (qc_required_predicates v) kMaxPredicateKeyLen, EC_InvalidArgument,
        ''required predicate key rejected''),
     (has_duplicate_predicates (qc_required_predicates v), EC_Duplicate,
        ''duplicate required predicate key''),
     (qc_degrade_max_relaxation_ppm v > kMaxRelaxationPpm, EC_TooLarge,
        ''degrade_max_relaxation_ppm beyond 1000000''),
     (\<not> qc_allow_degrade v \<and> qc_degrade_max_relaxation_ppm v \<noteq> 0, EC_Conflict,
        ''degrade window declared while degradation is not allowed''),
     (qc_violation_policy v = VP_ReportOnly \<and>
        (\<not> qc_allow_degrade v \<or> qc_degrade_max_relaxation_ppm v = 0), EC_Conflict,
        ''report-only violation policy demands a class-declared degrade window''),
     (qc_requires_reservation v \<and> qc_min_rate_bps v = None, EC_Conflict,
        ''reservation requirement demands an explicit min_rate_bps'')]"

definition validate_policy :: "policy \<Rightarrow> unit result" where
  "validate_policy v = first_error
    [(\<not> is_valid (po_id v), EC_InvalidArgument, ''policy id rejected by canonical alphabet''),
     (po_generation v = 0, EC_InvalidArgument, ''policy generation must be non-zero''),
     (length (po_label v) > kMaxLabelLen, EC_TooLarge, ''policy label exceeds budget''),
     (po_max_relaxation_ppm v > kMaxRelaxationPpm, EC_TooLarge,
        ''max_relaxation_ppm beyond 1000000''),
     (\<not> po_degrade_permitted v \<and> po_max_relaxation_ppm v \<noteq> 0, EC_Conflict,
        ''policy declares a relaxation window while degradation is not permitted''),
     (po_max_stale_epochs v > kMaxStaleEpochs, EC_TooLarge,
        ''max_stale_epochs beyond numeric domain''),
     (po_capability_max_age_ms v > kMaxLeaseMs, EC_TooLarge,
        ''capability_max_age_ms beyond lease domain''),
     (unat (po_max_unknown_components v) > kMaxPathComponents, EC_TooLarge,
        ''max_unknown_components exceeds path budget''),
     (length (po_required_predicates v) > kMaxRequiredPredicates, EC_TooLarge,
        ''policy predicate list exceeds budget''),
     (invalid_keys (po_required_predicates v) kMaxPredicateKeyLen, EC_InvalidArgument,
        ''policy predicate key rejected''),
     (has_duplicate_predicates (po_required_predicates v), EC_Duplicate,
        ''duplicate policy predicate key''),
     (length (po_denied_classes v) > kMaxClassesRetained, EC_TooLarge,
        ''denied class list exceeds budget''),
     (invalid_keys (po_denied_classes v) kMaxIdentifierLen, EC_InvalidArgument,
        ''denied class id rejected''),
     (adjacent_find (sort (po_denied_classes v)), EC_Duplicate, ''duplicate denied class id'')]"

text \<open>The component loop of a path carries the resources seen so far.\<close>

fun validate_components :: "string list \<Rightarrow> path_component list \<Rightarrow> unit result" where
  "validate_components seen [] = Inr ()"
| "validate_components seen (c # cs) =
     bindR (first_error
       [(\<not> is_valid (pc_resource c), EC_InvalidArgument, ''path component resource id rejected''),
        (pc_capability_generation c = 0, EC_InvalidArgument,
           ''path component must bind a non-zero capability generation''),
        (pc_diversity_domain c = [] \<or> \<not> is_valid (pc_diversity_domain c), EC_InvalidArgument,
           ''diversity domain rejected''),
        (pc_resource c \<in> set seen, EC_Duplicate, ''duplicate resource in path'')])
     (\<lambda>_. validate_components (seen @ [pc_resource c]) cs)"

definition validate_path :: "path \<Rightarrow> unit result" where
  "validate_path v =
     bindR (first_error
       [(\<not> is_valid (pa_id v), EC_InvalidArgument, ''path id rejected by canonical alphabet''),
        (pa_generation v = 0, EC_InvalidArgument, ''path generation must be non-zero''),
        (pa_components v = [], EC_InvalidArgument, ''path must contain at least one component''),
        (length (pa_components v) > kMaxPathComponents, EC_TooLarge,
           ''path component count exceeds budget'')]) (\<lambda>_.
     bindR (validate_components [] (pa_components v)) (\<lambda>_.
     first_error
       [(pa_fixed_latency_us v > kMaxLatencyUs \<or> pa_fixed_jitter_us v > kMaxJitterUs,
           EC_TooLarge, ''path fixed overhead beyond numeric domain'')]))"

definition validate_capability :: "resource_capability \<Rightarrow> unit result" where
  "validate_capability v = first_error
    [(\<not> is_valid (ca_resource v), EC_InvalidArgument,
        ''resource id rejected by canonical alphabet''),
     (ca_generation v = 0, EC_InvalidArgument, ''capability generation must be non-zero''),
     (\<not> is_valid (ca_publisher v), EC_InvalidArgument,
        ''publisher id rejected by canonical alphabet''),
     (ca_incarnation v = 0, EC_InvalidArgument, ''publisher incarnation must be non-zero''),
     (ca_expires_at_ms v < ca_published_at_ms v, EC_Conflict,
        ''capability expiry precedes publication''),
     (opt_gt (ca_supported_rate_bps v) (Some kMaxRateBps), EC_TooLarge,
        ''supported_rate_bps beyond numeric domain''),
     (opt_gt (ca_latency_bound_us v) (Some kMaxLatencyUs), EC_TooLarge,
        ''latency_bound_us beyond numeric domain''),
     (opt_gt (ca_jitter_bound_us v) (Some kMaxJitterUs), EC_TooLarge,
        ''jitter_bound_us beyond numeric domain''),
     (opt_gt (ca_loss_ppm v) (Some kMaxLossPpm), EC_TooLarge,
        ''loss_ppm beyond numeric domain''),
     (opt_gt (ca_max_burst_bytes v) (Some kMaxBurstBytes), EC_TooLarge,
        ''max_burst_bytes beyond numeric domain''),
     (opt_gt (ca_burst_window_us v) (Some kMaxBurstIntervalUs), EC_TooLarge,
        ''burst_window_us beyond numeric domain''),
     ((ca_max_burst_bytes v \<noteq> None) \<noteq> (ca_burst_window_us v \<noteq> None), EC_Conflict,
        ''burst capability requires both max_burst_bytes and burst_window_us''),
     (opt_gt (ca_mtu_bytes v) (Some kMaxMtuBytes), EC_TooLarge,
        ''mtu_bytes beyond numeric domain''),
     (ca_max_priority_rank v > kMaxPriorityRank, EC_TooLarge,
        ''max_priority_rank beyond numeric domain''),
     (length (ca_predicates v) > kMaxCapabilityPredicates, EC_TooLarge,
        ''capability predicate list exceeds budget''),
     (invalid_keys (ca_predicates v) kMaxPredicateKeyLen, EC_InvalidArgument,
        ''capability predicate key rejected''),
     (has_duplicate_predicates (ca_predicates v), EC_Duplicate,
        ''duplicate capability predicate key''),
     (ca_state v \<noteq> Cap_Unavailable \<and> ca_diversity_domain v = [], EC_InvalidArgument,
        ''a capable resource must declare its diversity domain''),
     (ca_diversity_domain v \<noteq> [] \<and> \<not> is_valid (ca_diversity_domain v), EC_InvalidArgument,
        ''diversity domain rejected'')]"

definition validate_reservation :: "reservation \<Rightarrow> unit result" where
  "validate_reservation v = first_error
    [(\<not> is_valid (rs_resource v), EC_InvalidArgument, ''reservation resource id rejected''),
     (rs_generation v = 0, EC_InvalidArgument, ''reservation generation must be non-zero''),
     (\<not> is_valid (rs_class_id v), EC_InvalidArgument, ''reservation class id rejected''),
     (rs_class_generation v = 0, EC_InvalidArgument,
        ''reservation class generation must be non-zero''),
     (\<not> is_valid (rs_publisher v), EC_InvalidArgument, ''reservation publisher id rejected''),
     (rs_incarnation v = 0, EC_InvalidArgument,
        ''reservation publisher incarnation non-zero''),
     (rs_reserved_min_rate_bps v = 0, EC_InvalidArgument,
        ''reservation must commit a non-zero rate''),
     (rs_reserved_min_rate_bps v > kMaxRateBps, EC_TooLarge,
        ''reserved_min_rate_bps beyond numeric domain''),
     (rs_reserved_burst_bytes v > kMaxBurstBytes, EC_TooLarge,
        ''reserved_burst_bytes beyond numeric domain'')]"

definition validate_request :: "contract_request \<Rightarrow> unit result" where
  "validate_request v = first_error
    [(\<not> is_valid (rq_contract v), EC_InvalidArgument,
        ''contract id rejected by canonical alphabet''),
     (\<not> is_valid (rq_subject v), EC_InvalidArgument,
        ''subject id rejected by canonical alphabet''),
     (\<not> is_valid (rq_class_id v), EC_InvalidArgument,
        ''class id rejected by canonical alphabet''),
     (\<not> is_valid (rq_path v), EC_InvalidArgument, ''path id rejected by canonical alphabet''),
     (\<not> is_valid (rq_policy v), EC_InvalidArgument,
        ''policy id rejected by canonical alphabet''),
     (\<not> is_valid (rq_priority v), EC_InvalidArgument, ''priority class id rejected''),
     (rq_subject_generation v = 0, EC_InvalidArgument,
        ''subject generation must be non-zero''),
     (rq_priority_generation v = 0, EC_InvalidArgument,
        ''priority generation must be non-zero''),
     (rq_contract_generation v = 0, EC_InvalidArgument,
        ''contract generation must be non-zero'')]"

lemma validate_components_ok:
  "validate_components seen cs = Inr u \<longleftrightarrow>
     (\<forall>c \<in> set cs. is_valid (pc_resource c) \<and> pc_capability_generation c \<noteq> 0 \<and>
        is_valid (pc_diversity_domain c)) \<and>
     distinct (map pc_resource cs) \<and> set (map pc_resource cs) \<inter> set seen = {}"
proof (induction cs arbitrary: seen)
  case Nil
  then show ?case by simp
next
  case (Cons c cs)
  then show ?case by (auto simp: bind_iff)
qed

section \<open>Summaries\<close>

text \<open>\<^verbatim>\<open>std::to_string\<close> on an unsigned integer.\<close>

fun dec_string :: "nat \<Rightarrow> string" where
  "dec_string n =
     (if n < 10 then [char_of (n + 48)] else dec_string (n div 10) @ [char_of (n mod 10 + 48)])"

declare dec_string.simps [simp del]

definition u64_to_string :: "u64 \<Rightarrow> string" where "u64_to_string v = dec_string (unat v)"
definition u32_to_string :: "u32 \<Rightarrow> string" where "u32_to_string v = dec_string (unat v)"

definition bool_pieces :: "(bool \<times> string) list \<Rightarrow> string list" where
  "bool_pieces ps = map snd (filter fst ps)"

fun join_comma :: "string \<Rightarrow> string list \<Rightarrow> string" where
  "join_comma out [] = out"
| "join_comma out (p # ps) = join_comma (if out \<noteq> [] then out @ '','' @ p else out @ p) ps"

definition summarize_obligation_list :: "qos_class \<Rightarrow> string" where
  "summarize_obligation_list v = join_comma [] (bool_pieces
     [(qc_min_rate_bps v \<noteq> None, ''rate.min_bps''),
      (qc_max_rate_bps v \<noteq> None, ''rate.max_bps''),
      (qc_peak_rate_bps v \<noteq> None, ''rate.peak_bps''),
      (qc_max_latency_us v \<noteq> None, ''latency.max_us''),
      (qc_max_jitter_us v \<noteq> None, ''jitter.max_us''),
      (qc_max_loss_ppm v \<noteq> None, ''loss.max_ppm''),
      (qc_burst_bytes v \<noteq> None, ''burst''),
      (qc_min_mtu_bytes v \<noteq> None, ''mtu.min_bytes''),
      (True, ''isolation.level''), (True, ''treatment.mode''), (True, ''priority.min_rank''),
      (qc_requires_reservation v, ''reservation.min_rate_bps''),
      (qc_min_disjoint_paths v > 1, ''redundancy.disjoint_paths''),
      (qc_required_predicates v \<noteq> [], ''capability.predicate'')])"

definition summarize_class :: "qos_class \<Rightarrow> string" where
  "summarize_class v =
     ''class '' @ qc_id v @ ''@'' @ u64_to_string (qc_generation v) @ '' ['' @
     summarize_obligation_list v @ ''] isolation='' @ iso_to_string (qc_isolation v) @
     '' treatment='' @ tm_to_string (qc_treatment v) @
     '' violation='' @ vp_to_string (qc_violation_policy v) @
     (if qc_allow_degrade v
      then '' degrade<='' @ u32_to_string (qc_degrade_max_relaxation_ppm v) @ ''ppm''
      else '' degrade=forbidden'')"

text \<open>The distinct values of a list, in the order of their first occurrence.\<close>

definition push_new :: "'a list \<Rightarrow> 'a \<Rightarrow> 'a list" where
  "push_new xs x = (if x \<in> set xs then xs else xs @ [x])"

definition summarize_path :: "path \<Rightarrow> string" where
  "summarize_path v =
     ''path '' @ pa_id v @ ''@'' @ u64_to_string (pa_generation v) @
     '' components='' @ dec_string (length (pa_components v)) @ '' domains='' @
     dec_string (length (foldl push_new [] (map pc_diversity_domain (pa_components v))))"

definition summarize_capability :: "resource_capability \<Rightarrow> string" where
  "summarize_capability v =
     ''capability '' @ ca_resource v @ ''@'' @ u64_to_string (ca_generation v) @
     '' state='' @ cap_to_string (ca_state v) @ '' epoch='' @ u64_to_string (ca_epoch v) @
     '' publisher='' @ ca_publisher v @ ''#'' @ u64_to_string (ca_incarnation v)"

end
