(* ===== verification/Codec_Laws.thy ===== *)
theory Codec_Laws
  imports Serialize
begin

text \<open>
  What writers and readers promise each other. \<open>emits f bs\<close> says that the writer action
  \<open>f\<close> appends exactly \<open>bs\<close> or fails, and that it fails on the budget only; the
  rules in \<open>codec\<close> run a reader over bytes laid out that way; \<open>safe_read p\<close> says that
  the reader action \<open>p\<close> never moves its cursor back or past the end of its buffer. The
  locale \<open>codec\<close> states the contract a record's encoder and decoder share, and what its
  clients (blobs and tables of blobs) inherit from it.
\<close>

section \<open>What a writer action appends\<close>

text \<open>
  \<open>emits f bs\<close>: from a writer within its budget that has room for \<open>bs\<close>, \<open>f\<close>
  appends exactly \<open>bs\<close>; in every other case \<open>f\<close> leaves the writer failed.
\<close>

definition w_sound :: "writer \<Rightarrow> bool" where
  "w_sound w \<longleftrightarrow> w_failed w \<or> length (w_buffer w) \<le> w_limit w"

definition w_fits :: "writer \<Rightarrow> bytes \<Rightarrow> bool" where
  "w_fits w bs \<longleftrightarrow> \<not> w_failed w \<and> length (w_buffer w) + length bs \<le> w_limit w"

definition emits :: "(writer \<Rightarrow> writer) \<Rightarrow> bytes \<Rightarrow> bool" where
  "emits f bs \<longleftrightarrow>
     (\<forall>w. w_sound w \<longrightarrow>
        (if w_fits w bs then f w = w\<lparr>w_buffer := w_buffer w @ bs\<rparr> else w_failed (f w)))"

definition lay_u8 :: "u8 \<Rightarrow> bytes" where "lay_u8 v = [v]"
definition lay_u16 :: "u16 \<Rightarrow> bytes" where "lay_u16 v = store_le (ucast v) 2"
definition lay_u32 :: "u32 \<Rightarrow> bytes" where "lay_u32 v = store_le (ucast v) 4"
definition lay_u64 :: "u64 \<Rightarrow> bytes" where "lay_u64 v = store_le v 8"
definition lay_bool :: "bool \<Rightarrow> bytes" where "lay_bool b = lay_u8 (if b then 1 else 0)"
definition lay_str :: "string \<Rightarrow> bytes" where
  "lay_str s = lay_u32 (word_of_nat (length s)) @ bytes_of_string s"
definition lay_bytes :: "bytes \<Rightarrow> bytes" where
  "lay_bytes bs = lay_u32 (word_of_nat (length bs)) @ bs"

lemma length_lay [simp]:
  "length (lay_u8 v8) = 1" "length (lay_u16 v16) = 2" "length (lay_u32 v32) = 4"
  "length (lay_u64 v64) = 8" "length (lay_bool b) = 1"
  "length (lay_str s) = 4 + length s" "length (lay_bytes bs) = 4 + length bs"
  by (simp_all add: lay_u8_def lay_u16_def lay_u32_def lay_u64_def lay_bool_def lay_str_def
      lay_bytes_def)

lemma w_sound_new_writer [simp]: "w_sound (new_writer n)"
  by (simp add: w_sound_def new_writer_def)

lemma emits_raw [writes_intros]: "emits (w_raw bs) bs"
  by (auto simp: emits_def w_raw_def w_fits_def w_sound_def)

lemma emits_u8 [writes_intros]: "emits (w_u8 v) (lay_u8 v)"
  using emits_raw by (simp add: w_u8_def [abs_def] lay_u8_def)

lemma emits_u16 [writes_intros]: "emits (w_u16 v) (lay_u16 v)"
  using emits_raw by (simp add: w_u16_def [abs_def] lay_u16_def)

lemma emits_u32 [writes_intros]: "emits (w_u32 v) (lay_u32 v)"
  using emits_raw by (simp add: w_u32_def [abs_def] lay_u32_def)

lemma emits_u64 [writes_intros]: "emits (w_u64 v) (lay_u64 v)"
  using emits_raw by (simp add: w_u64_def [abs_def] lay_u64_def)

lemma emits_presence [writes_intros]: "emits (w_presence b) (lay_bool b)"
  using emits_u8 by (simp add: w_presence_def [abs_def] lay_bool_def)

lemma emits_sound: "emits f bs \<Longrightarrow> w_sound w \<Longrightarrow> w_sound (f w)"
  by (auto simp: emits_def w_fits_def w_sound_def split: if_splits dest!: spec [of _ w])

lemma emits_comp:
  assumes "emits f a" and "emits g b"
  shows "emits (\<lambda>w. g (f w)) (a @ b)"
  unfolding emits_def
proof (intro allI impI)
  fix w assume w: "w_sound w"
  have fw: "if w_fits w a then f w = w\<lparr>w_buffer := w_buffer w @ a\<rparr> else w_failed (f w)"
    using assms(1) w by (simp add: emits_def)
  have gw: "if w_fits (f w) b then g (f w) = (f w)\<lparr>w_buffer := w_buffer (f w) @ b\<rparr>
      else w_failed (g (f w))"
    using assms(2) emits_sound [OF assms(1) w] by (simp add: emits_def)
  show "if w_fits w (a @ b) then g (f w) = w\<lparr>w_buffer := w_buffer w @ (a @ b)\<rparr>
      else w_failed (g (f w))"
    using fw gw by (auto simp: w_fits_def split: if_splits)
qed

lemma emits_seq_Nil [writes_intros]: "emits (w_seq []) []"
  by (auto simp: emits_def w_seq_def w_fits_def w_sound_def)

lemma emits_seq_Cons [writes_intros]:
  "emits f a \<Longrightarrow> emits (w_seq fs) b \<Longrightarrow> emits (w_seq (f # fs)) (a @ b)"
  using emits_comp [of f a "w_seq fs" b] by (simp add: w_seq_def [abs_def] comp_def)

lemma emits_each:
  "(\<And>x. x \<in> set xs \<Longrightarrow> emits (f x) (g x)) \<Longrightarrow> emits (w_each f xs) (concat (map g xs))"
proof (induction xs)
  case Nil
  then show ?case using emits_seq_Nil by (simp add: w_each_def [abs_def] w_seq_def [abs_def] id_def)
next
  case (Cons x xs)
  then have "emits (\<lambda>w. w_each f xs (f x w)) (g x @ concat (map g xs))"
    by (intro emits_comp) auto
  then show ?case by (simp add: w_each_def [abs_def] comp_def)
qed

lemma emits_str [writes_intros]:
  assumes "length s \<le> n"
  shows "emits (w_str s n) (lay_str s)"
proof -
  have "w_str s n = (\<lambda>w. w_raw (bytes_of_string s) (w_u32 (word_of_nat (length s)) w))"
    using assms by (auto simp: w_str_def)
  then show ?thesis by (simp add: lay_str_def emits_comp emits_u32 emits_raw)
qed

lemma emits_bytes [writes_intros]:
  assumes "length v \<le> 0xFFFFFFFF"
  shows "emits (w_bytes v) (lay_bytes v)"
proof -
  have "w_bytes v = (\<lambda>w. w_raw v (w_u32 (word_of_nat (length v)) w))"
    using assms by (auto simp: w_bytes_def)
  then show ?thesis by (simp add: lay_bytes_def emits_comp emits_u32 emits_raw)
qed

lemma emits_cong_failed:
  assumes "emits f bs" and "\<And>w. \<not> w_failed w \<Longrightarrow> f' w = f w" and "\<And>w. w_failed w \<Longrightarrow> w_failed (f' w)"
  shows "emits f' bs"
  using assms by (auto simp: emits_def w_fits_def) metis

lemma emits_counted [writes_intros]:
  assumes n: "n \<le> 0xFFFFFFFF" and e: "emits f bs"
  shows "emits (w_counted n f) (lay_u32 (word_of_nat n) @ bs)"
proof -
  let ?g = "\<lambda>w. if w_failed w then w else f w"
  have g: "emits ?g bs" by (rule emits_cong_failed [OF e]) auto
  have "w_counted n f = (\<lambda>w. ?g (w_u32 (word_of_nat n) w))"
    using n by (auto simp: w_counted_def Let_def)
  then show ?thesis using emits_comp [OF emits_u32 g] by simp
qed

lemma emits_if [writes_intros]:
  "(b \<Longrightarrow> emits f x) \<Longrightarrow> (\<not> b \<Longrightarrow> emits g y) \<Longrightarrow> emits (if b then f else g) (if b then x else y)"
  by simp

lemma emits_encode:
  assumes "emits f bs"
  shows "\<not> w_failed (f (new_writer limit)) \<longleftrightarrow> length bs \<le> limit"
    and "length bs \<le> limit \<Longrightarrow> w_buffer (f (new_writer limit)) = bs"
proof -
  have *: "if w_fits (new_writer limit) bs
      then f (new_writer limit) = (new_writer limit)\<lparr>w_buffer := w_buffer (new_writer limit) @ bs\<rparr>
      else w_failed (f (new_writer limit))"
    using assms by (simp add: emits_def)
  show "\<not> w_failed (f (new_writer limit)) \<longleftrightarrow> length bs \<le> limit"
    using * by (auto simp: w_fits_def new_writer_def split: if_splits)
  show "length bs \<le> limit \<Longrightarrow> w_buffer (f (new_writer limit)) = bs"
    using * by (auto simp: w_fits_def new_writer_def split: if_splits)
qed

text \<open>A failed string write is the only failure that does not come from the budget.\<close>

lemma w_raw_failed [simp]: "w_failed w \<Longrightarrow> w_raw bs w = w"
  by (simp add: w_raw_def)

lemma w_str_too_long: "length s > n \<Longrightarrow> w_failed (w_str s n w)"
  by (simp add: w_str_def)

section \<open>Running a reader over laid-out bytes\<close>

text \<open>\<open>rd pre xs\<close>: a reader that has consumed \<open>pre\<close> and has \<open>xs\<close> in front of it.\<close>

definition rd :: "bytes \<Rightarrow> bytes \<Rightarrow> reader" where
  "rd pre xs = \<lparr>r_data = pre @ xs, r_pos = length pre, r_failed = False\<rparr>"

lemma new_reader_rd: "new_reader bs = rd [] bs"
  by (simp add: new_reader_def rd_def)

lemma rd_simps [simp]:
  "\<not> r_failed (rd pre xs)" "r_remaining (rd pre xs) = length xs"
  "r_at_end (rd pre xs) \<longleftrightarrow> xs = []"
  by (auto simp: rd_def r_remaining_def r_at_end_def)

lemma r_raw_rd:
  "r_raw n (rd pre xs) =
     (if n \<le> length xs then (take n xs, rd (pre @ take n xs) (drop n xs))
      else ([], (rd pre xs)\<lparr>r_failed := True\<rparr>))"
  by (auto simp: r_raw_def rd_def r_remaining_def min_def)

lemma r_raw_codec: "length bs = n \<Longrightarrow> r_raw n (rd pre (bs @ xs)) = (bs, rd (pre @ bs) xs)"
  by (simp add: r_raw_rd)

lemma r_u8_codec [codec]: "r_u8 (rd pre (lay_u8 v @ xs)) = (v, rd (pre @ lay_u8 v) xs)"
  by (simp add: r_u8_def r_raw_codec lay_u8_def r_raw_rd)

lemma r_u16_codec [codec]: "r_u16 (rd pre (lay_u16 v @ xs)) = (v, rd (pre @ lay_u16 v) xs)"
  by (simp add: r_u16_def r_raw_codec lay_u16_def load_store_le_16)

lemma r_u32_codec [codec]: "r_u32 (rd pre (lay_u32 v @ xs)) = (v, rd (pre @ lay_u32 v) xs)"
  by (simp add: r_u32_def r_raw_codec lay_u32_def load_store_le_32)

lemma r_u64_codec [codec]: "r_u64 (rd pre (lay_u64 v @ xs)) = (v, rd (pre @ lay_u64 v) xs)"
  by (simp add: r_u64_def r_raw_codec lay_u64_def load_store_le_64)

lemma r_presence_codec [codec]:
  "r_presence (rd pre (lay_bool b @ xs)) = (b, rd (pre @ lay_bool b) xs)"
  by (simp add: r_presence_def lay_bool_def r_u8_codec)

lemma unat_of_nat_u32: "n \<le> 0xFFFFFFFF \<Longrightarrow> unat (word_of_nat n :: u32) = n"
  by (simp add: unsigned_of_nat take_bit_nat_eq_self)

lemma r_str_codec [codec]:
  "length s \<le> n \<Longrightarrow> length s \<le> 0xFFFFFFFF \<Longrightarrow>
   r_str n (rd pre (lay_str s @ xs)) = (s, rd (pre @ lay_str s) xs)"
  by (simp add: r_str_def lay_str_def r_u32_codec unat_of_nat_u32 r_raw_codec)

lemma r_bytes_codec [codec]:
  "length bs \<le> n \<Longrightarrow> length bs \<le> 0xFFFFFFFF \<Longrightarrow>
   r_bytes n (rd pre (lay_bytes bs @ xs)) = (bs, rd (pre @ lay_bytes bs) xs)"
  by (simp add: r_bytes_def lay_bytes_def r_u32_codec unat_of_nat_u32 r_raw_codec)

lemma r_count_codec [codec]:
  "k \<le> n \<Longrightarrow> k \<le> 0xFFFFFFFF \<Longrightarrow>
   r_count n (rd pre (lay_u32 (word_of_nat k) @ xs)) =
     (Some k, rd (pre @ lay_u32 (word_of_nat k)) xs)"
  by (simp add: r_count_def r_u32_codec unat_of_nat_u32)

text \<open>An optional value as the presence byte and, if set, the value.\<close>

definition lay_opt :: "('a \<Rightarrow> bytes) \<Rightarrow> 'a option \<Rightarrow> bytes" where
  "lay_opt lay x = (case x of None \<Rightarrow> lay_bool False | Some v \<Rightarrow> lay_bool True @ lay v)"

lemma r_optional_codec [codec]:
  assumes "\<And>v pre xs. x = Some v \<Longrightarrow> consume (rd pre (lay v @ xs)) = (v, rd (pre @ lay v) xs)"
  shows "r_optional consume (rd pre (lay_opt lay x @ xs)) = (Some x, rd (pre @ lay_opt lay x) xs)"
  using assms by (cases x) (simp_all add: r_optional_def lay_opt_def r_presence_codec)

section \<open>Bounds: a reader never leaves its buffer\<close>

definition r_sound :: "reader \<Rightarrow> bool" where
  "r_sound r \<longleftrightarrow> r_pos r \<le> length (r_data r)"

definition r_le :: "reader \<Rightarrow> reader \<Rightarrow> bool" where
  "r_le r r' \<longleftrightarrow> r_data r' = r_data r \<and> r_pos r \<le> r_pos r' \<and> (r_failed r \<longrightarrow> r_failed r' \<and> r_pos r' = r_pos r)"

definition safe_read :: "(reader \<Rightarrow> 'a \<times> reader) \<Rightarrow> bool" where
  "safe_read p \<longleftrightarrow> (\<forall>r. r_sound r \<longrightarrow> r_sound (snd (p r)) \<and> r_le r (snd (p r)))"

named_theorems safe_intros \<open>reader actions that stay inside the buffer\<close>

lemma r_le_refl [simp]: "r_le r r"
  by (simp add: r_le_def)

lemma r_le_trans: "r_le a b \<Longrightarrow> r_le b c \<Longrightarrow> r_le a c"
  by (auto simp: r_le_def)

lemma safe_readD: "safe_read p \<Longrightarrow> r_sound r \<Longrightarrow> p r = (x, r') \<Longrightarrow> r_sound r' \<and> r_le r r'"
  by (metis safe_read_def snd_conv)

lemma safe_return [safe_intros]: "safe_read (\<lambda>r. (x, r))"
  by (simp add: safe_read_def)

lemma safe_failing [safe_intros]: "safe_read (\<lambda>r. (x, r\<lparr>r_failed := True\<rparr>))"
  by (simp add: safe_read_def r_sound_def r_le_def)

lemma safe_bind [safe_intros]:
  assumes "safe_read p" and "\<And>x. safe_read (k x)"
  shows "safe_read (\<lambda>r. let (x, r) = p r in k x r)"
  unfolding safe_read_def
proof (intro allI impI)
  fix r assume "r_sound r"
  then show "r_sound (snd (let (x, r) = p r in k x r)) \<and> r_le r (snd (let (x, r) = p r in k x r))"
    using assms(1) assms(2) [of "fst (p r)"]
    by (auto simp: safe_read_def split_beta intro: r_le_trans)
qed

lemma safe_if [safe_intros]:
  "safe_read p \<Longrightarrow> safe_read q \<Longrightarrow> safe_read (\<lambda>r. if b r then p r else q r)"
  by (simp add: safe_read_def)

lemma safe_bindD [safe_intros]:
  assumes "safe_read p" and "\<And>x. safe_read (k x)"
  shows "safe_read (\<lambda>r. bindD (p r) k)"
  unfolding safe_read_def
proof (intro allI impI)
  fix r assume r: "r_sound r"
  obtain y r' where p: "p r = (y, r')" by (cases "p r")
  have s: "r_sound r' \<and> r_le r r'" by (rule safe_readD [OF assms(1) r p])
  show "r_sound (snd (bindD (p r) k)) \<and> r_le r (snd (bindD (p r) k))"
  proof (cases y)
    case (Inl e)
    with p s show ?thesis by simp
  next
    case (Inr x)
    with p s assms(2) [of x] show ?thesis by (auto simp: safe_read_def intro: r_le_trans)
  qed
qed

lemma safe_case [safe_intros]:
  "safe_read p \<Longrightarrow> (\<And>x. safe_read (k x)) \<Longrightarrow> safe_read (\<lambda>r. case p r of (x, r) \<Rightarrow> k x r)"
  using safe_bind [of p k] by (simp add: Let_def)

lemma safe_let [safe_intros]: "safe_read (k v) \<Longrightarrow> safe_read (\<lambda>r. let x = v in k x r)"
  by (simp add: Let_def)

lemma safe_option [safe_intros]:
  "safe_read p \<Longrightarrow> (\<And>x. safe_read (q x)) \<Longrightarrow>
   safe_read (\<lambda>r. case m of None \<Rightarrow> p r | Some x \<Rightarrow> q x r)"
  by (cases m) simp_all

lemma safe_sum [safe_intros]:
  "(\<And>x. safe_read (p x)) \<Longrightarrow> (\<And>x. safe_read (q x)) \<Longrightarrow>
   safe_read (\<lambda>r. case m of Inl x \<Rightarrow> p x r | Inr x \<Rightarrow> q x r)"
  by (cases m) simp_all

lemma safe_fail [safe_intros]: "safe_read (\<lambda>r. (x, r_fail r))"
  by (simp add: r_fail_def safe_failing)

lemma safe_raw [safe_intros]: "safe_read (r_raw n)"
  by (auto simp: safe_read_def r_raw_def r_sound_def r_le_def r_remaining_def)

lemma safe_u8 [safe_intros]: "safe_read r_u8"
  unfolding r_u8_def [abs_def] by (intro safe_intros)

lemma safe_u16 [safe_intros]: "safe_read r_u16"
  unfolding r_u16_def [abs_def] by (intro safe_intros)

lemma safe_u32 [safe_intros]: "safe_read r_u32"
  unfolding r_u32_def [abs_def] by (intro safe_intros)

lemma safe_u64 [safe_intros]: "safe_read r_u64"
  unfolding r_u64_def [abs_def] by (intro safe_intros)

lemma safe_bytes [safe_intros]: "safe_read (r_bytes n)"
  unfolding r_bytes_def [abs_def] by (intro safe_intros)

lemma safe_str [safe_intros]: "safe_read (r_str n)"
  unfolding r_str_def [abs_def] by (intro safe_intros)

lemma safe_presence [safe_intros]: "safe_read r_presence"
  unfolding r_presence_def [abs_def] by (intro safe_intros)

lemma safe_count [safe_intros]: "safe_read (r_count n)"
  unfolding r_count_def [abs_def] by (intro safe_intros)

lemma safe_optional [safe_intros]: "safe_read p \<Longrightarrow> safe_read (r_optional p)"
  unfolding r_optional_def [abs_def] by (intro safe_intros)

text \<open>A failed reader reads zeros and empty strings, and stays failed.\<close>

lemma failed_reads:
  assumes "r_failed r"
  shows "r_raw n r = ([], r)" "r_u8 r = (0, r)" "r_u16 r = (0, r)" "r_u32 r = (0, r)"
    "r_u64 r = (0, r)" "r_str n r = ([], r)" "r_bytes n r = ([], r)" "r_presence r = (False, r)"
    "r_count n r = (None, r)"
  using assms
  by (simp_all add: r_raw_def r_u8_def r_u16_def r_u32_def r_u64_def r_str_def r_bytes_def
      r_presence_def r_count_def)

section \<open>Sequences and loops\<close>

text \<open>A layout is the concatenation of its fields, field by field as the writer emits them.\<close>

lemma emits_fields: "list_all2 emits fs ls \<Longrightarrow> emits (w_seq fs) (concat ls)"
  by (induction rule: list_all2_induct) (auto intro: emits_seq_Nil emits_seq_Cons)

text \<open>A loop that returns as soon as the writer has failed.\<close>

fun w_each_ok :: "('a \<Rightarrow> writer \<Rightarrow> writer) \<Rightarrow> 'a list \<Rightarrow> writer \<Rightarrow> writer" where
  "w_each_ok f [] w = w"
| "w_each_ok f (x # xs) w = (let w = f x w in if w_failed w then w else w_each_ok f xs w)"

lemma emits_each_ok:
  "(\<And>x. x \<in> set xs \<Longrightarrow> emits (f x) (g x)) \<Longrightarrow> emits (w_each_ok f xs) (concat (map g xs))"
proof (induction xs)
  case Nil
  then show ?case by (auto simp: emits_def w_fits_def w_sound_def)
next
  case (Cons x xs)
  then have h: "emits (f x) (g x)" and t: "emits (w_each_ok f xs) (concat (map g xs))" by auto
  show ?case
    unfolding emits_def
  proof (intro allI impI)
    fix w assume w: "w_sound w"
    from h w have h': "if w_fits w (g x) then f x w = w\<lparr>w_buffer := w_buffer w @ g x\<rparr> else w_failed (f x w)"
      by (simp add: emits_def)
    from t emits_sound [OF h w] have t': "if w_fits (f x w) (concat (map g xs))
        then w_each_ok f xs (f x w) = (f x w)\<lparr>w_buffer := w_buffer (f x w) @ concat (map g xs)\<rparr>
        else w_failed (w_each_ok f xs (f x w))"
      by (simp add: emits_def)
    show "if w_fits w (concat (map g (x # xs)))
      then w_each_ok f (x # xs) w = w\<lparr>w_buffer := w_buffer w @ concat (map g (x # xs))\<rparr>
      else w_failed (w_each_ok f (x # xs) w)"
      using h' t' by (auto simp: w_fits_def Let_def split: if_splits)
  qed
qed

text \<open>A loop that decodes a counted list, stopping at the first error.\<close>

fun decode_times :: "nat \<Rightarrow> (reader \<Rightarrow> 'a result \<times> reader) \<Rightarrow> reader \<Rightarrow> 'a list result \<times> reader" where
  "decode_times 0 p r = (Inr [], r)"
| "decode_times (Suc n) p r =
     bindD (p r) (\<lambda>x r. bindD (decode_times n p r) (\<lambda>xs r. (Inr (x # xs), r)))"

lemma decode_times_codec:
  assumes "\<And>v pre xs. v \<in> set vs \<Longrightarrow> p (rd pre (lay v @ xs)) = (Inr (c v), rd (pre @ lay v) xs)"
    and "n = length vs"
  shows "decode_times n p (rd pre (concat (map lay vs) @ xs)) =
    (Inr (map c vs), rd (pre @ concat (map lay vs)) xs)"
  unfolding assms(2) using assms(1)
  by (induction vs arbitrary: pre) simp_all

lemma safe_times [safe_intros]: "safe_read p \<Longrightarrow> safe_read (decode_times n p)"
proof (induction n)
  case 0
  then show ?case by (simp add: safe_return)
next
  case (Suc n)
  then show ?case by (simp add: decode_times.simps [abs_def]) (intro safe_intros Suc)
qed

lemma decode_times_length: "decode_times n p r = (Inr xs, r') \<Longrightarrow> length xs = n"
  by (induction n arbitrary: r xs) (auto simp: bind_iff)

section \<open>The contract of a record's codec\<close>

text \<open>
  \<open>lay\<close> is the byte layout the format promises for a value that satisfies \<open>ok\<close>, and
  \<open>canon\<close> the value a reader of that layout obtains (lists that are sets come back sorted,
  digests recomputed).
\<close>

locale codec =
  fixes enc :: "'a \<Rightarrow> writer \<Rightarrow> writer"
    and dec :: "reader \<Rightarrow> 'a result \<times> reader"
    and lay :: "'a \<Rightarrow> bytes"
    and ok :: "'a \<Rightarrow> bool"
    and canon :: "'a \<Rightarrow> 'a"
  assumes enc_emits: "ok x \<Longrightarrow> emits (enc x) (lay x)"
    and dec_lay: "ok x \<Longrightarrow> dec (rd pre (lay x @ xs)) = (Inr (canon x), rd (pre @ lay x) xs)"
    and dec_safe: "safe_read dec"
begin

lemma encodes_iff: "ok x \<Longrightarrow> \<not> w_failed (enc x (new_writer limit)) \<longleftrightarrow> length (lay x) \<le> limit"
  by (rule emits_encode(1) [OF enc_emits])

lemma encode_canonical_lay:
  "ok x \<Longrightarrow> length (lay x) \<le> limit \<Longrightarrow> encode_canonical (enc x) limit = lay x"
  using emits_encode [OF enc_emits, of x limit] by (simp add: encode_canonical_def)

lemma roundtrip:
  assumes "ok x" and "\<not> w_failed (enc x (new_writer limit))"
  shows "dec (new_reader (w_buffer (enc x (new_writer limit)))) = (Inr (canon x), rd (lay x) [])"
proof -
  have "w_buffer (enc x (new_writer limit)) = lay x"
    using assms emits_encode [OF enc_emits, of x limit] by simp
  then show ?thesis using dec_lay [OF assms(1), of "[]" "[]"] by (simp add: new_reader_rd)
qed

lemma prefix_free:
  assumes "ok x" "ok y" "lay x @ xs = lay y @ ys"
  shows "canon x = canon y \<and> lay x = lay y \<and> xs = ys"
proof -
  have "dec (rd [] (lay y @ ys)) = (Inr (canon x), rd ([] @ lay x) xs)"
    using dec_lay [OF assms(1), of "[]" xs] by (simp only: assms(3))
  then have "canon x = canon y" and l: "length (lay x) = length (lay y)"
    unfolding dec_lay [OF assms(2)] by (auto simp only: rd_def append_Nil prod.inject sum.inject reader.ext_inject)
  then show ?thesis using assms(3) append_eq_append_conv [of "lay x" "lay y" xs ys] by blast
qed

lemma table_lay:
  assumes "list_all ok vs"
  shows "decode_times (length vs) dec (rd pre (concat (map lay vs) @ xs)) =
    (Inr (map canon vs), rd (pre @ concat (map lay vs)) xs)"
  by (rule decode_times_codec) (use assms in \<open>auto simp: list_all_iff dec_lay\<close>)

lemma dec_bounds:
  "r_sound r \<Longrightarrow> dec r = (y, r') \<Longrightarrow> r_sound r' \<and> r_pos r \<le> r_pos r' \<and> r_data r' = r_data r"
  by (drule (1) safe_readD [OF dec_safe]) (simp add: r_le_def)

end

section \<open>Every byte string is a layout\<close>

lemma lay_u32_ex:
  assumes "length bs = 4" shows "bs = lay_u32 (ucast (load_le bs))"
proof -
  have "store_le (ucast (ucast (load_le bs) :: u32)) 4 = store_le (load_le bs) 4"
    by (rule nth_equalityI) (auto intro!: bit_word_eqI simp: bit_store_le bit_simps)
  with store_load_le [of bs] assms show ?thesis by (simp add: lay_u32_def)
qed

lemma lay_u16_ex:
  assumes "length bs = 2" shows "bs = lay_u16 (ucast (load_le bs))"
proof -
  have "store_le (ucast (ucast (load_le bs) :: u16)) 2 = store_le (load_le bs) 2"
    by (rule nth_equalityI) (auto intro!: bit_word_eqI simp: bit_store_le bit_simps)
  with store_load_le [of bs] assms show ?thesis by (simp add: lay_u16_def)
qed

lemma lay_u64_ex: "length bs = 8 \<Longrightarrow> bs = lay_u64 (load_le bs)"
  using store_load_le [of bs] by (simp add: lay_u64_def)

lemma lay_u32_split: assumes "4 \<le> length xs" obtains v where "xs = lay_u32 v @ drop 4 xs"
  using lay_u32_ex [of "take 4 xs"] assms by (metis append_take_drop_id length_take min.absorb2)

lemma lay_u16_split: assumes "2 \<le> length xs" obtains v where "xs = lay_u16 v @ drop 2 xs"
  using lay_u16_ex [of "take 2 xs"] assms by (metis append_take_drop_id length_take min.absorb2)

lemma lay_u64_split: assumes "8 \<le> length xs" obtains v where "xs = lay_u64 v @ drop 8 xs"
  using lay_u64_ex [of "take 8 xs"] assms by (metis append_take_drop_id length_take min.absorb2)

lemma lay_u8_split: assumes "1 \<le> length xs" obtains v where "xs = lay_u8 v @ drop 1 xs"
  using assms by (cases xs) (auto simp: lay_u8_def)

end
