(* ===== verification/Model_Codec.thy ===== *)
theory Model_Codec
  imports Model Codec_Laws
begin

text \<open>
  Canonical encodings, decoders and content digests of the model records: the second half of
  \<open>src/model.cpp\<close>. An encoder is the sequence of its writer calls; its layout lists the bytes
  of the same fields in the same order. Each record's encoder and decoder are an
  interpretation of \<open>Codec_Laws.codec\<close>.
\<close>

section \<open>Field codecs\<close>

definition kTagQoSClass :: u16 where "kTagQoSClass = 0x0101"
definition kTagPolicy :: u16 where "kTagPolicy = 0x0102"
definition kTagPath :: u16 where "kTagPath = 0x0103"
definition kTagCapability :: u16 where "kTagCapability = 0x0104"
definition kTagReservation :: u16 where "kTagReservation = 0x0105"
definition kTagRequest :: u16 where "kTagRequest = 0x0106"
definition kSchemaVersion :: u16 where "kSchemaVersion = 1"

lemmas tag_defs =
  kTagQoSClass_def kTagPolicy_def kTagPath_def kTagCapability_def kTagReservation_def
  kTagRequest_def kSchemaVersion_def

definition encode_optional_uint :: "('a \<Rightarrow> writer \<Rightarrow> writer) \<Rightarrow> 'a option \<Rightarrow> writer \<Rightarrow> writer" where
  "encode_optional_uint emit x w =
     (let w = w_presence (x \<noteq> None) w
      in case x of None \<Rightarrow> w | Some v \<Rightarrow> if w_failed w then w else emit v w)"

definition decode_optional_uint :: "(reader \<Rightarrow> 'a \<times> reader) \<Rightarrow> reader \<Rightarrow> 'a option option \<times> reader" where
  "decode_optional_uint consume r =
     (let (x, r) = r_optional consume r
      in case x of None \<Rightarrow> (None, r) | Some v \<Rightarrow> if r_failed r then (None, r) else (Some v, r))"

definition encode_enum :: "u8 \<Rightarrow> u8 \<Rightarrow> writer \<Rightarrow> writer" where
  "encode_enum raw max_value w = (if raw > max_value then w_fail w else w_u8 raw w)"

definition decode_enum :: "'a list \<Rightarrow> u8 \<Rightarrow> reader \<Rightarrow> 'a option \<times> reader" where
  "decode_enum cast max_value r =
     (let (raw, r) = r_u8 r
      in if r_failed r \<or> raw > max_value then (None, r_fail r) else (Some (cast ! unat raw), r))"

definition decode_identifier :: "nat \<Rightarrow> reader \<Rightarrow> string result \<times> reader" where
  "decode_identifier max_len r =
     (let (v, r) = r_str max_len r
      in if r_failed r then
           (Inl (make_error EC_Malformed ''identifier field truncated or over-long''), r)
         else if \<not> is_valid_identifier v max_len then
           (Inl (make_error EC_InvalidArgument ''identifier outside canonical alphabet''), r)
         else (Inr v, r))"

definition encode_digest :: "digest256 \<Rightarrow> writer \<Rightarrow> writer" where
  "encode_digest d = w_raw d"

definition decode_digest :: "reader \<Rightarrow> digest256 option \<times> reader" where
  "decode_digest r =
     (let (raw, r) = r_raw kDigestBytes r in if r_failed r then (None, r) else (Some raw, r))"

definition encode_provenance :: "provenance \<Rightarrow> writer \<Rightarrow> writer" where
  "encode_provenance p = w_seq
     [w_str (prov_origin p) kMaxOriginLen, w_u64 (prov_epoch p), w_u64 (prov_generation p),
      w_u64 (prov_sequence p)]"

definition decode_provenance :: "reader \<Rightarrow> provenance option \<times> reader" where
  "decode_provenance r =
     (let (origin, r) = r_str kMaxOriginLen r;
          (epoch, r) = r_u64 r;
          (generation, r) = r_u64 r;
          (sequence, r) = r_u64 r
      in if r_failed r then (None, r)
         else (Some (make_provenance origin epoch generation sequence), r))"

definition encode_predicates :: "string list \<Rightarrow> nat \<Rightarrow> writer \<Rightarrow> writer" where
  "encode_predicates keys max_count w =
     (if length keys > max_count then w_fail w
      else let ordered = sort keys
        in w_counted (length ordered) (w_each_ok (\<lambda>k. w_str k kMaxPredicateKeyLen) ordered) w)"

definition decode_predicates :: "nat \<Rightarrow> reader \<Rightarrow> string list result \<times> reader" where
  "decode_predicates max_count r =
     (let (count, r) = r_count max_count r
      in case count of
           None \<Rightarrow>
             (Inl (make_error EC_TooLarge ''predicate list exceeds structural budget''), r)
         | Some n \<Rightarrow> decode_times n (decode_identifier kMaxPredicateKeyLen) r)"

text \<open>A read whose failure is the given \<open>Malformed\<close> error.\<close>

definition need :: "string \<Rightarrow> 'a option \<times> reader \<Rightarrow> 'a result \<times> reader" where
  "need detail p =
     (case p of (None, r) \<Rightarrow> (Inl (make_error EC_Malformed detail), r) | (Some x, r) \<Rightarrow> (Inr x, r))"

definition expect_header :: "u16 \<Rightarrow> reader \<Rightarrow> unit result \<times> reader" where
  "expect_header tag r =
     (let (actual_tag, r) = r_u16 r;
          (actual_version, r) = r_u16 r
      in if r_failed r then (Inl (make_error EC_Malformed ''record header truncated''), r)
         else if actual_tag \<noteq> tag then
           (Inl (make_error EC_VersionMismatch ''record type tag mismatch''), r)
         else if actual_version \<noteq> kSchemaVersion then
           (Inl (make_error EC_VersionMismatch ''record schema version mismatch''), r)
         else (Inr (), r))"

text \<open>The common end of a decoder: the sticky failure, then validation.\<close>

definition finish_record :: "string \<Rightarrow> ('a \<Rightarrow> unit result) \<Rightarrow> 'a \<Rightarrow> reader \<Rightarrow> 'a result \<times> reader" where
  "finish_record detail valid v r =
     (if r_failed r then (Inl (make_error EC_Malformed detail), r)
      else case valid v of Inl e \<Rightarrow> (Inl e, r) | Inr _ \<Rightarrow> (Inr v, r))"

lemma need_simps [simp]: "need d (Some x, r) = (Inr x, r)"
  "need d (None, r) = (Inl (make_error EC_Malformed d), r)"
  by (simp_all add: need_def)

subsection \<open>The field decoders stay inside the buffer\<close>

lemma safe_optional_uint [safe_intros]: "safe_read p \<Longrightarrow> safe_read (decode_optional_uint p)"
  unfolding decode_optional_uint_def [abs_def] by (intro safe_intros)

lemma safe_enum [safe_intros]: "safe_read (decode_enum cast m)"
  unfolding decode_enum_def [abs_def] by (intro safe_intros)

lemma safe_identifier [safe_intros]: "safe_read (decode_identifier n)"
  unfolding decode_identifier_def [abs_def] by (intro safe_intros)

lemma safe_digest [safe_intros]: "safe_read decode_digest"
  unfolding decode_digest_def [abs_def] by (intro safe_intros)

lemma safe_provenance [safe_intros]: "safe_read decode_provenance"
  unfolding decode_provenance_def [abs_def] by (intro safe_intros)

lemma safe_predicates [safe_intros]: "safe_read (decode_predicates n)"
  unfolding decode_predicates_def [abs_def] by (intro safe_intros)

lemma safe_need [safe_intros]: "safe_read p \<Longrightarrow> safe_read (\<lambda>r. need d (p r))"
  unfolding need_def by (intro safe_intros)

lemma safe_header [safe_intros]: "safe_read (expect_header tag)"
  unfolding expect_header_def [abs_def] by (intro safe_intros)

lemma safe_finish [safe_intros]: "safe_read (finish_record d valid v)"
  unfolding finish_record_def [abs_def] by (intro safe_intros)

subsection \<open>Layouts of the fields\<close>

definition lay_prov :: "provenance \<Rightarrow> bytes" where
  "lay_prov p = concat [lay_str (prov_origin p), lay_u64 (prov_epoch p),
     lay_u64 (prov_generation p), lay_u64 (prov_sequence p)]"

definition lay_keys :: "string list \<Rightarrow> bytes" where
  "lay_keys keys = lay_u32 (word_of_nat (length keys)) @ concat (map lay_str (sort keys))"

lemma emits_optional_uint [writes_intros]:
  assumes "\<And>v. emits (emit v) (lay v)"
  shows "emits (encode_optional_uint emit x) (lay_opt lay x)"
proof (cases x)
  case None
  then show ?thesis using emits_presence [of False]
    by (simp add: encode_optional_uint_def [abs_def] lay_opt_def)
next
  case (Some v)
  have c: "emits (\<lambda>w. emit v (w_presence True w)) (lay_bool True @ lay v)"
    by (rule emits_comp [OF emits_presence assms])
  have "w_failed (emit v w) \<longleftrightarrow> w_failed (emit v w)" for w by simp
  show ?thesis
    unfolding emits_def Some
  proof (intro allI impI)
    fix w assume w: "w_sound w"
    let ?p = "w_presence True w"
    have p: "if w_fits w (lay_bool True) then ?p = w\<lparr>w_buffer := w_buffer w @ lay_bool True\<rparr> else w_failed ?p"
      using emits_presence [of True] w by (simp add: emits_def)
    have q: "if w_fits w (lay_bool True @ lay v) then emit v ?p = w\<lparr>w_buffer := w_buffer w @ lay_bool True @ lay v\<rparr>
        else w_failed (emit v ?p)"
      using c w by (simp add: emits_def)
    show "if w_fits w (lay_opt lay (Some v))
      then encode_optional_uint emit (Some v) w = w\<lparr>w_buffer := w_buffer w @ lay_opt lay (Some v)\<rparr>
      else w_failed (encode_optional_uint emit (Some v) w)"
      using p q by (auto simp: encode_optional_uint_def lay_opt_def w_fits_def split: if_splits)
  qed
qed

lemma emits_enum [writes_intros]: "raw \<le> m \<Longrightarrow> emits (encode_enum raw m) (lay_u8 raw)"
  using emits_u8 [of raw] by (simp add: encode_enum_def [abs_def] not_less [symmetric])

lemma emits_provenance [writes_intros]:
  "provenance_ok p \<Longrightarrow> emits (encode_provenance p) (lay_prov p)"
  unfolding encode_provenance_def lay_prov_def
  by (rule emits_fields) (simp add: provenance_ok_def writes_intros)

lemma emits_predicates [writes_intros]:
  assumes "length keys \<le> n" "n \<le> 0xFFFFFFFF" "\<not> invalid_keys keys kMaxPredicateKeyLen"
  shows "emits (encode_predicates keys n) (lay_keys keys)"
proof -
  have "emits (w_each_ok (\<lambda>k. w_str k kMaxPredicateKeyLen) (sort keys)) (concat (map lay_str (sort keys)))"
    using assms(3) by (intro emits_each_ok emits_str)
      (auto simp: invalid_keys_def list_ex_iff dest: is_valid_identifier_length)
  with assms(1,2) have "emits (w_counted (length (sort keys)) (w_each_ok (\<lambda>k. w_str k kMaxPredicateKeyLen) (sort keys)))
      (lay_keys keys)"
    unfolding lay_keys_def by (metis (no_types, lifting) emits_counted length_sort order_trans)
  then show ?thesis using assms(1) by (simp add: encode_predicates_def [abs_def] Let_def)
qed

subsection \<open>Reading the fields back\<close>

lemma r_optional_uint_codec [codec]:
  assumes "\<And>v pre xs. consume (rd pre (lay v @ xs)) = (v, rd (pre @ lay v) xs)"
  shows "decode_optional_uint consume (rd pre (lay_opt lay x @ xs)) = (Some x, rd (pre @ lay_opt lay x) xs)"
  using r_optional_codec [of x consume lay pre xs] assms by (simp add: decode_optional_uint_def)

lemmas r_optional_u64_codec [codec] = r_optional_uint_codec [OF r_u64_codec]
lemmas r_optional_u32_codec [codec] = r_optional_uint_codec [OF r_u32_codec]

lemma decode_enum_codec [codec]:
  "raw \<le> m \<Longrightarrow> decode_enum cast m (rd pre (lay_u8 raw @ xs)) = (Some (cast ! unat raw), rd (pre @ lay_u8 raw) xs)"
  by (simp add: decode_enum_def r_u8_codec)

lemma decode_identifier_codec [codec]:
  assumes "is_valid_identifier s n" "n \<le> 0xFFFFFFFF"
  shows "decode_identifier n (rd pre (lay_str s @ xs)) = (Inr s, rd (pre @ lay_str s) xs)"
  using assms is_valid_identifier_length [OF assms(1)] by (simp add: decode_identifier_def r_str_codec)

lemma decode_identifier_Inr: "decode_identifier n r = (Inr s, r') \<Longrightarrow> is_valid_identifier s n"
  by (auto simp: decode_identifier_def split: prod.splits if_splits)

lemma decode_provenance_codec [codec]:
  "provenance_ok p \<Longrightarrow> decode_provenance (rd pre (lay_prov p @ xs)) = (Some p, rd (pre @ lay_prov p) xs)"
  by (cases p)
    (simp add: decode_provenance_def lay_prov_def provenance_ok_def make_provenance_def codec limit_defs)

lemma decode_predicates_codec [codec]:
  assumes "length keys \<le> n" "n \<le> 0xFFFFFFFF" "\<not> invalid_keys keys kMaxPredicateKeyLen"
  shows "decode_predicates n (rd pre (lay_keys keys @ xs)) = (Inr (sort keys), rd (pre @ lay_keys keys) xs)"
proof -
  have k: "is_valid_identifier v kMaxPredicateKeyLen" if "v \<in> set (sort keys)" for v
    using assms(3) that by (auto simp: invalid_keys_def list_ex_iff)
  have "decode_times (length keys) (decode_identifier kMaxPredicateKeyLen) (rd p (concat (map lay_str (sort keys)) @ xs)) =
      (Inr (map (\<lambda>s. s) (sort keys)), rd (p @ concat (map lay_str (sort keys))) xs)" for p
    by (rule decode_times_codec, rule decode_identifier_codec, erule k)
      (simp_all add: kMaxPredicateKeyLen_def)
  then show ?thesis
    using assms by (simp add: decode_predicates_def lay_keys_def r_count_codec)
qed

lemma expect_header_codec [codec]:
  "expect_header tag (rd pre (lay_u16 tag @ lay_u16 kSchemaVersion @ xs)) =
     (Inr (), rd (pre @ lay_u16 tag @ lay_u16 kSchemaVersion) xs)"
  by (simp add: expect_header_def codec)

section \<open>Encoders\<close>

definition encode_class :: "qos_class \<Rightarrow> writer \<Rightarrow> writer" where
  "encode_class v = w_seq
    [w_u16 kTagQoSClass, w_u16 kSchemaVersion,
     w_str (qc_id v) kMaxIdentifierLen,
     w_u64 (qc_generation v),
     w_str (qc_label v) kMaxLabelLen,
     encode_optional_uint w_u64 (qc_min_rate_bps v),
     encode_optional_uint w_u64 (qc_max_rate_bps v),
     encode_optional_uint w_u64 (qc_peak_rate_bps v),
     encode_optional_uint w_u64 (qc_max_latency_us v),
     encode_optional_uint w_u64 (qc_max_jitter_us v),
     encode_optional_uint w_u32 (qc_max_loss_ppm v),
     encode_optional_uint w_u64 (qc_burst_bytes v),
     encode_optional_uint w_u64 (qc_burst_interval_us v),
     encode_optional_uint w_u64 (qc_min_mtu_bytes v),
     encode_enum (iso_rank (qc_isolation v)) 3,
     encode_enum (tm_rank (qc_treatment v)) 4,
     w_u32 (qc_min_priority_rank v),
     w_u32 (qc_min_disjoint_paths v),
     w_presence (qc_requires_reservation v),
     encode_predicates (qc_required_predicates v) kMaxRequiredPredicates,
     w_presence (qc_allow_degrade v),
     w_u32 (qc_degrade_max_relaxation_ppm v),
     encode_enum (vp_rank (qc_violation_policy v)) 2,
     w_u64 (qc_published_epoch v),
     encode_provenance (qc_provenance v)]"

definition encode_policy :: "policy \<Rightarrow> writer \<Rightarrow> writer" where
  "encode_policy v = w_seq
    [w_u16 kTagPolicy, w_u16 kSchemaVersion,
     w_str (po_id v) kMaxIdentifierLen,
     w_u64 (po_generation v),
     w_str (po_label v) kMaxLabelLen,
     w_presence (po_degrade_permitted v),
     w_u32 (po_max_relaxation_ppm v),
     w_u32 (po_max_stale_epochs v),
     w_u64 (po_capability_max_age_ms v),
     w_u32 (po_max_unknown_components v),
     encode_predicates (po_required_predicates v) kMaxRequiredPredicates,
     w_counted (length (po_denied_classes v))
       (w_each (\<lambda>i. w_str i kMaxIdentifierLen) (po_denied_classes v)),
     w_u64 (po_published_epoch v),
     encode_provenance (po_provenance v)]"

definition encode_component :: "path_component \<Rightarrow> writer \<Rightarrow> writer" where
  "encode_component c = w_seq
    [w_str (pc_resource c) kMaxIdentifierLen,
     w_u64 (pc_capability_generation c),
     w_str (pc_diversity_domain c) kMaxIdentifierLen,
     encode_enum (pr_rank (pc_role c)) 2]"

definition encode_path :: "path \<Rightarrow> writer \<Rightarrow> writer" where
  "encode_path v = w_seq
    [w_u16 kTagPath, w_u16 kSchemaVersion,
     w_str (pa_id v) kMaxIdentifierLen,
     w_u64 (pa_generation v),
     w_counted (length (pa_components v)) (w_each encode_component (pa_components v)),
     w_u64 (pa_fixed_latency_us v),
     w_u64 (pa_fixed_jitter_us v),
     w_u64 (pa_epoch v),
     encode_provenance (pa_provenance v)]"

definition encode_capability :: "resource_capability \<Rightarrow> writer \<Rightarrow> writer" where
  "encode_capability v = w_seq
    [w_u16 kTagCapability, w_u16 kSchemaVersion,
     w_str (ca_resource v) kMaxIdentifierLen,
     w_u64 (ca_generation v),
     w_u64 (ca_epoch v),
     w_str (ca_publisher v) kMaxIdentifierLen,
     w_u64 (ca_incarnation v),
     w_u64 (ca_published_at_ms v),
     w_u64 (ca_expires_at_ms v),
     encode_enum (cap_rank (ca_state v)) 3,
     encode_optional_uint w_u64 (ca_supported_rate_bps v),
     encode_optional_uint w_u64 (ca_latency_bound_us v),
     encode_optional_uint w_u64 (ca_jitter_bound_us v),
     encode_optional_uint w_u32 (ca_loss_ppm v),
     encode_optional_uint w_u64 (ca_max_burst_bytes v),
     encode_optional_uint w_u64 (ca_burst_window_us v),
     encode_optional_uint w_u64 (ca_mtu_bytes v),
     encode_enum (iso_rank (ca_max_isolation v)) 3,
     encode_enum (tm_rank (ca_max_treatment v)) 4,
     w_u32 (ca_max_priority_rank v),
     encode_predicates (ca_predicates v) kMaxCapabilityPredicates,
     w_str (ca_diversity_domain v) kMaxIdentifierLen,
     encode_provenance (ca_provenance v)]"

definition encode_reservation :: "reservation \<Rightarrow> writer \<Rightarrow> writer" where
  "encode_reservation v = w_seq
    [w_u16 kTagReservation, w_u16 kSchemaVersion,
     w_str (rs_resource v) kMaxIdentifierLen,
     w_u64 (rs_generation v),
     w_str (rs_class_id v) kMaxIdentifierLen,
     w_u64 (rs_class_generation v),
     w_u64 (rs_reserved_min_rate_bps v),
     w_u64 (rs_reserved_burst_bytes v),
     w_u64 (rs_epoch v),
     w_str (rs_publisher v) kMaxIdentifierLen,
     w_u64 (rs_incarnation v),
     w_u64 (rs_expires_at_ms v),
     encode_provenance (rs_provenance v)]"

definition encode_request :: "contract_request \<Rightarrow> writer \<Rightarrow> writer" where
  "encode_request v = w_seq
    [w_u16 kTagRequest, w_u16 kSchemaVersion,
     w_str (rq_contract v) kMaxIdentifierLen, w_u64 (rq_contract_generation v),
     w_str (rq_subject v) kMaxIdentifierLen, w_u64 (rq_subject_generation v),
     w_str (rq_class_id v) kMaxIdentifierLen, w_u64 (rq_class_generation v),
     w_str (rq_path v) kMaxIdentifierLen, w_u64 (rq_path_generation v),
     w_str (rq_policy v) kMaxIdentifierLen, w_u64 (rq_policy_generation v),
     w_str (rq_priority v) kMaxIdentifierLen, w_u64 (rq_priority_generation v),
     w_u64 (rq_observed_epoch v),
     w_u64 (rq_request_ms v),
     encode_provenance (rq_provenance v)]"

section \<open>Content digests\<close>

definition digest_of_writer :: "writer \<Rightarrow> digest256" where
  "digest_of_writer w = (if w_failed w then zero_digest else sha256 (w_buffer w))"

definition compute_class_digest :: "qos_class \<Rightarrow> digest256" where
  "compute_class_digest v = digest_of_writer (encode_class
     (v\<lparr>qc_digest := zero_digest, qc_published_epoch := 0, qc_provenance := empty_provenance\<rparr>)
     (new_writer kMaxCanonicalRecordBytes))"

definition compute_policy_digest :: "policy \<Rightarrow> digest256" where
  "compute_policy_digest v = digest_of_writer (encode_policy
     (v\<lparr>po_digest := zero_digest, po_published_epoch := 0, po_provenance := empty_provenance\<rparr>)
     (new_writer kMaxCanonicalRecordBytes))"

definition compute_path_digest :: "path \<Rightarrow> digest256" where
  "compute_path_digest v = digest_of_writer (encode_path
     (v\<lparr>pa_digest := zero_digest, pa_epoch := 0, pa_provenance := empty_provenance\<rparr>)
     (new_writer kMaxCanonicalRecordBytes))"

definition compute_capability_digest :: "resource_capability \<Rightarrow> digest256" where
  "compute_capability_digest v = digest_of_writer (encode_capability
     (v\<lparr>ca_digest := zero_digest, ca_epoch := 0, ca_published_at_ms := 0,
        ca_expires_at_ms := 0, ca_provenance := empty_provenance\<rparr>)
     (new_writer kMaxCanonicalRecordBytes))"

definition compute_reservation_digest :: "reservation \<Rightarrow> digest256" where
  "compute_reservation_digest v = digest_of_writer (encode_reservation
     (v\<lparr>rs_digest := zero_digest, rs_epoch := 0, rs_expires_at_ms := 0,
        rs_provenance := empty_provenance\<rparr>)
     (new_writer kMaxCanonicalRecordBytes))"

definition compute_request_digest :: "contract_request \<Rightarrow> digest256" where
  "compute_request_digest v =
     digest_of_writer (encode_request v (new_writer kMaxCanonicalRecordBytes))"

section \<open>Decoders\<close>

definition decode_class :: "reader \<Rightarrow> qos_class result \<times> reader" where
  "decode_class r =
     bindD (expect_header kTagQoSClass r) (\<lambda>_ r.
     bindD (decode_identifier kMaxIdentifierLen r) (\<lambda>id r.
     let (generation, r) = r_u64 r; (label, r) = r_str kMaxLabelLen r in
     bindD (need ''class numeric field malformed'' (decode_optional_uint r_u64 r)) (\<lambda>min_rate r.
     bindD (need ''class numeric field malformed'' (decode_optional_uint r_u64 r)) (\<lambda>max_rate r.
     bindD (need ''class numeric field malformed'' (decode_optional_uint r_u64 r)) (\<lambda>peak_rate r.
     bindD (need ''class numeric field malformed'' (decode_optional_uint r_u64 r)) (\<lambda>latency r.
     bindD (need ''class numeric field malformed'' (decode_optional_uint r_u64 r)) (\<lambda>jitter r.
     bindD (need ''class numeric field malformed'' (decode_optional_uint r_u32 r)) (\<lambda>loss r.
     bindD (need ''class numeric field malformed'' (decode_optional_uint r_u64 r)) (\<lambda>burst r.
     bindD (need ''class numeric field malformed'' (decode_optional_uint r_u64 r)) (\<lambda>interval r.
     bindD (need ''class numeric field malformed'' (decode_optional_uint r_u64 r)) (\<lambda>mtu r.
     bindD (need ''class enum field out of range'' (decode_enum all_iso 3 r)) (\<lambda>isolation r.
     bindD (need ''class enum field out of range'' (decode_enum all_tm 4 r)) (\<lambda>treatment r.
     let (rank, r) = r_u32 r; (disjoint, r) = r_u32 r; (reservation, r) = r_presence r in
     bindD (decode_predicates kMaxRequiredPredicates r) (\<lambda>predicates r.
     let (allow, r) = r_presence r; (relaxation, r) = r_u32 r in
     bindD (need ''violation policy out of range'' (decode_enum all_vp 2 r)) (\<lambda>violation r.
     let (epoch, r) = r_u64 r in
     bindD (need ''class provenance malformed'' (decode_provenance r)) (\<lambda>prov r.
     let v = \<lparr>qc_id = id, qc_generation = generation, qc_label = label,
           qc_min_rate_bps = min_rate, qc_max_rate_bps = max_rate, qc_peak_rate_bps = peak_rate,
           qc_max_latency_us = latency, qc_max_jitter_us = jitter, qc_max_loss_ppm = loss,
           qc_burst_bytes = burst, qc_burst_interval_us = interval, qc_min_mtu_bytes = mtu,
           qc_isolation = isolation, qc_treatment = treatment, qc_min_priority_rank = rank,
           qc_min_disjoint_paths = disjoint, qc_requires_reservation = reservation,
           qc_required_predicates = predicates, qc_allow_degrade = allow,
           qc_degrade_max_relaxation_ppm = relaxation, qc_violation_policy = violation,
           qc_published_epoch = epoch, qc_digest = zero_digest, qc_provenance = prov\<rparr>
     in finish_record ''class record truncated'' validate_class
          (v\<lparr>qc_digest := compute_class_digest v\<rparr>) r))))))))))))))))"

definition decode_policy :: "reader \<Rightarrow> policy result \<times> reader" where
  "decode_policy r =
     bindD (expect_header kTagPolicy r) (\<lambda>_ r.
     bindD (decode_identifier kMaxIdentifierLen r) (\<lambda>id r.
     let (generation, r) = r_u64 r; (label, r) = r_str kMaxLabelLen r;
         (permitted, r) = r_presence r; (relaxation, r) = r_u32 r; (stale, r) = r_u32 r;
         (age, r) = r_u64 r; (unknown, r) = r_u32 r in
     bindD (decode_predicates kMaxRequiredPredicates r) (\<lambda>predicates r.
     case r_count kMaxClassesRetained r of
       (None, r) \<Rightarrow> (Inl (make_error EC_TooLarge ''denied class list exceeds budget''), r)
     | (Some n, r) \<Rightarrow>
     bindD (decode_times n (decode_identifier kMaxIdentifierLen) r) (\<lambda>denied r.
     let (epoch, r) = r_u64 r in
     bindD (need ''policy provenance malformed'' (decode_provenance r)) (\<lambda>prov r.
     let v = \<lparr>po_id = id, po_generation = generation, po_label = label,
           po_degrade_permitted = permitted, po_max_relaxation_ppm = relaxation,
           po_max_stale_epochs = stale, po_capability_max_age_ms = age,
           po_max_unknown_components = unknown, po_required_predicates = predicates,
           po_denied_classes = denied, po_published_epoch = epoch, po_digest = zero_digest,
           po_provenance = prov\<rparr>
     in finish_record ''policy record truncated'' validate_policy
          (v\<lparr>po_digest := compute_policy_digest v\<rparr>) r)))))"

definition decode_component :: "reader \<Rightarrow> path_component result \<times> reader" where
  "decode_component r =
     bindD (decode_identifier kMaxIdentifierLen r) (\<lambda>resource r.
     let (generation, r) = r_u64 r in
     bindD (decode_identifier kMaxIdentifierLen r) (\<lambda>domain r.
     bindD (need ''path role out of range'' (decode_enum all_pr 2 r)) (\<lambda>role r.
     (Inr \<lparr>pc_resource = resource, pc_capability_generation = generation,
           pc_diversity_domain = domain, pc_role = role\<rparr>, r))))"

definition decode_path :: "reader \<Rightarrow> path result \<times> reader" where
  "decode_path r =
     bindD (expect_header kTagPath r) (\<lambda>_ r.
     bindD (decode_identifier kMaxIdentifierLen r) (\<lambda>id r.
     let (generation, r) = r_u64 r in
     case r_count kMaxPathComponents r of
       (None, r) \<Rightarrow> (Inl (make_error EC_TooLarge ''path component count exceeds budget''), r)
     | (Some n, r) \<Rightarrow>
     bindD (decode_times n decode_component r) (\<lambda>components r.
     let (latency, r) = r_u64 r; (jitter, r) = r_u64 r; (epoch, r) = r_u64 r in
     bindD (need ''path provenance malformed'' (decode_provenance r)) (\<lambda>prov r.
     let v = \<lparr>pa_id = id, pa_generation = generation, pa_components = components,
           pa_fixed_latency_us = latency, pa_fixed_jitter_us = jitter, pa_epoch = epoch,
           pa_digest = zero_digest, pa_provenance = prov\<rparr>
     in finish_record ''path record truncated'' validate_path
          (v\<lparr>pa_digest := compute_path_digest v\<rparr>) r))))"

definition decode_capability :: "reader \<Rightarrow> resource_capability result \<times> reader" where
  "decode_capability r =
     bindD (expect_header kTagCapability r) (\<lambda>_ r.
     bindD (decode_identifier kMaxIdentifierLen r) (\<lambda>resource r.
     let (generation, r) = r_u64 r; (epoch, r) = r_u64 r in
     bindD (decode_identifier kMaxIdentifierLen r) (\<lambda>publisher r.
     let (incarnation, r) = r_u64 r; (published, r) = r_u64 r; (expires, r) = r_u64 r in
     bindD (need ''capability state out of range'' (decode_enum all_cap 3 r)) (\<lambda>state r.
     bindD (need ''capability numeric field malformed'' (decode_optional_uint r_u64 r)) (\<lambda>rate r.
     bindD (need ''capability numeric field malformed'' (decode_optional_uint r_u64 r)) (\<lambda>latency r.
     bindD (need ''capability numeric field malformed'' (decode_optional_uint r_u64 r)) (\<lambda>jitter r.
     bindD (need ''capability numeric field malformed'' (decode_optional_uint r_u32 r)) (\<lambda>loss r.
     bindD (need ''capability numeric field malformed'' (decode_optional_uint r_u64 r)) (\<lambda>burst r.
     bindD (need ''capability numeric field malformed'' (decode_optional_uint r_u64 r)) (\<lambda>window r.
     bindD (need ''capability numeric field malformed'' (decode_optional_uint r_u64 r)) (\<lambda>mtu r.
     bindD (need ''capability enum field out of range'' (decode_enum all_iso 3 r)) (\<lambda>isolation r.
     bindD (need ''capability enum field out of range'' (decode_enum all_tm 4 r)) (\<lambda>treatment r.
     let (rank, r) = r_u32 r in
     bindD (decode_predicates kMaxCapabilityPredicates r) (\<lambda>predicates r.
     bindD (decode_identifier kMaxIdentifierLen r) (\<lambda>domain r.
     bindD (need ''capability provenance malformed'' (decode_provenance r)) (\<lambda>prov r.
     let v = \<lparr>ca_resource = resource, ca_generation = generation, ca_epoch = epoch,
           ca_publisher = publisher, ca_incarnation = incarnation,
           ca_published_at_ms = published, ca_expires_at_ms = expires, ca_state = state,
           ca_supported_rate_bps = rate, ca_latency_bound_us = latency,
           ca_jitter_bound_us = jitter, ca_loss_ppm = loss, ca_max_burst_bytes = burst,
           ca_burst_window_us = window, ca_mtu_bytes = mtu, ca_max_isolation = isolation,
           ca_max_treatment = treatment, ca_max_priority_rank = rank,
           ca_predicates = predicates, ca_diversity_domain = domain, ca_digest = zero_digest,
           ca_provenance = prov\<rparr>
     in finish_record ''capability record truncated'' validate_capability
          (v\<lparr>ca_digest := compute_capability_digest v\<rparr>) r))))))))))))))))"

definition decode_reservation :: "reader \<Rightarrow> reservation result \<times> reader" where
  "decode_reservation r =
     bindD (expect_header kTagReservation r) (\<lambda>_ r.
     bindD (decode_identifier kMaxIdentifierLen r) (\<lambda>resource r.
     let (generation, r) = r_u64 r in
     bindD (decode_identifier kMaxIdentifierLen r) (\<lambda>class_id r.
     let (class_generation, r) = r_u64 r; (rate, r) = r_u64 r; (burst, r) = r_u64 r;
         (epoch, r) = r_u64 r in
     bindD (decode_identifier kMaxIdentifierLen r) (\<lambda>publisher r.
     let (incarnation, r) = r_u64 r; (expires, r) = r_u64 r in
     bindD (need ''reservation provenance malformed'' (decode_provenance r)) (\<lambda>prov r.
     let v = \<lparr>rs_resource = resource, rs_generation = generation, rs_class_id = class_id,
           rs_class_generation = class_generation, rs_reserved_min_rate_bps = rate,
           rs_reserved_burst_bytes = burst, rs_epoch = epoch, rs_publisher = publisher,
           rs_incarnation = incarnation, rs_expires_at_ms = expires, rs_digest = zero_digest,
           rs_provenance = prov\<rparr>
     in finish_record ''reservation record truncated'' validate_reservation
          (v\<lparr>rs_digest := compute_reservation_digest v\<rparr>) r)))))"

text \<open>The six identifier/generation pairs of a request, in the order of \<open>text_fields\<close>.\<close>

definition decode_id_gen :: "reader \<Rightarrow> (string \<times> generation) result \<times> reader" where
  "decode_id_gen r =
     bindD (decode_identifier kMaxIdentifierLen r) (\<lambda>text r.
     let (generation, r) = r_u64 r in (Inr (text, generation), r))"

definition decode_request :: "reader \<Rightarrow> contract_request result \<times> reader" where
  "decode_request r =
     bindD (expect_header kTagRequest r) (\<lambda>_ r.
     bindD (decode_id_gen r) (\<lambda>contract r.
     bindD (decode_id_gen r) (\<lambda>subject r.
     bindD (decode_id_gen r) (\<lambda>cls r.
     bindD (decode_id_gen r) (\<lambda>pth r.
     bindD (decode_id_gen r) (\<lambda>pol r.
     bindD (decode_id_gen r) (\<lambda>prio r.
     let (epoch, r) = r_u64 r; (ms, r) = r_u64 r in
     bindD (need ''request provenance malformed'' (decode_provenance r)) (\<lambda>prov r.
     finish_record ''request record truncated'' validate_request
       \<lparr>rq_contract = fst contract, rq_contract_generation = snd contract,
        rq_subject = fst subject, rq_subject_generation = snd subject,
        rq_class_id = fst cls, rq_class_generation = snd cls, rq_path = fst pth,
        rq_path_generation = snd pth, rq_policy = fst pol, rq_policy_generation = snd pol,
        rq_priority = fst prio, rq_priority_generation = snd prio,
        rq_observed_epoch = epoch, rq_request_ms = ms, rq_provenance = prov\<rparr> r))))))))"

section \<open>Layouts and laws\<close>

lemma valid_len [simp]: "is_valid_identifier s n \<Longrightarrow> length s \<le> n"
  by (auto dest: is_valid_identifier_length)

lemma limits_u32 [simp]:
  "kMaxIdentifierLen \<le> 0xFFFFFFFF" "kMaxPredicateKeyLen \<le> 0xFFFFFFFF"
  "kMaxRequiredPredicates \<le> 0xFFFFFFFF" "kMaxCapabilityPredicates \<le> 0xFFFFFFFF"
  "length s \<le> kMaxLabelLen \<Longrightarrow> length s \<le> 0xFFFFFFFF"
  "length s \<le> kMaxClassesRetained \<Longrightarrow> length s \<le> 0xFFFFFFFF"
  "length s \<le> kMaxPathComponents \<Longrightarrow> length s \<le> 0xFFFFFFFF"
  by (simp_all add: limit_defs)

lemma finish_record_ok [simp]:
  "valid v = Inr () \<Longrightarrow> finish_record d valid v (rd pre xs) = (Inr v, rd pre xs)"
  by (simp add: finish_record_def)

lemma encode_predicates_sort [simp]: "encode_predicates (sort keys) n = encode_predicates keys n"
  by (rule ext) (simp add: encode_predicates_def Let_def sort_key_id_if_sorted)

lemma invalid_keys_sort [simp]: "invalid_keys (sort keys) n = invalid_keys keys n"
  by (simp add: invalid_keys_def list_ex_iff)

lemma has_duplicate_predicates_sort [simp]:
  "has_duplicate_predicates (sort keys) = has_duplicate_predicates keys"
  by (simp add: has_duplicate_predicates_iff)

subsection \<open>Classes\<close>

definition lay_class :: "qos_class \<Rightarrow> bytes" where
  "lay_class v = concat
    [lay_u16 kTagQoSClass, lay_u16 kSchemaVersion, lay_str (qc_id v), lay_u64 (qc_generation v),
     lay_str (qc_label v), lay_opt lay_u64 (qc_min_rate_bps v), lay_opt lay_u64 (qc_max_rate_bps v),
     lay_opt lay_u64 (qc_peak_rate_bps v), lay_opt lay_u64 (qc_max_latency_us v),
     lay_opt lay_u64 (qc_max_jitter_us v), lay_opt lay_u32 (qc_max_loss_ppm v),
     lay_opt lay_u64 (qc_burst_bytes v), lay_opt lay_u64 (qc_burst_interval_us v),
     lay_opt lay_u64 (qc_min_mtu_bytes v), lay_u8 (iso_rank (qc_isolation v)),
     lay_u8 (tm_rank (qc_treatment v)), lay_u32 (qc_min_priority_rank v),
     lay_u32 (qc_min_disjoint_paths v), lay_bool (qc_requires_reservation v),
     lay_keys (qc_required_predicates v), lay_bool (qc_allow_degrade v),
     lay_u32 (qc_degrade_max_relaxation_ppm v), lay_u8 (vp_rank (qc_violation_policy v)),
     lay_u64 (qc_published_epoch v), lay_prov (qc_provenance v)]"

definition class_ok :: "qos_class \<Rightarrow> bool" where
  "class_ok v \<longleftrightarrow> validate_class v = Inr () \<and> provenance_ok (qc_provenance v)"

definition canon_class :: "qos_class \<Rightarrow> qos_class" where
  "canon_class v = v\<lparr>qc_required_predicates := sort (qc_required_predicates v),
     qc_digest := compute_class_digest v\<rparr>"

lemma class_okD:
  assumes "class_ok v"
  shows "is_valid (qc_id v)" "length (qc_label v) \<le> kMaxLabelLen"
    "length (qc_required_predicates v) \<le> kMaxRequiredPredicates"
    "\<not> invalid_keys (qc_required_predicates v) kMaxPredicateKeyLen"
    "provenance_ok (qc_provenance v)"
  using assms by (auto simp: class_ok_def validate_class_def bind_iff)

lemma class_emits: "class_ok v \<Longrightarrow> emits (encode_class v) (lay_class v)"
  unfolding encode_class_def lay_class_def
  by (rule emits_fields) (simp add: writes_intros class_okD)

lemma validate_class_canon: "validate_class v = Inr () \<Longrightarrow> validate_class (canon_class v) = Inr ()"
  by (simp add: validate_class_def canon_class_def bind_iff)

lemma class_digest_canon: 
  "compute_class_digest (v\<lparr>qc_required_predicates := sort (qc_required_predicates v), qc_digest := d\<rparr>) =
   compute_class_digest v"
  by (simp add: compute_class_digest_def encode_class_def)

lemma decode_class_lay:
  assumes "class_ok v"
  shows "decode_class (rd pre (lay_class v @ xs)) = (Inr (canon_class v), rd (pre @ lay_class v) xs)"
proof -
  have d: "compute_class_digest (v\<lparr>qc_required_predicates := sort (qc_required_predicates v), qc_digest := zero_digest\<rparr>) =
      compute_class_digest v" by (rule class_digest_canon)
  have c: "validate_class (canon_class v) = Inr ()"
    using assms by (simp add: class_ok_def validate_class_canon)
  note k = class_okD [OF assms]
  show ?thesis
    using k d c by (cases v) (simp add: decode_class_def lay_class_def codec canon_class_def)
qed

interpretation class_codec: codec encode_class decode_class lay_class class_ok canon_class
proof
  show "safe_read decode_class"
    unfolding decode_class_def [abs_def] by (intro safe_intros)
qed (rule class_emits decode_class_lay; assumption)+

subsection \<open>Policies\<close>

definition lay_policy :: "policy \<Rightarrow> bytes" where
  "lay_policy v = concat
    [lay_u16 kTagPolicy, lay_u16 kSchemaVersion, lay_str (po_id v), lay_u64 (po_generation v),
     lay_str (po_label v), lay_bool (po_degrade_permitted v), lay_u32 (po_max_relaxation_ppm v),
     lay_u32 (po_max_stale_epochs v), lay_u64 (po_capability_max_age_ms v),
     lay_u32 (po_max_unknown_components v), lay_keys (po_required_predicates v),
     lay_u32 (word_of_nat (length (po_denied_classes v))) @
       concat (map lay_str (po_denied_classes v)),
     lay_u64 (po_published_epoch v), lay_prov (po_provenance v)]"

definition policy_ok :: "policy \<Rightarrow> bool" where
  "policy_ok v \<longleftrightarrow> validate_policy v = Inr () \<and> provenance_ok (po_provenance v)"

definition canon_policy :: "policy \<Rightarrow> policy" where
  "canon_policy v = v\<lparr>po_required_predicates := sort (po_required_predicates v),
     po_digest := compute_policy_digest v\<rparr>"

lemma policy_okD:
  assumes "policy_ok v"
  shows "is_valid (po_id v)" "length (po_label v) \<le> kMaxLabelLen"
    "length (po_required_predicates v) \<le> kMaxRequiredPredicates"
    "\<not> invalid_keys (po_required_predicates v) kMaxPredicateKeyLen"
    "length (po_denied_classes v) \<le> kMaxClassesRetained"
    "\<And>i. i \<in> set (po_denied_classes v) \<Longrightarrow> is_valid i"
    "provenance_ok (po_provenance v)"
  using assms by (auto simp: policy_ok_def validate_policy_def invalid_keys_def list_ex_iff bind_iff)

lemma policy_emits: "policy_ok v \<Longrightarrow> emits (encode_policy v) (lay_policy v)"
  unfolding encode_policy_def lay_policy_def
  by (rule emits_fields) (simp add: writes_intros policy_okD emits_each)

lemma decode_policy_lay:
  assumes "policy_ok v"
  shows "decode_policy (rd pre (lay_policy v @ xs)) = (Inr (canon_policy v), rd (pre @ lay_policy v) xs)"
proof -
  have d: "compute_policy_digest (v\<lparr>po_required_predicates := sort (po_required_predicates v), po_digest := zero_digest\<rparr>) =
      compute_policy_digest v" by (simp add: compute_policy_digest_def encode_policy_def)
  have c: "validate_policy (canon_policy v) = Inr ()"
    using assms by (simp add: policy_ok_def validate_policy_def canon_policy_def bind_iff)
  have t: "decode_times (length (po_denied_classes v)) (decode_identifier kMaxIdentifierLen)
      (rd p (concat (map lay_str (po_denied_classes v)) @ q)) =
      (Inr (map (\<lambda>i. i) (po_denied_classes v)), rd (p @ concat (map lay_str (po_denied_classes v))) q)" for p q
    by (rule decode_times_codec) (simp_all add: codec policy_okD [OF assms])
  note k = policy_okD [OF assms]
  show ?thesis
    using k d c t by (cases v) (simp add: decode_policy_def lay_policy_def codec canon_policy_def)
qed

interpretation policy_codec: codec encode_policy decode_policy lay_policy policy_ok canon_policy
proof
  show "safe_read decode_policy"
    unfolding decode_policy_def [abs_def] by (intro safe_intros)
qed (rule policy_emits decode_policy_lay; assumption)+

subsection \<open>Paths\<close>

definition lay_component :: "path_component \<Rightarrow> bytes" where
  "lay_component c = concat [lay_str (pc_resource c), lay_u64 (pc_capability_generation c),
     lay_str (pc_diversity_domain c), lay_u8 (pr_rank (pc_role c))]"

definition component_ok :: "path_component \<Rightarrow> bool" where
  "component_ok c \<longleftrightarrow> is_valid (pc_resource c) \<and> is_valid (pc_diversity_domain c)"

interpretation component_codec:
  codec encode_component decode_component lay_component component_ok "\<lambda>c. c"
proof
  show "component_ok c \<Longrightarrow> emits (encode_component c) (lay_component c)" for c
    unfolding encode_component_def lay_component_def
    by (rule emits_fields) (simp add: writes_intros component_ok_def)
  show "component_ok c \<Longrightarrow> decode_component (rd pre (lay_component c @ xs)) =
      (Inr c, rd (pre @ lay_component c) xs)" for c pre xs
    by (cases c) (simp add: decode_component_def lay_component_def component_ok_def codec)
  show "safe_read decode_component"
    unfolding decode_component_def [abs_def] by (intro safe_intros)
qed

definition lay_path :: "path \<Rightarrow> bytes" where
  "lay_path v = concat
    [lay_u16 kTagPath, lay_u16 kSchemaVersion, lay_str (pa_id v), lay_u64 (pa_generation v),
     lay_u32 (word_of_nat (length (pa_components v))) @ concat (map lay_component (pa_components v)),
     lay_u64 (pa_fixed_latency_us v), lay_u64 (pa_fixed_jitter_us v), lay_u64 (pa_epoch v),
     lay_prov (pa_provenance v)]"

definition path_ok :: "path \<Rightarrow> bool" where
  "path_ok v \<longleftrightarrow> validate_path v = Inr () \<and> provenance_ok (pa_provenance v)"

definition canon_path :: "path \<Rightarrow> path" where
  "canon_path v = v\<lparr>pa_digest := compute_path_digest v\<rparr>"

lemma path_okD:
  assumes "path_ok v"
  shows "is_valid (pa_id v)" "length (pa_components v) \<le> kMaxPathComponents"
    "list_all component_ok (pa_components v)" "provenance_ok (pa_provenance v)"
  using assms
  by (auto simp: path_ok_def validate_path_def bind_iff validate_components_ok component_ok_def
      list_all_iff)

lemma path_emits: "path_ok v \<Longrightarrow> emits (encode_path v) (lay_path v)"
  unfolding encode_path_def lay_path_def
  by (rule emits_fields)
    (use path_okD [of v] in \<open>simp add: writes_intros list_all_iff emits_each component_codec.enc_emits\<close>)

lemma decode_path_lay:
  assumes "path_ok v"
  shows "decode_path (rd pre (lay_path v @ xs)) = (Inr (canon_path v), rd (pre @ lay_path v) xs)"
proof -
  have d: "compute_path_digest (v\<lparr>pa_digest := zero_digest\<rparr>) = compute_path_digest v"
    by (simp add: compute_path_digest_def encode_path_def)
  have c: "validate_path (canon_path v) = Inr ()"
    using assms by (simp add: path_ok_def validate_path_def canon_path_def)
  note k = path_okD [OF assms]
  show ?thesis
    using k d c by (cases v)
      (simp add: decode_path_def lay_path_def codec canon_path_def component_codec.table_lay)
qed

interpretation path_codec: codec encode_path decode_path lay_path path_ok canon_path
proof
  show "safe_read decode_path"
    unfolding decode_path_def [abs_def]
    by (intro safe_intros component_codec.dec_safe)
qed (rule path_emits decode_path_lay; assumption)+

subsection \<open>Capabilities\<close>

definition lay_capability :: "resource_capability \<Rightarrow> bytes" where
  "lay_capability v = concat
    [lay_u16 kTagCapability, lay_u16 kSchemaVersion, lay_str (ca_resource v),
     lay_u64 (ca_generation v), lay_u64 (ca_epoch v), lay_str (ca_publisher v),
     lay_u64 (ca_incarnation v), lay_u64 (ca_published_at_ms v), lay_u64 (ca_expires_at_ms v),
     lay_u8 (cap_rank (ca_state v)), lay_opt lay_u64 (ca_supported_rate_bps v),
     lay_opt lay_u64 (ca_latency_bound_us v), lay_opt lay_u64 (ca_jitter_bound_us v),
     lay_opt lay_u32 (ca_loss_ppm v), lay_opt lay_u64 (ca_max_burst_bytes v),
     lay_opt lay_u64 (ca_burst_window_us v), lay_opt lay_u64 (ca_mtu_bytes v),
     lay_u8 (iso_rank (ca_max_isolation v)), lay_u8 (tm_rank (ca_max_treatment v)),
     lay_u32 (ca_max_priority_rank v), lay_keys (ca_predicates v),
     lay_str (ca_diversity_domain v), lay_prov (ca_provenance v)]"

text \<open>
  \<open>validate\<close> also admits an unavailable resource with an empty diversity domain; the
  encoder writes it and \<open>decode_identifier\<close> refuses it. \<open>capability_ok\<close> excludes it.
\<close>

definition capability_ok :: "resource_capability \<Rightarrow> bool" where
  "capability_ok v \<longleftrightarrow> validate_capability v = Inr () \<and> ca_diversity_domain v \<noteq> [] \<and>
     provenance_ok (ca_provenance v)"

definition canon_capability :: "resource_capability \<Rightarrow> resource_capability" where
  "canon_capability v = v\<lparr>ca_predicates := sort (ca_predicates v),
     ca_digest := compute_capability_digest v\<rparr>"

lemma capability_okD:
  assumes "capability_ok v"
  shows "is_valid (ca_resource v)" "is_valid (ca_publisher v)"
    "length (ca_predicates v) \<le> kMaxCapabilityPredicates"
    "\<not> invalid_keys (ca_predicates v) kMaxPredicateKeyLen"
    "is_valid (ca_diversity_domain v)" "provenance_ok (ca_provenance v)"
  using assms by (auto simp: capability_ok_def validate_capability_def bind_iff)

lemma capability_emits: "capability_ok v \<Longrightarrow> emits (encode_capability v) (lay_capability v)"
  unfolding encode_capability_def lay_capability_def
  by (rule emits_fields) (simp add: writes_intros capability_okD)

lemma capability_digest_sort:
  "compute_capability_digest (v\<lparr>ca_predicates := sort (ca_predicates v), ca_digest := d\<rparr>) =
   compute_capability_digest v"
  by (simp add: compute_capability_digest_def encode_capability_def)

lemma decode_capability_lay:
  assumes "capability_ok v"
  shows "decode_capability (rd pre (lay_capability v @ xs)) =
    (Inr (canon_capability v), rd (pre @ lay_capability v) xs)"
proof -
  note d = capability_digest_sort [where v = v and d = zero_digest]
  have c: "validate_capability (canon_capability v) = Inr ()"
    using assms by (auto simp: capability_ok_def validate_capability_def canon_capability_def bind_iff)
  note k = capability_okD [OF assms]
  show ?thesis
    using k d c by (cases v)
      (simp add: decode_capability_def lay_capability_def codec canon_capability_def)
qed

interpretation capability_codec:
  codec encode_capability decode_capability lay_capability capability_ok canon_capability
proof
  show "safe_read decode_capability"
    unfolding decode_capability_def [abs_def] by (intro safe_intros)
qed (rule capability_emits decode_capability_lay; assumption)+

subsection \<open>Reservations and requests\<close>

definition lay_reservation :: "reservation \<Rightarrow> bytes" where
  "lay_reservation v = concat
    [lay_u16 kTagReservation, lay_u16 kSchemaVersion, lay_str (rs_resource v),
     lay_u64 (rs_generation v), lay_str (rs_class_id v), lay_u64 (rs_class_generation v),
     lay_u64 (rs_reserved_min_rate_bps v), lay_u64 (rs_reserved_burst_bytes v),
     lay_u64 (rs_epoch v), lay_str (rs_publisher v), lay_u64 (rs_incarnation v),
     lay_u64 (rs_expires_at_ms v), lay_prov (rs_provenance v)]"

definition reservation_ok :: "reservation \<Rightarrow> bool" where
  "reservation_ok v \<longleftrightarrow> validate_reservation v = Inr () \<and> provenance_ok (rs_provenance v)"

definition canon_reservation :: "reservation \<Rightarrow> reservation" where
  "canon_reservation v = v\<lparr>rs_digest := compute_reservation_digest v\<rparr>"

lemma reservation_okD:
  assumes "reservation_ok v"
  shows "is_valid (rs_resource v)" "is_valid (rs_class_id v)" "is_valid (rs_publisher v)"
    "provenance_ok (rs_provenance v)"
  using assms by (auto simp: reservation_ok_def validate_reservation_def bind_iff)

interpretation reservation_codec:
  codec encode_reservation decode_reservation lay_reservation reservation_ok canon_reservation
proof
  show "reservation_ok v \<Longrightarrow> emits (encode_reservation v) (lay_reservation v)" for v
    unfolding encode_reservation_def lay_reservation_def
    by (rule emits_fields) (simp add: writes_intros reservation_okD)
  show "decode_reservation (rd pre (lay_reservation v @ xs)) =
      (Inr (canon_reservation v), rd (pre @ lay_reservation v) xs)" if "reservation_ok v" for v pre xs
  proof -
    have d: "compute_reservation_digest (v\<lparr>rs_digest := zero_digest\<rparr>) = compute_reservation_digest v"
      by (simp add: compute_reservation_digest_def encode_reservation_def)
    have c: "validate_reservation (canon_reservation v) = Inr ()"
      using that by (simp add: reservation_ok_def validate_reservation_def canon_reservation_def bind_iff)
    show ?thesis
      using reservation_okD [OF that] d c by (cases v)
        (simp add: decode_reservation_def lay_reservation_def codec canon_reservation_def)
  qed
  show "safe_read decode_reservation"
    unfolding decode_reservation_def [abs_def] by (intro safe_intros)
qed

definition lay_request :: "contract_request \<Rightarrow> bytes" where
  "lay_request v = concat
    [lay_u16 kTagRequest, lay_u16 kSchemaVersion,
     lay_str (rq_contract v), lay_u64 (rq_contract_generation v),
     lay_str (rq_subject v), lay_u64 (rq_subject_generation v),
     lay_str (rq_class_id v), lay_u64 (rq_class_generation v),
     lay_str (rq_path v), lay_u64 (rq_path_generation v),
     lay_str (rq_policy v), lay_u64 (rq_policy_generation v),
     lay_str (rq_priority v), lay_u64 (rq_priority_generation v),
     lay_u64 (rq_observed_epoch v), lay_u64 (rq_request_ms v), lay_prov (rq_provenance v)]"

definition request_ok :: "contract_request \<Rightarrow> bool" where
  "request_ok v \<longleftrightarrow> validate_request v = Inr () \<and> provenance_ok (rq_provenance v)"

lemma request_okD:
  assumes "request_ok v"
  shows "is_valid (rq_contract v)" "is_valid (rq_subject v)" "is_valid (rq_class_id v)"
    "is_valid (rq_path v)" "is_valid (rq_policy v)" "is_valid (rq_priority v)"
    "provenance_ok (rq_provenance v)"
  using assms by (auto simp: request_ok_def validate_request_def bind_iff)

lemma decode_id_gen_codec:
  "is_valid s \<Longrightarrow> decode_id_gen (rd pre (lay_str s @ lay_u64 g @ xs)) =
     (Inr (s, g), rd (pre @ lay_str s @ lay_u64 g) xs)"
  by (simp add: decode_id_gen_def codec)

interpretation request_codec:
  codec encode_request decode_request lay_request request_ok "\<lambda>v. v"
proof
  show "request_ok v \<Longrightarrow> emits (encode_request v) (lay_request v)" for v
    unfolding encode_request_def lay_request_def
    by (rule emits_fields) (simp add: writes_intros request_okD)
  show "decode_request (rd pre (lay_request v @ xs)) = (Inr v, rd (pre @ lay_request v) xs)"
    if "request_ok v" for v pre xs
  proof -
    have c: "validate_request v = Inr ()" using that by (simp add: request_ok_def)
    show ?thesis
      using request_okD [OF that] c by (cases v)
        (simp add: decode_request_def lay_request_def codec decode_id_gen_codec)
  qed
  show "safe_read decode_request"
    unfolding decode_request_def [abs_def] decode_id_gen_def [abs_def] by (intro safe_intros)
qed

section \<open>Every valid record fits the record budget\<close>

lemma length_concat_le:
  "(\<And>x. x \<in> set xs \<Longrightarrow> length (f x) \<le> n) \<Longrightarrow> length (concat (map f xs)) \<le> length xs * n"
  by (induction xs) (auto intro: add_mono)

lemma length_lay_opt: "(\<And>v. length (f v) \<le> n) \<Longrightarrow> length (lay_opt f x) \<le> Suc n"
  by (cases x) (simp_all add: lay_opt_def)

lemma length_lay_opt_word: "length (lay_opt lay_u64 x) \<le> 9" "length (lay_opt lay_u32 y) \<le> 5"
  using length_lay_opt [of lay_u64 8 x] length_lay_opt [of lay_u32 4 y] by simp_all

lemma length_lay_prov: "provenance_ok p \<Longrightarrow> length (lay_prov p) \<le> 156"
  by (simp add: lay_prov_def provenance_ok_def kMaxOriginLen_def)

lemma length_lay_keys:
  assumes "length ks \<le> 64" "\<not> invalid_keys ks kMaxPredicateKeyLen"
  shows "length (lay_keys ks) \<le> 4356"
proof -
  have "length (lay_str k) \<le> 68" if "k \<in> set (sort ks)" for k
    using assms(2) that is_valid_identifier_length [of k kMaxPredicateKeyLen]
    by (auto simp: invalid_keys_def list_ex_iff kMaxPredicateKeyLen_def)
  then have "length (concat (map lay_str (sort ks))) \<le> length (sort ks) * 68" by (rule length_concat_le)
  with assms(1) show ?thesis by (simp add: lay_keys_def)
qed

lemma length_valid: "is_valid s \<Longrightarrow> length s \<le> 96"
  using is_valid_identifier_length [of s kMaxIdentifierLen] by (simp add: kMaxIdentifierLen_def)

lemma class_fits: "class_ok v \<Longrightarrow> length (lay_class v) \<le> kMaxCanonicalRecordBytes"
  using class_okD [of v] length_lay_keys [of "qc_required_predicates v"] length_valid [of "qc_id v"]
    length_lay_prov [of "qc_provenance v"] length_lay_opt_word(2) [of "qc_max_loss_ppm v"]
    length_lay_opt_word(1) [of "qc_min_rate_bps v"] length_lay_opt_word(1) [of "qc_max_rate_bps v"]
    length_lay_opt_word(1) [of "qc_peak_rate_bps v"] length_lay_opt_word(1) [of "qc_max_latency_us v"]
    length_lay_opt_word(1) [of "qc_max_jitter_us v"] length_lay_opt_word(1) [of "qc_burst_bytes v"]
    length_lay_opt_word(1) [of "qc_burst_interval_us v"] length_lay_opt_word(1) [of "qc_min_mtu_bytes v"]
  by (simp add: lay_class_def kMaxCanonicalRecordBytes_def kMaxLabelLen_def kMaxRequiredPredicates_def)

lemma path_fits:
  assumes "path_ok v" shows "length (lay_path v) \<le> kMaxCanonicalRecordBytes"
proof -
  have "length (lay_component c) \<le> 209" if "c \<in> set (pa_components v)" for c
    using path_okD(3) [OF assms] that length_valid [of "pc_resource c"] length_valid [of "pc_diversity_domain c"]
    by (auto simp: list_all_iff component_ok_def lay_component_def)
  then have "length (concat (map lay_component (pa_components v))) \<le> length (pa_components v) * 209"
    by (rule length_concat_le)
  with path_okD [OF assms] length_valid [of "pa_id v"] length_lay_prov [of "pa_provenance v"] show ?thesis
    by (simp add: lay_path_def kMaxCanonicalRecordBytes_def kMaxPathComponents_def)
qed

lemma capability_fits: "capability_ok v \<Longrightarrow> length (lay_capability v) \<le> kMaxCanonicalRecordBytes"
  using capability_okD [of v] length_lay_keys [of "ca_predicates v"] length_valid [of "ca_resource v"]
    length_valid [of "ca_publisher v"] length_valid [of "ca_diversity_domain v"]
    length_lay_prov [of "ca_provenance v"] length_lay_opt_word(2) [of "ca_loss_ppm v"]
    length_lay_opt_word(1) [of "ca_supported_rate_bps v"] length_lay_opt_word(1) [of "ca_latency_bound_us v"]
    length_lay_opt_word(1) [of "ca_jitter_bound_us v"] length_lay_opt_word(1) [of "ca_max_burst_bytes v"]
    length_lay_opt_word(1) [of "ca_burst_window_us v"] length_lay_opt_word(1) [of "ca_mtu_bytes v"]
  by (simp add: lay_capability_def kMaxCanonicalRecordBytes_def kMaxCapabilityPredicates_def)

lemma request_fits: "request_ok v \<Longrightarrow> length (lay_request v) \<le> kMaxCanonicalRecordBytes"
  using request_okD [of v] length_valid [of "rq_contract v"] length_valid [of "rq_subject v"]
    length_valid [of "rq_class_id v"] length_valid [of "rq_path v"] length_valid [of "rq_policy v"]
    length_valid [of "rq_priority v"] length_lay_prov [of "rq_provenance v"]
  by (simp add: lay_request_def kMaxCanonicalRecordBytes_def)

lemma policy_fits:
  assumes "policy_ok v" shows "length (lay_policy v) \<le> kMaxCanonicalRecordBytes"
proof -
  have "length (lay_str s) \<le> 100" if "s \<in> set (po_denied_classes v)" for s
    using policy_okD(6) [OF assms, of s] that length_valid [of s] by simp
  then have "length (concat (map lay_str (po_denied_classes v))) \<le> length (po_denied_classes v) * 100"
    by (rule length_concat_le)
  with policy_okD(1-5,7) [OF assms] length_lay_keys [of "po_required_predicates v"] length_valid [of "po_id v"]
    length_lay_prov [of "po_provenance v"] show ?thesis
    by (simp add: lay_policy_def kMaxCanonicalRecordBytes_def kMaxLabelLen_def kMaxRequiredPredicates_def
        kMaxClassesRetained_def)
qed

lemma reservation_fits: "reservation_ok v \<Longrightarrow> length (lay_reservation v) \<le> kMaxCanonicalRecordBytes"
  using reservation_okD [of v] length_valid [of "rs_resource v"] length_valid [of "rs_class_id v"]
    length_valid [of "rs_publisher v"] length_lay_prov [of "rs_provenance v"]
  by (simp add: lay_reservation_def kMaxCanonicalRecordBytes_def)

section \<open>Checksummed blocks\<close>

text \<open>
  A length, the CRC-32C of a payload and the payload: the layout of a wire frame and of a log
  frame. Whatever byte behind the length changes, the block still has the length it declares and
  a checksum that does not match.
\<close>

definition lay_block :: "bytes \<Rightarrow> bytes" where
  "lay_block p = lay_u32 (word_of_nat (length p)) @ lay_u32 (crc32c p) @ p"

lemma length_lay_block [simp]: "length (lay_block p) = 8 + length p"
  by (simp add: lay_block_def)

lemma lay_block_damaged:
  assumes "4 \<le> i" and "i < length (lay_block p)" and "b \<noteq> lay_block p ! i"
  obtains c q where "(lay_block p)[i := b] = lay_u32 (word_of_nat (length p)) @ lay_u32 c @ q"
    "length q = length p" "crc32c q \<noteq> c"
proof (cases "i < 8")
  case True
  let ?c = "(lay_u32 (crc32c p))[i - 4 := b]"
  obtain c where c: "?c = lay_u32 c" using lay_u32_ex [of ?c] by auto
  have j: "i - 4 < 4" using assms(1) True by simp
  have "(lay_block p)[i := b] = lay_u32 (word_of_nat (length p)) @ lay_u32 c @ p"
    using assms(1) j c by (simp add: lay_block_def list_update_append)
  moreover have "crc32c p \<noteq> c"
  proof
    assume "crc32c p = c"
    moreover have "?c ! (i - 4) = b" using j by simp
    ultimately have "lay_u32 (crc32c p) ! (i - 4) = b" using c by simp
    with assms(1,3) True j show False by (simp add: lay_block_def nth_append)
  qed
  ultimately show thesis using that [of c p] by simp
next
  case False
  let ?q = "p[i - 8 := b]"
  have i: "i - 8 < length p" using assms(2) False by simp
  have j: "\<not> i < 4" "\<not> i - 4 < 4" "i - 4 - 4 = i - 8" using False by simp_all
  then have "(lay_block p)[i := b] = lay_u32 (word_of_nat (length p)) @ lay_u32 (crc32c p) @ ?q"
    by (simp add: lay_block_def list_update_append)
  moreover have "b \<noteq> p ! (i - 8)" using assms(3) j by (simp add: lay_block_def nth_append)
  with crc32c_byte_change [OF this] id_take_nth_drop [OF i] upd_conv_take_nth_drop [OF i]
  have "crc32c ?q \<noteq> crc32c p" by metis
  ultimately show thesis using that [of "crc32c p" ?q] by simp
qed

end
