(* ===== verification/Decision.thy ===== *)
theory Decision
  imports Model_Codec
begin

text \<open>
  The decision surface: \<open>include/qosfabric/decision.hpp\<close> and \<open>src/decision.cpp\<close>. Outcomes
  and their precedence, the assessments a decision is made of, its canonical encoding and
  decoding, and the bounded explanation.
\<close>

section \<open>Outcomes and statuses\<close>

datatype outcome =
    O_Supported | O_SupportedDegraded | O_Unknown | O_Unsupported | O_Stale | O_Conflict
  | O_Rejected

datatype obligation_status =
    OS_Satisfied | OS_Degraded | OS_Violated | OS_Unknown | OS_Unavailable | OS_Stale
  | OS_NotApplicable

datatype component_status =
    CStat_Satisfied | CStat_Degraded | CStat_Unknown | CStat_Unavailable | CStat_Violated
  | CStat_Stale

datatype dimension =
    Dim_Class | Dim_Subject | Dim_Path | Dim_Policy | Dim_Priority | Dim_Capability
  | Dim_Reservation | Dim_FabricEpoch | Dim_Count

datatype conflict_scope =
    Scope_Class | Scope_Policy | Scope_Path | Scope_Capability | Scope_Reservation | Scope_Count

primrec outcome_rank :: "outcome \<Rightarrow> u8" where
  "outcome_rank O_Supported = 0" | "outcome_rank O_SupportedDegraded = 1"
| "outcome_rank O_Unknown = 2" | "outcome_rank O_Unsupported = 3" | "outcome_rank O_Stale = 4"
| "outcome_rank O_Conflict = 5" | "outcome_rank O_Rejected = 6"

primrec status_rank :: "obligation_status \<Rightarrow> u8" where
  "status_rank OS_Satisfied = 0" | "status_rank OS_Degraded = 1" | "status_rank OS_Violated = 2"
| "status_rank OS_Unknown = 3" | "status_rank OS_Unavailable = 4" | "status_rank OS_Stale = 5"
| "status_rank OS_NotApplicable = 6"

primrec cstat_rank :: "component_status \<Rightarrow> u8" where
  "cstat_rank CStat_Satisfied = 0" | "cstat_rank CStat_Degraded = 1"
| "cstat_rank CStat_Unknown = 2" | "cstat_rank CStat_Unavailable = 3"
| "cstat_rank CStat_Violated = 4" | "cstat_rank CStat_Stale = 5"

primrec dim_rank :: "dimension \<Rightarrow> u8" where
  "dim_rank Dim_Class = 0" | "dim_rank Dim_Subject = 1" | "dim_rank Dim_Path = 2"
| "dim_rank Dim_Policy = 3" | "dim_rank Dim_Priority = 4" | "dim_rank Dim_Capability = 5"
| "dim_rank Dim_Reservation = 6" | "dim_rank Dim_FabricEpoch = 7" | "dim_rank Dim_Count = 8"

primrec scope_rank :: "conflict_scope \<Rightarrow> u8" where
  "scope_rank Scope_Class = 0" | "scope_rank Scope_Policy = 1" | "scope_rank Scope_Path = 2"
| "scope_rank Scope_Capability = 3" | "scope_rank Scope_Reservation = 4"
| "scope_rank Scope_Count = 5"

primrec dir_rank :: "compare_direction \<Rightarrow> u8" where
  "dir_rank Dir_AtLeast = 0" | "dir_rank Dir_AtMost = 1"

primrec agg_rank :: "aggregate_kind \<Rightarrow> u8" where
  "agg_rank Agg_WeakestLink = 0" | "agg_rank Agg_Additive = 1" | "agg_rank Agg_LossCompose = 2"
| "agg_rank Agg_WorstCase = 3" | "agg_rank Agg_AllPresent = 4" | "agg_rank Agg_PathDiversity = 5"

definition all_outcome :: "outcome list" where
  "all_outcome = [O_Supported, O_SupportedDegraded, O_Unknown, O_Unsupported, O_Stale,
     O_Conflict, O_Rejected]"
definition all_status :: "obligation_status list" where
  "all_status = [OS_Satisfied, OS_Degraded, OS_Violated, OS_Unknown, OS_Unavailable, OS_Stale,
     OS_NotApplicable]"
definition all_cstat :: "component_status list" where
  "all_cstat = [CStat_Satisfied, CStat_Degraded, CStat_Unknown, CStat_Unavailable,
     CStat_Violated, CStat_Stale]"
definition all_dim :: "dimension list" where
  "all_dim = [Dim_Class, Dim_Subject, Dim_Path, Dim_Policy, Dim_Priority, Dim_Capability,
     Dim_Reservation, Dim_FabricEpoch, Dim_Count]"
definition all_scope :: "conflict_scope list" where
  "all_scope = [Scope_Class, Scope_Policy, Scope_Path, Scope_Capability, Scope_Reservation,
     Scope_Count]"
definition all_dir :: "compare_direction list" where "all_dir = [Dir_AtLeast, Dir_AtMost]"
definition all_agg :: "aggregate_kind list" where
  "all_agg = [Agg_WeakestLink, Agg_Additive, Agg_LossCompose, Agg_WorstCase, Agg_AllPresent,
     Agg_PathDiversity]"

lemmas all_dec_defs =
  all_outcome_def all_status_def all_cstat_def all_dim_def all_scope_def all_dir_def all_agg_def

lemma all_dec_nth [simp]:
  "all_outcome ! unat (outcome_rank a) = a" "all_status ! unat (status_rank b) = b"
  "all_cstat ! unat (cstat_rank c) = c" "all_dim ! unat (dim_rank d) = d"
  "all_scope ! unat (scope_rank e) = e" "all_dir ! unat (dir_rank f) = f"
  "all_agg ! unat (agg_rank g) = g"
  subgoal by (cases a) (simp_all add: all_dec_defs)
  subgoal by (cases b) (simp_all add: all_dec_defs)
  subgoal by (cases c) (simp_all add: all_dec_defs)
  subgoal by (cases d) (simp_all add: all_dec_defs)
  subgoal by (cases e) (simp_all add: all_dec_defs)
  subgoal by (cases f) (simp_all add: all_dec_defs)
  subgoal by (cases g) (simp_all add: all_dec_defs)
  done

lemma dec_rank_le [simp]:
  "outcome_rank a \<le> 6" "status_rank b \<le> 6" "cstat_rank c \<le> 5" "dim_rank d \<le> 8"
  "scope_rank e \<le> 5" "dir_rank f \<le> 1" "agg_rank g \<le> 5"
  subgoal by (cases a) simp_all
  subgoal by (cases b) simp_all
  subgoal by (cases c) simp_all
  subgoal by (cases d) simp_all
  subgoal by (cases e) simp_all
  subgoal by (cases f) simp_all
  subgoal by (cases g) simp_all
  done

lemma outcome_rank_inject [simp]: "outcome_rank a = outcome_rank b \<longleftrightarrow> a = b"
  by (metis all_dec_nth(1))

text \<open>The enumerator order is the precedence order.\<close>

instantiation outcome :: linorder
begin

definition less_eq_outcome :: "outcome \<Rightarrow> outcome \<Rightarrow> bool" where
  "less_eq_outcome a b \<longleftrightarrow> outcome_rank a \<le> outcome_rank b"

definition less_outcome :: "outcome \<Rightarrow> outcome \<Rightarrow> bool" where
  "less_outcome a b \<longleftrightarrow> outcome_rank a < outcome_rank b"

instance
proof
  fix x y :: outcome
  show "x \<le> y \<Longrightarrow> y \<le> x \<Longrightarrow> x = y"
    by (metis antisym outcome_rank_inject less_eq_outcome_def)
qed (auto simp: less_eq_outcome_def less_outcome_def less_le_not_le)

end

definition is_positive :: "outcome \<Rightarrow> bool" where
  "is_positive v \<longleftrightarrow> v = O_Supported \<or> v = O_SupportedDegraded"

definition dominant :: "outcome \<Rightarrow> outcome \<Rightarrow> outcome" where
  "dominant a b = (if outcome_rank a \<ge> outcome_rank b then a else b)"

definition merge :: "outcome \<Rightarrow> outcome \<Rightarrow> outcome" where
  "merge target v = dominant target v"

lemma dominant_max: "dominant a b = max a b"
  by (auto simp: dominant_def max_def less_eq_outcome_def)

lemma merge_max: "merge a b = max a b"
  by (simp add: merge_def dominant_max)

lemma is_positive_iff: "is_positive v \<longleftrightarrow> v \<le> O_SupportedDegraded"
  by (cases v) (simp_all add: is_positive_def less_eq_outcome_def word_le_nat_alt)

lemma O_Supported_least [simp]: "O_Supported \<le> v"
  by (simp add: less_eq_outcome_def)

definition is_negative :: "obligation_status \<Rightarrow> bool" where
  "is_negative v \<longleftrightarrow> v = OS_Violated \<or> v = OS_Unavailable \<or> v = OS_Stale \<or> v = OS_Unknown"

section \<open>Names\<close>

primrec outcome_to_string :: "outcome \<Rightarrow> string" where
  "outcome_to_string O_Supported = ''SUPPORTED''"
| "outcome_to_string O_SupportedDegraded = ''SUPPORTED_DEGRADED''"
| "outcome_to_string O_Unknown = ''UNKNOWN''"
| "outcome_to_string O_Unsupported = ''UNSUPPORTED''"
| "outcome_to_string O_Stale = ''STALE''"
| "outcome_to_string O_Conflict = ''CONFLICT''"
| "outcome_to_string O_Rejected = ''REJECTED''"

definition parse_outcome :: "string \<Rightarrow> outcome option" where
  "parse_outcome = parse_name outcome_to_string all_outcome"

primrec status_to_string :: "obligation_status \<Rightarrow> string" where
  "status_to_string OS_Satisfied = ''satisfied''"
| "status_to_string OS_Degraded = ''degraded''"
| "status_to_string OS_Violated = ''violated''"
| "status_to_string OS_Unknown = ''unknown''"
| "status_to_string OS_Unavailable = ''unavailable''"
| "status_to_string OS_Stale = ''stale''"
| "status_to_string OS_NotApplicable = ''not-applicable''"

primrec cstat_to_string :: "component_status \<Rightarrow> string" where
  "cstat_to_string CStat_Satisfied = ''satisfied''"
| "cstat_to_string CStat_Degraded = ''degraded''"
| "cstat_to_string CStat_Unknown = ''unknown''"
| "cstat_to_string CStat_Unavailable = ''unavailable''"
| "cstat_to_string CStat_Violated = ''violated''"
| "cstat_to_string CStat_Stale = ''stale''"

primrec dim_to_string :: "dimension \<Rightarrow> string" where
  "dim_to_string Dim_Class = ''class''"
| "dim_to_string Dim_Subject = ''subject''"
| "dim_to_string Dim_Path = ''path''"
| "dim_to_string Dim_Policy = ''policy''"
| "dim_to_string Dim_Priority = ''priority''"
| "dim_to_string Dim_Capability = ''capability''"
| "dim_to_string Dim_Reservation = ''reservation''"
| "dim_to_string Dim_FabricEpoch = ''fabric-epoch''"
| "dim_to_string Dim_Count = ''invalid''"

primrec scope_to_string :: "conflict_scope \<Rightarrow> string" where
  "scope_to_string Scope_Class = ''class''"
| "scope_to_string Scope_Policy = ''policy''"
| "scope_to_string Scope_Path = ''path''"
| "scope_to_string Scope_Capability = ''capability''"
| "scope_to_string Scope_Reservation = ''reservation''"
| "scope_to_string Scope_Count = ''invalid''"

section \<open>Records\<close>

record authority_entry =
  au_dimension :: dimension
  au_id :: string
  au_generation :: generation
  au_digest_hex :: string
  au_epoch :: fabric_epoch
  au_source :: string

record obligation_assessment =
  oa_kind :: obligation_kind
  oa_id :: string
  oa_binding :: bool
  oa_relaxable :: bool
  oa_direction :: compare_direction
  oa_aggregate :: aggregate_kind
  oa_path_level :: bool
  oa_required_value :: u64
  oa_effective_limit :: u64
  oa_composed_value :: "u64 option"
  oa_relaxation_applied_ppm :: u32
  oa_relaxation_reported_only :: bool
  oa_status :: obligation_status
  oa_binding_resource :: "string option"
  oa_weakest_resource :: "string option"
  oa_headroom_ppm :: u32
  oa_detail :: string

record resource_assessment =
  ra_resource :: string
  ra_diversity_domain :: string
  ra_role :: path_role
  ra_bound_capability_generation :: generation
  ra_observed_capability_generation :: "generation option"
  ra_observed_incarnation :: "publisher_incarnation option"
  ra_status :: component_status
  ra_self_declared_degraded :: bool
  ra_reason :: string

record degradation_reason =
  dr_kind :: obligation_kind
  dr_id :: string
  dr_resource :: "string option"
  dr_relaxation_ppm :: u32
  dr_reported_only :: bool
  dr_detail :: string

record conflict_marker =
  cm_scope :: conflict_scope
  cm_id :: string
  cm_generation :: generation
  cm_incumbent_digest :: digest256
  cm_challenger_digest :: digest256
  cm_epoch :: fabric_epoch
  cm_detail :: string

record contract_decision =
  cd_contract :: string
  cd_contract_generation :: generation
  cd_outcome :: outcome
  cd_class_id :: string
  cd_class_generation :: generation
  cd_class_digest :: digest256
  cd_subject :: string
  cd_subject_generation :: generation
  cd_path :: string
  cd_path_generation :: generation
  cd_path_digest :: digest256
  cd_policy :: string
  cd_policy_generation :: generation
  cd_policy_digest :: digest256
  cd_priority :: string
  cd_priority_generation :: generation
  cd_fabric_epoch :: fabric_epoch
  cd_observed_epoch :: fabric_epoch
  cd_decided_at_ms :: u64
  cd_obligations :: "obligation_assessment list"
  cd_resources :: "resource_assessment list"
  cd_degradations :: "degradation_reason list"
  cd_authority :: "authority_entry list"
  cd_binding_obligation :: "obligation_kind option"
  cd_binding_resource :: "string option"
  cd_unknown_components :: u32
  cd_violated_obligations :: u32
  cd_unsatisfied_diversity_domains :: u32
  cd_primary_reason :: string
  cd_request_digest :: digest256
  cd_decision_digest :: digest256
  cd_provenance :: provenance

definition decision_find :: "contract_decision \<Rightarrow> obligation_kind \<Rightarrow> obligation_assessment option" where
  "decision_find d kind = List.find (\<lambda>a. oa_kind a = kind) (cd_obligations d)"

definition has_degradation :: "contract_decision \<Rightarrow> bool" where
  "has_degradation d \<longleftrightarrow> cd_degradations d \<noteq> []"

section \<open>Canonical encoding\<close>

definition kTagDecision :: u16 where "kTagDecision = 0x0201"
definition kDecisionSchemaVersion :: u16 where "kDecisionSchemaVersion = 1"

definition encode_present :: "('a \<Rightarrow> writer \<Rightarrow> writer) \<Rightarrow> 'a option \<Rightarrow> writer \<Rightarrow> writer" where
  "encode_present emit x w =
     (let w = w_presence (x \<noteq> None) w in case x of None \<Rightarrow> w | Some v \<Rightarrow> emit v w)"

definition w_ident :: "string \<Rightarrow> writer \<Rightarrow> writer" where
  "w_ident s = w_str s kMaxIdentifierLen"

definition encode_obligation :: "obligation_assessment \<Rightarrow> writer \<Rightarrow> writer" where
  "encode_obligation i = w_seq
    [w_u8 (kind_rank (oa_kind i)), w_ident (oa_id i), w_presence (oa_binding i),
     w_presence (oa_relaxable i), w_u8 (dir_rank (oa_direction i)),
     w_u8 (agg_rank (oa_aggregate i)), w_presence (oa_path_level i),
     w_u64 (oa_required_value i), w_u64 (oa_effective_limit i),
     encode_present w_u64 (oa_composed_value i), w_u32 (oa_relaxation_applied_ppm i),
     w_presence (oa_relaxation_reported_only i), w_u8 (status_rank (oa_status i)),
     encode_present w_ident (oa_binding_resource i),
     encode_present w_ident (oa_weakest_resource i), w_u32 (oa_headroom_ppm i),
     w_str (oa_detail i) kMaxDetailLen]"

definition encode_resource :: "resource_assessment \<Rightarrow> writer \<Rightarrow> writer" where
  "encode_resource i = w_seq
    [w_ident (ra_resource i), w_ident (ra_diversity_domain i), w_u8 (pr_rank (ra_role i)),
     w_u64 (ra_bound_capability_generation i),
     encode_present w_u64 (ra_observed_capability_generation i),
     encode_present w_u64 (ra_observed_incarnation i), w_u8 (cstat_rank (ra_status i)),
     w_presence (ra_self_declared_degraded i), w_str (ra_reason i) kMaxReasonLen]"

definition encode_degradation :: "degradation_reason \<Rightarrow> writer \<Rightarrow> writer" where
  "encode_degradation i = w_seq
    [w_u8 (kind_rank (dr_kind i)), w_ident (dr_id i), encode_present w_ident (dr_resource i),
     w_u32 (dr_relaxation_ppm i), w_presence (dr_reported_only i),
     w_str (dr_detail i) kMaxReasonLen]"

definition encode_authority :: "authority_entry \<Rightarrow> writer \<Rightarrow> writer" where
  "encode_authority i = w_seq
    [w_u8 (dim_rank (au_dimension i)), w_ident (au_id i), w_u64 (au_generation i),
     w_str (au_digest_hex i) 64, w_u64 (au_epoch i), w_str (au_source i) kMaxOriginLen]"

definition encode_table :: "('a \<Rightarrow> writer \<Rightarrow> writer) \<Rightarrow> 'a list \<Rightarrow> writer \<Rightarrow> writer" where
  "encode_table emit xs = w_counted (length xs) (w_each emit xs)"

definition encode_decision :: "contract_decision \<Rightarrow> writer \<Rightarrow> writer" where
  "encode_decision v = w_seq
    [w_u16 kTagDecision, w_u16 kDecisionSchemaVersion,
     w_ident (cd_contract v), w_u64 (cd_contract_generation v),
     w_u8 (outcome_rank (cd_outcome v)),
     w_ident (cd_class_id v), w_u64 (cd_class_generation v), encode_digest (cd_class_digest v),
     w_ident (cd_subject v), w_u64 (cd_subject_generation v),
     w_ident (cd_path v), w_u64 (cd_path_generation v), encode_digest (cd_path_digest v),
     w_ident (cd_policy v), w_u64 (cd_policy_generation v), encode_digest (cd_policy_digest v),
     w_ident (cd_priority v), w_u64 (cd_priority_generation v),
     w_u64 (cd_fabric_epoch v), w_u64 (cd_observed_epoch v), w_u64 (cd_decided_at_ms v),
     encode_table encode_obligation (cd_obligations v),
     encode_table encode_resource (cd_resources v),
     encode_table encode_degradation (cd_degradations v),
     encode_table encode_authority (cd_authority v),
     encode_present (\<lambda>k. w_u8 (kind_rank k)) (cd_binding_obligation v),
     encode_present w_ident (cd_binding_resource v),
     w_u32 (cd_unknown_components v), w_u32 (cd_violated_obligations v),
     w_u32 (cd_unsatisfied_diversity_domains v),
     w_str (cd_primary_reason v) kMaxReasonLen, encode_digest (cd_request_digest v),
     w_u64 (prov_epoch (cd_provenance v)), w_str (prov_origin (cd_provenance v)) kMaxOriginLen]"

definition compute_decision_digest :: "contract_decision \<Rightarrow> digest256" where
  "compute_decision_digest v =
     digest_of_writer (encode_decision v (new_writer kMaxCanonicalRecordBytes))"

section \<open>Canonical decoding\<close>

definition malformed :: "string \<Rightarrow> reader \<Rightarrow> 'a result \<times> reader" where
  "malformed detail r = (Inl (make_error EC_Malformed detail), r)"

abbreviation r_ident :: "reader \<Rightarrow> string \<times> reader" where "r_ident \<equiv> r_str kMaxIdentifierLen"

definition decode_obligation :: "reader \<Rightarrow> obligation_assessment result \<times> reader" where
  "decode_obligation r =
     (let (kind, r) = r_u8 r; (id, r) = r_ident r; (binding, r) = r_presence r;
          (relaxable, r) = r_presence r; (direction, r) = r_u8 r; (aggregate, r) = r_u8 r;
          (path_level, r) = r_presence r; (required, r) = r_u64 r; (limit, r) = r_u64 r in
      bindD (need ''decision obligation value is malformed'' (r_optional r_u64 r)) (\<lambda>composed r.
      let (ppm, r) = r_u32 r; (reported, r) = r_presence r; (status, r) = r_u8 r in
      if r_failed r \<or> kind \<ge> 16 \<or> direction > 1 \<or> aggregate > 5 \<or> status > 6
      then malformed ''decision obligation fields are out of range'' r
      else
      bindD (need ''decision obligation resource is malformed'' (r_optional r_ident r)) (\<lambda>bres r.
      bindD (need ''decision obligation resource is malformed'' (r_optional r_ident r)) (\<lambda>wres r.
      let (headroom, r) = r_u32 r; (detail, r) = r_str kMaxDetailLen r in
      if r_failed r then malformed ''decision obligation record is truncated'' r
      else (Inr \<lparr>oa_kind = all_kind ! unat kind, oa_id = id, oa_binding = binding,
          oa_relaxable = relaxable, oa_direction = all_dir ! unat direction,
          oa_aggregate = all_agg ! unat aggregate, oa_path_level = path_level,
          oa_required_value = required, oa_effective_limit = limit,
          oa_composed_value = composed, oa_relaxation_applied_ppm = ppm,
          oa_relaxation_reported_only = reported, oa_status = all_status ! unat status,
          oa_binding_resource = bres, oa_weakest_resource = wres,
          oa_headroom_ppm = headroom, oa_detail = detail\<rparr>, r)))))"

definition decode_resource :: "reader \<Rightarrow> resource_assessment result \<times> reader" where
  "decode_resource r =
     (let (resource, r) = r_ident r; (domain, r) = r_ident r; (role, r) = r_u8 r;
          (bound, r) = r_u64 r in
      bindD (need ''decision resource fields are malformed'' (r_optional r_u64 r)) (\<lambda>observed r.
      bindD (need ''decision resource fields are malformed'' (r_optional r_u64 r)) (\<lambda>incarnation r.
      let (status, r) = r_u8 r; (degraded, r) = r_presence r; (reason, r) = r_str kMaxReasonLen r in
      if r_failed r \<or> role > 2 \<or> status > 5
      then malformed ''decision resource fields are out of range'' r
      else (Inr \<lparr>ra_resource = resource, ra_diversity_domain = domain,
          ra_role = all_pr ! unat role, ra_bound_capability_generation = bound,
          ra_observed_capability_generation = observed, ra_observed_incarnation = incarnation,
          ra_status = all_cstat ! unat status, ra_self_declared_degraded = degraded,
          ra_reason = reason\<rparr>, r))))"

definition decode_degradation :: "reader \<Rightarrow> degradation_reason result \<times> reader" where
  "decode_degradation r =
     (let (kind, r) = r_u8 r; (id, r) = r_ident r in
      bindD (need ''decision degradation resource is malformed'' (r_optional r_ident r)) (\<lambda>resource r.
      let (ppm, r) = r_u32 r; (reported, r) = r_presence r; (detail, r) = r_str kMaxReasonLen r in
      if r_failed r \<or> kind \<ge> 16
      then malformed ''decision degradation fields are out of range'' r
      else (Inr \<lparr>dr_kind = all_kind ! unat kind, dr_id = id, dr_resource = resource,
          dr_relaxation_ppm = ppm, dr_reported_only = reported, dr_detail = detail\<rparr>, r)))"

definition decode_authority :: "reader \<Rightarrow> authority_entry result \<times> reader" where
  "decode_authority r =
     (let (dimension, r) = r_u8 r; (id, r) = r_ident r; (generation, r) = r_u64 r;
          (hex, r) = r_str 64 r; (epoch, r) = r_u64 r; (source, r) = r_str kMaxOriginLen r in
      if r_failed r \<or> dimension > 8 then malformed ''decision authority entry is malformed'' r
      else (Inr \<lparr>au_dimension = all_dim ! unat dimension, au_id = id,
          au_generation = generation, au_digest_hex = hex, au_epoch = epoch,
          au_source = source\<rparr>, r))"

definition decode_table :: "nat \<Rightarrow> string \<Rightarrow> (reader \<Rightarrow> 'a result \<times> reader) \<Rightarrow> reader \<Rightarrow> 'a list result \<times> reader" where
  "decode_table max_count detail p r =
     (case r_count max_count r of
        (None, r) \<Rightarrow> (Inl (make_error EC_TooLarge detail), r)
      | (Some n, r) \<Rightarrow> decode_times n p r)"

definition read_kind :: "reader \<Rightarrow> obligation_kind \<times> reader" where
  "read_kind r =
     (let (kind, r) = r_u8 r
      in if kind \<ge> 16 then (K_Count, r_fail r) else (all_kind ! unat kind, r))"

definition decode_decision :: "reader \<Rightarrow> contract_decision result \<times> reader" where
  "decode_decision r =
     (let (tag, r) = r_u16 r; (version, r) = r_u16 r in
      if r_failed r \<or> tag \<noteq> kTagDecision \<or> version \<noteq> kDecisionSchemaVersion
      then (Inl (make_error EC_VersionMismatch ''decision record schema is not supported''), r)
      else
      let (contract, r) = r_ident r; (contract_gen, r) = r_u64 r; (raw_outcome, r) = r_u8 r in
      if r_failed r \<or> raw_outcome > 6 then malformed ''decision outcome is out of range'' r
      else
      let (class_id, r) = r_ident r; (class_gen, r) = r_u64 r in
      bindD (need ''decision class digest is malformed'' (decode_digest r)) (\<lambda>class_digest r.
      let (subject, r) = r_ident r; (subject_gen, r) = r_u64 r;
          (pth, r) = r_ident r; (path_gen, r) = r_u64 r in
      bindD (need ''decision path digest is malformed'' (decode_digest r)) (\<lambda>path_digest r.
      let (pol, r) = r_ident r; (policy_gen, r) = r_u64 r in
      bindD (need ''decision policy digest is malformed'' (decode_digest r)) (\<lambda>policy_digest r.
      let (prio, r) = r_ident r; (priority_gen, r) = r_u64 r; (fabric_epoch, r) = r_u64 r;
          (observed_epoch, r) = r_u64 r; (decided_at, r) = r_u64 r in
      if r_failed r then malformed ''decision header is truncated'' r
      else
      bindD (decode_table kMaxObligations ''decision obligation table exceeds its budget''
        decode_obligation r) (\<lambda>obligations r.
      bindD (decode_table kMaxPathComponents ''decision resource table exceeds its budget''
        decode_resource r) (\<lambda>resources r.
      bindD (decode_table kMaxDegradations ''decision degradation table exceeds its budget''
        decode_degradation r) (\<lambda>degradations r.
      bindD (decode_table kMaxAuthorityEntries ''decision authority table exceeds its budget''
        decode_authority r) (\<lambda>authority r.
      bindD (need ''decision binding obligation is malformed'' (r_optional read_kind r)) (\<lambda>bkind r.
      bindD (need ''decision binding resource is malformed'' (r_optional r_ident r)) (\<lambda>bres r.
      let (unknown, r) = r_u32 r; (violated, r) = r_u32 r; (unsatisfied, r) = r_u32 r;
          (reason, r) = r_str kMaxReasonLen r in
      bindD (need ''decision request digest is malformed'' (decode_digest r)) (\<lambda>request_digest r.
      let (prov_epoch, r) = r_u64 r; (prov_origin, r) = r_str kMaxOriginLen r in
      if r_failed r then malformed ''decision record is truncated'' r
      else if \<not> r_at_end r then malformed ''decision record carries trailing bytes'' r
      else (Inr \<lparr>cd_contract = contract, cd_contract_generation = contract_gen,
          cd_outcome = all_outcome ! unat raw_outcome, cd_class_id = class_id,
          cd_class_generation = class_gen, cd_class_digest = class_digest,
          cd_subject = subject, cd_subject_generation = subject_gen, cd_path = pth,
          cd_path_generation = path_gen, cd_path_digest = path_digest, cd_policy = pol,
          cd_policy_generation = policy_gen, cd_policy_digest = policy_digest,
          cd_priority = prio, cd_priority_generation = priority_gen,
          cd_fabric_epoch = fabric_epoch, cd_observed_epoch = observed_epoch,
          cd_decided_at_ms = decided_at, cd_obligations = obligations,
          cd_resources = resources, cd_degradations = degradations,
          cd_authority = authority, cd_binding_obligation = bkind,
          cd_binding_resource = bres, cd_unknown_components = unknown,
          cd_violated_obligations = violated,
          cd_unsatisfied_diversity_domains = unsatisfied, cd_primary_reason = reason,
          cd_request_digest = request_digest, cd_decision_digest = zero_digest,
          cd_provenance = make_provenance prov_origin prov_epoch 1 1\<rparr>, r))))))))))))"

section \<open>Bounded explanation\<close>

record bounded_text =
  bt_out :: string
  bt_budget :: nat
  bt_clipped :: bool

definition new_text :: "nat \<Rightarrow> bounded_text" where
  "new_text budget = \<lparr>bt_out = [], bt_budget = budget, bt_clipped = False\<rparr>"

definition newline :: char where "newline = CHR 0x0A"

definition truncation_marker :: "nat \<Rightarrow> string" where
  "truncation_marker budget =
     [newline] @ ''[explanation truncated at '' @ dec_string budget @ '' bytes]'' @ [newline]"

definition text_line :: "string \<Rightarrow> bounded_text \<Rightarrow> bounded_text" where
  "text_line line t =
     (if bt_clipped t then t
      else if length (bt_out t) + length line + 1 > bt_budget t
      then t\<lparr>bt_clipped := True, bt_out := bt_out t @ truncation_marker (bt_budget t)\<rparr>
      else t\<lparr>bt_out := bt_out t @ line @ [newline]\<rparr>)"

definition pad_to :: "nat \<Rightarrow> string \<Rightarrow> string" where
  "pad_to n s = s @ replicate (n - length s) (CHR '' '')"

definition opt_text :: "string \<Rightarrow> string option \<Rightarrow> string" where
  "opt_text prefix x = (case x of None \<Rightarrow> [] | Some v \<Rightarrow> prefix @ v)"

definition detail_text :: "string \<Rightarrow> string" where
  "detail_text d = (if d \<noteq> [] then '' ('' @ d @ '')'' else [])"

definition obligation_line :: "obligation_assessment \<Rightarrow> bool \<Rightarrow> string" where
  "obligation_line a include_timings =
     pad_to 24 (''  '' @ oa_id a) @
     (if oa_direction a = Dir_AtLeast then ''req>='' else ''req<='') @
     u64_to_string (oa_required_value a) @ '' composed='' @
     (case oa_composed_value a of Some v \<Rightarrow> u64_to_string v | None \<Rightarrow> ''UNKNOWN'') @
     '' status='' @ status_to_string (oa_status a) @
     (if oa_relaxation_applied_ppm a \<noteq> 0 then
        '' relax='' @ u32_to_string (oa_relaxation_applied_ppm a) @ ''ppm'' @
        (if oa_relaxation_reported_only a then ''(reported)'' else []) @
        '' limit='' @ u64_to_string (oa_effective_limit a)
      else []) @
     opt_text '' binding='' (oa_binding_resource a) @
     (if include_timings then
        '' headroom='' @ u32_to_string (oa_headroom_ppm a) @ ''ppm aggregate='' @
        agg_to_string (oa_aggregate a)
      else []) @
     detail_text (oa_detail a)"

definition resource_line :: "resource_assessment \<Rightarrow> string" where
  "resource_line a =
     ''  '' @ ra_resource a @ '' domain='' @ ra_diversity_domain a @ '' role='' @
     pr_to_string (ra_role a) @ '' bound-cap='' @
     u64_to_string (ra_bound_capability_generation a) @ '' observed-cap='' @
     (case ra_observed_capability_generation a of Some g \<Rightarrow> u64_to_string g | None \<Rightarrow> ''none'') @
     '' status='' @ cstat_to_string (ra_status a) @ detail_text (ra_reason a)"

definition degradation_line :: "degradation_reason \<Rightarrow> string" where
  "degradation_line d =
     ''  '' @ dr_id d @ opt_text '' resource='' (dr_resource d) @ '' relax='' @
     u32_to_string (dr_relaxation_ppm d) @ ''ppm'' @
     (if dr_reported_only d then '' reported-only'' else []) @ detail_text (dr_detail d)"

definition authority_line :: "authority_entry \<Rightarrow> string" where
  "authority_line e =
     ''  '' @ dim_to_string (au_dimension e) @ '' '' @ au_id e @ ''@'' @
     u64_to_string (au_generation e) @ '' epoch='' @ u64_to_string (au_epoch e) @
     (if au_digest_hex e \<noteq> [] then '' digest='' @ au_digest_hex e else []) @
     (if au_source e \<noteq> [] then '' source='' @ au_source e else [])"

record explain_options =
  ex_max_bytes :: nat
  ex_max_obligations :: nat
  ex_max_resources :: nat
  ex_include_authority :: bool
  ex_include_timings :: bool

definition explain_defaults :: explain_options where
  "explain_defaults = \<lparr>ex_max_bytes = kMaxExplainBytes,
     ex_max_obligations = kMaxExplainObligations, ex_max_resources = kMaxExplainComponents,
     ex_include_authority = True, ex_include_timings = False\<rparr>"

text \<open>A listing shows at most \<open>limit\<close> items and then says how many it left out.\<close>

definition listing :: "nat \<Rightarrow> ('a \<Rightarrow> string) \<Rightarrow> 'a list \<Rightarrow> string list" where
  "listing limit show xs =
     map show (take limit xs) @
     (if limit < length xs then [''  ... '' @ dec_string (length xs - limit) @ '' more''] else [])"

definition explain_lines :: "contract_decision \<Rightarrow> explain_options \<Rightarrow> string list" where
  "explain_lines d options =
     [''outcome: '' @ outcome_to_string (cd_outcome d),
      ''contract: '' @ cd_contract d @ ''@'' @ u64_to_string (cd_contract_generation d) @
        '' subject: '' @ cd_subject d @ ''@'' @ u64_to_string (cd_subject_generation d),
      ''class: '' @ cd_class_id d @ ''@'' @ u64_to_string (cd_class_generation d) @
        '' digest='' @ digest_hex (cd_class_digest d),
      ''path: '' @ cd_path d @ ''@'' @ u64_to_string (cd_path_generation d) @
        '' digest='' @ digest_hex (cd_path_digest d),
      ''policy: '' @ cd_policy d @ ''@'' @ u64_to_string (cd_policy_generation d) @
        '' digest='' @ digest_hex (cd_policy_digest d),
      ''priority: '' @ cd_priority d @ ''@'' @ u64_to_string (cd_priority_generation d),
      ''fabric-epoch: '' @ u64_to_string (cd_fabric_epoch d) @ '' observed-epoch: '' @
        u64_to_string (cd_observed_epoch d),
      ''reason: '' @ cd_primary_reason d] @
     (case cd_binding_obligation d of None \<Rightarrow> []
      | Some k \<Rightarrow> [''binding-obligation: '' @ kind_to_string k @
          opt_text '' resource='' (cd_binding_resource d)]) @
     [''counts: obligations='' @ dec_string (length (cd_obligations d)) @ '' resources='' @
        dec_string (length (cd_resources d)) @ '' degradations='' @
        dec_string (length (cd_degradations d)) @ '' unknown-components='' @
        u32_to_string (cd_unknown_components d) @ '' violated='' @
        u32_to_string (cd_violated_obligations d),
      ''obligations:''] @
     listing (min (ex_max_obligations options) kMaxExplainObligations)
       (\<lambda>a. obligation_line a (ex_include_timings options)) (cd_obligations d) @
     [''resources:''] @
     listing (min (ex_max_resources options) kMaxExplainComponents) resource_line
       (cd_resources d) @
     (if cd_degradations d \<noteq> []
      then ''degradations:'' # map degradation_line (cd_degradations d) else []) @
     (if ex_include_authority options \<and> cd_authority d \<noteq> []
      then ''authority:'' # map authority_line (cd_authority d) else []) @
     [''decision-digest: '' @ digest_hex (cd_decision_digest d),
      ''request-digest: '' @ digest_hex (cd_request_digest d)]"

definition explain_budget :: "explain_options \<Rightarrow> nat" where
  "explain_budget options =
     (if ex_max_bytes options = 0 then kMaxExplainBytes
      else min (ex_max_bytes options) kMaxExplainBytes)"

definition explain :: "contract_decision \<Rightarrow> explain_options \<Rightarrow> string" where
  "explain d options = bt_out (fold text_line (explain_lines d options) (new_text (explain_budget options)))"

section \<open>Laws of the encoding\<close>

definition ident_fits :: "string \<Rightarrow> bool" where "ident_fits s \<longleftrightarrow> length s \<le> kMaxIdentifierLen"

definition opt_fits :: "string option \<Rightarrow> bool" where
  "opt_fits x \<longleftrightarrow> (\<forall>s. x = Some s \<longrightarrow> ident_fits s)"

lemma kind_rank_ge [simp]: "16 \<le> kind_rank k \<longleftrightarrow> k = K_Count"
  by (cases k) (simp_all add: word_le_nat_alt)

lemma rank_not_gt [simp]:
  "\<not> 6 < outcome_rank a" "\<not> 6 < status_rank b" "\<not> 5 < cstat_rank c" "\<not> 8 < dim_rank d"
  "\<not> 1 < dir_rank f" "\<not> 5 < agg_rank g" "\<not> 2 < pr_rank p"
  by (simp_all add: not_less)

lemma limits_u32' [simp]:
  "length s \<le> kMaxDetailLen \<Longrightarrow> length s \<le> 0xFFFFFFFF"
  "length s \<le> kMaxReasonLen \<Longrightarrow> length s \<le> 0xFFFFFFFF"
  "length s \<le> kMaxOriginLen \<Longrightarrow> length s \<le> 0xFFFFFFFF"
  "length s \<le> kMaxIdentifierLen \<Longrightarrow> length s \<le> 0xFFFFFFFF"
  "length s \<le> 64 \<Longrightarrow> length s \<le> 0xFFFFFFFF"
  by (simp_all add: limit_defs)

lemma emits_present [writes_intros]:
  assumes "\<And>v. x = Some v \<Longrightarrow> emits (emit v) (lay v)"
  shows "emits (encode_present emit x) (lay_opt lay x)"
proof (cases x)
  case None
  then show ?thesis using emits_presence [of False]
    by (simp add: encode_present_def [abs_def] lay_opt_def)
next
  case (Some v)
  have "emits (\<lambda>w. emit v (w_presence True w)) (lay_bool True @ lay v)"
    by (rule emits_comp [OF emits_presence assms [OF Some]])
  then show ?thesis by (simp add: encode_present_def [abs_def] lay_opt_def Some Let_def)
qed

lemma emits_ident [writes_intros]: "ident_fits s \<Longrightarrow> emits (w_ident s) (lay_str s)"
  by (simp add: w_ident_def ident_fits_def writes_intros)

lemma emits_opt_ident [writes_intros]: "opt_fits x \<Longrightarrow> emits (encode_present w_ident x) (lay_opt lay_str x)"
  by (rule emits_present) (simp add: opt_fits_def emits_ident)

lemma r_ident_codec [codec]:
  "ident_fits s \<Longrightarrow> r_ident (rd pre (lay_str s @ xs)) = (s, rd (pre @ lay_str s) xs)"
  by (simp add: ident_fits_def codec)

lemma r_opt_ident_codec [codec]:
  "opt_fits x \<Longrightarrow> r_optional r_ident (rd pre (lay_opt lay_str x @ xs)) =
     (Some x, rd (pre @ lay_opt lay_str x) xs)"
  by (rule r_optional_codec) (simp add: opt_fits_def r_ident_codec)

lemma r_opt_u64_codec [codec]:
  "r_optional r_u64 (rd pre (lay_opt lay_u64 x @ xs)) = (Some x, rd (pre @ lay_opt lay_u64 x) xs)"
  by (rule r_optional_codec) (simp add: codec)

definition lay_table :: "('a \<Rightarrow> bytes) \<Rightarrow> 'a list \<Rightarrow> bytes" where
  "lay_table lay xs = lay_u32 (word_of_nat (length xs)) @ concat (map lay xs)"

context codec
begin

lemma table_emits:
  "list_all ok xs \<Longrightarrow> length xs \<le> 0xFFFFFFFF \<Longrightarrow> emits (encode_table enc xs) (lay_table lay xs)"
  unfolding encode_table_def lay_table_def
  by (intro emits_counted emits_each) (auto simp: list_all_iff intro: enc_emits)

lemma table_codec:
  "list_all ok vs \<Longrightarrow> length vs \<le> n \<Longrightarrow> n \<le> 0xFFFFFFFF \<Longrightarrow>
   decode_table n d dec (rd pre (lay_table lay vs @ xs)) =
     (Inr (map canon vs), rd (pre @ lay_table lay vs) xs)"
  by (simp add: decode_table_def lay_table_def r_count_codec table_lay)

end

subsection \<open>The four tables\<close>

definition lay_obligation :: "obligation_assessment \<Rightarrow> bytes" where
  "lay_obligation i = concat
    [lay_u8 (kind_rank (oa_kind i)), lay_str (oa_id i), lay_bool (oa_binding i),
     lay_bool (oa_relaxable i), lay_u8 (dir_rank (oa_direction i)),
     lay_u8 (agg_rank (oa_aggregate i)), lay_bool (oa_path_level i),
     lay_u64 (oa_required_value i), lay_u64 (oa_effective_limit i),
     lay_opt lay_u64 (oa_composed_value i), lay_u32 (oa_relaxation_applied_ppm i),
     lay_bool (oa_relaxation_reported_only i), lay_u8 (status_rank (oa_status i)),
     lay_opt lay_str (oa_binding_resource i), lay_opt lay_str (oa_weakest_resource i),
     lay_u32 (oa_headroom_ppm i), lay_str (oa_detail i)]"

definition obligation_ok :: "obligation_assessment \<Rightarrow> bool" where
  "obligation_ok i \<longleftrightarrow> oa_kind i \<noteq> K_Count \<and> ident_fits (oa_id i) \<and>
     opt_fits (oa_binding_resource i) \<and> opt_fits (oa_weakest_resource i) \<and>
     length (oa_detail i) \<le> kMaxDetailLen"

interpretation obligation_codec:
  codec encode_obligation decode_obligation lay_obligation obligation_ok "\<lambda>i. i"
proof
  show "obligation_ok i \<Longrightarrow> emits (encode_obligation i) (lay_obligation i)" for i
    unfolding encode_obligation_def lay_obligation_def
    by (rule emits_fields) (simp add: writes_intros obligation_ok_def)
  show "obligation_ok i \<Longrightarrow> decode_obligation (rd pre (lay_obligation i @ xs)) =
      (Inr i, rd (pre @ lay_obligation i) xs)" for i pre xs
    by (cases i) (simp add: decode_obligation_def lay_obligation_def obligation_ok_def codec)
  show "safe_read decode_obligation"
    unfolding decode_obligation_def [abs_def] malformed_def by (intro safe_intros)
qed

definition lay_resource :: "resource_assessment \<Rightarrow> bytes" where
  "lay_resource i = concat
    [lay_str (ra_resource i), lay_str (ra_diversity_domain i), lay_u8 (pr_rank (ra_role i)),
     lay_u64 (ra_bound_capability_generation i),
     lay_opt lay_u64 (ra_observed_capability_generation i),
     lay_opt lay_u64 (ra_observed_incarnation i), lay_u8 (cstat_rank (ra_status i)),
     lay_bool (ra_self_declared_degraded i), lay_str (ra_reason i)]"

definition resource_ok :: "resource_assessment \<Rightarrow> bool" where
  "resource_ok i \<longleftrightarrow> ident_fits (ra_resource i) \<and> ident_fits (ra_diversity_domain i) \<and>
     length (ra_reason i) \<le> kMaxReasonLen"

interpretation resource_codec:
  codec encode_resource decode_resource lay_resource resource_ok "\<lambda>i. i"
proof
  show "resource_ok i \<Longrightarrow> emits (encode_resource i) (lay_resource i)" for i
    unfolding encode_resource_def lay_resource_def
    by (rule emits_fields) (simp add: writes_intros resource_ok_def)
  show "resource_ok i \<Longrightarrow> decode_resource (rd pre (lay_resource i @ xs)) =
      (Inr i, rd (pre @ lay_resource i) xs)" for i pre xs
    by (cases i) (simp add: decode_resource_def lay_resource_def resource_ok_def codec)
  show "safe_read decode_resource"
    unfolding decode_resource_def [abs_def] malformed_def by (intro safe_intros)
qed

definition lay_degradation :: "degradation_reason \<Rightarrow> bytes" where
  "lay_degradation i = concat
    [lay_u8 (kind_rank (dr_kind i)), lay_str (dr_id i), lay_opt lay_str (dr_resource i),
     lay_u32 (dr_relaxation_ppm i), lay_bool (dr_reported_only i), lay_str (dr_detail i)]"

definition degradation_ok :: "degradation_reason \<Rightarrow> bool" where
  "degradation_ok i \<longleftrightarrow> dr_kind i \<noteq> K_Count \<and> ident_fits (dr_id i) \<and> opt_fits (dr_resource i) \<and>
     length (dr_detail i) \<le> kMaxReasonLen"

interpretation degradation_codec:
  codec encode_degradation decode_degradation lay_degradation degradation_ok "\<lambda>i. i"
proof
  show "degradation_ok i \<Longrightarrow> emits (encode_degradation i) (lay_degradation i)" for i
    unfolding encode_degradation_def lay_degradation_def
    by (rule emits_fields) (simp add: writes_intros degradation_ok_def)
  show "degradation_ok i \<Longrightarrow> decode_degradation (rd pre (lay_degradation i @ xs)) =
      (Inr i, rd (pre @ lay_degradation i) xs)" for i pre xs
    by (cases i) (simp add: decode_degradation_def lay_degradation_def degradation_ok_def codec)
  show "safe_read decode_degradation"
    unfolding decode_degradation_def [abs_def] malformed_def by (intro safe_intros)
qed

definition lay_authority :: "authority_entry \<Rightarrow> bytes" where
  "lay_authority i = concat
    [lay_u8 (dim_rank (au_dimension i)), lay_str (au_id i), lay_u64 (au_generation i),
     lay_str (au_digest_hex i), lay_u64 (au_epoch i), lay_str (au_source i)]"

definition authority_ok :: "authority_entry \<Rightarrow> bool" where
  "authority_ok i \<longleftrightarrow> ident_fits (au_id i) \<and> length (au_digest_hex i) \<le> 64 \<and>
     length (au_source i) \<le> kMaxOriginLen"

interpretation authority_codec:
  codec encode_authority decode_authority lay_authority authority_ok "\<lambda>i. i"
proof
  show "authority_ok i \<Longrightarrow> emits (encode_authority i) (lay_authority i)" for i
    unfolding encode_authority_def lay_authority_def
    by (rule emits_fields) (simp add: writes_intros authority_ok_def)
  show "authority_ok i \<Longrightarrow> decode_authority (rd pre (lay_authority i @ xs)) =
      (Inr i, rd (pre @ lay_authority i) xs)" for i pre xs
    by (cases i) (simp add: decode_authority_def lay_authority_def authority_ok_def codec)
  show "safe_read decode_authority"
    unfolding decode_authority_def [abs_def] malformed_def by (intro safe_intros)
qed

subsection \<open>The decision\<close>

definition lay_decision :: "contract_decision \<Rightarrow> bytes" where
  "lay_decision v = concat
    [lay_u16 kTagDecision, lay_u16 kDecisionSchemaVersion,
     lay_str (cd_contract v), lay_u64 (cd_contract_generation v),
     lay_u8 (outcome_rank (cd_outcome v)),
     lay_str (cd_class_id v), lay_u64 (cd_class_generation v), cd_class_digest v,
     lay_str (cd_subject v), lay_u64 (cd_subject_generation v),
     lay_str (cd_path v), lay_u64 (cd_path_generation v), cd_path_digest v,
     lay_str (cd_policy v), lay_u64 (cd_policy_generation v), cd_policy_digest v,
     lay_str (cd_priority v), lay_u64 (cd_priority_generation v),
     lay_u64 (cd_fabric_epoch v), lay_u64 (cd_observed_epoch v), lay_u64 (cd_decided_at_ms v),
     lay_table lay_obligation (cd_obligations v), lay_table lay_resource (cd_resources v),
     lay_table lay_degradation (cd_degradations v), lay_table lay_authority (cd_authority v),
     lay_opt (\<lambda>k. lay_u8 (kind_rank k)) (cd_binding_obligation v),
     lay_opt lay_str (cd_binding_resource v), lay_u32 (cd_unknown_components v),
     lay_u32 (cd_violated_obligations v), lay_u32 (cd_unsatisfied_diversity_domains v),
     lay_str (cd_primary_reason v), cd_request_digest v,
     lay_u64 (prov_epoch (cd_provenance v)), lay_str (prov_origin (cd_provenance v))]"

text \<open>The structural budgets a recorded decision has to keep.\<close>

definition decision_ok :: "contract_decision \<Rightarrow> bool" where
  "decision_ok v \<longleftrightarrow>
     list_all ident_fits [cd_contract v, cd_class_id v, cd_subject v, cd_path v, cd_policy v,
       cd_priority v] \<and>
     list_all (\<lambda>d. length d = kDigestBytes) [cd_class_digest v, cd_path_digest v,
       cd_policy_digest v, cd_request_digest v] \<and>
     length (cd_obligations v) \<le> kMaxObligations \<and> list_all obligation_ok (cd_obligations v) \<and>
     length (cd_resources v) \<le> kMaxPathComponents \<and> list_all resource_ok (cd_resources v) \<and>
     length (cd_degradations v) \<le> kMaxDegradations \<and>
     list_all degradation_ok (cd_degradations v) \<and>
     length (cd_authority v) \<le> kMaxAuthorityEntries \<and> list_all authority_ok (cd_authority v) \<and>
     cd_binding_obligation v \<noteq> Some K_Count \<and> opt_fits (cd_binding_resource v) \<and>
     length (cd_primary_reason v) \<le> kMaxReasonLen \<and> provenance_ok (cd_provenance v)"

definition canon_decision :: "contract_decision \<Rightarrow> contract_decision" where
  "canon_decision v = v\<lparr>cd_decision_digest := zero_digest,
     cd_provenance := make_provenance (prov_origin (cd_provenance v)) (prov_epoch (cd_provenance v)) 1 1\<rparr>"

lemma table_limits [simp]:
  "kMaxObligations \<le> 0xFFFFFFFF" "kMaxPathComponents \<le> 0xFFFFFFFF"
  "kMaxDegradations \<le> 0xFFFFFFFF" "kMaxAuthorityEntries \<le> 0xFFFFFFFF"
  "length s \<le> kMaxObligations \<Longrightarrow> length s \<le> 0xFFFFFFFF"
  "length s \<le> kMaxDegradations \<Longrightarrow> length s \<le> 0xFFFFFFFF"
  "length s \<le> kMaxAuthorityEntries \<Longrightarrow> length s \<le> 0xFFFFFFFF"
  by (simp_all add: limit_defs)

lemma emits_digest [writes_intros]: "emits (encode_digest d) d"
  by (simp add: encode_digest_def emits_raw)

lemma decode_digest_codec [codec]:
  "length d = kDigestBytes \<Longrightarrow> decode_digest (rd pre (d @ xs)) = (Some d, rd (pre @ d) xs)"
  by (simp add: decode_digest_def r_raw_codec)

lemma read_kind_codec [codec]:
  "x \<noteq> Some K_Count \<Longrightarrow> r_optional read_kind (rd pre (lay_opt (\<lambda>k. lay_u8 (kind_rank k)) x @ xs)) =
     (Some x, rd (pre @ lay_opt (\<lambda>k. lay_u8 (kind_rank k)) x) xs)"
  by (rule r_optional_codec) (auto simp: read_kind_def codec)

lemma decision_emits: "decision_ok v \<Longrightarrow> emits (encode_decision v) (lay_decision v)"
  unfolding encode_decision_def lay_decision_def
  by (rule emits_fields)
    (simp add: decision_ok_def provenance_ok_def writes_intros obligation_codec.table_emits
      resource_codec.table_emits degradation_codec.table_emits authority_codec.table_emits)

lemma r_str_last:
  "length s \<le> n \<Longrightarrow> length s \<le> 0xFFFFFFFF \<Longrightarrow> r_str n (rd pre (lay_str s)) = (s, rd (pre @ lay_str s) [])"
  using r_str_codec [of s n pre "[]"] by simp

lemma decode_decision_lay:
  assumes "decision_ok v"
  shows "decode_decision (rd pre (lay_decision v)) = (Inr (canon_decision v), rd (pre @ lay_decision v) [])"
  using assms by (cases v)
    (simp add: decode_decision_def lay_decision_def decision_ok_def provenance_ok_def
      canon_decision_def codec r_str_last obligation_codec.table_codec resource_codec.table_codec
      degradation_codec.table_codec authority_codec.table_codec)

lemma safe_decision: "safe_read decode_decision"
  unfolding decode_decision_def [abs_def] malformed_def decode_table_def read_kind_def [abs_def]
  by (intro safe_intros obligation_codec.dec_safe resource_codec.dec_safe
      degradation_codec.dec_safe authority_codec.dec_safe)

section \<open>Laws of the explanation\<close>

lemma text_line_bound:
  "length (bt_out t) \<le> bt_budget t + (if bt_clipped t then length (truncation_marker (bt_budget t)) else 0) \<Longrightarrow>
   length (bt_out (text_line l t)) \<le> bt_budget (text_line l t) +
     (if bt_clipped (text_line l t) then length (truncation_marker (bt_budget (text_line l t))) else 0)"
  by (auto simp: text_line_def split: if_splits)

lemma text_line_budget [simp]: "bt_budget (text_line l t) = bt_budget t"
  by (simp add: text_line_def)

lemma fold_text_bound:
  "length (bt_out t) \<le> bt_budget t + (if bt_clipped t then length (truncation_marker (bt_budget t)) else 0) \<Longrightarrow>
   length (bt_out (fold text_line ls t)) \<le> bt_budget t + length (truncation_marker (bt_budget t))"
proof (induction ls arbitrary: t)
  case Nil
  then show ?case by (auto split: if_splits)
next
  case (Cons l ls)
  from Cons.IH [OF text_line_bound [OF Cons.prems, of l]] show ?case by simp
qed

end
