(* ===== verification/Checked.thy ===== *)
theory Checked
  imports QF_Prelude
begin

text \<open>
  Checked and saturating unsigned arithmetic: \<open>include/qosfabric/checked.hpp\<close>. A false
  return is \<^term>\<open>None\<close>; the value written through the out-parameter is \<^term>\<open>Some\<close>.
  \<^verbatim>\<open>std::numeric_limits<T>::max()\<close> is \<open>- 1\<close> on words.
\<close>

definition checked_add :: "'a::len word \<Rightarrow> 'a word \<Rightarrow> 'a word option" where
  "checked_add a b = (if b > - 1 - a then None else Some (a + b))"

definition checked_mul :: "'a::len word \<Rightarrow> 'a word \<Rightarrow> 'a word option" where
  "checked_mul a b =
     (if a = 0 \<or> b = 0 then Some 0
      else if a > (- 1) div b then None
      else Some (a * b))"

definition checked_ceil_div :: "'a::len word \<Rightarrow> 'a word \<Rightarrow> 'a word option" where
  "checked_ceil_div a b =
     (if b = 0 then None
      else let q = a div b in
        if a mod b \<noteq> 0 then (if q = - 1 then None else Some (q + 1)) else Some q)"

definition saturating_add :: "'a::len word \<Rightarrow> 'a word \<Rightarrow> 'a word" where
  "saturating_add a b = (case checked_add a b of None \<Rightarrow> - 1 | Some c \<Rightarrow> c)"

definition saturating_sub :: "'a::len word \<Rightarrow> 'a word \<Rightarrow> 'a word" where
  "saturating_sub a b = (if a < b then 0 else a - b)"

definition apply_ppm_relaxation :: "u64 \<Rightarrow> u32 \<Rightarrow> u64 option" where
  "apply_ppm_relaxation v ppm =
     (if ppm > 1000000 then None
      else case checked_mul v (ucast ppm) of None \<Rightarrow> None
           | Some delta \<Rightarrow> checked_add v (delta div 1000000))"

definition relative_ppm :: "u64 \<Rightarrow> u64 \<Rightarrow> u32 option" where
  "relative_ppm reference shortfall =
     (if shortfall = 0 then Some 0
      else if reference = 0 then Some 1000000
      else case checked_mul shortfall 1000000 of
        None \<Rightarrow> Some 1000000
      | Some scaled \<Rightarrow>
          (case checked_ceil_div scaled reference of
             None \<Rightarrow> None
           | Some ppm \<Rightarrow> Some (ucast (if ppm > 1000000 then 1000000 else ppm))))"

section \<open>What the checked operations compute\<close>

lemma unat_minus_one_eq: "unat (- 1 :: 'a::len word) = 2 ^ LENGTH('a) - 1"
  by (simp add: unsigned_minus_1_eq_mask mask_eq_exp_minus_1)

lemma checked_add_iff:
  "checked_add a b = Some c \<longleftrightarrow> unat a + unat b < 2 ^ LENGTH('a) \<and> c = a + (b :: 'a::len word)"
proof -
  have "a \<le> - 1"
    by (simp add: word_le_nat_alt unat_minus_one_eq) (metis Suc_pred less_Suc_eq_le unsigned_less zero_less_numeral zero_less_power)
  then have "unat (- 1 - a) = 2 ^ LENGTH('a) - 1 - unat a"
    by (simp add: unat_sub unat_minus_one_eq)
  moreover have "unat a < 2 ^ LENGTH('a)" by (rule unsigned_less)
  ultimately have "b > - 1 - a \<longleftrightarrow> \<not> unat a + unat b < 2 ^ LENGTH('a)"
    by (simp only: word_less_nat_alt) arith
  then show ?thesis by (auto simp: checked_add_def)
qed

lemma checked_add_unat: "checked_add a b = Some c \<Longrightarrow> unat c = unat a + unat b"
  by (auto simp: checked_add_iff unat_word_ariths)

lemma checked_add_None:
  "checked_add a b = None \<longleftrightarrow> 2 ^ LENGTH('a) \<le> unat a + unat (b :: 'a::len word)"
  using checked_add_iff [of a b "a + b"] by (cases "checked_add a b") (auto simp: checked_add_iff)

lemma checked_mul_iff:
  "checked_mul a b = Some c \<longleftrightarrow> unat a * unat b < 2 ^ LENGTH('a) \<and> c = a * (b :: 'a::len word)"
proof (cases "a = 0 \<or> b = 0")
  case True
  then show ?thesis by (auto simp: checked_mul_def)
next
  case False
  then have pos: "0 < unat b" by (simp add: unat_gt_0)
  have lt: "m - 1 < n \<longleftrightarrow> \<not> n < m" if "0 < m" for m n :: nat
    using that by auto
  have "a > (- 1) div b \<longleftrightarrow> (2 ^ LENGTH('a) - 1) div unat b < unat a"
    by (simp add: word_less_nat_alt unat_div unat_minus_one_eq)
  also have "\<dots> \<longleftrightarrow> 2 ^ LENGTH('a) - 1 < unat a * unat b"
    using pos by (simp add: div_less_iff_less_mult)
  also have "\<dots> \<longleftrightarrow> \<not> unat a * unat b < 2 ^ LENGTH('a)"
    by (rule lt) simp
  finally show ?thesis using False by (auto simp: checked_mul_def)
qed

lemma checked_mul_unat: "checked_mul a b = Some c \<Longrightarrow> unat c = unat a * unat b"
  by (auto simp: checked_mul_iff unat_word_ariths)

lemma checked_mul_None:
  "checked_mul a b = None \<longleftrightarrow> 2 ^ LENGTH('a) \<le> unat a * unat (b :: 'a::len word)"
  using checked_mul_iff [of a b "a * b"] by (cases "checked_mul a b") (auto simp: checked_mul_iff)

text \<open>
  The division that rounds up. Its overflow branch (a quotient at the ceiling with a
  remainder left) is unreachable: a remainder needs a divisor above one.
\<close>

lemma ceil_div_nat:
  fixes a b :: nat
  assumes b: "0 < b"
  shows "(a + b - 1) div b = a div b + (if a mod b = 0 then 0 else 1)"
proof (cases "a mod b = 0")
  case True
  then obtain q where q: "a = q * b" by (metis mod_eq_0_iff_dvd dvd_def mult.commute)
  have "(q * b + b - 1) div b = ((b - 1) + q * b) div b"
    using b by (metis Nat.add_diff_assoc One_nat_def Suc_leI add.commute)
  also have "\<dots> = q + (b - 1) div b" by (rule div_mult_self1) (use b in simp)
  also have "\<dots> = q" using b by simp
  finally have "(q * b + b - 1) div b = q" .
  moreover have "q * b div b = q" using b by simp
  ultimately show ?thesis unfolding q by simp
next
  case False
  have "a = a div b * b + a mod b" by simp
  with False b have "a + b - 1 = (a mod b - 1) + (b + a div b * b)" by linarith
  then have "a + b - 1 = (a mod b - 1) + Suc (a div b) * b" by (simp only: mult_Suc)
  then have "(a + b - 1) div b = ((a mod b - 1) + Suc (a div b) * b) div b" by (simp only:)
  also have "\<dots> = Suc (a div b) + (a mod b - 1) div b" by (rule div_mult_self1) (use b in simp)
  finally have "(a + b - 1) div b = Suc (a div b) + (a mod b - 1) div b" .
  moreover have "a mod b - 1 < b" using b by (meson less_imp_diff_less mod_less_divisor)
  ultimately show ?thesis using False by simp
qed

lemma checked_ceil_div_eq:
  fixes a b :: "'a::len word"
  assumes "b \<noteq> 0"
  obtains c where "checked_ceil_div a b = Some c"
    and "unat c = (unat a + unat b - 1) div unat b"
proof (cases "a mod b = 0")
  case True
  then have "unat a mod unat b = 0" by (metis unat_mod unsigned_0)
  then have "unat (a div b) = (unat a + unat b - 1) div unat b"
    using ceil_div_nat [of "unat b" "unat a"] assms by (simp add: unat_div unat_gt_0)
  moreover have "checked_ceil_div a b = Some (a div b)"
    using True assms by (simp add: checked_ceil_div_def)
  ultimately show ?thesis by (rule that [rotated])
next
  case False
  then have m: "unat a mod unat b \<noteq> 0" by (metis unat_mod unat_eq_0)
  have "unat b \<noteq> 0" using assms by (simp add: unat_eq_0)
  moreover have "unat b \<noteq> 1" using m by auto
  ultimately have b1: "2 \<le> unat b" by arith
  have "unat a div unat b < unat a \<or> unat a = 0" using b1 by (auto intro: div_less_dividend)
  moreover have a0: "unat a \<noteq> 0" using m by (metis mod_0)
  moreover have "unat a < 2 ^ LENGTH('a)" by (rule unsigned_less)
  ultimately have q: "unat (a div b) + 1 < 2 ^ LENGTH('a)"
    unfolding unat_div by linarith
  then have "a div b \<noteq> - 1" by (auto simp: unat_minus_one_eq)
  moreover have "unat (a div b + 1) = unat a div unat b + 1"
  proof -
    have "unat (a div b + 1) = (unat (a div b) + 1) mod 2 ^ LENGTH('a)"
      by (simp only: unat_word_ariths(1) unsigned_1)
    with q show ?thesis by (simp only: mod_less unat_div)
  qed
  moreover have "(unat a + unat b - 1) div unat b = unat a div unat b + 1"
    using ceil_div_nat [of "unat b" "unat a"] assms m by (simp add: unat_gt_0)
  ultimately show ?thesis
    using assms False that [of "a div b + 1"] by (simp add: checked_ceil_div_def)
qed

text \<open>
  The relaxation report: the shortfall as parts per million of the reference, rounded up
  and capped at one million. It always returns a value.
\<close>

lemma relative_ppm_eq:
  assumes "unat shortfall * 1000000 < 2 ^ 64" and "reference \<noteq> 0"
  shows "\<exists>p. relative_ppm reference shortfall = Some p \<and>
    unat p = min 1000000 ((unat shortfall * 1000000 + unat reference - 1) div unat reference)"
proof (cases "shortfall = 0")
  case True
  have "(unat reference - 1) div unat reference = 0" using assms(2) by (simp add: unat_gt_0)
  with True show ?thesis by (simp add: relative_ppm_def)
next
  case False
  let ?s = "shortfall * 1000000"
  have s: "checked_mul shortfall 1000000 = Some ?s"
    using assms(1) by (simp add: checked_mul_iff)
  have us: "unat ?s = unat shortfall * 1000000"
    using checked_mul_unat [OF s] by simp
  obtain c where c: "checked_ceil_div ?s reference = Some c"
    and uc: "unat c = (unat ?s + unat reference - 1) div unat reference"
    by (rule checked_ceil_div_eq [OF assms(2)])
  have "unat (ucast (if c > 1000000 then 1000000 else c) :: u32) = min 1000000 (unat c)"
    by (auto simp: word_less_nat_alt unsigned_ucast_eq take_bit_nat_eq_self min_def not_less)
  with s c False assms(2) uc us show ?thesis by (simp add: relative_ppm_def)
qed

lemma relative_ppm_total: "\<exists>p. relative_ppm reference shortfall = Some p"
proof (cases "reference = 0 \<or> checked_mul shortfall (1000000 :: u64) = None")
  case True
  then show ?thesis by (auto simp: relative_ppm_def)
next
  case False
  then have "unat shortfall * 1000000 < 2 ^ 64" by (simp add: checked_mul_None not_le)
  with False show ?thesis using relative_ppm_eq [of shortfall reference] by auto
qed

lemma relative_ppm_pos:
  assumes "shortfall \<noteq> 0"
  shows "relative_ppm reference shortfall \<noteq> Some 0"
proof (cases "reference = 0 \<or> checked_mul shortfall (1000000 :: u64) = None")
  case True
  with assms show ?thesis by (auto simp: relative_ppm_def)
next
  case False
  then have "unat shortfall * 1000000 < 2 ^ 64" by (simp add: checked_mul_None not_le)
  then obtain p where p: "relative_ppm reference shortfall = Some p"
    and u: "unat p = min 1000000 ((unat shortfall * 1000000 + unat reference - 1) div unat reference)"
    using False relative_ppm_eq [of shortfall reference] by auto
  have "0 < unat shortfall" "0 < unat reference" using assms False by (auto simp: unat_gt_0)
  then have "0 < (unat shortfall * 1000000 + unat reference - 1) div unat reference"
    by (simp add: div_greater_zero_iff)
  with u have "unat p \<noteq> 0" by simp
  with p show ?thesis by auto
qed

lemma relative_ppm_le: "relative_ppm reference shortfall = Some p \<Longrightarrow> unat p \<le> 1000000"
  by (auto simp: relative_ppm_def word_less_nat_alt unsigned_ucast_eq take_bit_nat_eq_self not_less
      split: if_splits option.splits)

lemma unat_ucast_u32_u64 [simp]: "unat (ucast (x :: u32) :: u64) = unat x"
proof -
  have "unat x < 2 ^ 64" using unsigned_less [of x, where 'a = nat] by simp
  then show ?thesis by (simp add: unsigned_ucast_eq take_bit_nat_eq_self)
qed

lemma apply_ppm_relaxation_unat:
  assumes "apply_ppm_relaxation v ppm = Some w"
  shows "unat w = unat v + unat v * unat ppm div 1000000"
  using assms
  by (auto simp: apply_ppm_relaxation_def unat_div dest!: checked_add_unat checked_mul_unat
      split: if_splits option.splits)

lemma saturating_add_unat:
  "unat (saturating_add a b) = min (2 ^ LENGTH('a) - 1) (unat a + unat (b :: 'a::len word))"
proof (cases "checked_add a b")
  case None
  then have "2 ^ LENGTH('a) \<le> unat a + unat b" by (simp add: checked_add_None)
  with None show ?thesis by (simp add: saturating_add_def unat_minus_one_eq)
next
  case (Some c)
  then have "unat a + unat b < 2 ^ LENGTH('a)" by (simp add: checked_add_iff)
  with checked_add_unat [OF Some] Some show ?thesis by (simp add: saturating_add_def)
qed

lemma saturating_sub_unat: "unat (saturating_sub a b) = unat a - unat b"
  by (auto simp: saturating_sub_def word_less_nat_alt word_le_nat_alt unat_sub not_less)

end
