(* ===== verification/Engine.thy ===== *)
theory Engine
  imports Decision Checked
begin

text \<open>
  The end-to-end compatibility engine: \<open>include/qosfabric/engine.hpp\<close> and
  \<open>src/engine.cpp\<close>. The obligation plan, the values a component declares, their composition,
  and the phases of \<open>evaluate\<close> in the order the function runs them. A null dereference or an
  index out of range of the source is \<^term>\<open>None\<close>; \<open>Engine_Props\<close> shows that it is never
  reached.
\<close>

section \<open>The obligation plan\<close>

definition kPpm :: u64 where "kPpm = 1000000"
definition kStateAvailable :: u64 where "kStateAvailable = 3"

record obligation_plan =
  pl_kind :: obligation_kind
  pl_id :: string
  pl_predicate :: string
  pl_required :: u64
  pl_binding :: bool

definition make_id :: "obligation_kind \<Rightarrow> string \<Rightarrow> string" where
  "make_id kind suffix =
     (let text = kind_to_string kind;
          text = (if suffix \<noteq> [] then text @ ''.'' @ suffix else text)
      in if length text > kMaxIdentifierLen then take kMaxIdentifierLen text else text)"

definition merged_predicates :: "qos_class \<Rightarrow> policy \<Rightarrow> string list" where
  "merged_predicates klass pol =
     sort (foldl push_new (qc_required_predicates klass) (po_required_predicates pol))"

definition plan_item :: "obligation_kind \<Rightarrow> u64 \<Rightarrow> obligation_plan" where
  "plan_item kind required = \<lparr>pl_kind = kind, pl_id = make_id kind [], pl_predicate = [],
     pl_required = required, pl_binding = True\<rparr>"

definition plan_predicate :: "string \<Rightarrow> obligation_plan" where
  "plan_predicate key = \<lparr>pl_kind = K_Predicate, pl_id = make_id K_Predicate key,
     pl_predicate = key, pl_required = 1, pl_binding = True\<rparr>"

definition push_if :: "obligation_kind \<Rightarrow> u64 option \<Rightarrow> obligation_plan list" where
  "push_if kind x = (case x of None \<Rightarrow> [] | Some v \<Rightarrow> [plan_item kind v])"

definition plan_key :: "obligation_plan \<Rightarrow> obligation_kind \<times> string" where
  "plan_key p = (pl_kind p, pl_id p)"

text \<open>\<^verbatim>\<open>std::unique\<close>: of a run of items with equal key, the first stays.\<close>

fun unique_plan :: "obligation_plan list \<Rightarrow> obligation_plan list" where
  "unique_plan (a # b # xs) =
     (if plan_key a = plan_key b then unique_plan (a # xs) else a # unique_plan (b # xs))"
| "unique_plan xs = xs"

text \<open>The items in the order the code pushes them, before sorting.\<close>

definition plan_items :: "qos_class \<Rightarrow> policy \<Rightarrow> obligation_plan list" where
  "plan_items klass pol =
     push_if K_MinRate (qc_min_rate_bps klass) @
     push_if K_MaxRate (qc_max_rate_bps klass) @
     push_if K_PeakRate (qc_peak_rate_bps klass) @
     push_if K_Latency (qc_max_latency_us klass) @
     push_if K_Jitter (qc_max_jitter_us klass) @
     push_if K_Loss (map_option ucast (qc_max_loss_ppm klass)) @
     push_if K_BurstBytes (qc_burst_bytes klass) @
     push_if K_BurstInterval (qc_burst_interval_us klass) @
     push_if K_Mtu (qc_min_mtu_bytes klass) @
     [plan_item K_Isolation (ucast (iso_rank (qc_isolation klass))),
      plan_item K_Treatment (ucast (tm_rank (qc_treatment klass))),
      plan_item K_PriorityRank (ucast (qc_min_priority_rank klass))] @
     (if qc_requires_reservation klass then push_if K_Reservation (qc_min_rate_bps klass) else []) @
     [plan_item K_DisjointPaths (ucast (qc_min_disjoint_paths klass))] @
     map plan_predicate (merged_predicates klass pol) @
     [plan_item K_ResourceState kStateAvailable]"

definition build_plan :: "qos_class \<Rightarrow> policy \<Rightarrow> obligation_plan list" where
  "build_plan klass pol =
     (let plan = unique_plan (sort_key plan_key (plan_items klass pol))
      in if length plan > kMaxObligations then take kMaxObligations plan else plan)"

section \<open>What a component declares\<close>

record resolution =
  rv_index :: nat
  rv_resource :: string
  rv_declared_domain :: string
  rv_role :: path_role
  rv_bound_generation :: generation
  rv_status :: component_status
  rv_capability :: "resource_capability option"
  rv_reservation :: "reservation option"
  rv_observed_generation :: "generation option"
  rv_observed_incarnation :: "publisher_incarnation option"
  rv_self_declared_degraded :: bool
  rv_domain_contradiction :: bool
  rv_reason :: string

record raw_value =
  rw_present :: bool
  rw_value :: u64
  rw_detail :: string

definition absent :: "string \<Rightarrow> raw_value" where
  "absent detail = \<lparr>rw_present = False, rw_value = 0, rw_detail = detail\<rparr>"

definition present :: "u64 \<Rightarrow> raw_value" where
  "present v = \<lparr>rw_present = True, rw_value = v, rw_detail = []\<rparr>"

definition declared :: "u64 option \<Rightarrow> string \<Rightarrow> raw_value" where
  "declared x missing = (case x of Some v \<Rightarrow> present v | None \<Rightarrow> absent missing)"

definition reservation_matches_class :: "reservation \<Rightarrow> qos_class \<Rightarrow> bool" where
  "reservation_matches_class r klass \<longleftrightarrow>
     rs_class_id r = qc_id klass \<and> rs_class_generation r = qc_generation klass"

definition reservation_value ::
  "reservation option \<Rightarrow> qos_class \<Rightarrow> policy \<Rightarrow> fabric_epoch \<Rightarrow> u64 \<Rightarrow> raw_value" where
  "reservation_value ro klass pol current_epoch now_ms =
     (case ro of
        None \<Rightarrow> absent ''no reservation evidence for this resource''
      | Some r \<Rightarrow>
          if \<not> reservation_matches_class r klass
          then absent ''reservation names a different class or class generation''
          else if rs_expires_at_ms r \<noteq> 0 \<and> now_ms > rs_expires_at_ms r
          then absent ''reservation expired''
          else if rs_epoch r + ucast (po_max_stale_epochs pol) < current_epoch
          then absent ''reservation epoch behind the fabric epoch''
          else present (rs_reserved_min_rate_bps r))"

text \<open>
  \<^const>\<open>None\<close> is the dereference of a null capability pointer.
\<close>

definition component_value ::
  "obligation_plan \<Rightarrow> resolution \<Rightarrow> qos_class \<Rightarrow> policy \<Rightarrow> fabric_epoch \<Rightarrow> u64 \<Rightarrow> raw_value option" where
  "component_value plan res klass pol current_epoch now_ms =
     (let cap = rv_capability res in
      case pl_kind plan of
        K_MinRate \<Rightarrow> map_option (\<lambda>c. declared (ca_supported_rate_bps c)
          ''resource declares no supported rate'') cap
      | K_MaxRate \<Rightarrow> map_option (\<lambda>c. declared (ca_supported_rate_bps c)
          ''resource declares no supported rate'') cap
      | K_PeakRate \<Rightarrow> map_option (\<lambda>c. declared (ca_supported_rate_bps c)
          ''resource declares no supported rate'') cap
      | K_Latency \<Rightarrow> map_option (\<lambda>c. declared (ca_latency_bound_us c)
          ''resource declares no latency bound'') cap
      | K_Jitter \<Rightarrow> map_option (\<lambda>c. declared (ca_jitter_bound_us c)
          ''resource declares no jitter bound'') cap
      | K_Loss \<Rightarrow> map_option (\<lambda>c. declared (map_option ucast (ca_loss_ppm c))
          ''resource declares no loss bound'') cap
      | K_BurstBytes \<Rightarrow> map_option (\<lambda>c. declared (ca_max_burst_bytes c)
          ''resource declares no burst capacity'') cap
      | K_BurstInterval \<Rightarrow> map_option (\<lambda>c. declared (ca_burst_window_us c)
          ''resource declares no burst window'') cap
      | K_Mtu \<Rightarrow> map_option (\<lambda>c. declared (ca_mtu_bytes c) ''resource declares no MTU'') cap
      | K_Isolation \<Rightarrow> map_option (\<lambda>c. present (ucast (iso_rank (ca_max_isolation c)))) cap
      | K_Treatment \<Rightarrow> map_option (\<lambda>c. present (ucast (tm_rank (ca_max_treatment c)))) cap
      | K_PriorityRank \<Rightarrow> map_option (\<lambda>c. present (ucast (ca_max_priority_rank c))) cap
      | K_ResourceState \<Rightarrow> Some (present (ucast (cap_rank
          (if rv_self_declared_degraded res then Cap_Degraded else Cap_Available))))
      | K_Reservation \<Rightarrow>
          Some (reservation_value (rv_reservation res) klass pol current_epoch now_ms)
      | K_Predicate \<Rightarrow> map_option (\<lambda>c. if pl_predicate plan \<in> set (ca_predicates c) then present 1
          else absent ''resource does not declare the required capability predicate'') cap
      | K_DisjointPaths \<Rightarrow> Some (absent ''obligation is evaluated at path level'')
      | K_Count \<Rightarrow> Some (absent ''obligation is evaluated at path level''))"

section \<open>End-to-end composition\<close>

record composition =
  co_overflow :: bool
  co_value :: "u64 option"
  co_binding_index :: nat
  co_weakest_index :: nat
  co_detail :: string

definition empty_composition :: composition where
  "empty_composition = \<lparr>co_overflow = False, co_value = None, co_binding_index = 0,
     co_weakest_index = 0, co_detail = []\<rparr>"

definition composed_at :: "u64 \<Rightarrow> nat \<Rightarrow> composition" where
  "composed_at v i = empty_composition\<lparr>co_value := Some v, co_binding_index := i,
     co_weakest_index := i\<rparr>"

text \<open>The loops carry the best value so far and its index; \<open>i\<close> is the next index.\<close>

fun weakest_loop :: "u64 \<Rightarrow> nat \<Rightarrow> nat \<Rightarrow> u64 list \<Rightarrow> u64 \<times> nat" where
  "weakest_loop best bi i [] = (best, bi)"
| "weakest_loop best bi i (v # vs) =
     (if v < best then weakest_loop v i (Suc i) vs else weakest_loop best bi (Suc i) vs)"

fun worst_loop :: "u64 \<Rightarrow> nat \<Rightarrow> nat \<Rightarrow> u64 list \<Rightarrow> u64 \<times> nat" where
  "worst_loop worst wi i [] = (worst, wi)"
| "worst_loop worst wi i (v # vs) =
     (if v > worst then worst_loop v i (Suc i) vs else worst_loop worst wi (Suc i) vs)"

fun additive_loop :: "u64 \<Rightarrow> u64 \<Rightarrow> nat \<Rightarrow> nat \<Rightarrow> u64 list \<Rightarrow> (u64 \<times> nat) option" where
  "additive_loop acc worst wi i [] = Some (acc, wi)"
| "additive_loop acc worst wi i (v # vs) =
     (case checked_add acc v of None \<Rightarrow> None
      | Some acc \<Rightarrow>
          if i = 0 \<or> v > worst then additive_loop acc v i (Suc i) vs
          else additive_loop acc worst wi (Suc i) vs)"

fun loss_loop :: "u64 \<Rightarrow> u64 \<Rightarrow> nat \<Rightarrow> nat \<Rightarrow> u64 list \<Rightarrow> (u64 \<times> nat) option" where
  "loss_loop delivery worst wi i [] = Some (delivery, wi)"
| "loss_loop delivery worst wi i (v # vs) =
     (let loss = (if v > kPpm then kPpm else v)
      in case checked_mul delivery (kPpm - loss) of None \<Rightarrow> None
         | Some product \<Rightarrow>
             let delivery = product div kPpm
             in if i = 0 \<or> loss > worst then loss_loop delivery loss i (Suc i) vs
                else loss_loop delivery worst wi (Suc i) vs)"

fun first_absent :: "nat \<Rightarrow> raw_value list \<Rightarrow> (nat \<times> string) option" where
  "first_absent i [] = None"
| "first_absent i (v # vs) =
     (if \<not> rw_present v then Some (i, rw_detail v) else first_absent (Suc i) vs)"

definition overflowed :: "string \<Rightarrow> composition" where
  "overflowed detail = empty_composition\<lparr>co_overflow := True, co_detail := detail\<rparr>"

definition compose_values :: "aggregate_kind \<Rightarrow> raw_value list \<Rightarrow> u64 \<Rightarrow> composition" where
  "compose_values agg values fixed_overhead =
     (if values = [] then empty_composition\<lparr>co_detail := ''no components to compose''\<rparr>
      else case first_absent 0 values of
        Some (i, detail) \<Rightarrow> empty_composition\<lparr>co_binding_index := i, co_detail := detail\<rparr>
      | None \<Rightarrow>
        let vs = map rw_value values in
        case agg of
          Agg_WeakestLink \<Rightarrow> (case weakest_loop (hd vs) 0 1 (tl vs) of (v, i) \<Rightarrow> composed_at v i)
        | Agg_AllPresent \<Rightarrow> (case weakest_loop (hd vs) 0 1 (tl vs) of (v, i) \<Rightarrow> composed_at v i)
        | Agg_WorstCase \<Rightarrow> (case worst_loop (hd vs) 0 1 (tl vs) of (v, i) \<Rightarrow> composed_at v i)
        | Agg_Additive \<Rightarrow>
            (case additive_loop fixed_overhead 0 0 0 vs of
               None \<Rightarrow> overflowed ''aggregation overflow''
             | Some (acc, i) \<Rightarrow> composed_at acc i)
        | Agg_LossCompose \<Rightarrow>
            (case loss_loop kPpm 0 0 0 vs of
               None \<Rightarrow> overflowed ''loss aggregation overflow''
             | Some (delivery, i) \<Rightarrow> composed_at (kPpm - delivery) i)
        | Agg_PathDiversity \<Rightarrow>
            empty_composition\<lparr>co_detail := ''diversity is evaluated at path level''\<rparr>)"

definition headroom_of :: "u64 \<Rightarrow> u64 \<Rightarrow> u32" where
  "headroom_of numerator required =
     (case checked_mul numerator kPpm of None \<Rightarrow> 1000000
      | Some scaled \<Rightarrow>
          let ppm = scaled div required in ucast (if ppm > kPpm then kPpm else ppm))"

definition compute_headroom :: "compare_direction \<Rightarrow> u64 \<Rightarrow> u64 \<Rightarrow> u32" where
  "compute_headroom dir required composed =
     (if required = 0 then 1000000
      else if dir = Dir_AtLeast then
        (if composed \<le> required then 0 else headroom_of (composed - required) required)
      else
        (if composed \<ge> required then 0 else headroom_of (required - composed) required))"

definition short_text :: "string \<Rightarrow> string" where "short_text text = take kMaxDetailLen text"

section \<open>Obligation derivation\<close>

definition blank_assessment :: "obligation_plan \<Rightarrow> obligation_assessment" where
  "blank_assessment item = \<lparr>oa_kind = pl_kind item, oa_id = pl_id item,
     oa_binding = pl_binding item, oa_relaxable = obligation_relaxable (pl_kind item),
     oa_direction = obligation_direction (pl_kind item),
     oa_aggregate = obligation_aggregate (pl_kind item),
     oa_path_level = (pl_kind item = K_DisjointPaths), oa_required_value = pl_required item,
     oa_effective_limit = pl_required item, oa_composed_value = None,
     oa_relaxation_applied_ppm = 0, oa_relaxation_reported_only = False,
     oa_status = OS_Satisfied, oa_binding_resource = None, oa_weakest_resource = None,
     oa_headroom_ppm = 0,
     oa_detail = (if pl_kind item = K_Predicate then short_text (pl_predicate item) else [])\<rparr>"

definition derive_obligations :: "qos_class \<Rightarrow> policy \<Rightarrow> obligation_assessment list result" where
  "derive_obligations klass pol =
     bindR (validate_class klass) (\<lambda>_.
     bindR (validate_policy pol) (\<lambda>_.
     Inr (map blank_assessment (build_plan klass pol))))"

section \<open>Evaluation: inputs and intake\<close>

record currency_vector =
  cv_latest_class_generation :: "generation option"
  cv_latest_policy_generation :: "generation option"
  cv_latest_path_generation :: "generation option"

record evaluation_inputs =
  in_request :: contract_request
  in_klass :: qos_class
  in_policy :: policy
  in_path :: path
  in_capabilities :: "resource_capability option list"
  in_reservations :: "reservation option list"
  in_currency :: currency_vector
  in_conflicts :: "conflict_marker list"
  in_current_epoch :: fabric_epoch
  in_now_ms :: u64
  in_evaluator :: string

text \<open>
  The running outcome and the first reason noted. A finding is a guard, the text it notes
  and the outcome it merges.
\<close>

type_synonym verdict = "outcome \<times> string"
type_synonym finding = "bool \<times> string \<times> outcome"

definition note_reason :: "string \<Rightarrow> string \<Rightarrow> string" where
  "note_reason text reason = (if reason = [] then short_text text else reason)"

fun apply_finding :: "finding \<Rightarrow> verdict \<Rightarrow> verdict" where
  "apply_finding (fires, text, out) (outcome, reason) =
     (if fires then (merge outcome out, note_reason text reason) else (outcome, reason))"

definition apply_findings :: "finding list \<Rightarrow> verdict \<Rightarrow> verdict" where
  "apply_findings fs v = fold apply_finding fs v"

definition initial_decision :: "evaluation_inputs \<Rightarrow> contract_decision" where
  "initial_decision inp =
     (let request = in_request inp; klass = in_klass inp; pol = in_policy inp; pth = in_path inp
      in \<lparr>cd_contract = rq_contract request,
          cd_contract_generation = rq_contract_generation request, cd_outcome = O_Rejected,
          cd_class_id = qc_id klass, cd_class_generation = qc_generation klass,
          cd_class_digest = qc_digest klass, cd_subject = rq_subject request,
          cd_subject_generation = rq_subject_generation request, cd_path = pa_id pth,
          cd_path_generation = pa_generation pth, cd_path_digest = pa_digest pth,
          cd_policy = po_id pol, cd_policy_generation = po_generation pol,
          cd_policy_digest = po_digest pol, cd_priority = rq_priority request,
          cd_priority_generation = rq_priority_generation request,
          cd_fabric_epoch = in_current_epoch inp,
          cd_observed_epoch = rq_observed_epoch request, cd_decided_at_ms = in_now_ms inp,
          cd_obligations = [], cd_resources = [], cd_degradations = [], cd_authority = [],
          cd_binding_obligation = None, cd_binding_resource = None,
          cd_unknown_components = 0, cd_violated_obligations = 0,
          cd_unsatisfied_diversity_domains = 0, cd_primary_reason = [],
          cd_request_digest = compute_request_digest request,
          cd_decision_digest = zero_digest,
          cd_provenance = make_provenance
            (if in_evaluator inp = [] then ''qosfabric.engine'' else in_evaluator inp)
            (in_current_epoch inp) 1 1\<rparr>)"

definition invalid_finding :: "string \<Rightarrow> unit result \<Rightarrow> finding" where
  "invalid_finding prefix r =
     (case r of Inl e \<Rightarrow> (True, prefix @ err_detail e, O_Rejected) | Inr _ \<Rightarrow> (False, [], O_Rejected))"

definition intake_findings :: "evaluation_inputs \<Rightarrow> finding list" where
  "intake_findings inp =
     (let request = in_request inp; klass = in_klass inp; pol = in_policy inp; pth = in_path inp
      in [invalid_finding ''request invalid: '' (validate_request request),
          invalid_finding ''class invalid: '' (validate_class klass),
          invalid_finding ''policy invalid: '' (validate_policy pol),
          invalid_finding ''path invalid: '' (validate_path pth),
          (qc_id klass \<noteq> rq_class_id request,
             ''resolved class does not match the requested class identifier'', O_Rejected),
          (po_id pol \<noteq> rq_policy request,
             ''resolved policy does not match the requested policy identifier'', O_Rejected),
          (pa_id pth \<noteq> rq_path request,
             ''resolved path does not match the requested path identifier'', O_Rejected),
          (rq_class_generation request \<noteq> 0 \<and> rq_class_generation request \<noteq> qc_generation klass,
             ''resolved class generation does not match the requested generation'', O_Rejected),
          (rq_policy_generation request \<noteq> 0 \<and> rq_policy_generation request \<noteq> po_generation pol,
             ''resolved policy generation does not match the requested generation'', O_Rejected),
          (rq_path_generation request \<noteq> 0 \<and> rq_path_generation request \<noteq> pa_generation pth,
             ''resolved path generation does not match the requested generation'', O_Rejected),
          (length (in_capabilities inp) \<noteq> length (pa_components pth),
             ''capability vector does not cover every path component'', O_Rejected),
          (in_reservations inp \<noteq> [] \<and> length (in_reservations inp) \<noteq> length (pa_components pth),
             ''reservation vector does not cover every path component'', O_Rejected)])"

definition authority_class :: "evaluation_inputs \<Rightarrow> authority_entry" where
  "authority_class inp = (let k = in_klass inp in
     \<lparr>au_dimension = Dim_Class, au_id = qc_id k, au_generation = qc_generation k,
      au_digest_hex = digest_hex (qc_digest k), au_epoch = qc_published_epoch k,
      au_source = prov_origin (qc_provenance k)\<rparr>)"

definition authority_policy :: "evaluation_inputs \<Rightarrow> authority_entry" where
  "authority_policy inp = (let p = in_policy inp in
     \<lparr>au_dimension = Dim_Policy, au_id = po_id p, au_generation = po_generation p,
      au_digest_hex = digest_hex (po_digest p), au_epoch = po_published_epoch p,
      au_source = prov_origin (po_provenance p)\<rparr>)"

definition authority_path :: "evaluation_inputs \<Rightarrow> authority_entry" where
  "authority_path inp = (let p = in_path inp in
     \<lparr>au_dimension = Dim_Path, au_id = pa_id p, au_generation = pa_generation p,
      au_digest_hex = digest_hex (pa_digest p), au_epoch = pa_epoch p,
      au_source = prov_origin (pa_provenance p)\<rparr>)"

definition authority_epoch :: "evaluation_inputs \<Rightarrow> authority_entry" where
  "authority_epoch inp =
     \<lparr>au_dimension = Dim_FabricEpoch, au_id = ''fabric'', au_generation = in_current_epoch inp,
      au_digest_hex = [], au_epoch = in_current_epoch inp, au_source = ''registry''\<rparr>"

definition seal_decision :: "contract_decision \<Rightarrow> contract_decision" where
  "seal_decision d = d\<lparr>cd_decision_digest := compute_decision_digest d\<rparr>"

definition rejected_decision :: "evaluation_inputs \<Rightarrow> string \<Rightarrow> contract_decision" where
  "rejected_decision inp reason =
     seal_decision ((initial_decision inp)\<lparr>cd_outcome := O_Rejected,
       cd_primary_reason := (if reason = [] then ''rejected at intake'' else reason),
       cd_authority := [authority_class inp, authority_policy inp, authority_path inp,
         authority_epoch inp]\<rparr>)"

end
