(* ===== verification/Evaluate.thy ===== *)
theory Evaluate
  imports Engine
begin

text \<open>
  \<open>evaluate\<close> of \<open>src/engine.cpp\<close>, phase by phase: conflicts, the resolution of every path
  component, currency, the assessment of every obligation, the roll-up, the binding
  obligation and the authority vector.
\<close>

section \<open>Conflicts\<close>

definition marker_applies :: "evaluation_inputs \<Rightarrow> conflict_marker \<Rightarrow> bool" where
  "marker_applies inp m =
     (case cm_scope m of
        Scope_Class \<Rightarrow> cm_id m = qc_id (in_klass inp)
      | Scope_Policy \<Rightarrow> cm_id m = po_id (in_policy inp)
      | Scope_Path \<Rightarrow> cm_id m = pa_id (in_path inp)
      | Scope_Capability \<Rightarrow> list_ex (\<lambda>c. cm_id m = pc_resource c) (pa_components (in_path inp))
      | Scope_Reservation \<Rightarrow> list_ex (\<lambda>c. cm_id m = pc_resource c) (pa_components (in_path inp))
      | Scope_Count \<Rightarrow> False)"

definition marker_text :: "conflict_marker \<Rightarrow> string" where
  "marker_text m = ''equivocated '' @ scope_to_string (cm_scope m) @ '' definition '' @ cm_id m @
     ''@'' @ u64_to_string (cm_generation m)"

text \<open>Both loops of the phase stop at the first hit.\<close>

definition conflict_findings :: "evaluation_inputs \<Rightarrow> finding list" where
  "conflict_findings inp =
     [(qc_id (in_klass inp) \<in> set (po_denied_classes (in_policy inp)),
         ''policy denies the referenced service class'', O_Conflict),
      (case List.find (marker_applies inp) (in_conflicts inp) of
         None \<Rightarrow> (False, [], O_Conflict)
       | Some m \<Rightarrow> (True, marker_text m, O_Conflict))]"

section \<open>Component resolution\<close>

definition blank_resolution :: "nat \<Rightarrow> path_component \<Rightarrow> reservation option \<Rightarrow> resolution" where
  "blank_resolution i c reserved = \<lparr>rv_index = i, rv_resource = pc_resource c,
     rv_declared_domain = pc_diversity_domain c, rv_role = pc_role c,
     rv_bound_generation = pc_capability_generation c, rv_status = CStat_Unknown,
     rv_capability = None, rv_reservation = reserved, rv_observed_generation = None,
     rv_observed_incarnation = None, rv_self_declared_degraded = False,
     rv_domain_contradiction = False, rv_reason = []\<rparr>"

definition resolved :: "resolution \<Rightarrow> component_status \<Rightarrow> string \<Rightarrow> resolution" where
  "resolved r status reason = r\<lparr>rv_status := status, rv_reason := reason\<rparr>"

definition resolve_capability ::
  "evaluation_inputs \<Rightarrow> path_component \<Rightarrow> resource_capability \<Rightarrow> resolution \<Rightarrow> resolution" where
  "resolve_capability inp c cap r =
     (let r = r\<lparr>rv_capability := Some cap, rv_observed_generation := Some (ca_generation cap),
              rv_observed_incarnation := Some (ca_incarnation cap)\<rparr>;
          pol = in_policy inp; now_ms = in_now_ms inp
      in if ca_resource cap \<noteq> pc_resource c then
           resolved r CStat_Unknown ''capability record names a different resource''
         else if ca_generation cap \<noteq> pc_capability_generation c then
           resolved r CStat_Stale
             ''capability generation differs from the generation the path bound''
         else if ca_epoch cap + ucast (po_max_stale_epochs pol) < in_current_epoch inp then
           resolved r CStat_Stale ''capability epoch is behind the fabric epoch''
         else if ca_expires_at_ms cap \<noteq> 0 \<and> now_ms > ca_expires_at_ms cap then
           resolved r CStat_Stale ''capability declaration has expired''
         else if ca_published_at_ms cap > now_ms then
           resolved r CStat_Stale ''capability declaration is dated in the future''
         else if now_ms - ca_published_at_ms cap > po_capability_max_age_ms pol then
           resolved r CStat_Stale
             ''capability declaration is older than the policy freshness window''
         else if ca_state cap = Cap_Unavailable then
           resolved r CStat_Unavailable ''resource declared itself unavailable''
         else if ca_state cap = Cap_Unknown then
           resolved r CStat_Unknown ''resource declared an unknown state''
         else
           let r = (if ca_state cap = Cap_Degraded then r\<lparr>rv_self_declared_degraded := True\<rparr> else r)
           in if ca_diversity_domain cap \<noteq> [] \<and> ca_diversity_domain cap \<noteq> pc_diversity_domain c then
                resolved (r\<lparr>rv_domain_contradiction := True\<rparr>) CStat_Violated
                  ''path and resource disagree about the failure domain''
              else r\<lparr>rv_status := (if rv_self_declared_degraded r then CStat_Degraded
                      else CStat_Satisfied)\<rparr>)"

definition resolve_component :: "evaluation_inputs \<Rightarrow> nat \<times> path_component \<Rightarrow> resolution option" where
  "resolve_component inp ic =
     (case ic of (i, c) \<Rightarrow>
      Option.bind (if in_reservations inp \<noteq> [] then at (in_reservations inp) i else Some None) (\<lambda>reserved.
      Option.bind (at (in_capabilities inp) i) (\<lambda>slot.
      let r = blank_resolution i c reserved
      in Some (case slot of
           None \<Rightarrow> resolved r CStat_Unknown ''no capability evidence is held for this resource''
         | Some cap \<Rightarrow> resolve_capability inp c cap r))))"

definition resolve_all :: "evaluation_inputs \<Rightarrow> resolution list option" where
  "resolve_all inp = map_ub (resolve_component inp) (enumerate 0 (pa_components (in_path inp)))"

definition contradiction_findings :: "resolution list \<Rightarrow> finding list" where
  "contradiction_findings rs =
     map (\<lambda>r. (rv_domain_contradiction r,
       ''failure-domain contradiction for resource '' @ rv_resource r, O_Conflict)) rs"

section \<open>Currency\<close>

definition superseded :: "generation option \<Rightarrow> generation \<Rightarrow> bool" where
  "superseded latest g = (case latest of None \<Rightarrow> False | Some l \<Rightarrow> l \<noteq> g)"

definition currency_findings :: "evaluation_inputs \<Rightarrow> finding list" where
  "currency_findings inp =
     (let cur = in_currency inp; request = in_request inp
      in [(superseded (cv_latest_class_generation cur) (qc_generation (in_klass inp)),
             ''class generation has been superseded'', O_Stale),
          (superseded (cv_latest_policy_generation cur) (po_generation (in_policy inp)),
             ''policy generation has been superseded'', O_Stale),
          (superseded (cv_latest_path_generation cur) (pa_generation (in_path inp)),
             ''path generation has been superseded'', O_Stale),
          (rq_observed_epoch request \<noteq> 0 \<and>
             rq_observed_epoch request + ucast (po_max_stale_epochs (in_policy inp)) < in_current_epoch inp,
             ''request observed an epoch that is behind the current fabric epoch'', O_Stale)])"

section \<open>Obligation assessment\<close>

text \<open>What the loop over the plan reads: the degradation permission is computed once.\<close>

record eval_ctx =
  ec_inputs :: evaluation_inputs
  ec_plan :: "obligation_plan list"
  ec_resolutions :: "resolution list"
  ec_permitted :: bool
  ec_window_ppm :: u32
  ec_report_only :: bool

definition make_ctx :: "evaluation_inputs \<Rightarrow> resolution list \<Rightarrow> eval_ctx" where
  "make_ctx inp rs =
     (let klass = in_klass inp; pol = in_policy inp;
          permitted = qc_allow_degrade klass \<and> po_degrade_permitted pol \<and>
            qc_violation_policy klass \<noteq> VP_Reject
      in \<lparr>ec_inputs = inp, ec_plan = build_plan klass pol, ec_resolutions = rs,
          ec_permitted = permitted,
          ec_window_ppm = (if permitted
             then min (qc_degrade_max_relaxation_ppm klass) (po_max_relaxation_ppm pol) else 0),
          ec_report_only = (qc_violation_policy klass = VP_ReportOnly \<and> qc_allow_degrade klass \<and>
             po_degrade_permitted pol)\<rparr>)"

definition value_of :: "eval_ctx \<Rightarrow> obligation_plan \<Rightarrow> resolution \<Rightarrow> raw_value option" where
  "value_of ctx item r =
     (let inp = ec_inputs ctx
      in component_value item r (in_klass inp) (in_policy inp) (in_current_epoch inp) (in_now_ms inp))"

definition meets :: "compare_direction \<Rightarrow> u64 \<Rightarrow> u64 \<Rightarrow> bool" where
  "meets dir v limit = (if dir = Dir_AtLeast then v \<ge> limit else v \<le> limit)"

definition relaxed_limit :: "compare_direction \<Rightarrow> u64 \<Rightarrow> u64 \<Rightarrow> u64" where
  "relaxed_limit dir required delta =
     (if dir = Dir_AtLeast then required - min delta required else required + delta)"

subsection \<open>Path diversity\<close>

text \<open>
  Whether one component qualifies for diversity: the verdict and whether it failed for
  missing evidence.
\<close>

fun qualify_loop :: "eval_ctx \<Rightarrow> resolution \<Rightarrow> obligation_plan list \<Rightarrow> (bool \<times> bool) option" where
  "qualify_loop ctx r [] = Some (True, False)"
| "qualify_loop ctx r (other # rest) =
     (if pl_kind other = K_DisjointPaths then qualify_loop ctx r rest
      else case value_of ctx other r of
        None \<Rightarrow> None
      | Some v \<Rightarrow>
          if \<not> rw_present v then Some (False, True)
          else if pl_kind other = K_ResourceState then qualify_loop ctx r rest
          else
            let dir = obligation_direction (pl_kind other)
            in if meets dir (rw_value v) (pl_required other) then qualify_loop ctx r rest
               else if \<not> obligation_relaxable (pl_kind other) \<or> \<not> ec_permitted ctx
               then Some (False, False)
               else case checked_mul (pl_required other) (ucast (ec_window_ppm ctx)) of
                 None \<Rightarrow> Some (False, False)
               | Some product \<Rightarrow>
                   if \<not> meets dir (rw_value v) (relaxed_limit dir (pl_required other) (product div kPpm))
                      \<and> \<not> ec_report_only ctx
                   then Some (False, False)
                   else qualify_loop ctx r rest)"

fun diversity_scan :: "eval_ctx \<Rightarrow> resolution list \<Rightarrow> string list \<Rightarrow> bool \<Rightarrow> (string list \<times> bool) option" where
  "diversity_scan ctx [] domains unknown = Some (domains, unknown)"
| "diversity_scan ctx (r # rs) domains unknown =
     (if rv_status r = CStat_Unknown then diversity_scan ctx rs domains True
      else if rv_status r \<noteq> CStat_Satisfied \<and> rv_status r \<noteq> CStat_Degraded
      then diversity_scan ctx rs domains unknown
      else case qualify_loop ctx r (ec_plan ctx) of
        None \<Rightarrow> None
      | Some (ok, missing) \<Rightarrow>
          if ok then diversity_scan ctx rs (push_new domains (rv_declared_domain r)) unknown
          else if missing then diversity_scan ctx rs domains True
          else diversity_scan ctx rs domains unknown)"

definition diversity_text :: "u64 \<Rightarrow> u64 \<Rightarrow> string \<Rightarrow> string" where
  "diversity_text diversity required tail =
     short_text (u64_to_string diversity @ '' of '' @ u64_to_string required @ tail)"

definition diversity_floor :: "eval_ctx \<Rightarrow> u64 \<Rightarrow> u64" where
  "diversity_floor ctx required =
     (let product = (case checked_mul required (ucast (ec_window_ppm ctx)) of None \<Rightarrow> 0 | Some p \<Rightarrow> p);
          delta = product div kPpm;
          floor_value = required - min delta (required - 1)
      in if floor_value < 1 then 1 else floor_value)"

definition assess_short_diversity ::
  "eval_ctx \<Rightarrow> obligation_assessment \<Rightarrow> u64 \<Rightarrow> bool \<Rightarrow> obligation_assessment" where
  "assess_short_diversity ctx a diversity unknown =
     (let required = oa_required_value a in
      if unknown then a\<lparr>oa_status := OS_Unknown, oa_detail :=
        ''diversity cannot be concluded while a required component offers no evidence''\<rparr>
      else if ec_permitted ctx then
        let floor_value = diversity_floor ctx required in
        if diversity \<ge> floor_value then
          let reference = (if required = 0 then 1 else required);
              ppm = (case relative_ppm reference (reference - diversity) of
                       None \<Rightarrow> ucast kPpm | Some p \<Rightarrow> p)
          in a\<lparr>oa_status := OS_Degraded, oa_effective_limit := floor_value,
              oa_relaxation_applied_ppm := min 1000000 ppm,
              oa_detail := diversity_text diversity required
                '' disjoint domains, inside the permitted window''\<rparr>
        else if ec_report_only ctx then
          a\<lparr>oa_status := OS_Degraded, oa_relaxation_reported_only := True,
            oa_effective_limit := diversity, oa_relaxation_applied_ppm := 1000000,
            oa_detail := diversity_text diversity required
              '' disjoint domains reported under a report-only policy''\<rparr>
        else a\<lparr>oa_status := OS_Violated, oa_detail := diversity_text diversity required
          '' disjoint domains, outside the permitted window''\<rparr>
      else a\<lparr>oa_status := OS_Violated, oa_detail := diversity_text diversity required
        '' required disjoint domains''\<rparr>)"

text \<open>The second component is the number of unsatisfied domains, when there are any.\<close>

definition assess_diversity ::
  "eval_ctx \<Rightarrow> obligation_plan \<Rightarrow> (obligation_assessment \<times> u32 option) option" where
  "assess_diversity ctx item =
     (case diversity_scan ctx (ec_resolutions ctx) [] False of
        None \<Rightarrow> None
      | Some (domains, unknown) \<Rightarrow>
          let diversity = word_of_nat (length domains);
              a = (blank_assessment item)\<lparr>oa_composed_value := Some diversity\<rparr>;
              required = oa_required_value a;
              a = (if diversity \<ge> required then
                     a\<lparr>oa_status := OS_Satisfied,
                       oa_headroom_ppm := compute_headroom Dir_AtLeast required diversity,
                       oa_detail := short_text (u64_to_string diversity @ '' disjoint domains available'')\<rparr>
                   else assess_short_diversity ctx a diversity unknown)
          in Some (a, if diversity < required then Some (ucast (required - diversity)) else None))"

subsection \<open>The scan over the components\<close>

text \<open>
  The flags and indices of the scan: the last stale component, the first unavailable (or
  contradicted) one, the first unknown one, and the values read.
\<close>

record scan =
  sc_stale :: "nat option"
  sc_unavailable :: "nat option"
  sc_unknown :: "nat option"
  sc_values :: "raw_value list"

definition no_value :: raw_value where "no_value = absent []"

definition keep_first :: "nat option \<Rightarrow> nat \<Rightarrow> nat option" where
  "keep_first o1 i = (case o1 of None \<Rightarrow> Some i | Some j \<Rightarrow> Some j)"

definition scan_step :: "eval_ctx \<Rightarrow> obligation_plan \<Rightarrow> nat \<Rightarrow> resolution \<Rightarrow> scan \<Rightarrow> scan option" where
  "scan_step ctx item i r s =
     (let blankd = s\<lparr>sc_values := sc_values s @ [no_value]\<rparr> in
      if rv_status r = CStat_Stale then Some (blankd\<lparr>sc_stale := Some i\<rparr>)
      else if rv_status r = CStat_Unavailable \<or> rv_status r = CStat_Violated then
        Some (blankd\<lparr>sc_unavailable := keep_first (sc_unavailable s) i\<rparr>)
      else if rv_status r = CStat_Unknown then
        Some (blankd\<lparr>sc_unknown := keep_first (sc_unknown s) i\<rparr>)
      else map_option (\<lambda>v. s\<lparr>sc_values := sc_values s @ [v]\<rparr>) (value_of ctx item r))"

fun scan_loop :: "eval_ctx \<Rightarrow> obligation_plan \<Rightarrow> nat \<Rightarrow> resolution list \<Rightarrow> scan \<Rightarrow> scan option" where
  "scan_loop ctx item i [] s = Some s"
| "scan_loop ctx item i (r # rs) s =
     (case scan_step ctx item i r s of None \<Rightarrow> None | Some s \<Rightarrow> scan_loop ctx item (Suc i) rs s)"

definition scan_components :: "eval_ctx \<Rightarrow> obligation_plan \<Rightarrow> scan option" where
  "scan_components ctx item = scan_loop ctx item 0 (ec_resolutions ctx)
     \<lparr>sc_stale = None, sc_unavailable = None, sc_unknown = None, sc_values = []\<rparr>"

definition blame :: "obligation_assessment \<Rightarrow> obligation_status \<Rightarrow> resolution \<Rightarrow> string \<Rightarrow> obligation_assessment" where
  "blame a status r text = a\<lparr>oa_status := status, oa_binding_resource := Some (rv_resource r),
     oa_weakest_resource := Some (rv_resource r), oa_detail := short_text text\<rparr>"

text \<open>
  The three negative statuses of a scan in the order the code tests them. The inner
  \<^const>\<open>None\<close> means that none applies.
\<close>

definition blame_scan ::
  "resolution list \<Rightarrow> scan \<Rightarrow> obligation_assessment \<Rightarrow> obligation_assessment option option" where
  "blame_scan rs s a =
     (let blame_at = (\<lambda>status i. map_option (\<lambda>r. Some (blame a status r (rv_reason r))) (at rs i))
      in case sc_stale s of Some i \<Rightarrow> blame_at OS_Stale i | None \<Rightarrow>
        (case sc_unavailable s of Some i \<Rightarrow> blame_at OS_Unavailable i | None \<Rightarrow>
          (case sc_unknown s of Some i \<Rightarrow> blame_at OS_Unknown i | None \<Rightarrow> Some None)))"

subsection \<open>The resource state obligation\<close>

fun state_loop :: "nat \<Rightarrow> raw_value list \<Rightarrow> u64 \<Rightarrow> nat \<Rightarrow> u64 \<times> nat" where
  "state_loop i [] worst wi = (worst, wi)"
| "state_loop i (v # vs) worst wi =
     (if rw_present v \<and> rw_value v < worst then state_loop (Suc i) vs (rw_value v) i
      else state_loop (Suc i) vs worst wi)"

definition assess_state ::
  "eval_ctx \<Rightarrow> scan \<Rightarrow> obligation_assessment \<Rightarrow> obligation_assessment option" where
  "assess_state ctx s a =
     (let rs = ec_resolutions ctx in
      case state_loop 0 (sc_values s) kStateAvailable 0 of (worst, worst_index) \<Rightarrow>
      let degraded_seen = list_ex rv_self_declared_degraded (take (length (sc_values s)) rs) in
      Option.bind (if rs = [] then Some None else map_option (\<lambda>r. Some (rv_resource r)) (at rs worst_index)) (\<lambda>owner.
      let a = a\<lparr>oa_binding_resource := owner, oa_weakest_resource := owner\<rparr> in
      Option.bind (blame_scan rs s a) (\<lambda>blamed.
      case blamed of Some a \<Rightarrow> Some a | None \<Rightarrow>
        let a = a\<lparr>oa_composed_value := Some worst\<rparr> in
        if worst \<ge> kStateAvailable then
          Some (a\<lparr>oa_status := OS_Satisfied, oa_headroom_ppm := 1000000\<rparr>)
        else
          Option.bind (at rs worst_index) (\<lambda>r.
          let a = a\<lparr>oa_binding_resource := Some (rv_resource r), oa_weakest_resource := Some (rv_resource r)\<rparr> in
          if ec_permitted ctx \<and> degraded_seen then
            Some (a\<lparr>oa_status := OS_Degraded, oa_effective_limit := worst,
              oa_detail := short_text (rv_resource r @ '' declared a degraded capability state'')\<rparr>)
          else
            Some (a\<lparr>oa_status := OS_Violated, oa_detail :=
              (if degraded_seen
               then ''a required resource declared a degraded state with no permitted degradation''
               else ''a required resource did not declare an available state'')\<rparr>)))))"

subsection \<open>The composed obligations\<close>

definition overhead_of :: "path \<Rightarrow> obligation_kind \<Rightarrow> u64" where
  "overhead_of pth kind =
     (if kind = K_Latency then pa_fixed_latency_us pth
      else if kind = K_Jitter then pa_fixed_jitter_us pth else 0)"

text \<open>The verdict on a composed value that does not meet the requirement.\<close>

definition assess_shortfall :: "eval_ctx \<Rightarrow> obligation_assessment \<Rightarrow> u64 \<Rightarrow> obligation_assessment" where
  "assess_shortfall ctx a composed =
     (let required = oa_required_value a; dir = oa_direction a in
      if \<not> oa_relaxable a then a\<lparr>oa_status := OS_Violated,
        oa_detail := ''structural requirement is not met and is never relaxable''\<rparr>
      else if \<not> ec_permitted ctx \<or> ec_window_ppm ctx = 0 then a\<lparr>oa_status := OS_Violated,
        oa_detail := ''no degradation permission covers this obligation''\<rparr>
      else case checked_mul required (ucast (ec_window_ppm ctx)) of
        None \<Rightarrow> a\<lparr>oa_status := OS_Violated, oa_detail := ''relaxation window overflowed''\<rparr>
      | Some product \<Rightarrow>
          let effective = relaxed_limit dir required (product div kPpm);
              shortfall = (if dir = Dir_AtLeast then required - composed else composed - required);
              applied_ppm = (case relative_ppm required shortfall of None \<Rightarrow> 1000000 | Some p \<Rightarrow> p)
          in if meets dir composed effective then
               a\<lparr>oa_status := OS_Degraded, oa_effective_limit := effective,
                 oa_relaxation_applied_ppm := applied_ppm,
                 oa_detail := ''requirement met inside the permitted relaxation window''\<rparr>
             else if ec_report_only ctx then
               a\<lparr>oa_status := OS_Degraded, oa_relaxation_reported_only := True,
                 oa_effective_limit := composed, oa_relaxation_applied_ppm := applied_ppm,
                 oa_detail := ''violation reported under a report-only violation policy''\<rparr>
             else
               a\<lparr>oa_status := OS_Violated, oa_effective_limit := effective,
                 oa_detail := ''shortfall exceeds the permitted relaxation window''\<rparr>)"

definition assess_composed :: "eval_ctx \<Rightarrow> obligation_assessment \<Rightarrow> u64 \<Rightarrow> obligation_assessment" where
  "assess_composed ctx a composed =
     (if meets (oa_direction a) composed (oa_required_value a) then
        a\<lparr>oa_status := OS_Satisfied,
          oa_headroom_ppm := compute_headroom (oa_direction a) (oa_required_value a) composed\<rparr>
      else assess_shortfall ctx a composed)"

text \<open>The second component says that the aggregation overflowed.\<close>

definition assess_values ::
  "eval_ctx \<Rightarrow> scan \<Rightarrow> obligation_assessment \<Rightarrow> (obligation_assessment \<times> bool) option" where
  "assess_values ctx s a =
     (let rs = ec_resolutions ctx in
      Option.bind (blame_scan rs s a) (\<lambda>blamed.
      case blamed of Some a \<Rightarrow> Some (a, False) | None \<Rightarrow>
        (case first_absent 0 (sc_values s) of
           Some (i, detail) \<Rightarrow> map_option (\<lambda>r. (blame a OS_Unknown r detail, False)) (at rs i)
         | None \<Rightarrow>
             let c = compose_values (obligation_aggregate (oa_kind a)) (sc_values s)
               (overhead_of (in_path (ec_inputs ctx)) (oa_kind a)) in
             if co_overflow c then
               Some (a\<lparr>oa_status := OS_Unknown, oa_detail := ''aggregation overflow''\<rparr>, True)
             else (case co_value c of
               None \<Rightarrow> Some (a\<lparr>oa_status := OS_Unknown, oa_detail := short_text (co_detail c)\<rparr>, False)
             | Some composed \<Rightarrow>
                 Option.bind (at rs (co_binding_index c)) (\<lambda>rb.
                 Option.bind (at rs (co_weakest_index c)) (\<lambda>rw.
                 Some (assess_composed ctx (a\<lparr>oa_composed_value := Some composed,
                   oa_binding_resource := Some (rv_resource rb),
                   oa_weakest_resource := Some (rv_resource rw)\<rparr>) composed, False)))))))"

definition assess_item ::
  "eval_ctx \<Rightarrow> obligation_plan \<Rightarrow> (obligation_assessment \<times> u32 option \<times> bool) option" where
  "assess_item ctx item =
     (if pl_kind item = K_DisjointPaths then
        map_option (\<lambda>(a, unsat). (a, unsat, False)) (assess_diversity ctx item)
      else
        Option.bind (scan_components ctx item) (\<lambda>s.
        if pl_kind item = K_ResourceState then
          map_option (\<lambda>a. (a, None, False)) (assess_state ctx s (blank_assessment item))
        else
          map_option (\<lambda>(a, over). (a, None, over)) (assess_values ctx s (blank_assessment item))))"

definition overflow_finding :: "bool \<Rightarrow> finding" where
  "overflow_finding over =
     (over, ''end-to-end aggregation overflowed the representable domain'', O_Rejected)"

text \<open>The loop over the plan extends the decision and the verdict.\<close>

fun assess_loop ::
  "eval_ctx \<Rightarrow> obligation_plan list \<Rightarrow> contract_decision \<Rightarrow> verdict \<Rightarrow> (contract_decision \<times> verdict) option" where
  "assess_loop ctx [] d v = Some (d, v)"
| "assess_loop ctx (item # items) d v =
     (case assess_item ctx item of
        None \<Rightarrow> None
      | Some (a, unsat, over) \<Rightarrow>
          let d = (case unsat of None \<Rightarrow> d | Some n \<Rightarrow> d\<lparr>cd_unsatisfied_diversity_domains := n\<rparr>)
          in assess_loop ctx items (d\<lparr>cd_obligations := cd_obligations d @ [a]\<rparr>)
               (apply_finding (overflow_finding over) v))"

section \<open>Roll-up\<close>

definition resource_of :: "resolution \<Rightarrow> resource_assessment" where
  "resource_of r = \<lparr>ra_resource = rv_resource r, ra_diversity_domain = rv_declared_domain r,
     ra_role = rv_role r, ra_bound_capability_generation = rv_bound_generation r,
     ra_observed_capability_generation = rv_observed_generation r,
     ra_observed_incarnation = rv_observed_incarnation r, ra_status = rv_status r,
     ra_self_declared_degraded = rv_self_declared_degraded r,
     ra_reason = short_text (rv_reason r)\<rparr>"

definition degradation_of :: "obligation_assessment \<Rightarrow> degradation_reason" where
  "degradation_of a = \<lparr>dr_kind = oa_kind a, dr_id = oa_id a, dr_resource = oa_binding_resource a,
     dr_relaxation_ppm = oa_relaxation_applied_ppm a,
     dr_reported_only = oa_relaxation_reported_only a, dr_detail = oa_detail a\<rparr>"

definition push_degradation :: "degradation_reason \<Rightarrow> degradation_reason list \<Rightarrow> degradation_reason list" where
  "push_degradation x xs =
     (let xs = xs @ [x] in if length xs > kMaxDegradations then take kMaxDegradations xs else xs)"

definition roll_up :: "obligation_assessment \<Rightarrow> contract_decision \<times> outcome \<Rightarrow> contract_decision \<times> outcome" where
  "roll_up a st =
     (case st of (d, out) \<Rightarrow>
      case oa_status a of
        OS_Satisfied \<Rightarrow> (d, out)
      | OS_NotApplicable \<Rightarrow> (d, out)
      | OS_Degraded \<Rightarrow>
          (d\<lparr>cd_degradations := push_degradation (degradation_of a) (cd_degradations d)\<rparr>,
           merge out O_SupportedDegraded)
      | OS_Violated \<Rightarrow>
          (d\<lparr>cd_violated_obligations := cd_violated_obligations d + 1\<rparr>, merge out O_Unsupported)
      | OS_Unknown \<Rightarrow> (d, merge out O_Unknown)
      | OS_Unavailable \<Rightarrow> (d, merge out O_Unsupported)
      | OS_Stale \<Rightarrow> (d, merge out O_Stale))"

definition count_unknown :: "resolution list \<Rightarrow> u32" where
  "count_unknown rs = fold (\<lambda>r n. if rv_status r = CStat_Unknown then n + 1 else n) rs 0"

section \<open>The binding obligation\<close>

definition select_status :: "obligation_status \<Rightarrow> obligation_assessment list \<Rightarrow> obligation_assessment option" where
  "select_status status as = List.find (\<lambda>a. oa_status a = status) as"

definition better_degraded ::
  "obligation_assessment \<Rightarrow> obligation_assessment option \<Rightarrow> obligation_assessment option" where
  "better_degraded a b =
     (if oa_status a \<noteq> OS_Degraded then b
      else case b of None \<Rightarrow> Some a
        | Some c \<Rightarrow> if oa_relaxation_applied_ppm a > oa_relaxation_applied_ppm c then Some a else b)"

definition better_satisfied ::
  "obligation_assessment \<Rightarrow> obligation_assessment option \<Rightarrow> obligation_assessment option" where
  "better_satisfied a b =
     (if oa_status a \<noteq> OS_Satisfied then b
      else case b of None \<Rightarrow> Some a
        | Some c \<Rightarrow> if oa_headroom_ppm a < oa_headroom_ppm c then Some a else b)"

definition select_binding :: "outcome \<Rightarrow> obligation_assessment list \<Rightarrow> obligation_assessment option" where
  "select_binding out as =
     (case out of
        O_Stale \<Rightarrow> select_status OS_Stale as
      | O_Unsupported \<Rightarrow>
          (case select_status OS_Unavailable as of
             None \<Rightarrow> select_status OS_Violated as | Some a \<Rightarrow> Some a)
      | O_Unknown \<Rightarrow> select_status OS_Unknown as
      | O_SupportedDegraded \<Rightarrow> fold better_degraded as None
      | O_Supported \<Rightarrow> fold better_satisfied as None
      | O_Conflict \<Rightarrow> None
      | O_Rejected \<Rightarrow> None)"

section \<open>The authority vector\<close>

definition authority_subject :: "evaluation_inputs \<Rightarrow> authority_entry" where
  "authority_subject inp = (let q = in_request inp in
     \<lparr>au_dimension = Dim_Subject, au_id = rq_subject q, au_generation = rq_subject_generation q,
      au_digest_hex = [], au_epoch = in_current_epoch inp,
      au_source = prov_origin (rq_provenance q)\<rparr>)"

definition authority_priority :: "evaluation_inputs \<Rightarrow> authority_entry" where
  "authority_priority inp = (let q = in_request inp in
     \<lparr>au_dimension = Dim_Priority, au_id = rq_priority q, au_generation = rq_priority_generation q,
      au_digest_hex = [], au_epoch = in_current_epoch inp, au_source = []\<rparr>)"

definition authority_of_resolution :: "resolution \<Rightarrow> authority_entry list" where
  "authority_of_resolution r =
     (case rv_capability r of None \<Rightarrow> []
      | Some c \<Rightarrow> [\<lparr>au_dimension = Dim_Capability, au_id = rv_resource r,
          au_generation = ca_generation c, au_digest_hex = digest_hex (ca_digest c),
          au_epoch = ca_epoch c, au_source = prov_origin (ca_provenance c)\<rparr>]) @
     (case rv_reservation r of None \<Rightarrow> []
      | Some s \<Rightarrow> [\<lparr>au_dimension = Dim_Reservation, au_id = rv_resource r,
          au_generation = rs_generation s, au_digest_hex = digest_hex (rs_digest s),
          au_epoch = rs_epoch s, au_source = prov_origin (rs_provenance s)\<rparr>])"

definition authority_vector :: "evaluation_inputs \<Rightarrow> resolution list \<Rightarrow> authority_entry list" where
  "authority_vector inp rs =
     (let es = [authority_class inp, authority_subject inp, authority_path inp,
            authority_policy inp, authority_priority inp, authority_epoch inp] @
          concat (map authority_of_resolution rs)
      in if length es > kMaxAuthorityEntries then take kMaxAuthorityEntries es else es)"

section \<open>Evaluation\<close>

definition conclude ::
  "evaluation_inputs \<Rightarrow> resolution list \<Rightarrow> contract_decision \<Rightarrow> verdict \<Rightarrow> contract_decision" where
  "conclude inp rs d v =
     (case v of (out, reason) \<Rightarrow>
      let d = d\<lparr>cd_resources := map resource_of rs\<rparr>;
          (d, out) = fold roll_up (cd_obligations d) (d, out);
          d = d\<lparr>cd_unknown_components := count_unknown rs\<rparr>;
          binding = select_binding out (cd_obligations d);
          d = (case binding of None \<Rightarrow> d
               | Some b \<Rightarrow> d\<lparr>cd_binding_obligation := Some (oa_kind b),
                   cd_binding_resource := oa_binding_resource b\<rparr>);
          reason = (case binding of None \<Rightarrow> reason
               | Some b \<Rightarrow> if reason = []
                   then oa_id b @ '' is the binding obligation on this path'' else reason)
      in seal_decision (d\<lparr>cd_authority := authority_vector inp rs, cd_outcome := out,
           cd_primary_reason :=
             (if reason = [] then
                (if is_positive out then ''all required obligations are satisfied''
                 else ''no binding finding'')
              else short_text reason)\<rparr>))"

definition evaluate :: "evaluation_inputs \<Rightarrow> contract_decision result option" where
  "evaluate inp =
     (let intake = apply_findings (intake_findings inp) (O_Supported, []) in
      if fst intake = O_Rejected then Some (Inr (rejected_decision inp (snd intake)))
      else
        let v = apply_findings (conflict_findings inp) intake in
        (case resolve_all inp of
           None \<Rightarrow> None
         | Some rs \<Rightarrow>
             let v = apply_findings (contradiction_findings rs) v;
                 v = apply_findings (currency_findings inp) v;
                 ctx = make_ctx inp rs
             in (case assess_loop ctx (ec_plan ctx) (initial_decision inp) v of
                   None \<Rightarrow> None
                 | Some (d, v) \<Rightarrow> Some (Inr (conclude inp rs d v)))))"

end
