(* ===== verification/Engine_Props.thy ===== *)
theory Engine_Props
  imports Evaluate
begin

text \<open>
  The engine's properties. First the plan and the composition functions against their
  mathematical meaning, then the assessments, then the evaluation as a whole: it never
  dereferences null or leaves an index range, SUPPORTED means that every obligation is met by
  live evidence, and no relaxation happens outside its explicit permission.
\<close>

section \<open>The plan: sorted, without repetition, complete up to its budget\<close>

lemma plan_key_simps [simp]: "fst (plan_key p) = pl_kind p" "snd (plan_key p) = pl_id p"
  by (simp_all add: plan_key_def)

lemma unique_plan_set: "set (unique_plan xs) \<subseteq> set xs"
  by (induction xs rule: unique_plan.induct) auto

lemma unique_plan_hd: "xs \<noteq> [] \<Longrightarrow> unique_plan xs \<noteq> [] \<and> hd (unique_plan xs) = hd xs"
  by (induction xs rule: unique_plan.induct) auto

lemma unique_plan_sorted:
  "sorted (map plan_key xs) \<Longrightarrow> sorted (map plan_key (unique_plan xs)) \<and> distinct (map plan_key (unique_plan xs))"
proof (induction xs rule: unique_plan.induct)
  case (1 a b xs)
  show ?case
  proof (cases "plan_key a = plan_key b")
    case True
    with 1 show ?thesis by simp
  next
    case False
    with 1 have ih: "sorted (map plan_key (unique_plan (b # xs)))" "distinct (map plan_key (unique_plan (b # xs)))"
      by simp_all
    have "plan_key a < plan_key y" if "y \<in> set (unique_plan (b # xs))" for y
    proof -
      have "y \<in> set (b # xs)" using that unique_plan_set by blast
      with "1.prems" have "plan_key b \<le> plan_key y" "plan_key a \<le> plan_key b" by auto
      with False show ?thesis by simp
    qed
    with ih False show ?thesis by (fastforce simp: less_imp_le)
  qed
qed auto

lemma unique_plan_distinct: "distinct (map plan_key xs) \<Longrightarrow> unique_plan xs = xs"
  by (induction xs rule: unique_plan.induct) auto

lemma build_plan_sorted: "sorted (map plan_key (build_plan klass pol))"
  and build_plan_distinct: "distinct (map plan_key (build_plan klass pol))"
  using unique_plan_sorted [of "sort_key plan_key (plan_items klass pol)"]
  by (auto simp: build_plan_def Let_def take_map [symmetric] sorted_wrt_take simp del: take_map)

lemma build_plan_subset: "set (build_plan klass pol) \<subseteq> set (plan_items klass pol)"
  using unique_plan_set [of "sort_key plan_key (plan_items klass pol)"]
  by (auto simp: build_plan_def Let_def dest: in_set_takeD)

lemma build_plan_length: "length (build_plan klass pol) \<le> kMaxObligations"
  by (simp add: build_plan_def Let_def)

lemma plan_items_ResourceState: "plan_item K_ResourceState kStateAvailable \<in> set (plan_items klass pol)"
  by (simp add: plan_items_def)

lemma push_if_kind: "p \<in> set (push_if k x) \<Longrightarrow> pl_kind p = k"
  by (cases x) (simp_all add: push_if_def plan_item_def)

lemma plan_items_ResourceState_only:
  "p \<in> set (plan_items klass pol) \<Longrightarrow> pl_kind p = K_ResourceState \<Longrightarrow> p = plan_item K_ResourceState kStateAvailable"
  by (auto simp: plan_items_def plan_item_def plan_predicate_def dest!: push_if_kind split: if_splits)

lemma kind_le_ResourceState: "k \<noteq> K_Count \<Longrightarrow> k \<le> K_ResourceState"
  by (cases k) (simp_all add: less_eq_obligation_kind_def word_le_nat_alt)

lemma plan_items_kind: "p \<in> set (plan_items klass pol) \<Longrightarrow> pl_kind p \<noteq> K_Count"
  by (auto simp: plan_items_def push_if_def plan_item_def plan_predicate_def split: option.splits if_splits)

lemma in_push_if [simp]: "x \<in> set (push_if k y) \<longleftrightarrow> (\<exists>v. y = Some v \<and> x = plan_item k v)"
  by (auto simp: push_if_def split: option.splits)

lemma distinct_push_if [simp]: "distinct (map plan_key (push_if k y))"
  by (simp add: push_if_def split: option.splits)

lemma plan_item_simps [simp]:
  "pl_kind (plan_item k v) = k" "pl_required (plan_item k v) = v" "pl_binding (plan_item k v)"
  "pl_kind (plan_predicate q) = K_Predicate" "pl_required (plan_predicate q) = 1"
  "pl_predicate (plan_predicate q) = q" "pl_binding (plan_predicate q)"
  by (simp_all add: plan_item_def plan_predicate_def)

lemma plan_key_item [simp]:
  "plan_key (plan_item k v) = (k, make_id k [])"
  "plan_key (plan_predicate q) = (K_Predicate, make_id K_Predicate q)"
  by (simp_all add: plan_key_def plan_item_def plan_predicate_def)

lemma make_id_predicate_inject:
  assumes "make_id K_Predicate p = make_id K_Predicate q"
    and "is_valid_identifier p kMaxPredicateKeyLen" "is_valid_identifier q kMaxPredicateKeyLen"
  shows "p = q"
proof -
  have "length p \<le> 64" "length q \<le> 64" "p \<noteq> []" "q \<noteq> []"
    using assms(2,3) by (auto dest: is_valid_identifier_length simp: kMaxPredicateKeyLen_def)
  with assms(1) show ?thesis by (simp add: make_id_def kMaxIdentifierLen_def)
qed

lemma foldl_push_new: "distinct xs \<Longrightarrow> distinct (foldl push_new xs ys) \<and> set (foldl push_new xs ys) = set xs \<union> set ys"
  by (induction ys arbitrary: xs) (auto simp: push_new_def)

lemma merged_predicates_set:
  assumes "validate_class klass = Inr ()" "validate_policy pol = Inr ()"
  shows "distinct (merged_predicates klass pol)"
    "set (merged_predicates klass pol) = set (qc_required_predicates klass) \<union> set (po_required_predicates pol)"
    "\<And>k. k \<in> set (merged_predicates klass pol) \<Longrightarrow> is_valid_identifier k kMaxPredicateKeyLen"
proof -
  have "distinct (qc_required_predicates klass)"
    using assms(1) by (simp add: validate_class_def bind_iff has_duplicate_predicates_iff)
  from foldl_push_new [OF this, of "po_required_predicates pol"]
  show "distinct (merged_predicates klass pol)"
    and s: "set (merged_predicates klass pol) = set (qc_required_predicates klass) \<union> set (po_required_predicates pol)"
    by (simp_all add: merged_predicates_def)
  show "is_valid_identifier k kMaxPredicateKeyLen" if "k \<in> set (merged_predicates klass pol)" for k
    using assms that
    by (auto simp: s validate_class_def validate_policy_def bind_iff invalid_keys_def list_ex_iff)
qed

lemma plan_items_distinct:
  assumes "validate_class klass = Inr ()" "validate_policy pol = Inr ()"
  shows "distinct (map plan_key (plan_items klass pol))"
proof -
  have p: "distinct (map plan_key (map plan_predicate (merged_predicates klass pol)))"
    using merged_predicates_set [OF assms]
    by (auto simp: distinct_map comp_def inj_on_def intro: make_id_predicate_inject)
  then show ?thesis
    by (auto simp: plan_items_def)
qed

lemma build_plan_full:
  assumes "validate_class klass = Inr ()" "validate_policy pol = Inr ()"
    and "length (plan_items klass pol) \<le> kMaxObligations"
  shows "build_plan klass pol = sort_key plan_key (plan_items klass pol)"
proof -
  have "distinct (map plan_key (sort_key plan_key (plan_items klass pol)))"
    using plan_items_distinct [OF assms(1,2)] by (simp add: distinct_map)
  with assms(3) show ?thesis by (simp add: build_plan_def unique_plan_distinct)
qed

lemma length_push_if: "length (push_if k x) = (if x = None then 0 else 1)"
  by (simp add: push_if_def split: option.splits)

lemma plan_items_length: "length (plan_items klass pol) \<le> 15 + length (merged_predicates klass pol)"
  by (auto simp: plan_items_def length_push_if)

lemma build_plan_set:
  assumes "validate_class klass = Inr ()" "validate_policy pol = Inr ()"
    and "length (merged_predicates klass pol) \<le> 113"
  shows "set (build_plan klass pol) = set (plan_items klass pol)"
proof -
  have "length (plan_items klass pol) \<le> kMaxObligations"
    using plan_items_length [of klass pol] assms(3) by (simp add: kMaxObligations_def)
  then show ?thesis using build_plan_full [OF assms(1,2)] by simp
qed

text \<open>
  Past the budget the plan loses its last items, and the resource state, whose kind sorts
  last, is always the first to go.
\<close>

lemma plan_truncation:
  assumes "validate_class klass = Inr ()" "validate_policy pol = Inr ()"
    and "kMaxObligations < length (plan_items klass pol)"
    and "p \<in> set (build_plan klass pol)"
  shows "pl_kind p \<noteq> K_ResourceState"
proof
  assume k: "pl_kind p = K_ResourceState"
  let ?L = "sort_key plan_key (plan_items klass pol)"
  have d: "distinct (map plan_key ?L)"
    using plan_items_distinct [OF assms(1,2)] by (simp add: distinct_map)
  have b: "build_plan klass pol = take kMaxObligations ?L"
    using assms(3) by (simp add: build_plan_def unique_plan_distinct [OF d])
  then obtain i where i: "i < kMaxObligations" "?L ! i = p"
    using assms(3,4) by (auto simp: in_set_conv_nth)
  let ?q = "?L ! kMaxObligations"
  have "?q \<in> set (plan_items klass pol)"
    using assms(3) by (metis length_sort nth_mem set_sort)
  then have "pl_kind ?q \<noteq> K_Count" by (rule plan_items_kind)
  then have le: "pl_kind ?q \<le> K_ResourceState" by (rule kind_le_ResourceState)
  have "plan_key p \<le> plan_key ?q"
    using sorted_nth_mono [of "map plan_key ?L" i kMaxObligations] i assms(3) by simp
  with k le have q: "pl_kind ?q = K_ResourceState" by (auto simp: plan_key_def less_eq_prod_def)
  have "p \<in> set (plan_items klass pol)" using assms(4) build_plan_subset by blast
  with k q \<open>?q \<in> set (plan_items klass pol)\<close> have "plan_key p = plan_key ?q"
    using plan_items_ResourceState_only by metis
  moreover have "map plan_key ?L ! i \<noteq> map plan_key ?L ! kMaxObligations"
    using d i assms(3) by (intro distinct_conv_nth [THEN iffD1, rule_format]) auto
  ultimately show False using i assms(3) by simp
qed

section \<open>Composition against its meaning\<close>

text \<open>\<open>first_least le xs v k\<close>: index \<open>k\<close> holds the first least value of \<open>xs\<close>.\<close>

definition first_min :: "u64 list \<Rightarrow> u64 \<Rightarrow> nat \<Rightarrow> bool" where
  "first_min xs v k \<longleftrightarrow> k < length xs \<and> xs ! k = v \<and> (\<forall>x \<in> set xs. v \<le> x) \<and> (\<forall>j < k. v < xs ! j)"

definition first_max :: "u64 list \<Rightarrow> u64 \<Rightarrow> nat \<Rightarrow> bool" where
  "first_max xs v k \<longleftrightarrow> k < length xs \<and> xs ! k = v \<and> (\<forall>x \<in> set xs. x \<le> v) \<and> (\<forall>j < k. xs ! j < v)"

lemma first_min_snoc:
  assumes "first_min xs v k"
  shows "first_min (xs @ [x]) (if x < v then x else v) (if x < v then length xs else k)"
  using assms by (auto simp: first_min_def nth_append intro: less_le_trans [OF _ bspec [OF _ nth_mem]])

lemma first_max_snoc:
  assumes "first_max xs v k"
  shows "first_max (xs @ [x]) (if v < x then x else v) (if v < x then length xs else k)"
  using assms by (auto simp: first_max_def nth_append intro: le_less_trans [OF bspec [OF _ nth_mem]])

lemma weakest_loop_min:
  "first_min pre best bi \<Longrightarrow> weakest_loop best bi (length pre) vs = (v, k) \<Longrightarrow> first_min (pre @ vs) v k"
proof (induction vs arbitrary: pre best bi)
  case Nil
  then show ?case by simp
next
  case (Cons x xs)
  from first_min_snoc [OF Cons.prems(1), of x] Cons.IH [of "pre @ [x]"] Cons.prems(2)
  show ?case by (auto split: if_splits)
qed

lemma worst_loop_max:
  "first_max pre best bi \<Longrightarrow> worst_loop best bi (length pre) vs = (v, k) \<Longrightarrow> first_max (pre @ vs) v k"
proof (induction vs arbitrary: pre best bi)
  case Nil
  then show ?case by simp
next
  case (Cons x xs)
  from first_max_snoc [OF Cons.prems(1), of x] Cons.IH [of "pre @ [x]"] Cons.prems(2)
  show ?case by (auto split: if_splits)
qed

lemma weakest_of:
  assumes "vs \<noteq> []" and "weakest_loop (hd vs) 0 1 (tl vs) = (v, k)"
  shows "first_min vs v k"
proof -
  have "first_min [hd vs] (hd vs) 0" by (simp add: first_min_def)
  from weakest_loop_min [OF this, of "tl vs"] assms show ?thesis by simp
qed

lemma worst_of:
  assumes "vs \<noteq> []" and "worst_loop (hd vs) 0 1 (tl vs) = (v, k)"
  shows "first_max vs v k"
proof -
  have "first_max [hd vs] (hd vs) 0" by (simp add: first_max_def)
  from worst_loop_max [OF this, of "tl vs"] assms show ?thesis by simp
qed

definition nat_sum :: "u64 list \<Rightarrow> nat" where "nat_sum vs = sum_list (map unat vs)"

lemma nat_sum_simps [simp]: "nat_sum [] = 0" "nat_sum (v # vs) = unat v + nat_sum vs"
  by (simp_all add: nat_sum_def)

lemma additive_loop_None: "additive_loop acc w wi i vs = None \<longleftrightarrow> 2 ^ 64 \<le> unat acc + nat_sum vs"
proof (induction vs arbitrary: acc w wi i)
  case Nil
  then show ?case using unsigned_less [of acc, where 'a = nat] by (simp add: not_le)
next
  case (Cons v vs)
  show ?case
  proof (cases "checked_add acc v")
    case None
    moreover from this have "2 ^ 64 \<le> unat acc + unat v" by (simp add: checked_add_None)
    ultimately show ?thesis by simp
  next
    case (Some c)
    with Cons show ?thesis by (simp add: checked_add_unat add.assoc)
  qed
qed

lemma additive_loop_Some:
  "additive_loop acc w wi i vs = Some (t, k) \<Longrightarrow>
   unat t = unat acc + nat_sum vs \<and> (vs \<noteq> [] \<and> i = 0 \<or> wi < i \<longrightarrow> k < i + length vs)"
proof (induction vs arbitrary: acc w wi i)
  case Nil
  then show ?case by simp
next
  case (Cons v vs)
  then obtain c where c: "checked_add acc v = Some c" by (auto split: option.splits)
  show ?case
    using Cons.IH [of c v i "Suc i"] Cons.IH [of c w wi "Suc i"] Cons.prems checked_add_unat [OF c]
    by (auto simp: c split: if_splits)
qed

lemma additive_loop_max:
  "first_max pre w wi \<Longrightarrow> additive_loop acc w wi (length pre) vs = Some (t, k) \<Longrightarrow>
   \<exists>m. first_max (pre @ vs) m k"
proof (induction vs arbitrary: pre w wi acc)
  case Nil
  then show ?case by auto
next
  case (Cons x xs)
  have "pre \<noteq> []" using Cons.prems(1) by (auto simp: first_max_def)
  then show ?case
    using first_max_snoc [OF Cons.prems(1), of x] Cons.IH [of "pre @ [x]"] Cons.prems(2)
    by (auto split: if_splits option.splits)
qed

lemma additive_of:
  assumes "vs \<noteq> []" and "additive_loop acc 0 0 0 vs = Some (t, k)"
  shows "\<exists>m. first_max vs m k"
proof -
  from assms(1) obtain x xs where v: "vs = x # xs" by (cases vs) auto
  have "first_max [x] x 0" by (simp add: first_max_def)
  from additive_loop_max [OF this, of _ xs t k] assms(2) show ?thesis
    by (auto simp: v split: option.splits)
qed

text \<open>The loss fold over the naturals: parts per million delivered, rounded down at every hop.\<close>

definition clip_ppm :: "nat \<Rightarrow> nat" where "clip_ppm v = min v 1000000"

fun delivered :: "nat \<Rightarrow> nat list \<Rightarrow> nat" where
  "delivered d [] = d"
| "delivered d (v # vs) = delivered (d * (1000000 - clip_ppm v) div 1000000) vs"

lemma unat_kPpm [simp]: "unat kPpm = 1000000"
  by (simp add: kPpm_def)

lemma loss_step_total:
  assumes "unat d \<le> 1000000"
  shows "\<exists>p. checked_mul d (kPpm - (if kPpm < v then kPpm else v)) = Some p \<and>
    unat (p div kPpm) = unat d * (1000000 - clip_ppm (unat v)) div 1000000"
proof -
  let ?l = "if kPpm < v then kPpm else v"
  have l: "unat ?l = clip_ppm (unat v)"
    by (auto simp: clip_ppm_def word_less_nat_alt)
  have "?l \<le> kPpm" by auto
  then have s: "unat (kPpm - ?l) = 1000000 - clip_ppm (unat v)"
    using l by (simp add: unat_sub)
  have "unat d * unat (kPpm - ?l) \<le> 1000000 * 1000000"
    unfolding s using assms by (intro mult_le_mono) auto
  then have "checked_mul d (kPpm - ?l) \<noteq> None" by (auto simp: checked_mul_None)
  then obtain p where p: "checked_mul d (kPpm - ?l) = Some p" by blast
  then have "unat (p div kPpm) = unat d * (1000000 - clip_ppm (unat v)) div 1000000"
    using checked_mul_unat [OF p] s by (simp add: unat_div)
  with p show ?thesis by blast
qed

lemma loss_loop_total:
  assumes "unat d \<le> 1000000"
  shows "\<exists>r k. loss_loop d w wi i vs = Some (r, k) \<and> unat r = delivered (unat d) (map unat vs) \<and>
    unat r \<le> 1000000 \<and> (vs \<noteq> [] \<and> i = 0 \<or> wi < i \<longrightarrow> k < i + length vs)"
  using assms
proof (induction vs arbitrary: d w wi i)
  case Nil
  then show ?case by simp
next
  case (Cons v vs)
  from loss_step_total [OF Cons.prems, of v]
  obtain p where p: "checked_mul d (kPpm - (if kPpm < v then kPpm else v)) = Some p"
    and q: "unat (p div kPpm) = unat d * (1000000 - clip_ppm (unat v)) div 1000000" by blast
  have "unat d * (1000000 - clip_ppm (unat v)) div 1000000 \<le> unat d * 1000000 div 1000000"
    by (intro div_le_mono mult_le_mono) auto
  then have b: "unat (p div kPpm) \<le> 1000000" using q Cons.prems by simp
  show ?case
    using Cons.IH [OF b, of "if kPpm < v then kPpm else v" i "Suc i"] Cons.IH [OF b, of w wi "Suc i"]
    by (auto simp: Let_def p q simp flip: q)
qed

lemma first_absent_None: "first_absent i vs = None \<longleftrightarrow> list_all rw_present vs"
  by (induction vs arbitrary: i) auto

lemma first_absent_Some:
  "first_absent i vs = Some (k, d) \<Longrightarrow> i \<le> k \<and> k < i + length vs \<and> \<not> rw_present (vs ! (k - i)) \<and>
     d = rw_detail (vs ! (k - i))"
proof (induction vs arbitrary: i)
  case Nil
  then show ?case by simp
next
  case (Cons v vs)
  show ?case
  proof (cases "rw_present v")
    case False
    with Cons.prems show ?thesis by auto
  next
    case True
    with Cons.prems have "first_absent (Suc i) vs = Some (k, d)" by simp
    from Cons.IH [OF this] have "Suc i \<le> k" "k < Suc i + length vs"
      "\<not> rw_present (vs ! (k - Suc i))" "d = rw_detail (vs ! (k - Suc i))" by auto
    moreover have "k - i = Suc (k - Suc i)" using \<open>Suc i \<le> k\<close> by simp
    ultimately show ?thesis by simp
  qed
qed

section \<open>Findings\<close>

lemma apply_findings_simps [simp]:
  "apply_findings [] v = v" "apply_findings (f # fs) v = apply_findings fs (apply_finding f v)"
  by (simp_all add: apply_findings_def)

lemma fst_apply_finding: "fst (apply_finding f v) = (if fst f then max (fst v) (snd (snd f)) else fst v)"
  by (cases f; cases v) (simp add: merge_max)

lemma findings_ge: "fst v \<le> fst (apply_findings fs v)"
proof (induction fs arbitrary: v)
  case Nil
  then show ?case by simp
next
  case (Cons f fs)
  have "fst v \<le> fst (apply_finding f v)" by (simp add: fst_apply_finding)
  with Cons [of "apply_finding f v"] show ?case by (auto intro: order_trans)
qed

lemma findings_fire: "f \<in> set fs \<Longrightarrow> fst f \<Longrightarrow> snd (snd f) \<le> fst (apply_findings fs v)"
proof (induction fs arbitrary: v)
  case Nil
  then show ?case by simp
next
  case (Cons g fs)
  show ?case
  proof (cases "f = g")
    case True
    then have "snd (snd f) \<le> fst (apply_finding g v)" using Cons.prems by (simp add: fst_apply_finding)
    with findings_ge [of "apply_finding g v" fs] show ?thesis by simp
  next
    case False
    with Cons show ?thesis by simp
  qed
qed

lemma findings_source:
  "fst (apply_findings fs v) = fst v \<or> (\<exists>f \<in> set fs. fst f \<and> fst (apply_findings fs v) = snd (snd f))"
proof (induction fs arbitrary: v)
  case Nil
  then show ?case by simp
next
  case (Cons f fs)
  from Cons [of "apply_finding f v"] show ?case
    by (auto simp: fst_apply_finding max_def split: if_splits)
qed

lemma findings_silent: "\<forall>f \<in> set fs. \<not> fst f \<Longrightarrow> apply_findings fs v = v"
  by (induction fs arbitrary: v) (auto split: prod.splits)

section \<open>Intake\<close>

definition intake :: "evaluation_inputs \<Rightarrow> verdict" where
  "intake inp = apply_findings (intake_findings inp) (O_Supported, [])"

definition intake_ok :: "evaluation_inputs \<Rightarrow> bool" where
  "intake_ok inp \<longleftrightarrow>
     validate_request (in_request inp) = Inr () \<and> validate_class (in_klass inp) = Inr () \<and>
     validate_policy (in_policy inp) = Inr () \<and> validate_path (in_path inp) = Inr () \<and>
     qc_id (in_klass inp) = rq_class_id (in_request inp) \<and>
     po_id (in_policy inp) = rq_policy (in_request inp) \<and>
     pa_id (in_path inp) = rq_path (in_request inp) \<and>
     rq_class_generation (in_request inp) \<in> {0, qc_generation (in_klass inp)} \<and>
     rq_policy_generation (in_request inp) \<in> {0, po_generation (in_policy inp)} \<and>
     rq_path_generation (in_request inp) \<in> {0, pa_generation (in_path inp)} \<and>
     length (in_capabilities inp) = length (pa_components (in_path inp)) \<and>
     (in_reservations inp = [] \<or> length (in_reservations inp) = length (pa_components (in_path inp)))"

lemma invalid_finding_simps [simp]:
  "fst (invalid_finding p r) \<longleftrightarrow> r \<noteq> Inr ()" "snd (snd (invalid_finding p r)) = O_Rejected"
  by (auto simp: invalid_finding_def split: sum.splits)

lemma intake_ok_iff: "intake_ok inp \<longleftrightarrow> (\<forall>f \<in> set (intake_findings inp). \<not> fst f)"
  by (auto simp: intake_ok_def intake_findings_def Let_def)

lemma intake_findings_out: "f \<in> set (intake_findings inp) \<Longrightarrow> snd (snd f) = O_Rejected"
  by (auto simp: intake_findings_def Let_def)

lemma O_Rejected_greatest [simp]: "v \<le> O_Rejected"
  by (cases v) (simp_all add: less_eq_outcome_def word_le_nat_alt)

lemma intake_cases:
  shows "fst (intake inp) = O_Rejected \<longleftrightarrow> \<not> intake_ok inp"
    and "intake_ok inp \<Longrightarrow> intake inp = (O_Supported, [])"
proof -
  show "intake inp = (O_Supported, [])" if "intake_ok inp"
    using that findings_silent by (simp add: intake_def intake_ok_iff)
  then have "fst (intake inp) \<noteq> O_Rejected" if "intake_ok inp" using that by simp
  moreover have "fst (intake inp) = O_Rejected" if "\<not> intake_ok inp"
  proof -
    from that obtain f where f: "f \<in> set (intake_findings inp)" "fst f" by (auto simp: intake_ok_iff)
    have "snd (snd f) \<le> fst (intake inp)" unfolding intake_def by (rule findings_fire [OF f])
    with intake_findings_out [OF f(1)] show ?thesis by (simp add: antisym)
  qed
  ultimately show "fst (intake inp) = O_Rejected \<longleftrightarrow> \<not> intake_ok inp" by blast
qed

section \<open>Resolution\<close>

text \<open>
  What makes a capability live evidence for a component: the same resource, the generation
  the path bound, a current epoch, not expired, not dated in the future, inside the policy's
  freshness window.
\<close>

definition fresh :: "evaluation_inputs \<Rightarrow> path_component \<Rightarrow> resource_capability \<Rightarrow> bool" where
  "fresh inp c cap \<longleftrightarrow>
     ca_generation cap = pc_capability_generation c \<and>
     \<not> ca_epoch cap + ucast (po_max_stale_epochs (in_policy inp)) < in_current_epoch inp \<and>
     (ca_expires_at_ms cap = 0 \<or> in_now_ms inp \<le> ca_expires_at_ms cap) \<and>
     ca_published_at_ms cap \<le> in_now_ms inp \<and>
     in_now_ms inp - ca_published_at_ms cap \<le> po_capability_max_age_ms (in_policy inp)"

definition usable :: "evaluation_inputs \<Rightarrow> path_component \<Rightarrow> resource_capability \<Rightarrow> bool" where
  "usable inp c cap \<longleftrightarrow>
     ca_resource cap = pc_resource c \<and> fresh inp c cap \<and>
     ca_state cap \<in> {Cap_Degraded, Cap_Available} \<and>
     (ca_diversity_domain cap = [] \<or> ca_diversity_domain cap = pc_diversity_domain c)"

lemma resolved_simps [simp]:
  "rv_status (resolved r s t) = s" "rv_resource (resolved r s t) = rv_resource r"
  "rv_capability (resolved r s t) = rv_capability r" "rv_reservation (resolved r s t) = rv_reservation r"
  "rv_declared_domain (resolved r s t) = rv_declared_domain r"
  "rv_self_declared_degraded (resolved r s t) = rv_self_declared_degraded r"
  "rv_domain_contradiction (resolved r s t) = rv_domain_contradiction r"
  "rv_reason (resolved r s t) = t" "rv_role (resolved r s t) = rv_role r"
  by (simp_all add: resolved_def)

lemma blank_resolution_simps [simp]:
  "rv_resource (blank_resolution i c s) = pc_resource c" "rv_capability (blank_resolution i c s) = None"
  "rv_reservation (blank_resolution i c s) = s"
  "rv_declared_domain (blank_resolution i c s) = pc_diversity_domain c"
  "\<not> rv_self_declared_degraded (blank_resolution i c s)"
  "\<not> rv_domain_contradiction (blank_resolution i c s)"
  by (simp_all add: blank_resolution_def)

text \<open>What resolution says of a component: the exact meaning of every status.\<close>

definition resolution_ok :: "evaluation_inputs \<Rightarrow> path_component \<Rightarrow> resource_capability option \<Rightarrow> resolution \<Rightarrow> bool" where
  "resolution_ok inp c slot r \<longleftrightarrow>
     rv_resource r = pc_resource c \<and> rv_declared_domain r = pc_diversity_domain c \<and>
     rv_capability r = slot \<and>
     (rv_status r = CStat_Satisfied \<longleftrightarrow>
        (\<exists>cap. slot = Some cap \<and> usable inp c cap \<and> ca_state cap = Cap_Available)) \<and>
     (rv_status r = CStat_Degraded \<longleftrightarrow>
        (\<exists>cap. slot = Some cap \<and> usable inp c cap \<and> ca_state cap = Cap_Degraded)) \<and>
     (rv_status r = CStat_Stale \<longleftrightarrow>
        (\<exists>cap. slot = Some cap \<and> ca_resource cap = pc_resource c \<and> \<not> fresh inp c cap)) \<and>
     (rv_status r = CStat_Unavailable \<longleftrightarrow>
        (\<exists>cap. slot = Some cap \<and> ca_resource cap = pc_resource c \<and> fresh inp c cap \<and>
           ca_state cap = Cap_Unavailable)) \<and>
     (rv_status r = CStat_Violated \<longleftrightarrow>
        (\<exists>cap. slot = Some cap \<and> ca_resource cap = pc_resource c \<and> fresh inp c cap \<and>
           ca_state cap \<in> {Cap_Degraded, Cap_Available} \<and> ca_diversity_domain cap \<noteq> [] \<and>
           ca_diversity_domain cap \<noteq> pc_diversity_domain c)) \<and>
     (rv_status r = CStat_Unknown \<longleftrightarrow>
        (\<forall>cap. slot = Some cap \<longrightarrow> ca_resource cap \<noteq> pc_resource c \<or>
           (fresh inp c cap \<and> ca_state cap = Cap_Unknown))) \<and>
     (rv_status r \<in> {CStat_Satisfied, CStat_Degraded} \<longrightarrow>
        (rv_self_declared_degraded r \<longleftrightarrow> rv_status r = CStat_Degraded)) \<and>
     (rv_domain_contradiction r \<longleftrightarrow> rv_status r = CStat_Violated)"

lemma resolve_capability_ok:
  "resolution_ok inp c (Some cap) (resolve_capability inp c cap (blank_resolution i c s))"
  by (cases "ca_state cap")
    (auto simp: resolution_ok_def resolve_capability_def fresh_def usable_def Let_def not_less)

lemma resolve_component_ok:
  assumes "resolve_component inp (i, c) = Some r"
  shows "i < length (in_capabilities inp) \<and> resolution_ok inp c (in_capabilities inp ! i) r \<and>
    rv_reservation r = (if in_reservations inp = [] then None else in_reservations inp ! i)"
proof -
  have b: "resolution_ok inp c None (resolved (blank_resolution i c s) CStat_Unknown t)" for s t
    by (simp add: resolution_ok_def)
  have k: "rv_reservation (resolve_capability inp c cap q) = rv_reservation q" for cap q
    by (simp add: resolve_capability_def Let_def)
  show ?thesis
    using assms
    by (auto simp: resolve_component_def bind_eq_Some_conv Let_def at_def k resolve_capability_ok b
        split: if_splits option.splits)
qed

lemma resolve_component_total:
  assumes "intake_ok inp" "i < length (pa_components (in_path inp))"
  shows "\<exists>r. resolve_component inp (i, c) = Some r"
  using assms by (auto simp: intake_ok_def resolve_component_def Let_def)

lemma resolve_all_total:
  assumes "intake_ok inp"
  shows "\<exists>rs. resolve_all inp = Some rs"
  unfolding resolve_all_def
  by (rule map_ub_total) (auto simp: in_set_enumerate_eq intro!: resolve_component_total [OF assms])

lemma resolve_all_nth:
  assumes "resolve_all inp = Some rs"
  shows "length rs = length (pa_components (in_path inp))"
    and "i < length rs \<Longrightarrow> resolution_ok inp (pa_components (in_path inp) ! i) (in_capabilities inp ! i) (rs ! i) \<and>
       rv_reservation (rs ! i) = (if in_reservations inp = [] then None else in_reservations inp ! i)"
proof -
  show l: "length rs = length (pa_components (in_path inp))"
    using map_ub_length [OF assms [unfolded resolve_all_def]] by simp
  assume i: "i < length rs"
  have "resolve_component inp (enumerate 0 (pa_components (in_path inp)) ! i) = Some (rs ! i)"
    using map_ub_nth [OF assms [unfolded resolve_all_def], of i] i l by simp
  then have "resolve_component inp (i, pa_components (in_path inp) ! i) = Some (rs ! i)"
    using i l by (simp add: nth_enumerate_eq)
  from resolve_component_ok [OF this]
  show "resolution_ok inp (pa_components (in_path inp) ! i) (in_capabilities inp ! i) (rs ! i) \<and>
       rv_reservation (rs ! i) = (if in_reservations inp = [] then None else in_reservations inp ! i)"
    by simp
qed

section \<open>The scan over the components\<close>

definition alive :: "resolution \<Rightarrow> bool" where
  "alive r \<longleftrightarrow> rv_status r = CStat_Satisfied \<or> rv_status r = CStat_Degraded"

definition grounded :: "resolution list \<Rightarrow> bool" where
  "grounded rs \<longleftrightarrow> (\<forall>r \<in> set rs. alive r \<longrightarrow> rv_capability r \<noteq> None)"

definition indexed :: "(resolution \<Rightarrow> bool) \<Rightarrow> resolution list \<Rightarrow> nat option \<Rightarrow> bool" where
  "indexed P rs x \<longleftrightarrow> (case x of None \<Rightarrow> \<forall>r \<in> set rs. \<not> P r | Some i \<Rightarrow> i < length rs \<and> P (rs ! i))"

definition blocked :: "resolution \<Rightarrow> bool" where
  "blocked r \<longleftrightarrow> rv_status r = CStat_Unavailable \<or> rv_status r = CStat_Violated"

definition scanned :: "eval_ctx \<Rightarrow> obligation_plan \<Rightarrow> resolution \<Rightarrow> raw_value \<Rightarrow> bool" where
  "scanned ctx item r v \<longleftrightarrow> (if alive r then value_of ctx item r = Some v else v = no_value)"

definition scan_ok :: "eval_ctx \<Rightarrow> obligation_plan \<Rightarrow> resolution list \<Rightarrow> scan \<Rightarrow> bool" where
  "scan_ok ctx item rs s \<longleftrightarrow>
     list_all2 (scanned ctx item) rs (sc_values s) \<and>
     indexed (\<lambda>r. rv_status r = CStat_Stale) rs (sc_stale s) \<and>
     indexed blocked rs (sc_unavailable s) \<and>
     indexed (\<lambda>r. rv_status r = CStat_Unknown) rs (sc_unknown s)"

lemma indexed_snoc [simp]:
  "\<not> P r \<Longrightarrow> indexed P (rs @ [r]) x \<longleftrightarrow> indexed P rs x"
  "P r \<Longrightarrow> indexed P (rs @ [r]) (Some (length rs))"
  by (auto simp: indexed_def nth_append split: option.splits)

lemma indexed_keep_first: "indexed P rs x \<Longrightarrow> P r \<Longrightarrow> indexed P (rs @ [r]) (keep_first x (length rs))"
  by (auto simp: indexed_def keep_first_def nth_append split: option.splits)

lemma list_all2_snoc [simp]: "list_all2 P (xs @ [x]) (ys @ [y]) \<longleftrightarrow> list_all2 P xs ys \<and> P x y"
  by (auto simp: list_all2_conv_all_nth nth_append less_Suc_eq)

lemma scan_step_ok:
  assumes "scan_ok ctx item rs s" and "scan_step ctx item (length rs) r s = Some s'"
  shows "scan_ok ctx item (rs @ [r]) s'"
  using assms
  by (cases "rv_status r")
    (auto simp: scan_ok_def scan_step_def scanned_def [of _ _ r] alive_def [of r] blocked_def [of r] Let_def
      indexed_keep_first)

lemma scan_loop_ok:
  "scan_ok ctx item pre s \<Longrightarrow> scan_loop ctx item (length pre) rs s = Some s' \<Longrightarrow>
   scan_ok ctx item (pre @ rs) s'"
proof (induction rs arbitrary: pre s)
  case Nil
  then show ?case by simp
next
  case (Cons r rs)
  then obtain t where t: "scan_step ctx item (length pre) r s = Some t" by (auto split: option.splits)
  from Cons.IH [of "pre @ [r]" t] scan_step_ok [OF Cons.prems(1) t] Cons.prems(2) t show ?case by simp
qed

lemma scan_components_ok:
  assumes "scan_components ctx item = Some s"
  shows "scan_ok ctx item (ec_resolutions ctx) s"
proof -
  have "scan_ok ctx item [] \<lparr>sc_stale = None, sc_unavailable = None, sc_unknown = None, sc_values = []\<rparr>"
    by (simp add: scan_ok_def indexed_def)
  from scan_loop_ok [OF this, of "ec_resolutions ctx" s] assms show ?thesis
    by (simp add: scan_components_def)
qed

lemma value_of_total: "rv_capability r = Some c \<Longrightarrow> \<exists>v. value_of ctx item r = Some v"
  by (cases "pl_kind item") (simp_all add: value_of_def component_value_def Let_def)

lemma scan_step_total: "grounded [r] \<Longrightarrow> \<exists>s'. scan_step ctx item i r s = Some s'"
  by (cases "rv_status r")
    (auto simp: scan_step_def grounded_def alive_def dest: value_of_total [of r _ ctx item])

lemma scan_loop_total: "grounded rs \<Longrightarrow> \<exists>s'. scan_loop ctx item i rs s = Some s'"
proof (induction rs arbitrary: i s)
  case Nil
  then show ?case by simp
next
  case (Cons r rs)
  then have "grounded [r]" "grounded rs" by (auto simp: grounded_def)
  with scan_step_total [of r ctx item i s] Cons.IH show ?case by fastforce
qed

lemma scan_components_total: "grounded (ec_resolutions ctx) \<Longrightarrow> \<exists>s. scan_components ctx item = Some s"
  by (simp add: scan_components_def scan_loop_total)

lemma scan_ok_length: "scan_ok ctx item rs s \<Longrightarrow> length (sc_values s) = length rs"
  by (auto simp: scan_ok_def dest: list_all2_lengthD)

lemma scan_ok_clear:
  assumes "scan_ok ctx item rs s"
  shows "sc_stale s = None \<and> sc_unavailable s = None \<and> sc_unknown s = None \<longleftrightarrow> list_all alive rs"
proof -
  have "alive r \<longleftrightarrow> rv_status r \<noteq> CStat_Stale \<and> \<not> blocked r \<and> rv_status r \<noteq> CStat_Unknown" for r
    by (cases "rv_status r") (auto simp: alive_def blocked_def)
  then have a: "list_all alive rs \<longleftrightarrow> (\<forall>r \<in> set rs. rv_status r \<noteq> CStat_Stale) \<and>
      (\<forall>r \<in> set rs. \<not> blocked r) \<and> (\<forall>r \<in> set rs. rv_status r \<noteq> CStat_Unknown)"
    by (auto simp: list_all_iff)
  have n: "indexed P rs x \<Longrightarrow> x = None \<longleftrightarrow> (\<forall>r \<in> set rs. \<not> P r)" for P x
    by (auto simp: indexed_def split: option.splits)
  from assms show ?thesis unfolding a scan_ok_def by (auto dest!: n)
qed

lemma blame_scan_total:
  "scan_ok ctx item rs s \<Longrightarrow> \<exists>b. blame_scan rs s a = Some b"
  by (auto simp: scan_ok_def indexed_def blame_scan_def Let_def split: option.splits)

text \<open>The status a scan is blamed with.\<close>

lemma blame_scan_cases:
  assumes "scan_ok ctx item rs s" and "blame_scan rs s a = Some b"
  shows "(b = None \<longleftrightarrow> list_all alive rs) \<and>
    (\<forall>a'. b = Some a' \<longrightarrow> (\<exists>st r t. a' = blame a st r t \<and>
       (st = OS_Stale \<and> (\<exists>r \<in> set rs. rv_status r = CStat_Stale) \<or>
        st = OS_Unavailable \<and> (\<forall>r \<in> set rs. rv_status r \<noteq> CStat_Stale) \<and> (\<exists>r \<in> set rs. blocked r) \<or>
        st = OS_Unknown \<and> (\<forall>r \<in> set rs. rv_status r \<noteq> CStat_Stale) \<and> (\<forall>r \<in> set rs. \<not> blocked r) \<and>
          (\<exists>r \<in> set rs. rv_status r = CStat_Unknown))))"
proof -
  let ?P = "\<lambda>a'. \<exists>st r t. a' = blame a st r t \<and>
       (st = OS_Stale \<and> (\<exists>r \<in> set rs. rv_status r = CStat_Stale) \<or>
        st = OS_Unavailable \<and> (\<forall>r \<in> set rs. rv_status r \<noteq> CStat_Stale) \<and> (\<exists>r \<in> set rs. blocked r) \<or>
        st = OS_Unknown \<and> (\<forall>r \<in> set rs. rv_status r \<noteq> CStat_Stale) \<and> (\<forall>r \<in> set rs. \<not> blocked r) \<and>
          (\<exists>r \<in> set rs. rv_status r = CStat_Unknown))"
  note c = scan_ok_clear [OF assms(1)]
  from assms(1) have i: "indexed (\<lambda>r. rv_status r = CStat_Stale) rs (sc_stale s)"
    "indexed blocked rs (sc_unavailable s)" "indexed (\<lambda>r. rv_status r = CStat_Unknown) rs (sc_unknown s)"
    by (simp_all add: scan_ok_def)
  consider (stale) k where "sc_stale s = Some k"
    | (blocked) k where "sc_stale s = None" "sc_unavailable s = Some k"
    | (unknown) k where "sc_stale s = None" "sc_unavailable s = None" "sc_unknown s = Some k"
    | (clear) "sc_stale s = None" "sc_unavailable s = None" "sc_unknown s = None"
    by (cases "sc_stale s"; cases "sc_unavailable s"; cases "sc_unknown s") auto
  then show ?thesis
  proof cases
    case stale
    with i have k: "k < length rs" "rv_status (rs ! k) = CStat_Stale" by (auto simp: indexed_def)
    with stale assms(2) have "b = Some (blame a OS_Stale (rs ! k) (rv_reason (rs ! k)))"
      by (simp add: blame_scan_def)
    moreover have "?P (blame a OS_Stale (rs ! k) (rv_reason (rs ! k)))" using k nth_mem by blast
    ultimately show ?thesis using c stale by simp
  next
    case blocked
    with i have k: "k < length rs" "blocked (rs ! k)" and n: "\<forall>r \<in> set rs. rv_status r \<noteq> CStat_Stale"
      by (auto simp: indexed_def)
    with blocked assms(2) have "b = Some (blame a OS_Unavailable (rs ! k) (rv_reason (rs ! k)))"
      by (simp add: blame_scan_def)
    moreover have "?P (blame a OS_Unavailable (rs ! k) (rv_reason (rs ! k)))" using k n nth_mem by blast
    ultimately show ?thesis using c blocked by simp
  next
    case unknown
    with i have k: "k < length rs" "rv_status (rs ! k) = CStat_Unknown"
      and n: "\<forall>r \<in> set rs. rv_status r \<noteq> CStat_Stale" "\<forall>r \<in> set rs. \<not> blocked r"
      by (auto simp: indexed_def)
    with unknown assms(2) have "b = Some (blame a OS_Unknown (rs ! k) (rv_reason (rs ! k)))"
      by (simp add: blame_scan_def)
    moreover have "?P (blame a OS_Unknown (rs ! k) (rv_reason (rs ! k)))" using k n nth_mem by blast
    ultimately show ?thesis using c unknown by simp
  next
    case clear
    with c assms(2) show ?thesis by (simp add: blame_scan_def)
  qed
qed

section \<open>No undefined behaviour\<close>

lemma compose_indices:
  assumes "values \<noteq> []" "list_all rw_present values" "co_value (compose_values agg values f) = Some v"
  shows "co_binding_index (compose_values agg values f) < length values \<and>
    co_weakest_index (compose_values agg values f) < length values"
proof -
  let ?vs = "map rw_value values"
  have ne: "?vs \<noteq> []" using assms(1) by simp
  have n: "first_absent 0 values = None" using assms(2) by (simp add: first_absent_None)
  have "k < length values" if "weakest_loop (hd ?vs) 0 1 (tl ?vs) = (w, k)" for w k
    using weakest_of [OF ne that] by (simp add: first_min_def)
  moreover have "k < length values" if "worst_loop (hd ?vs) 0 1 (tl ?vs) = (w, k)" for w k
    using worst_of [OF ne that] by (simp add: first_max_def)
  moreover have "k < length values" if "additive_loop f 0 0 0 ?vs = Some (w, k)" for w k
    using additive_of [OF ne that] by (auto simp: first_max_def)
  moreover have "k < length values" if "loss_loop kPpm 0 0 0 ?vs = Some (w, k)" for w k
    using loss_loop_total [of kPpm 0 0 0 ?vs] ne that by auto
  ultimately show ?thesis
    using assms(1,3) n
    by (cases agg) (auto simp: compose_values_def Let_def composed_at_def overflowed_def
        empty_composition_def split: prod.splits option.splits)
qed

lemma state_loop_index:
  "state_loop i vs w wi = (v, k) \<Longrightarrow> wi < n \<Longrightarrow> i + length vs \<le> n \<Longrightarrow> k < n"
  by (induction i vs w wi rule: state_loop.induct) (auto split: if_splits)

lemma qualify_loop_total:
  "rv_capability r = Some c \<Longrightarrow> qualify_loop ctx r items \<noteq> None"
proof (induction items)
  case Nil
  then show ?case by simp
next
  case (Cons item items)
  obtain v where "value_of ctx item r = Some v" using value_of_total [OF Cons.prems] by blast
  with Cons show ?case by (auto simp: Let_def split: option.splits)
qed

lemma diversity_scan_total:
  "grounded rs \<Longrightarrow> \<exists>p. diversity_scan ctx rs ds u = Some p"
proof (induction rs arbitrary: ds u)
  case Nil
  then show ?case by simp
next
  case (Cons r rs)
  then have g: "grounded rs" by (auto simp: grounded_def)
  show ?case
  proof (cases "alive r")
    case True
    then obtain c where "rv_capability r = Some c" using Cons.prems by (auto simp: grounded_def)
    then obtain ok missing where "qualify_loop ctx r (ec_plan ctx) = Some (ok, missing)"
      using qualify_loop_total [of r c ctx "ec_plan ctx"] by auto
    with Cons.IH [OF g] show ?thesis by auto
  next
    case False
    with Cons.IH [OF g] show ?thesis by (auto simp: alive_def)
  qed
qed

lemma assess_item_total:
  assumes g: "grounded (ec_resolutions ctx)" and ne: "ec_resolutions ctx \<noteq> []"
  shows "\<exists>r. assess_item ctx item = Some r"
proof -
  obtain s where s: "scan_components ctx item = Some s" using scan_components_total [OF g] by blast
  have ok: "scan_ok ctx item (ec_resolutions ctx) s" by (rule scan_components_ok [OF s])
  have len: "length (sc_values s) = length (ec_resolutions ctx)" by (rule scan_ok_length [OF ok])
  have div: "\<exists>p. assess_diversity ctx item = Some p"
    using diversity_scan_total [OF g, of ctx "[]" False] by (auto simp: assess_diversity_def Let_def)
  have st: "\<exists>a'. assess_state ctx s a = Some a'" for a
  proof -
    obtain w k where k: "state_loop 0 (sc_values s) kStateAvailable 0 = (w, k)" by (cases "state_loop 0 (sc_values s) kStateAvailable 0")
    have "k < length (ec_resolutions ctx)" using state_loop_index [OF k] len ne by simp
    moreover define a' where "a' = a\<lparr>oa_binding_resource := Some (rv_resource (ec_resolutions ctx ! k)),
      oa_weakest_resource := Some (rv_resource (ec_resolutions ctx ! k))\<rparr>"
    moreover obtain b where "blame_scan (ec_resolutions ctx) s a' = Some b"
      using blame_scan_total [OF ok] by blast
    ultimately show ?thesis
      using ne by (auto simp: assess_state_def k Let_def split: option.splits)
  qed
  have vals: "\<exists>p. assess_values ctx s a = Some p" for a
  proof -
    obtain b where b: "blame_scan (ec_resolutions ctx) s a = Some b" using blame_scan_total [OF ok] by blast
    show ?thesis
    proof (cases "first_absent 0 (sc_values s)")
      case (Some p)
      with first_absent_Some [of 0 "sc_values s" "fst p" "snd p"] len b show ?thesis
        by (cases p) (auto simp: assess_values_def Let_def split: option.splits)
    next
      case None
      then have "list_all rw_present (sc_values s)" by (simp add: first_absent_None)
      moreover have "sc_values s \<noteq> []" using len ne by auto
      ultimately show ?thesis
        using b None len compose_indices [of "sc_values s"]
        by (auto simp: assess_values_def Let_def split: option.splits)
    qed
  qed
  show ?thesis using s div st vals by (auto simp: assess_item_def)
qed

lemma assess_loop_total:
  assumes "grounded (ec_resolutions ctx)" "ec_resolutions ctx \<noteq> []"
  shows "\<exists>r. assess_loop ctx items d v = Some r"
proof (induction items arbitrary: d v)
  case Nil
  then show ?case by simp
next
  case (Cons item items)
  obtain a u o' where "assess_item ctx item = Some (a, u, o')"
    using assess_item_total [OF assms, of item] by (metis prod_cases3)
  with Cons show ?case by (auto simp: Let_def)
qed

lemma resolve_all_grounded:
  assumes "resolve_all inp = Some rs"
  shows "grounded rs"
  unfolding grounded_def
proof
  fix r assume "r \<in> set rs"
  then obtain i where i: "i < length rs" "rs ! i = r" by (auto simp: in_set_conv_nth)
  with resolve_all_nth(2) [OF assms i(1)] show "alive r \<longrightarrow> rv_capability r \<noteq> None"
    by (auto simp: resolution_ok_def alive_def)
qed

lemma intake_ok_path: "intake_ok inp \<Longrightarrow> pa_components (in_path inp) \<noteq> []"
  by (auto simp: intake_ok_def validate_path_def bind_iff)

section \<open>The shape of an evaluation\<close>

primrec status_outcome :: "obligation_status \<Rightarrow> outcome" where
  "status_outcome OS_Satisfied = O_Supported" | "status_outcome OS_Degraded = O_SupportedDegraded"
| "status_outcome OS_Violated = O_Unsupported" | "status_outcome OS_Unknown = O_Unknown"
| "status_outcome OS_Unavailable = O_Unsupported" | "status_outcome OS_Stale = O_Stale"
| "status_outcome OS_NotApplicable = O_Supported"

definition statuses_outcome :: "obligation_assessment list \<Rightarrow> outcome \<Rightarrow> outcome" where
  "statuses_outcome as out = fold (\<lambda>a o'. max o' (status_outcome (oa_status a))) as out"

lemma roll_up_simps:
  "snd (roll_up a (d, out)) = max out (status_outcome (oa_status a))"
  "cd_obligations (fst (roll_up a (d, out))) = cd_obligations d"
  subgoal by (cases "oa_status a") (simp_all add: roll_up_def merge_max)
  subgoal by (cases "oa_status a") (simp_all add: roll_up_def)
  done

lemma fold_roll_up:
  "snd (fold roll_up as (d, out)) = statuses_outcome as out \<and>
   cd_obligations (fst (fold roll_up as (d, out))) = cd_obligations d"
proof (induction as arbitrary: d out)
  case Nil
  show ?case by (simp add: statuses_outcome_def)
next
  case (Cons a as)
  obtain d' o' where r: "roll_up a (d, out) = (d', o')" by (cases "roll_up a (d, out)")
  with roll_up_simps [of a d out]
  have "o' = max out (status_outcome (oa_status a))" "cd_obligations d' = cd_obligations d" by simp_all
  with Cons [of d' o'] r show ?case by (simp add: statuses_outcome_def)
qed

lemma conclude_fields:
  "cd_outcome (conclude inp rs d (out, reason)) = statuses_outcome (cd_obligations d) out"
  "cd_obligations (conclude inp rs d (out, reason)) = cd_obligations d"
  "cd_resources (conclude inp rs d (out, reason)) = cd_resources (conclude inp rs d (out, reason))"
proof -
  let ?d = "d\<lparr>cd_resources := map resource_of rs\<rparr>"
  obtain d' o' where r: "fold roll_up (cd_obligations d) (?d, out) = (d', o')"
    by (cases "fold roll_up (cd_obligations d) (?d, out)")
  with fold_roll_up [of "cd_obligations d" ?d out]
  have "o' = statuses_outcome (cd_obligations d) out" "cd_obligations d' = cd_obligations d" by simp_all
  then show "cd_outcome (conclude inp rs d (out, reason)) = statuses_outcome (cd_obligations d) out"
    "cd_obligations (conclude inp rs d (out, reason)) = cd_obligations d"
    using r by (simp_all add: conclude_def seal_decision_def Let_def split: option.splits)
qed simp

lemma statuses_outcome_ge: "out \<le> statuses_outcome as out"
  "a \<in> set as \<Longrightarrow> status_outcome (oa_status a) \<le> statuses_outcome as out"
proof -
  show g: "out \<le> statuses_outcome as out" for out as
  proof (induction as arbitrary: out)
    case Nil
    then show ?case by (simp add: statuses_outcome_def)
  next
    case (Cons a as)
    from Cons [of "max out (status_outcome (oa_status a))"] show ?case
      by (simp add: statuses_outcome_def)
  qed
  show "a \<in> set as \<Longrightarrow> status_outcome (oa_status a) \<le> statuses_outcome as out"
  proof (induction as arbitrary: out)
    case Nil
    then show ?case by simp
  next
    case (Cons b as)
    show ?case
    proof (cases "a = b")
      case True
      with g [of "max out (status_outcome (oa_status b))" as] show ?thesis
        by (simp add: statuses_outcome_def)
    next
      case False
      with Cons show ?thesis by (simp add: statuses_outcome_def)
    qed
  qed
qed

lemma statuses_outcome_source:
  "statuses_outcome as out = out \<or> (\<exists>a \<in> set as. statuses_outcome as out = status_outcome (oa_status a))"
proof (induction as arbitrary: out)
  case Nil
  then show ?case by (simp add: statuses_outcome_def)
next
  case (Cons a as)
  from Cons [of "max out (status_outcome (oa_status a))"] show ?case
    by (auto simp: statuses_outcome_def max_def split: if_splits)
qed

lemma assess_loop_shape:
  "assess_loop ctx items d v = Some (d', v') \<Longrightarrow>
   \<exists>as. cd_obligations d' = cd_obligations d @ as \<and>
     list_all2 (\<lambda>item a. \<exists>u o'. assess_item ctx item = Some (a, u, o')) items as \<and>
     fst v \<le> fst v' \<and>
     ((\<exists>item \<in> set items. \<exists>a u. assess_item ctx item = Some (a, u, True)) \<longrightarrow> fst v' = O_Rejected) \<and>
     ((\<forall>item \<in> set items. \<forall>a u. assess_item ctx item \<noteq> Some (a, u, True)) \<longrightarrow> v' = v)"
proof (induction items arbitrary: d v)
  case Nil
  then show ?case by simp
next
  case (Cons item items)
  obtain a u o' where i: "assess_item ctx item = Some (a, u, o')"
    using Cons.prems by (cases "assess_item ctx item") auto
  let ?d = "(case u of None \<Rightarrow> d | Some n \<Rightarrow> d\<lparr>cd_unsatisfied_diversity_domains := n\<rparr>)"
  let ?v = "apply_finding (overflow_finding o') v"
  from Cons.prems i have "assess_loop ctx items (?d\<lparr>cd_obligations := cd_obligations ?d @ [a]\<rparr>) ?v = Some (d', v')"
    by (simp add: Let_def)
  from Cons.IH [OF this] obtain as where as:
    "cd_obligations d' = cd_obligations ?d @ a # as"
    "list_all2 (\<lambda>item a. \<exists>u o'. assess_item ctx item = Some (a, u, o')) items as"
    "fst ?v \<le> fst v'"
    "(\<exists>item \<in> set items. \<exists>a u. assess_item ctx item = Some (a, u, True)) \<longrightarrow> fst v' = O_Rejected"
    "(\<forall>item \<in> set items. \<forall>a u. assess_item ctx item \<noteq> Some (a, u, True)) \<longrightarrow> v' = ?v"
    by auto
  have o: "cd_obligations ?d = cd_obligations d" by (simp split: option.splits)
  have v: "fst v \<le> fst ?v" "o' \<longrightarrow> fst ?v = O_Rejected" "\<not> o' \<longrightarrow> ?v = v"
    using O_Rejected_greatest [of "fst v"]
    by (cases v; auto simp: overflow_finding_def merge_max max_def split: if_splits)+
  show ?case
  proof (intro exI [of _ "a # as"] conjI)
    show "cd_obligations d' = cd_obligations d @ a # as" using as(1) o by simp
    show "list_all2 (\<lambda>item a. \<exists>u o'. assess_item ctx item = Some (a, u, o')) (item # items) (a # as)"
      using as(2) i by simp
    show "fst v \<le> fst v'" using v(1) as(3) by simp
    show "(\<exists>item \<in> set (item # items). \<exists>a u. assess_item ctx item = Some (a, u, True)) \<longrightarrow> fst v' = O_Rejected"
      using as(3,4) v(2) i by (auto intro: antisym)
    show "(\<forall>item \<in> set (item # items). \<forall>a u. assess_item ctx item \<noteq> Some (a, u, True)) \<longrightarrow> v' = v"
      using as(5) v(3) i by (cases o') auto
  qed
qed

text \<open>The verdict of the phases before the obligations.\<close>

definition entry_verdict :: "evaluation_inputs \<Rightarrow> resolution list \<Rightarrow> verdict" where
  "entry_verdict inp rs =
     apply_findings (currency_findings inp)
       (apply_findings (contradiction_findings rs) (apply_findings (conflict_findings inp) (O_Supported, [])))"

lemma make_ctx_simps [simp]:
  "ec_resolutions (make_ctx inp rs) = rs" "ec_inputs (make_ctx inp rs) = inp"
  "ec_plan (make_ctx inp rs) = build_plan (in_klass inp) (in_policy inp)"
  by (simp_all add: make_ctx_def Let_def)

lemma evaluate_rejected:
  "\<not> intake_ok inp \<Longrightarrow> evaluate inp = Some (Inr (rejected_decision inp (snd (intake inp))))"
  using intake_cases(1) [of inp] by (simp add: evaluate_def intake_def Let_def)

lemma evaluate_accepted:
  assumes "intake_ok inp"
  obtains rs d v where "resolve_all inp = Some rs"
    and "assess_loop (make_ctx inp rs) (build_plan (in_klass inp) (in_policy inp)) (initial_decision inp) (entry_verdict inp rs) = Some (d, v)"
    and "evaluate inp = Some (Inr (conclude inp rs d v))"
proof -
  obtain rs where rs: "resolve_all inp = Some rs" using resolve_all_total [OF assms] by blast
  have "rs \<noteq> []"
    using resolve_all_nth(1) [OF rs] intake_ok_path [OF assms] by auto
  then obtain d v where l: "assess_loop (make_ctx inp rs) (build_plan (in_klass inp) (in_policy inp))
      (initial_decision inp) (entry_verdict inp rs) = Some (d, v)"
    using assess_loop_total [of "make_ctx inp rs"] resolve_all_grounded [OF rs] by fastforce
  have "fst (apply_findings (intake_findings inp) (O_Supported, [])) \<noteq> O_Rejected"
    using intake_cases(1) [of inp] assms by (simp add: intake_def)
  moreover have "apply_findings (intake_findings inp) (O_Supported, []) = (O_Supported, [])"
    using intake_cases(2) [OF assms] by (simp add: intake_def)
  ultimately have "evaluate inp = Some (Inr (conclude inp rs d v))"
    using rs l by (simp add: evaluate_def Let_def entry_verdict_def)
  with rs l that show ?thesis by blast
qed

lemma evaluate_always_returns: "\<exists>d. evaluate inp = Some (Inr d)"
  using evaluate_rejected [of inp] evaluate_accepted [of inp] by metis

lemma rejected_outcome [simp]: "cd_outcome (rejected_decision inp r) = O_Rejected"
  "cd_obligations (rejected_decision inp r) = []" "cd_degradations (rejected_decision inp r) = []"
  by (simp_all add: rejected_decision_def seal_decision_def initial_decision_def Let_def)

lemma initial_obligations [simp]: "cd_obligations (initial_decision inp) = []"
  by (simp add: initial_decision_def Let_def)

text \<open>Everything a proof about an accepted evaluation needs.\<close>

lemma evaluate_facts:
  assumes "evaluate inp = Some (Inr d)" and "intake_ok inp"
  obtains rs v where "resolve_all inp = Some rs" "rs \<noteq> []" "grounded rs"
    and "list_all2 (\<lambda>item a. \<exists>u o'. assess_item (make_ctx inp rs) item = Some (a, u, o'))
      (build_plan (in_klass inp) (in_policy inp)) (cd_obligations d)"
    and "cd_outcome d = statuses_outcome (cd_obligations d) (fst v)"
    and "fst (entry_verdict inp rs) \<le> fst v"
    and "(\<exists>item \<in> set (build_plan (in_klass inp) (in_policy inp)). \<exists>a u. assess_item (make_ctx inp rs) item = Some (a, u, True)) \<longrightarrow> fst v = O_Rejected"
    and "(\<forall>item \<in> set (build_plan (in_klass inp) (in_policy inp)). \<forall>a u. assess_item (make_ctx inp rs) item \<noteq> Some (a, u, True)) \<longrightarrow> v = entry_verdict inp rs"
proof -
  from assms(2) obtain rs d0 v where e: "resolve_all inp = Some rs"
    "assess_loop (make_ctx inp rs) (build_plan (in_klass inp) (in_policy inp)) (initial_decision inp) (entry_verdict inp rs) = Some (d0, v)"
    "evaluate inp = Some (Inr (conclude inp rs d0 v))"
    by (rule evaluate_accepted)
  have d: "d = conclude inp rs d0 v" using e(3) assms(1) by simp
  obtain out reason where v: "v = (out, reason)" by (cases v)
  have "rs \<noteq> []" using resolve_all_nth(1) [OF e(1)] intake_ok_path [OF assms(2)] by auto
  moreover have "grounded rs" by (rule resolve_all_grounded [OF e(1)])
  moreover note assess_loop_shape [OF e(2)] conclude_fields [of inp rs d0 out reason]
  ultimately show ?thesis
    using that [of rs v] e(1) by (auto simp: d v)
qed

section \<open>What it takes to satisfy an obligation\<close>

definition qualifies :: "eval_ctx \<Rightarrow> resolution \<Rightarrow> bool" where
  "qualifies ctx r \<longleftrightarrow> alive r \<and> qualify_loop ctx r (ec_plan ctx) = Some (True, False)"

lemma qualify_loop_ok: "qualify_loop ctx r items = Some (True, m) \<Longrightarrow> \<not> m"
  by (induction ctx r items rule: qualify_loop.induct) (auto simp: Let_def split: if_splits option.splits)

lemma push_new_set [simp]: "set (push_new xs x) = insert x (set xs)"
  "distinct xs \<Longrightarrow> distinct (push_new xs x)"
  by (auto simp: push_new_def)

lemma diversity_scan_set:
  "diversity_scan ctx rs ds u = Some (ds', u') \<Longrightarrow> distinct ds \<Longrightarrow>
   distinct ds' \<and> set ds' = set ds \<union> rv_declared_domain ` {r \<in> set rs. qualifies ctx r}"
proof (induction rs arbitrary: ds u)
  case Nil
  then show ?case by simp
next
  case (Cons r rs)
  show ?case
  proof (cases "alive r")
    case False
    then have "\<not> qualifies ctx r" by (simp add: qualifies_def)
    moreover have "\<exists>u. diversity_scan ctx rs ds u = Some (ds', u')"
      using Cons.prems(1) False by (auto simp: alive_def split: if_splits)
    ultimately show ?thesis using Cons.IH Cons.prems(2) by auto
  next
    case True
    then have s: "rv_status r \<noteq> CStat_Unknown" "rv_status r = CStat_Satisfied \<or> rv_status r = CStat_Degraded"
      by (auto simp: alive_def)
    with Cons.prems(1) obtain ok m where q: "qualify_loop ctx r (ec_plan ctx) = Some (ok, m)"
      by (auto split: option.splits if_splits)
    show ?thesis
    proof (cases ok)
      case True
      with q qualify_loop_ok have "qualifies ctx r" using \<open>alive r\<close> by (auto simp: qualifies_def)
      moreover have "diversity_scan ctx rs (push_new ds (rv_declared_domain r)) u = Some (ds', u')"
        using Cons.prems(1) s q True by (auto split: if_splits)
      ultimately show ?thesis
        using Cons.IH [of "push_new ds (rv_declared_domain r)" u] Cons.prems(2) by auto
    next
      case False
      then have "\<not> qualifies ctx r" using q by (simp add: qualifies_def)
      moreover have "\<exists>u. diversity_scan ctx rs ds u = Some (ds', u')"
        using Cons.prems(1) s q False by (auto split: if_splits)
      ultimately show ?thesis using Cons.IH Cons.prems(2) by auto
    qed
  qed
qed

definition diverse_domains :: "eval_ctx \<Rightarrow> nat" where
  "diverse_domains ctx = card (rv_declared_domain ` {r \<in> set (ec_resolutions ctx). qualifies ctx r})"

lemma diversity_scan_count:
  assumes "diversity_scan ctx (ec_resolutions ctx) [] False = Some (ds, u)"
  shows "length ds = diverse_domains ctx" "length ds \<le> length (ec_resolutions ctx)"
proof -
  from diversity_scan_set [OF assms]
  have d: "distinct ds" and s: "set ds = rv_declared_domain ` {r \<in> set (ec_resolutions ctx). qualifies ctx r}"
    by auto
  then show "length ds = diverse_domains ctx" by (metis distinct_card diverse_domains_def)
  have "card (set ds) \<le> card (rv_declared_domain ` set (ec_resolutions ctx))"
    unfolding s by (intro card_mono) auto
  also have "\<dots> \<le> length (ec_resolutions ctx)"
    by (meson card_image_le card_length finite_set order_trans)
  finally show "length ds \<le> length (ec_resolutions ctx)" using d by (simp add: distinct_card)
qed

text \<open>The end-to-end requirement on the declared values, over the naturals.\<close>

fun composed_meets :: "aggregate_kind \<Rightarrow> u64 \<Rightarrow> u64 list \<Rightarrow> u64 \<Rightarrow> bool" where
  "composed_meets Agg_WeakestLink f vs required \<longleftrightarrow> (\<forall>v \<in> set vs. required \<le> v)"
| "composed_meets Agg_AllPresent f vs required \<longleftrightarrow> (\<forall>v \<in> set vs. required \<le> v)"
| "composed_meets Agg_WorstCase f vs required \<longleftrightarrow> (\<forall>v \<in> set vs. v \<le> required)"
| "composed_meets Agg_Additive f vs required \<longleftrightarrow> unat f + nat_sum vs \<le> unat required"
| "composed_meets Agg_LossCompose f vs required \<longleftrightarrow>
     1000000 - delivered 1000000 (map unat vs) \<le> unat required"
| "composed_meets Agg_PathDiversity f vs required \<longleftrightarrow> False"

definition agg_direction :: "aggregate_kind \<Rightarrow> compare_direction" where
  "agg_direction agg = (if agg \<in> {Agg_WeakestLink, Agg_AllPresent} then Dir_AtLeast else Dir_AtMost)"

lemma obligation_direction_agg:
  "k \<noteq> K_DisjointPaths \<Longrightarrow> obligation_direction k = agg_direction (obligation_aggregate k)"
  by (cases k) (simp_all add: agg_direction_def)

lemma composition_simps [simp]:
  "\<not> co_overflow (composed_at v i)" "co_value (composed_at v i) = Some v"
  "co_overflow (overflowed t)" "co_value (overflowed t) = None"
  "\<not> co_overflow empty_composition" "co_value empty_composition = None"
  by (simp_all add: composed_at_def overflowed_def empty_composition_def)

lemma compose_meets:
  assumes ne: "values \<noteq> []" and p: "list_all rw_present values"
  shows "(\<exists>v. co_value (compose_values agg values f) = Some v \<and> meets (agg_direction agg) v required) \<longleftrightarrow>
    composed_meets agg f (map rw_value values) required"
proof -
  let ?vs = "map rw_value values"
  have nev: "?vs \<noteq> []" using ne by simp
  have n: "first_absent 0 values = None" using p by (simp add: first_absent_None)
  have weak: "meets Dir_AtLeast w required \<longleftrightarrow> (\<forall>v \<in> set ?vs. required \<le> v)"
    if "weakest_loop (hd ?vs) 0 1 (tl ?vs) = (w, k)" for w k
    using weakest_of [OF nev that] by (fastforce simp: first_min_def meets_def)
  have worst: "meets Dir_AtMost w required \<longleftrightarrow> (\<forall>v \<in> set ?vs. v \<le> required)"
    if "worst_loop (hd ?vs) 0 1 (tl ?vs) = (w, k)" for w k
    using worst_of [OF nev that] by (fastforce simp: first_max_def meets_def)
  show ?thesis
  proof (cases agg)
    case Agg_WeakestLink
    obtain w k where l: "weakest_loop (hd ?vs) 0 1 (tl ?vs) = (w, k)" by fastforce
    then show ?thesis using ne n weak [OF l] Agg_WeakestLink
      by (simp add: compose_values_def Let_def agg_direction_def)
  next
    case Agg_AllPresent
    obtain w k where l: "weakest_loop (hd ?vs) 0 1 (tl ?vs) = (w, k)" by fastforce
    then show ?thesis using ne n weak [OF l] Agg_AllPresent
      by (simp add: compose_values_def Let_def agg_direction_def)
  next
    case Agg_WorstCase
    obtain w k where l: "worst_loop (hd ?vs) 0 1 (tl ?vs) = (w, k)" by fastforce
    then show ?thesis using ne n worst [OF l] Agg_WorstCase
      by (simp add: compose_values_def Let_def agg_direction_def)
  next
    case Agg_Additive
    show ?thesis
    proof (cases "additive_loop f 0 0 0 ?vs")
      case None
      then have "2 ^ 64 \<le> unat f + nat_sum ?vs" by (simp only: additive_loop_None)
      moreover have "unat required < 2 ^ 64" using unsigned_less [of required, where 'a = nat] by simp
      ultimately show ?thesis using ne n None Agg_Additive
        by (simp add: compose_values_def Let_def)
    next
      case (Some p)
      then obtain t k where t: "additive_loop f 0 0 0 ?vs = Some (t, k)" by (cases p) auto
      then show ?thesis using ne n additive_loop_Some [OF t] Agg_Additive
        by (simp add: compose_values_def Let_def agg_direction_def meets_def word_le_nat_alt)
    qed
  next
    case Agg_LossCompose
    obtain r k where l: "loss_loop kPpm 0 0 0 ?vs = Some (r, k)"
      and r: "unat r = delivered 1000000 (map unat ?vs)" "unat r \<le> 1000000"
      using loss_loop_total [of kPpm 0 0 0 ?vs] by auto
    have "unat (kPpm - r) = 1000000 - unat r" using r(2) by (simp add: unat_sub word_le_nat_alt)
    then show ?thesis using ne n l r Agg_LossCompose
      by (simp add: compose_values_def Let_def agg_direction_def meets_def word_le_nat_alt)
  next
    case Agg_PathDiversity
    then show ?thesis using ne n by (simp add: compose_values_def Let_def)
  qed
qed

definition item_met :: "eval_ctx \<Rightarrow> obligation_plan \<Rightarrow> bool" where
  "item_met ctx item \<longleftrightarrow>
     (if pl_kind item = K_DisjointPaths then unat (pl_required item) \<le> diverse_domains ctx
      else if pl_kind item = K_ResourceState then
        (\<forall>r \<in> set (ec_resolutions ctx). rv_status r = CStat_Satisfied)
      else
        list_all alive (ec_resolutions ctx) \<and>
        (\<exists>vs. list_all2 (\<lambda>r v. \<exists>w. value_of ctx item r = Some w \<and> rw_present w \<and> rw_value w = v)
              (ec_resolutions ctx) vs \<and>
           composed_meets (obligation_aggregate (pl_kind item))
             (overhead_of (in_path (ec_inputs ctx)) (pl_kind item)) vs (pl_required item)))"

lemma blank_assessment_simps [simp]:
  "oa_kind (blank_assessment i) = pl_kind i" "oa_required_value (blank_assessment i) = pl_required i"
  "oa_direction (blank_assessment i) = obligation_direction (pl_kind i)"
  "oa_relaxable (blank_assessment i) = obligation_relaxable (pl_kind i)"
  "oa_status (blank_assessment i) = OS_Satisfied" "oa_id (blank_assessment i) = pl_id i"
  "oa_effective_limit (blank_assessment i) = pl_required i"
  "oa_relaxation_applied_ppm (blank_assessment i) = 0"
  "\<not> oa_relaxation_reported_only (blank_assessment i)"
  by (simp_all add: blank_assessment_def)

lemma blame_simps [simp]: "oa_status (blame a st r t) = st" "oa_kind (blame a st r t) = oa_kind a"
  by (simp_all add: blame_def)

lemma assess_shortfall_status: "oa_status (assess_shortfall ctx a v) \<in> {OS_Violated, OS_Degraded}"
  by (auto simp: assess_shortfall_def Let_def split: option.splits)

lemma assess_composed_status:
  "oa_status (assess_composed ctx a v) = OS_Satisfied \<longleftrightarrow> meets (oa_direction a) v (oa_required_value a)"
  using assess_shortfall_status [of ctx a v] by (auto simp: assess_composed_def)

lemma assess_diversity_status:
  assumes "assess_diversity ctx item = Some (a, u)" "length (ec_resolutions ctx) < 2 ^ 64"
  shows "oa_status a = OS_Satisfied \<longleftrightarrow> unat (pl_required item) \<le> diverse_domains ctx"
proof -
  obtain ds m where s: "diversity_scan ctx (ec_resolutions ctx) [] False = Some (ds, m)"
    using assms(1) by (auto simp: assess_diversity_def split: option.splits)
  note c = diversity_scan_count [OF s]
  have w: "unat (word_of_nat (length ds) :: u64) = diverse_domains ctx"
    using c assms(2) by (simp add: unsigned_of_nat take_bit_nat_eq_self)
  have "oa_status (assess_short_diversity ctx x y z) \<noteq> OS_Satisfied" for x y z
    by (auto simp: assess_short_diversity_def Let_def)
  with s assms(1) show ?thesis
    by (auto simp: assess_diversity_def Let_def word_le_nat_alt w split: if_splits)
qed

lemma state_loop_worst:
  "state_loop i vs w wi = (v, k) \<Longrightarrow> u \<le> v \<longleftrightarrow> u \<le> w \<and> (\<forall>x \<in> set vs. rw_present x \<longrightarrow> u \<le> rw_value x)"
  by (induction i vs w wi rule: state_loop.induct) (auto split: if_splits)

definition coherent :: "resolution list \<Rightarrow> bool" where
  "coherent rs \<longleftrightarrow> (\<forall>r \<in> set rs. alive r \<longrightarrow> (rv_self_declared_degraded r \<longleftrightarrow> rv_status r = CStat_Degraded))"

lemma resolve_all_coherent:
  assumes "resolve_all inp = Some rs"
  shows "coherent rs"
  unfolding coherent_def
proof
  fix r assume "r \<in> set rs"
  then obtain i where i: "i < length rs" "rs ! i = r" by (auto simp: in_set_conv_nth)
  with resolve_all_nth(2) [OF assms i(1)]
  show "alive r \<longrightarrow> (rv_self_declared_degraded r \<longleftrightarrow> rv_status r = CStat_Degraded)"
    by (auto simp: resolution_ok_def alive_def)
qed

lemma value_of_state:
  "pl_kind item = K_ResourceState \<Longrightarrow> value_of ctx item r =
     Some (present (if rv_self_declared_degraded r then 2 else 3))"
  by (simp add: value_of_def component_value_def Let_def)

lemma present_simps [simp]: "rw_present (present v)" "rw_value (present v) = v" "\<not> rw_present (absent d)"
  by (simp_all add: present_def absent_def)

lemma assess_state_status:
  assumes k: "pl_kind item = K_ResourceState" and ok: "scan_ok ctx item (ec_resolutions ctx) s"
    and coh: "coherent (ec_resolutions ctx)" and a: "assess_state ctx s (blank_assessment item) = Some a"
  shows "oa_status a = OS_Satisfied \<longleftrightarrow> (\<forall>r \<in> set (ec_resolutions ctx). rv_status r = CStat_Satisfied)"
proof -
  let ?rs = "ec_resolutions ctx"
  obtain worst wi where l: "state_loop 0 (sc_values s) kStateAvailable 0 = (worst, wi)" by fastforce
  obtain owner where o: "(if ?rs = [] then Some None else map_option (\<lambda>r. Some (rv_resource r)) (at ?rs wi)) = Some owner"
    using a l by (cases "at ?rs wi") (auto simp: assess_state_def Let_def split: if_splits)
  let ?a = "(blank_assessment item)\<lparr>oa_binding_resource := owner, oa_weakest_resource := owner\<rparr>"
  obtain b where b: "blame_scan ?rs s ?a = Some b" using blame_scan_total [OF ok] by blast
  note cases = blame_scan_cases [OF ok b]
  show ?thesis
  proof (cases "list_all alive ?rs")
    case False
    then obtain a' where a': "b = Some a'" using cases by (cases b) auto
    then have "oa_status a' \<noteq> OS_Satisfied" using cases by auto
    moreover have "a = a'" using a l o b a' by (simp add: assess_state_def)
    moreover have "\<not> (\<forall>r \<in> set ?rs. rv_status r = CStat_Satisfied)"
      using False by (auto simp: list_all_iff alive_def)
    ultimately show ?thesis by simp
  next
    case True
    then have n: "b = None" using cases by blast
    have v: "list_all2 (\<lambda>r v. v = present (if rv_self_declared_degraded r then 2 else 3)) ?rs (sc_values s)"
      using ok True by (auto simp: scan_ok_def scanned_def value_of_state [OF k] list_all2_conv_all_nth list_all_length)
    have "worst \<ge> kStateAvailable \<longleftrightarrow> (\<forall>x \<in> set (sc_values s). rw_present x \<longrightarrow> kStateAvailable \<le> rw_value x)"
      using state_loop_worst [OF l, of kStateAvailable] by simp
    also have "\<dots> \<longleftrightarrow> (\<forall>r \<in> set ?rs. \<not> rv_self_declared_degraded r)"
      using v by (auto simp: list_all2_conv_all_nth all_set_conv_all_nth kStateAvailable_def word_le_nat_alt split: if_splits)
    also have "\<dots> \<longleftrightarrow> (\<forall>r \<in> set ?rs. rv_status r = CStat_Satisfied)"
      using True coh by (auto simp: coherent_def list_all_iff alive_def)
    finally have w: "worst \<ge> kStateAvailable \<longleftrightarrow> (\<forall>r \<in> set ?rs. rv_status r = CStat_Satisfied)" .
    have "oa_status a = OS_Satisfied \<longleftrightarrow> worst \<ge> kStateAvailable"
      using a l o b n by (auto simp: assess_state_def Let_def bind_eq_Some_conv split: if_splits)
    then show ?thesis using w by simp
  qed
qed

lemma obligation_aggregate_diversity: "obligation_aggregate k = Agg_PathDiversity \<longleftrightarrow> k = K_DisjointPaths"
  by (cases k) simp_all

text \<open>
  The assessment of a composed obligation: its status is \<open>Satisfied\<close> exactly when every
  component is live, declares the attribute, and the composed value meets the requirement;
  it overflows only when it is not satisfied.
\<close>

lemma assess_values_status:
  assumes k: "pl_kind item \<noteq> K_DisjointPaths" "pl_kind item \<noteq> K_ResourceState"
    and ne: "ec_resolutions ctx \<noteq> []"
    and ok: "scan_ok ctx item (ec_resolutions ctx) s"
    and a: "assess_values ctx s (blank_assessment item) = Some (a, over)"
  shows "oa_status a = OS_Satisfied \<longleftrightarrow> item_met ctx item"
    and "over \<Longrightarrow> oa_status a = OS_Unknown"
proof -
  let ?rs = "ec_resolutions ctx" and ?b = "blank_assessment item"
  let ?agg = "obligation_aggregate (pl_kind item)"
  let ?f = "overhead_of (in_path (ec_inputs ctx)) (pl_kind item)"
  let ?c = "compose_values ?agg (sc_values s) ?f"
  have len: "length (sc_values s) = length ?rs" by (rule scan_ok_length [OF ok])
  then have nev: "sc_values s \<noteq> []" using ne by auto
  obtain b where b: "blame_scan ?rs s ?b = Some b" using blame_scan_total [OF ok] by blast
  note cases = blame_scan_cases [OF ok b]
  have "(oa_status a = OS_Satisfied \<longleftrightarrow> item_met ctx item) \<and> (over \<longrightarrow> oa_status a = OS_Unknown)"
  proof (cases "list_all alive ?rs")
    case False
    then obtain a' where a': "b = Some a'" using cases by (cases b) auto
    then have "oa_status a' \<noteq> OS_Satisfied" using cases by auto
    moreover have "a = a' \<and> \<not> over" using a b a' by (simp add: assess_values_def)
    moreover have "\<not> item_met ctx item" using False k by (simp add: item_met_def)
    ultimately show ?thesis by simp
  next
    case True
    then have n: "b = None" using cases by blast
    have v: "list_all2 (\<lambda>r v. value_of ctx item r = Some v) ?rs (sc_values s)"
      using ok True by (auto simp: scan_ok_def scanned_def list_all2_conv_all_nth list_all_length)
    have met: "item_met ctx item \<longleftrightarrow> list_all rw_present (sc_values s) \<and>
        composed_meets ?agg ?f (map rw_value (sc_values s)) (pl_required item)"
    proof -
      have "list_all2 (\<lambda>r v. \<exists>w. value_of ctx item r = Some w \<and> rw_present w \<and> rw_value w = v) ?rs vs \<longleftrightarrow>
          list_all rw_present (sc_values s) \<and> vs = map rw_value (sc_values s)" for vs
        using v by (auto simp: list_all2_conv_all_nth list_all_length intro: nth_equalityI)
      then show ?thesis using k True by (auto simp: item_met_def)
    qed
    show ?thesis
    proof (cases "first_absent 0 (sc_values s)")
      case (Some p)
      then have "\<not> list_all rw_present (sc_values s)" using first_absent_None [of 0 "sc_values s"] by auto
      with Some a b n met show ?thesis by (cases p) (auto simp: assess_values_def)
    next
      case None
      then have p: "list_all rw_present (sc_values s)" by (simp add: first_absent_None)
      have m: "(\<exists>v. co_value ?c = Some v \<and> meets (obligation_direction (pl_kind item)) v (pl_required item)) \<longleftrightarrow>
          item_met ctx item"
        using compose_meets [OF nev p, of ?agg ?f "pl_required item"] met p obligation_direction_agg [OF k(1)] by simp
      have ov: "co_overflow ?c \<Longrightarrow> co_value ?c = None"
        using nev None by (cases ?agg) (auto simp: compose_values_def Let_def split: prod.splits option.splits)
      show ?thesis
        using a b n None m ov
        by (auto simp: assess_values_def Let_def bind_eq_Some_conv assess_composed_status split: if_splits option.splits)
    qed
  qed
  then show "oa_status a = OS_Satisfied \<longleftrightarrow> item_met ctx item" "over \<Longrightarrow> oa_status a = OS_Unknown" by auto
qed

lemma assess_item_status:
  assumes ne: "ec_resolutions ctx \<noteq> []" and len: "length (ec_resolutions ctx) < 2 ^ 64"
    and coh: "coherent (ec_resolutions ctx)"
    and a: "assess_item ctx item = Some (a, u, over)"
  shows "(oa_status a = OS_Satisfied \<longleftrightarrow> item_met ctx item) \<and> (over \<longrightarrow> oa_status a = OS_Unknown)"
proof (cases "pl_kind item = K_DisjointPaths")
  case True
  with a obtain u' where d: "assess_diversity ctx item = Some (a, u')" "\<not> over" by (auto simp: assess_item_def)
  with assess_diversity_status [OF d(1) len] True show ?thesis by (simp add: item_met_def)
next
  case False
  with a obtain s where s: "scan_components ctx item = Some s"
    by (auto simp: assess_item_def bind_eq_Some_conv)
  note ok = scan_components_ok [OF s]
  show ?thesis
  proof (cases "pl_kind item = K_ResourceState")
    case True
    with a s False have "assess_state ctx s (blank_assessment item) = Some a" "\<not> over"
      by (auto simp: assess_item_def)
    with assess_state_status [OF True ok coh] True show ?thesis by (simp add: item_met_def)
  next
    case ns: False
    with a s False have "assess_values ctx s (blank_assessment item) = Some (a, over)"
      by (auto simp: assess_item_def)
    from assess_values_status [OF False ns ne ok this] show ?thesis by blast
  qed
qed

section \<open>The plan is already in canonical order\<close>

lemma append_le_append: "(p @ x :: 'a::linorder list) \<le> p @ y \<longleftrightarrow> x \<le> y"
  by (induction p) auto

lemma make_id_predicate_mono:
  assumes "p \<le> q" "is_valid_identifier p kMaxPredicateKeyLen" "is_valid_identifier q kMaxPredicateKeyLen"
  shows "make_id K_Predicate p \<le> make_id K_Predicate q"
proof -
  have "length p \<le> 64" "length q \<le> 64" "p \<noteq> []" "q \<noteq> []"
    using assms(2,3) by (auto dest: is_valid_identifier_length simp: kMaxPredicateKeyLen_def)
  with assms(1) show ?thesis by (simp add: make_id_def kMaxIdentifierLen_def)
qed

lemma sorted_map_mono:
  "sorted xs \<Longrightarrow> (\<And>x y. x \<in> set xs \<Longrightarrow> y \<in> set xs \<Longrightarrow> x \<le> y \<Longrightarrow> f x \<le> f y) \<Longrightarrow> sorted (map f xs)"
  by (induction xs) auto

lemma kind_less: "a < b \<longleftrightarrow> kind_rank a < kind_rank b" "a \<le> b \<longleftrightarrow> kind_rank a \<le> kind_rank b"
  by (simp_all add: less_obligation_kind_def less_eq_obligation_kind_def)

lemma plan_items_sorted:
  assumes "validate_class klass = Inr ()" "validate_policy pol = Inr ()"
  shows "sorted (map plan_key (plan_items klass pol))"
proof -
  let ?ps = "merged_predicates klass pol"
  have "sorted (map (\<lambda>q. (K_Predicate, make_id K_Predicate q)) ?ps)"
  proof (rule sorted_map_mono)
    show "sorted ?ps" by (simp add: merged_predicates_def)
    show "(K_Predicate, make_id K_Predicate x) \<le> (K_Predicate, make_id K_Predicate y)"
      if "x \<in> set ?ps" "y \<in> set ?ps" "x \<le> y" for x y
      using make_id_predicate_mono [OF that(3)] merged_predicates_set(3) [OF assms] that by simp
  qed
  then have p: "sorted (map plan_key (map plan_predicate ?ps))" by (simp add: comp_def)
  have i: "sorted (map plan_key (push_if k x))" for k x by (simp add: push_if_def split: option.splits)
  show ?thesis
    unfolding plan_items_def map_append sorted_append
    using p i by (auto simp: less_prod_def' less_eq_prod_def kind_less word_less_nat_alt word_le_nat_alt)
qed

lemma build_plan_eq:
  assumes "validate_class klass = Inr ()" "validate_policy pol = Inr ()"
  shows "build_plan klass pol = take kMaxObligations (plan_items klass pol)"
proof -
  have "sort_key plan_key (plan_items klass pol) = plan_items klass pol"
    using plan_items_sorted [OF assms] by (rule sort_key_id_if_sorted)
  then show ?thesis
    using unique_plan_distinct [OF plan_items_distinct [OF assms]] by (simp add: build_plan_def Let_def)
qed

text \<open>The structural items come early enough to survive any truncation.\<close>

lemma structural_items:
  assumes "validate_class klass = Inr ()" "validate_policy pol = Inr ()"
  shows "plan_item K_Isolation (ucast (iso_rank (qc_isolation klass))) \<in> set (build_plan klass pol)"
    "plan_item K_Treatment (ucast (tm_rank (qc_treatment klass))) \<in> set (build_plan klass pol)"
    "plan_item K_DisjointPaths (ucast (qc_min_disjoint_paths klass)) \<in> set (build_plan klass pol)"
proof -
  have s: "x \<in> set (take kMaxObligations (a @ x # b))" if "length a < 128" for x :: obligation_plan and a b
    using that by (auto simp: take_Cons' kMaxObligations_def)
  let ?pre = "push_if K_MinRate (qc_min_rate_bps klass) @
     push_if K_MaxRate (qc_max_rate_bps klass) @
     push_if K_PeakRate (qc_peak_rate_bps klass) @
     push_if K_Latency (qc_max_latency_us klass) @
     push_if K_Jitter (qc_max_jitter_us klass) @
     push_if K_Loss (map_option ucast (qc_max_loss_ppm klass)) @
     push_if K_BurstBytes (qc_burst_bytes klass) @
     push_if K_BurstInterval (qc_burst_interval_us klass) @
     push_if K_Mtu (qc_min_mtu_bytes klass)"
  have pre: "length ?pre \<le> 9" by (simp add: length_push_if)
  obtain rest where r: "plan_items klass pol = ?pre @
      plan_item K_Isolation (ucast (iso_rank (qc_isolation klass))) #
      plan_item K_Treatment (ucast (tm_rank (qc_treatment klass))) # rest"
    by (auto simp: plan_items_def)
  show "plan_item K_Isolation (ucast (iso_rank (qc_isolation klass))) \<in> set (build_plan klass pol)"
    unfolding build_plan_eq [OF assms] r using pre by (intro s) simp
  have r2: "plan_items klass pol = (?pre @ [plan_item K_Isolation (ucast (iso_rank (qc_isolation klass)))]) @
      plan_item K_Treatment (ucast (tm_rank (qc_treatment klass))) # rest"
    by (simp add: r)
  show "plan_item K_Treatment (ucast (tm_rank (qc_treatment klass))) \<in> set (build_plan klass pol)"
    unfolding build_plan_eq [OF assms] r2 using pre by (intro s) simp
  let ?mid = "?pre @ [plan_item K_Isolation (ucast (iso_rank (qc_isolation klass))),
      plan_item K_Treatment (ucast (tm_rank (qc_treatment klass))),
      plan_item K_PriorityRank (ucast (qc_min_priority_rank klass))] @
     (if qc_requires_reservation klass then push_if K_Reservation (qc_min_rate_bps klass) else [])"
  have mid: "length ?mid \<le> 13" using pre by (simp add: length_push_if)
  obtain rest' where r3: "plan_items klass pol = ?mid @ plan_item K_DisjointPaths (ucast (qc_min_disjoint_paths klass)) # rest'"
    by (auto simp: plan_items_def)
  show "plan_item K_DisjointPaths (ucast (qc_min_disjoint_paths klass)) \<in> set (build_plan klass pol)"
    unfolding build_plan_eq [OF assms] r3 using mid by (intro s) simp
qed

section \<open>When the verdict is positive\<close>

lemma assess_state_na: "assess_state ctx s a = Some a' \<Longrightarrow> scan_ok ctx item (ec_resolutions ctx) s \<Longrightarrow> oa_status a' \<noteq> OS_NotApplicable"
  by (auto simp: assess_state_def Let_def bind_eq_Some_conv split: prod.splits option.splits if_splits
      dest!: blame_scan_cases)

lemma assess_composed_na [simp]: "oa_status (assess_composed ctx a v) \<noteq> OS_NotApplicable"
  by (auto simp: assess_composed_def assess_shortfall_def Let_def split: option.splits)

lemma assess_values_na:
  assumes "assess_values ctx s a = Some (a', o')" and ok: "scan_ok ctx item (ec_resolutions ctx) s"
  shows "oa_status a' \<noteq> OS_NotApplicable"
proof -
  obtain b where b: "blame_scan (ec_resolutions ctx) s a = Some b" using blame_scan_total [OF ok] by blast
  show ?thesis
  proof (cases b)
    case (Some x)
    then have "oa_status x \<noteq> OS_NotApplicable" using blame_scan_cases [OF ok b] by auto
    with Some b assms(1) show ?thesis by (simp add: assess_values_def)
  next
    case None
    with b assms(1) show ?thesis
      by (auto simp: assess_values_def Let_def bind_eq_Some_conv split: option.splits if_splits)
  qed
qed

lemma assess_item_na: "assess_item ctx item = Some (a, u, o') \<Longrightarrow> oa_status a \<noteq> OS_NotApplicable"
  by (auto simp: assess_item_def assess_diversity_def assess_short_diversity_def Let_def bind_eq_Some_conv
      split: if_splits option.splits dest: assess_state_na assess_values_na scan_components_ok)

text \<open>No conflict and no superseded authority: the findings before the obligations are silent.\<close>

definition conflict_free :: "evaluation_inputs \<Rightarrow> bool" where
  "conflict_free inp \<longleftrightarrow> qc_id (in_klass inp) \<notin> set (po_denied_classes (in_policy inp)) \<and>
     (\<forall>m \<in> set (in_conflicts inp). \<not> marker_applies inp m)"

text \<open>
  Every generation used is the newest known one, and the epoch the request observed, when it names
  one, is not too far behind; the sum wraps at 64 bits as the code's does.
\<close>

definition current :: "evaluation_inputs \<Rightarrow> bool" where
  "current inp \<longleftrightarrow>
     (case cv_latest_class_generation (in_currency inp) of None \<Rightarrow> True | Some g \<Rightarrow> qc_generation (in_klass inp) = g) \<and>
     (case cv_latest_policy_generation (in_currency inp) of None \<Rightarrow> True | Some g \<Rightarrow> po_generation (in_policy inp) = g) \<and>
     (case cv_latest_path_generation (in_currency inp) of None \<Rightarrow> True | Some g \<Rightarrow> pa_generation (in_path inp) = g) \<and>
     (rq_observed_epoch (in_request inp) = 0 \<or> unat (in_current_epoch inp) \<le>
        (unat (rq_observed_epoch (in_request inp)) + unat (po_max_stale_epochs (in_policy inp))) mod 2 ^ 64)"

lemma current_iff: "current inp \<longleftrightarrow> (\<forall>f \<in> set (currency_findings inp). \<not> fst f)"
proof -
  have "unat (o' + ucast m) = (unat o' + unat m) mod 2 ^ 64" for o' :: u64 and m :: u32
    by (simp add: unat_word_ariths)
  then show ?thesis
    by (auto simp: current_def currency_findings_def superseded_def Let_def word_less_nat_alt split: option.splits)
qed

lemma conflict_free_iff: "conflict_free inp \<longleftrightarrow> (\<forall>f \<in> set (conflict_findings inp). \<not> fst f)"
  by (auto simp: conflict_free_def conflict_findings_def find_None_iff find_Some_iff split: option.splits)

lemma findings_out:
  "f \<in> set (conflict_findings inp) \<Longrightarrow> snd (snd f) = O_Conflict"
  "f \<in> set (contradiction_findings rs) \<Longrightarrow> snd (snd f) = O_Conflict"
  "f \<in> set (currency_findings inp) \<Longrightarrow> snd (snd f) = O_Stale"
  by (auto simp: conflict_findings_def contradiction_findings_def currency_findings_def Let_def split: option.splits)

lemma outcome_distinct [simp]: "\<not> O_Conflict \<le> O_Supported" "\<not> O_Stale \<le> O_Supported"
  "\<not> O_Conflict \<le> O_SupportedDegraded" "\<not> O_Stale \<le> O_SupportedDegraded"
  "\<not> O_Rejected \<le> O_SupportedDegraded" "\<not> O_Rejected \<le> O_Supported"
  "\<not> O_Unknown \<le> O_SupportedDegraded" "\<not> O_Unsupported \<le> O_SupportedDegraded"
  "O_Supported \<le> O_SupportedDegraded"
  by (simp_all add: less_eq_outcome_def word_le_nat_alt)

lemma entry_verdict_supported:
  "fst (entry_verdict inp rs) = O_Supported \<longleftrightarrow>
     conflict_free inp \<and> current inp \<and> (\<forall>r \<in> set rs. \<not> rv_domain_contradiction r)"
proof -
  have c: "(\<forall>f \<in> set (contradiction_findings rs). \<not> fst f) \<longleftrightarrow> (\<forall>r \<in> set rs. \<not> rv_domain_contradiction r)"
    by (simp add: contradiction_findings_def)
  let ?v1 = "apply_findings (conflict_findings inp) (O_Supported, [])"
  let ?v2 = "apply_findings (contradiction_findings rs) ?v1"
  have "fst (entry_verdict inp rs) \<noteq> O_Supported"
    if "f \<in> set (conflict_findings inp) \<union> set (contradiction_findings rs) \<union> set (currency_findings inp)" "fst f" for f
  proof
    assume e: "fst (entry_verdict inp rs) = O_Supported"
    have "snd (snd f) \<le> fst (entry_verdict inp rs)"
      using that findings_fire [of f "conflict_findings inp" "(O_Supported, [])"]
        findings_fire [of f "contradiction_findings rs" ?v1] findings_fire [of f "currency_findings inp" ?v2]
        findings_ge [of ?v1 "contradiction_findings rs"] findings_ge [of ?v2 "currency_findings inp"]
      unfolding entry_verdict_def by (auto intro: order_trans)
    moreover have "snd (snd f) \<in> {O_Conflict, O_Stale}" using that findings_out by blast
    ultimately show False using e by auto
  qed
  moreover have "fst (entry_verdict inp rs) = O_Supported"
    if "conflict_free inp" "current inp" "\<forall>r \<in> set rs. \<not> rv_domain_contradiction r"
    using that c by (simp add: entry_verdict_def findings_silent conflict_free_iff current_iff)
  ultimately show ?thesis unfolding conflict_free_iff current_iff using c by blast
qed

lemma status_outcome_supported:
  "st \<noteq> OS_NotApplicable \<Longrightarrow> status_outcome st = O_Supported \<longleftrightarrow> st = OS_Satisfied"
  by (cases st) simp_all

lemma all2_pick:
  "list_all2 P xs ys \<Longrightarrow> x \<in> set xs \<Longrightarrow> \<exists>y \<in> set ys. P x y"
  "list_all2 P xs ys \<Longrightarrow> y \<in> set ys \<Longrightarrow> \<exists>x \<in> set xs. P x y"
  by (induction rule: list_all2_induct) auto

lemma path_size: "intake_ok inp \<Longrightarrow> length (pa_components (in_path inp)) < 2 ^ 64"
  by (auto simp: intake_ok_def validate_path_def bind_iff kMaxPathComponents_def)

definition run_facts :: "evaluation_inputs \<Rightarrow> resolution list \<Rightarrow> verdict \<Rightarrow> contract_decision \<Rightarrow> bool" where
  "run_facts inp rs v d \<longleftrightarrow> resolve_all inp = Some rs \<and> rs \<noteq> [] \<and>
     list_all2 (\<lambda>item a. \<exists>u o'. assess_item (make_ctx inp rs) item = Some (a, u, o'))
       (build_plan (in_klass inp) (in_policy inp)) (cd_obligations d) \<and>
     cd_outcome d = statuses_outcome (cd_obligations d) (fst v) \<and>
     fst (entry_verdict inp rs) \<le> fst v \<and>
     ((\<exists>item \<in> set (build_plan (in_klass inp) (in_policy inp)). \<exists>a u. assess_item (make_ctx inp rs) item = Some (a, u, True)) \<longrightarrow> fst v = O_Rejected) \<and>
     ((\<forall>item \<in> set (build_plan (in_klass inp) (in_policy inp)). \<forall>a u. assess_item (make_ctx inp rs) item \<noteq> Some (a, u, True)) \<longrightarrow> v = entry_verdict inp rs)"

lemma evaluate_run:
  assumes "evaluate inp = Some (Inr d)" and "intake_ok inp"
  shows "\<exists>rs v. run_facts inp rs v d"
  by (rule evaluate_facts [OF assms]) (unfold run_facts_def, blast)

text \<open>The status of every component of a path whose isolation is assessed as met or relaxed.\<close>

lemma isolation_alive:
  assumes v: "validate_class (in_klass inp) = Inr ()" "validate_policy (in_policy inp) = Inr ()"
    and all: "list_all2 (\<lambda>item a. \<exists>u o'. assess_item (make_ctx inp rs) item = Some (a, u, o'))
      (build_plan (in_klass inp) (in_policy inp)) as"
    and pos: "\<forall>a \<in> set as. status_outcome (oa_status a) \<le> O_SupportedDegraded"
  shows "list_all alive rs"
proof (rule ccontr)
  assume na: "\<not> list_all alive rs"
  let ?item = "plan_item K_Isolation (ucast (iso_rank (qc_isolation (in_klass inp))))"
  obtain a u o' where a: "a \<in> set as" "assess_item (make_ctx inp rs) ?item = Some (a, u, o')"
    using all2_pick(1) [OF all structural_items(1) [OF v]] by blast
  then obtain s where s: "scan_components (make_ctx inp rs) ?item = Some s"
    and av: "assess_values (make_ctx inp rs) s (blank_assessment ?item) = Some (a, o')"
    by (auto simp: assess_item_def bind_eq_Some_conv)
  note ok = scan_components_ok [OF s]
  obtain b where b: "blame_scan rs s (blank_assessment ?item) = Some b"
    using blame_scan_total [OF ok] by fastforce
  note c = blame_scan_cases [OF ok, simplified, OF b]
  from c na obtain a' where a': "b = Some a'" by (cases b) auto
  with b av have "a = a'" by (simp add: assess_values_def)
  moreover have "oa_status a' \<in> {OS_Stale, OS_Unavailable, OS_Unknown}" using c a' by auto
  ultimately have "\<not> status_outcome (oa_status a) \<le> O_SupportedDegraded" by auto
  with pos a(1) show False by blast
qed

lemma evaluate_rejectedD:
  "evaluate inp = Some (Inr d) \<Longrightarrow> \<not> intake_ok inp \<Longrightarrow> d = rejected_decision inp (snd (intake inp))"
  by (simp add: evaluate_rejected)

lemma supported_iff:
  assumes e: "evaluate inp = Some (Inr d)"
  shows "cd_outcome d = O_Supported \<longleftrightarrow>
    intake_ok inp \<and> conflict_free inp \<and> current inp \<and>
    (\<forall>item \<in> set (build_plan (in_klass inp) (in_policy inp)). item_met (make_ctx inp (the (resolve_all inp))) item)"
proof (cases "intake_ok inp")
  case False
  then have "cd_outcome d = O_Rejected" by (simp add: evaluate_rejectedD [OF e])
  with False show ?thesis by simp
next
  case True
  from evaluate_run [OF e True] obtain rs v where rf: "run_facts inp rs v d" by blast
  then have f: "resolve_all inp = Some rs" "rs \<noteq> []"
    "list_all2 (\<lambda>item a. \<exists>u o'. assess_item (make_ctx inp rs) item = Some (a, u, o'))
      (build_plan (in_klass inp) (in_policy inp)) (cd_obligations d)"
    "cd_outcome d = statuses_outcome (cd_obligations d) (fst v)"
    "fst (entry_verdict inp rs) \<le> fst v"
    "(\<forall>item \<in> set (build_plan (in_klass inp) (in_policy inp)). \<forall>a u. assess_item (make_ctx inp rs) item \<noteq> Some (a, u, True)) \<longrightarrow> v = entry_verdict inp rs"
    by (simp_all add: run_facts_def)
  let ?ctx = "make_ctx inp rs" and ?plan = "build_plan (in_klass inp) (in_policy inp)"
  have v: "validate_class (in_klass inp) = Inr ()" "validate_policy (in_policy inp) = Inr ()"
    using True by (simp_all add: intake_ok_def)
  have len: "length (ec_resolutions ?ctx) < 2 ^ 64"
    using path_size [OF True] resolve_all_nth(1) [OF f(1)] by simp
  have coh: "coherent (ec_resolutions ?ctx)" using resolve_all_coherent [OF f(1)] by simp
  have st: "(oa_status a = OS_Satisfied \<longleftrightarrow> item_met ?ctx item) \<and> (o' \<longrightarrow> oa_status a = OS_Unknown)"
    if "assess_item ?ctx item = Some (a, u, o')" for item a u o'
    by (rule assess_item_status [OF _ len coh that]) (simp add: f(2))
  have na: "oa_status a \<noteq> OS_NotApplicable" if "a \<in> set (cd_obligations d)" for a
    using all2_pick(2) [OF f(3) that] assess_item_na by blast
  have met: "(\<forall>a \<in> set (cd_obligations d). oa_status a = OS_Satisfied) \<longleftrightarrow> (\<forall>item \<in> set ?plan. item_met ?ctx item)"
    using all2_pick [OF f(3)] st by metis
  show ?thesis
  proof
    assume s: "cd_outcome d = O_Supported"
    have le: "x = O_Supported" if "x \<le> O_Supported" for x using that by (simp add: antisym)
    have sat: "\<forall>a \<in> set (cd_obligations d). oa_status a = OS_Satisfied"
      using statuses_outcome_ge(2) [of _ "cd_obligations d" "fst v"] s f(4) le status_outcome_supported na
      by metis
    have "fst v = O_Supported" using statuses_outcome_ge(1) [of "fst v" "cd_obligations d"] s f(4) le by simp
    then have "fst (entry_verdict inp rs) = O_Supported" using f(5) le by simp
    with sat met True f(1) show "intake_ok inp \<and> conflict_free inp \<and> current inp \<and>
        (\<forall>item \<in> set ?plan. item_met (make_ctx inp (the (resolve_all inp))) item)"
      by (simp add: entry_verdict_supported)
  next
    assume r: "intake_ok inp \<and> conflict_free inp \<and> current inp \<and>
        (\<forall>item \<in> set ?plan. item_met (make_ctx inp (the (resolve_all inp))) item)"
    then have m: "\<forall>item \<in> set ?plan. item_met ?ctx item" using f(1) by simp
    then have sat: "\<forall>a \<in> set (cd_obligations d). oa_status a = OS_Satisfied" using met by blast
    then have al: "list_all alive rs" by (intro isolation_alive [OF v f(3)]) simp
    have "\<not> rv_domain_contradiction r" if rr: "r \<in> set rs" for r
    proof -
      obtain i where i: "i < length rs" "rs ! i = r" using rr by (auto simp: in_set_conv_nth)
      have "alive r" using al rr by (simp add: list_all_iff)
      with resolve_all_nth(2) [OF f(1) i(1)] i(2) show ?thesis
        by (simp add: resolution_ok_def alive_def) (elim conjE disjE; simp)
    qed
    then have "fst (entry_verdict inp rs) = O_Supported" using r by (simp add: entry_verdict_supported)
    moreover have "v = entry_verdict inp rs"
      using f(6) m st by (metis obligation_status.distinct(5))
    ultimately have "fst v = O_Supported" by simp
    with statuses_outcome_source [of "cd_obligations d" "fst v"] sat f(4) show "cd_outcome d = O_Supported" by auto
  qed
qed

lemma conclude_unknown: "cd_unknown_components (conclude inp rs d v) = count_unknown rs"
  by (simp add: conclude_def seal_decision_def Let_def split: prod.split option.split)

lemma evaluate_unknown:
  assumes "evaluate inp = Some (Inr d)" and "intake_ok inp" and "resolve_all inp = Some rs"
  shows "cd_unknown_components d = count_unknown rs"
  by (rule evaluate_accepted [OF assms(2)]) (use assms(1,3) conclude_unknown in auto)

lemma count_unknown_none:
  assumes "list_all alive rs" shows "count_unknown rs = 0"
proof -
  have "fold (\<lambda>r n. if rv_status r = CStat_Unknown then n + 1 else n) rs k = k" for k :: u32
    using assms by (induction rs) (auto simp: alive_def)
  then show ?thesis by (simp add: count_unknown_def)
qed

lemma positive_resolutions:
  assumes e: "evaluate inp = Some (Inr d)" and p: "is_positive (cd_outcome d)"
  obtains rs where "intake_ok inp" "resolve_all inp = Some rs" "list_all alive rs"
proof -
  have ok: "intake_ok inp"
  proof (rule ccontr)
    assume "\<not> intake_ok inp"
    then have "cd_outcome d = O_Rejected" by (simp add: evaluate_rejectedD [OF e])
    with p show False by (simp add: is_positive_iff)
  qed
  from evaluate_run [OF e ok] obtain rs v where rf: "run_facts inp rs v d" by blast
  then have f: "resolve_all inp = Some rs"
    "list_all2 (\<lambda>item a. \<exists>u o'. assess_item (make_ctx inp rs) item = Some (a, u, o'))
      (build_plan (in_klass inp) (in_policy inp)) (cd_obligations d)"
    "cd_outcome d = statuses_outcome (cd_obligations d) (fst v)"
    by (simp_all add: run_facts_def)
  have "list_all alive rs"
    using ok p statuses_outcome_ge(2) [of _ "cd_obligations d" "fst v"] f(3)
    by (intro isolation_alive [OF _ _ f(2)]) (auto simp: intake_ok_def is_positive_iff intro: order_trans)
  with ok f(1) show thesis by (rule that)
qed

lemma positive_alive:
  assumes "evaluate inp = Some (Inr d)" and "is_positive (cd_outcome d)"
    and "i < length (pa_components (in_path inp))"
  shows "\<exists>cap. in_capabilities inp ! i = Some cap \<and> usable inp (pa_components (in_path inp) ! i) cap"
proof (rule positive_resolutions [OF assms(1,2)])
  fix rs assume r: "resolve_all inp = Some rs" "list_all alive rs"
  with resolve_all_nth(1) [OF r(1)] resolve_all_nth(2) [OF r(1), of i] assms(3) show ?thesis
    by (auto simp: resolution_ok_def alive_def list_all_length)
qed

lemma positive_none_unknown:
  assumes "evaluate inp = Some (Inr d)" and "is_positive (cd_outcome d)"
  shows "cd_unknown_components d = 0"
  by (rule positive_resolutions [OF assms]) (simp add: evaluate_unknown [OF assms(1)] count_unknown_none)

lemma outcome_ge_conflict:
  assumes e: "evaluate inp = Some (Inr d)" and c: "\<not> conflict_free inp"
  shows "O_Conflict \<le> cd_outcome d"
proof (cases "intake_ok inp")
  case False
  then have "cd_outcome d = O_Rejected" by (simp add: evaluate_rejectedD [OF e])
  then show ?thesis by simp
next
  case True
  from evaluate_run [OF e True] obtain rs v where rf: "run_facts inp rs v d" by blast
  then have f: "cd_outcome d = statuses_outcome (cd_obligations d) (fst v)"
    "fst (entry_verdict inp rs) \<le> fst v"
    by (simp_all add: run_facts_def)
  obtain g where g: "g \<in> set (conflict_findings inp)" "fst g" using c by (auto simp: conflict_free_iff)
  let ?v1 = "apply_findings (conflict_findings inp) (O_Supported, [])"
  have "O_Conflict \<le> fst ?v1"
    using findings_fire [OF g, of "(O_Supported, [])"] findings_out(1) [OF g(1)] by simp
  also have "\<dots> \<le> fst (entry_verdict inp rs)"
    unfolding entry_verdict_def by (rule order_trans [OF findings_ge findings_ge])
  also note f(2)
  also have "fst v \<le> cd_outcome d" unfolding f(1) by (rule statuses_outcome_ge(1))
  finally show ?thesis .
qed

section \<open>Degradation only by permission\<close>

text \<open>What a relaxed composed obligation satisfies.\<close>

definition window_met :: "eval_ctx \<Rightarrow> obligation_assessment \<Rightarrow> bool" where
  "window_met ctx a \<longleftrightarrow>
     (\<exists>v product. oa_composed_value a = Some v \<and>
        checked_mul (oa_required_value a) (ucast (ec_window_ppm ctx)) = Some product \<and>
        (if oa_relaxation_reported_only a then ec_report_only ctx
         else meets (oa_direction a) v (relaxed_limit (oa_direction a) (oa_required_value a) (product div kPpm))))"

lemma assess_shortfall_degraded:
  assumes "oa_status (assess_shortfall ctx a v) = OS_Degraded" "oa_composed_value a = Some v"
    "\<not> oa_relaxation_reported_only a"
  shows "ec_permitted ctx \<and> oa_relaxable a \<and> window_met ctx (assess_shortfall ctx a v)"
  using assms
  by (auto simp: assess_shortfall_def window_met_def Let_def split: if_splits option.splits)

lemma assess_composed_degraded:
  assumes "oa_status (assess_composed ctx a v) = OS_Degraded" "oa_composed_value a = Some v"
    "\<not> oa_relaxation_reported_only a"
  shows "ec_permitted ctx \<and> oa_relaxable a \<and> window_met ctx (assess_composed ctx a v)"
proof -
  have "\<not> meets (oa_direction a) v (oa_required_value a)"
    using assms(1) by (auto simp: assess_composed_def)
  then have "assess_composed ctx a v = assess_shortfall ctx a v" by (simp add: assess_composed_def)
  with assess_shortfall_degraded assms show ?thesis by simp
qed

lemma shortfall_frame [simp]:
  "oa_kind (assess_shortfall ctx a v) = oa_kind a" "oa_id (assess_shortfall ctx a v) = oa_id a"
  "oa_required_value (assess_shortfall ctx a v) = oa_required_value a"
  "oa_direction (assess_shortfall ctx a v) = oa_direction a"
  by (auto simp: assess_shortfall_def Let_def split: option.splits)

lemma composed_frame [simp]:
  "oa_kind (assess_composed ctx a v) = oa_kind a" "oa_id (assess_composed ctx a v) = oa_id a"
  "oa_required_value (assess_composed ctx a v) = oa_required_value a"
  "oa_direction (assess_composed ctx a v) = oa_direction a"
  by (auto simp: assess_composed_def)

lemma blame_frame [simp]:
  "oa_id (blame a st r t) = oa_id a" "oa_required_value (blame a st r t) = oa_required_value a"
  "oa_direction (blame a st r t) = oa_direction a"
  by (simp_all add: blame_def)

definition same_item :: "obligation_assessment \<Rightarrow> obligation_assessment \<Rightarrow> bool" where
  "same_item a b \<longleftrightarrow> oa_kind a = oa_kind b \<and> oa_id a = oa_id b \<and>
     oa_required_value a = oa_required_value b \<and> oa_direction a = oa_direction b"

lemma assess_values_degraded:
  assumes a: "assess_values ctx s b = Some (a, over)" and ok: "scan_ok ctx item (ec_resolutions ctx) s"
    and nb: "\<not> oa_relaxation_reported_only b"
  shows "same_item a b \<and> (oa_status a = OS_Degraded \<longrightarrow> ec_permitted ctx \<and> oa_relaxable b \<and> window_met ctx a)"
proof -
  obtain c where c: "blame_scan (ec_resolutions ctx) s b = Some c" using blame_scan_total [OF ok] by blast
  show ?thesis
  proof (cases c)
    case (Some x)
    then obtain st r t where x: "x = blame b st r t" "st \<noteq> OS_Degraded" using blame_scan_cases [OF ok c] by auto
    have "a = x" using Some c a by (simp add: assess_values_def)
    with x show ?thesis by (simp add: same_item_def)
  next
    case None
    show ?thesis
    proof (cases "first_absent 0 (sc_values s)")
      case (Some p)
      with None c a show ?thesis by (cases p) (auto simp: assess_values_def same_item_def)
    next
      case n: None
      let ?c = "compose_values (obligation_aggregate (oa_kind b)) (sc_values s)
        (overhead_of (in_path (ec_inputs ctx)) (oa_kind b))"
      show ?thesis
      proof (cases "co_overflow ?c \<or> co_value ?c = None")
        case True
        with None n c a show ?thesis by (auto simp: assess_values_def Let_def same_item_def split: if_splits option.splits)
      next
        case False
        then obtain v where v: "co_value ?c = Some v" "\<not> co_overflow ?c" by auto
        with None n c a obtain rb rw where a':
          "a = assess_composed ctx (b\<lparr>oa_composed_value := Some v, oa_binding_resource := Some rb, oa_weakest_resource := Some rw\<rparr>) v"
          by (auto simp: assess_values_def Let_def bind_eq_Some_conv)
        let ?b = "b\<lparr>oa_composed_value := Some v, oa_binding_resource := Some rb, oa_weakest_resource := Some rw\<rparr>"
        have "same_item a b" by (simp add: a' same_item_def)
        moreover have "oa_status a = OS_Degraded \<longrightarrow> ec_permitted ctx \<and> oa_relaxable b \<and> window_met ctx a"
          using assess_composed_degraded [of ctx ?b v] nb by (auto simp: a')
        ultimately show ?thesis by blast
      qed
    qed
  qed
qed

lemma assess_state_degraded:
  assumes a: "assess_state ctx s b = Some a" and ok: "scan_ok ctx item (ec_resolutions ctx) s"
  shows "same_item a b \<and> (oa_status a = OS_Degraded \<longrightarrow> ec_permitted ctx)"
proof -
  let ?rs = "ec_resolutions ctx"
  obtain worst wi where l: "state_loop 0 (sc_values s) kStateAvailable 0 = (worst, wi)" by fastforce
  obtain owner where o: "(if ?rs = [] then Some None else map_option (\<lambda>r. Some (rv_resource r)) (at ?rs wi)) = Some owner"
    using a l by (cases "at ?rs wi") (auto simp: assess_state_def Let_def split: if_splits)
  let ?a = "b\<lparr>oa_binding_resource := owner, oa_weakest_resource := owner\<rparr>"
  obtain c where c: "blame_scan ?rs s ?a = Some c" using blame_scan_total [OF ok] by blast
  show ?thesis
  proof (cases c)
    case (Some x)
    then obtain st r t where "x = blame ?a st r t" "st \<noteq> OS_Degraded" using blame_scan_cases [OF ok c] by auto
    moreover have "a = x" using a l o c Some by (simp add: assess_state_def)
    ultimately show ?thesis by (simp add: same_item_def)
  next
    case None
    with a l o c show ?thesis
      by (auto simp: assess_state_def Let_def bind_eq_Some_conv same_item_def split: if_splits)
  qed
qed

lemma assess_short_diversity_degraded:
  "same_item (assess_short_diversity ctx b v u) b \<and>
   (oa_status (assess_short_diversity ctx b v u) = OS_Degraded \<longrightarrow> ec_permitted ctx)"
  by (auto simp: assess_short_diversity_def same_item_def Let_def)

lemma assess_item_degraded:
  assumes a: "assess_item ctx item = Some (a, u, over)"
  shows "same_item a (blank_assessment item) \<and>
    (oa_status a = OS_Degraded \<longrightarrow> ec_permitted ctx \<and> obligation_relaxable (pl_kind item) \<and>
       (pl_kind item \<notin> {K_DisjointPaths, K_ResourceState} \<longrightarrow> window_met ctx a))"
proof (cases "pl_kind item = K_DisjointPaths")
  case True
  with a obtain u' where d: "assess_diversity ctx item = Some (a, u')" by (auto simp: assess_item_def)
  obtain ds m where s: "diversity_scan ctx (ec_resolutions ctx) [] False = Some (ds, m)"
    using d by (auto simp: assess_diversity_def split: option.splits)
  let ?x = "word_of_nat (length ds) :: u64"
  let ?b = "(blank_assessment item)\<lparr>oa_composed_value := Some ?x\<rparr>"
  have x: "a = assess_short_diversity ctx ?b ?x m \<or> (oa_status a = OS_Satisfied \<and> same_item a (blank_assessment item))"
    using d s by (auto simp: assess_diversity_def Let_def same_item_def split: if_splits)
  have f: "same_item a ?b \<longleftrightarrow> same_item a (blank_assessment item)"
    by (simp add: same_item_def)
  from x assess_short_diversity_degraded [of ctx ?b ?x m] f True
  show ?thesis by auto
next
  case False
  with a obtain s where s: "scan_components ctx item = Some s"
    by (auto simp: assess_item_def bind_eq_Some_conv)
  note ok = scan_components_ok [OF s]
  show ?thesis
  proof (cases "pl_kind item = K_ResourceState")
    case True
    with a s False have "assess_state ctx s (blank_assessment item) = Some a"
      by (auto simp: assess_item_def)
    with assess_state_degraded [OF this ok] True show ?thesis by simp
  next
    case ns: False
    with a s False have "assess_values ctx s (blank_assessment item) = Some (a, over)"
      by (auto simp: assess_item_def)
    from assess_values_degraded [OF this ok] show ?thesis by simp
  qed
qed

text \<open>The permission and the window a class and a policy give.\<close>

definition permits_degradation :: "qos_class \<Rightarrow> policy \<Rightarrow> bool" where
  "permits_degradation klass pol \<longleftrightarrow> qc_allow_degrade klass \<and> po_degrade_permitted pol \<and>
     qc_violation_policy klass \<noteq> VP_Reject"

definition window_ppm :: "qos_class \<Rightarrow> policy \<Rightarrow> nat" where
  "window_ppm klass pol = min (unat (qc_degrade_max_relaxation_ppm klass)) (unat (po_max_relaxation_ppm pol))"

lemma make_ctx_permitted:
  "ec_permitted (make_ctx inp rs) \<longleftrightarrow> permits_degradation (in_klass inp) (in_policy inp)"
  "ec_permitted (make_ctx inp rs) \<Longrightarrow> unat (ec_window_ppm (make_ctx inp rs)) = window_ppm (in_klass inp) (in_policy inp)"
  "ec_report_only (make_ctx inp rs) \<Longrightarrow> qc_violation_policy (in_klass inp) = VP_ReportOnly"
  by (auto simp: make_ctx_def Let_def permits_degradation_def window_ppm_def min_def word_le_nat_alt)

text \<open>The relaxed limit over the naturals; the sum cannot wrap on validated requirements.\<close>

definition inside_window :: "compare_direction \<Rightarrow> nat \<Rightarrow> nat \<Rightarrow> nat \<Rightarrow> bool" where
  "inside_window dir required v ppm \<longleftrightarrow>
     (if dir = Dir_AtLeast then required - required * ppm div 1000000 \<le> v
      else v \<le> required + required * ppm div 1000000)"

lemma relaxed_limit_nat:
  fixes w :: u32
  assumes "checked_mul required (ucast w) = Some product" and "unat w \<le> 1000000"
    and "dir = Dir_AtMost \<Longrightarrow> unat required < 2 ^ 63"
  shows "meets dir v (relaxed_limit dir required (product div kPpm)) \<longleftrightarrow>
    inside_window dir (unat required) (unat v) (unat w)"
proof -
  have d: "unat (product div kPpm) = unat required * unat w div 1000000"
    using checked_mul_unat [OF assms(1)] by (simp add: unat_div)
  have "unat required * unat w div 1000000 \<le> unat required * 1000000 div 1000000"
    using assms(2) by (intro div_le_mono mult_le_mono) auto
  then have le: "unat required * unat w div 1000000 \<le> unat required" by simp
  show ?thesis
  proof (cases dir)
    case Dir_AtLeast
    have "min (product div kPpm) required = product div kPpm"
      using d le by (simp add: min_def word_le_nat_alt)
    then show ?thesis using Dir_AtLeast d le
      by (simp add: meets_def relaxed_limit_def inside_window_def word_le_nat_alt unat_sub)
  next
    case Dir_AtMost
    then have "unat required + unat (product div kPpm) < 2 ^ 64" using assms(3) d le by simp
    then have "unat (required + product div kPpm) = unat required + unat (product div kPpm)"
      by (simp add: unat_word_ariths)
    then show ?thesis using Dir_AtMost d
      by (simp add: meets_def relaxed_limit_def inside_window_def word_le_nat_alt)
  qed
qed

lemma plan_required_bound:
  assumes "validate_class klass = Inr ()" "item \<in> set (build_plan klass pol)"
    "obligation_direction (pl_kind item) = Dir_AtMost"
  shows "unat (pl_required item) < 2 ^ 63"
proof -
  have "item \<in> set (plan_items klass pol)" using assms(2) build_plan_subset by blast
  then consider v where "qc_max_latency_us klass = Some v" "pl_required item = v"
    | v where "qc_max_jitter_us klass = Some v" "pl_required item = v"
    | v where "qc_max_loss_ppm klass = Some v" "pl_required item = ucast v"
    | v where "qc_burst_interval_us klass = Some v" "pl_required item = v"
    using assms(3) by (auto simp: plan_items_def split: if_splits)
  then show ?thesis
    using assms(1)
    by cases (auto simp: validate_class_def bind_iff domain_defs word_less_nat_alt not_less
        dest: le_less_trans)
qed

section \<open>What SUPPORTED means for the evidence\<close>

lemma list_all2_map_Some:
  "length xs = length ys \<Longrightarrow> (\<And>i. i < length xs \<Longrightarrow> \<exists>y. ys ! i = Some y \<and> P (xs ! i) y) \<Longrightarrow>
   \<exists>zs. ys = map Some zs \<and> list_all2 P xs zs"
proof -
  assume l: "length xs = length ys" and p: "\<And>i. i < length xs \<Longrightarrow> \<exists>y. ys ! i = Some y \<and> P (xs ! i) y"
  have "ys = map Some (map the ys)"
    using l p by (auto intro!: nth_equalityI) (metis option.sel)
  moreover have "list_all2 P xs (map the ys)"
    using l p by (auto simp: list_all2_conv_all_nth) (metis option.sel)
  ultimately show ?thesis by blast
qed

lemma supported_evidence:
  assumes e: "evaluate inp = Some (Inr d)" and s: "cd_outcome d = O_Supported"
    and n: "length (merged_predicates (in_klass inp) (in_policy inp)) \<le> 113"
  obtains caps rs where "in_capabilities inp = map Some caps" "resolve_all inp = Some rs"
    "list_all2 (\<lambda>c cap. usable inp c cap \<and> ca_state cap = Cap_Available) (pa_components (in_path inp)) caps"
    "map rv_capability rs = map Some caps"
    "\<forall>item \<in> set (plan_items (in_klass inp) (in_policy inp)). item_met (make_ctx inp rs) item"
proof -
  have i: "intake_ok inp"
    and m: "\<forall>item \<in> set (build_plan (in_klass inp) (in_policy inp)). item_met (make_ctx inp (the (resolve_all inp))) item"
    using s supported_iff [OF e] by auto
  obtain rs where rs: "resolve_all inp = Some rs" using resolve_all_total [OF i] by blast
  have v: "validate_class (in_klass inp) = Inr ()" "validate_policy (in_policy inp) = Inr ()"
    using i by (simp_all add: intake_ok_def)
  have m': "\<forall>item \<in> set (plan_items (in_klass inp) (in_policy inp)). item_met (make_ctx inp rs) item"
    using m rs build_plan_set [OF v n] by simp
  have st: "\<forall>r \<in> set rs. rv_status r = CStat_Satisfied"
    using bspec [OF m' plan_items_ResourceState] by (simp add: item_met_def)
  have len: "length (in_capabilities inp) = length (pa_components (in_path inp))"
    using i by (simp add: intake_ok_def)
  note l = resolve_all_nth(1) [OF rs]
  have "\<exists>cap. in_capabilities inp ! k = Some cap \<and>
      (usable inp (pa_components (in_path inp) ! k) cap \<and> ca_state cap = Cap_Available)"
    if "k < length (pa_components (in_path inp))" for k
    using resolve_all_nth(2) [OF rs, of k] that l st by (auto simp: resolution_ok_def)
  from list_all2_map_Some [OF len [symmetric] this] obtain caps where c:
    "in_capabilities inp = map Some caps"
    "list_all2 (\<lambda>c cap. usable inp c cap \<and> ca_state cap = Cap_Available) (pa_components (in_path inp)) caps"
    by blast
  have "map rv_capability rs = map Some caps"
  proof (rule nth_equalityI)
    show "length (map rv_capability rs) = length (map Some caps)" using c l len by simp
    fix k assume "k < length (map rv_capability rs)"
    then show "map rv_capability rs ! k = map Some caps ! k"
      using resolve_all_nth(2) [OF rs, of k] c(1) l len by (simp add: resolution_ok_def)
  qed
  with that c rs m' show ?thesis by blast
qed

lemma item_met_values:
  assumes "item_met (make_ctx inp rs) item" "map rv_capability rs = map Some caps"
    and "pl_kind item \<notin> {K_DisjointPaths, K_ResourceState}"
    and f: "\<forall>r cap w. rv_capability r = Some cap \<longrightarrow> value_of (make_ctx inp rs) item r = Some w \<longrightarrow>
      rw_present w \<longrightarrow> f cap = Some (rw_value w)"
  shows "\<exists>vs. map f caps = map Some vs \<and>
    composed_meets (obligation_aggregate (pl_kind item)) (overhead_of (in_path inp) (pl_kind item)) vs (pl_required item)"
proof -
  from assms(1,3) obtain vs where vs:
    "list_all2 (\<lambda>r v. \<exists>w. value_of (make_ctx inp rs) item r = Some w \<and> rw_present w \<and> rw_value w = v) rs vs"
    "composed_meets (obligation_aggregate (pl_kind item)) (overhead_of (in_path inp) (pl_kind item)) vs (pl_required item)"
    by (auto simp: item_met_def)
  have len: "length caps = length rs" using assms(2) by (metis length_map)
  have c: "rv_capability (rs ! k) = Some (caps ! k)" if "k < length rs" for k
    using assms(2) that len by (metis nth_map)
  have "map f caps = map Some vs"
  proof (rule nth_equalityI)
    show "length (map f caps) = length (map Some vs)" using len vs(1) by (simp add: list_all2_lengthD)
    fix k assume "k < length (map f caps)"
    then have k: "k < length rs" using len by simp
    with vs(1) obtain w where "value_of (make_ctx inp rs) item (rs ! k) = Some w" "rw_present w" "rw_value w = vs ! k"
      by (auto simp: list_all2_conv_all_nth)
    with f [rule_format, OF c [OF k]] k vs(1) len show "map f caps ! k = map Some vs ! k"
      by (simp add: list_all2_lengthD)
  qed
  with vs(2) show ?thesis by blast
qed

lemma declared_present: "rw_present (declared x t) \<Longrightarrow> x = Some (rw_value (declared x t))"
  by (auto simp: declared_def split: option.splits)

section \<open>The degradation record\<close>

lemma take_snoc_append: "take n (take n (xs @ [x]) @ ys) = take n (xs @ x # ys)"
proof (induction n arbitrary: xs)
  case (Suc n)
  then show ?case by (cases xs) (auto simp: take_append)
qed simp

lemma fold_roll_up_degradations:
  "length (cd_degradations d) \<le> kMaxDegradations \<Longrightarrow>
   cd_degradations (fst (fold roll_up as (d, out))) =
     take kMaxDegradations (cd_degradations d @ map degradation_of (filter (\<lambda>a. oa_status a = OS_Degraded) as))"
proof (induction as arbitrary: d out)
  case Nil
  then show ?case by simp
next
  case (Cons a as)
  obtain d' o' where r: "roll_up a (d, out) = (d', o')" by (cases "roll_up a (d, out)")
  show ?case
  proof (cases "oa_status a = OS_Degraded")
    case False
    then have "cd_degradations d' = cd_degradations d"
      using r by (cases "oa_status a") (auto simp: roll_up_def)
    with Cons r False show ?thesis by simp
  next
    case True
    then have d: "cd_degradations d' = take kMaxDegradations (cd_degradations d @ [degradation_of a])"
      using r by (auto simp: roll_up_def push_degradation_def Let_def)
    have "length (cd_degradations d') \<le> kMaxDegradations" by (simp add: d)
    from Cons.IH [OF this, of o'] True r d show ?thesis
      by (simp add: take_snoc_append del: take_append)
  qed
qed

lemma conclude_degradations:
  assumes "length (cd_degradations d) \<le> kMaxDegradations"
  shows "cd_degradations (conclude inp rs d (out, reason)) =
    take kMaxDegradations (cd_degradations d @ map degradation_of (filter (\<lambda>a. oa_status a = OS_Degraded) (cd_obligations d)))"
proof -
  let ?d = "d\<lparr>cd_resources := map resource_of rs\<rparr>"
  obtain d' o' where r: "fold roll_up (cd_obligations d) (?d, out) = (d', o')"
    by (cases "fold roll_up (cd_obligations d) (?d, out)")
  with fold_roll_up_degradations [of ?d "cd_obligations d" out] assms
  have "cd_degradations d' = take kMaxDegradations (cd_degradations d @ map degradation_of (filter (\<lambda>a. oa_status a = OS_Degraded) (cd_obligations d)))"
    by simp
  then show ?thesis
    using r by (simp add: conclude_def seal_decision_def Let_def split: option.splits)
qed

section \<open>Positive verdicts\<close>

lemma entry_verdict_low:
  assumes "fst (entry_verdict inp rs) \<le> O_SupportedDegraded"
  shows "fst (entry_verdict inp rs) = O_Supported"
proof -
  let ?v1 = "apply_findings (conflict_findings inp) (O_Supported, [])"
  let ?v2 = "apply_findings (contradiction_findings rs) ?v1"
  have "fst ?v1 \<in> {O_Supported, O_Conflict}"
    using findings_source [of "conflict_findings inp" "(O_Supported, [])"] findings_out(1) [of _ inp] by force
  then have "fst ?v2 \<in> {O_Supported, O_Conflict}"
    using findings_source [of "contradiction_findings rs" ?v1] findings_out(2) [of _ rs] by force
  then have "fst (entry_verdict inp rs) \<in> {O_Supported, O_Conflict, O_Stale}"
    unfolding entry_verdict_def
    using findings_source [of "currency_findings inp" ?v2] findings_out(3) [of _ inp] by force
  with assms show ?thesis by (auto simp: less_eq_outcome_def word_le_nat_alt)
qed

lemma status_outcome_low:
  "status_outcome s \<le> O_SupportedDegraded \<longleftrightarrow> s \<in> {OS_Satisfied, OS_Degraded, OS_NotApplicable}"
  by (cases s) (simp_all add: less_eq_outcome_def word_le_nat_alt)

lemma outcome_low: "x \<le> O_SupportedDegraded \<longleftrightarrow> x \<in> {O_Supported, O_SupportedDegraded}"
  by (cases x) (simp_all add: less_eq_outcome_def word_le_nat_alt)

lemma assess_item_overflow:
  assumes "assess_item ctx item = Some (a, u, True)" shows "oa_status a = OS_Unknown"
  using assms
  by (auto simp: assess_item_def assess_values_def bind_eq_Some_conv Let_def split: if_splits option.splits)

lemma alive_no_contradiction:
  assumes "resolve_all inp = Some rs" "list_all alive rs" "r \<in> set rs"
  shows "\<not> rv_domain_contradiction r"
proof -
  obtain i where i: "i < length rs" "rs ! i = r" using assms(3) by (auto simp: in_set_conv_nth)
  have "alive r" using assms(2,3) by (simp add: list_all_iff)
  with resolve_all_nth(2) [OF assms(1) i(1)] i(2) show ?thesis
    by (simp add: resolution_ok_def alive_def) (elim conjE disjE; simp)
qed

lemma positive_iff:
  assumes e: "evaluate inp = Some (Inr d)"
  shows "is_positive (cd_outcome d) \<longleftrightarrow>
    intake_ok inp \<and> conflict_free inp \<and> current inp \<and>
    list_all (\<lambda>a. oa_status a \<in> {OS_Satisfied, OS_Degraded}) (cd_obligations d)"
proof (cases "intake_ok inp")
  case False
  then have "cd_outcome d = O_Rejected" by (simp add: evaluate_rejectedD [OF e])
  with False show ?thesis by (simp add: is_positive_def)
next
  case True
  from evaluate_run [OF e True] obtain rs v where rf: "run_facts inp rs v d" by blast
  let ?plan = "build_plan (in_klass inp) (in_policy inp)"
  from rf have f: "resolve_all inp = Some rs"
    "list_all2 (\<lambda>item a. \<exists>u o'. assess_item (make_ctx inp rs) item = Some (a, u, o')) ?plan (cd_obligations d)"
    "cd_outcome d = statuses_outcome (cd_obligations d) (fst v)" "fst (entry_verdict inp rs) \<le> fst v"
    and silent: "(\<forall>item \<in> set ?plan. \<forall>a u. assess_item (make_ctx inp rs) item \<noteq> Some (a, u, True)) \<longrightarrow> v = entry_verdict inp rs"
    unfolding run_facts_def by blast+
  have na: "oa_status a \<noteq> OS_NotApplicable" if "a \<in> set (cd_obligations d)" for a
    using all2_pick(2) [OF f(2) that] assess_item_na by blast
  have ge: "fst v \<le> cd_outcome d" "\<And>a. a \<in> set (cd_obligations d) \<Longrightarrow> status_outcome (oa_status a) \<le> cd_outcome d"
    using statuses_outcome_ge [of _ "cd_obligations d"] f(3) by auto
  show ?thesis
  proof
    assume "is_positive (cd_outcome d)"
    then have low: "cd_outcome d \<le> O_SupportedDegraded" by (simp add: is_positive_iff)
    have "fst (entry_verdict inp rs) = O_Supported"
      by (intro entry_verdict_low order_trans [OF f(4)] order_trans [OF ge(1) low])
    moreover have "oa_status a \<in> {OS_Satisfied, OS_Degraded}" if a: "a \<in> set (cd_obligations d)" for a
      using order_trans [OF ge(2) [OF a] low] na [OF a] by (auto simp: status_outcome_low)
    ultimately show "intake_ok inp \<and> conflict_free inp \<and> current inp \<and>
        list_all (\<lambda>a. oa_status a \<in> {OS_Satisfied, OS_Degraded}) (cd_obligations d)"
      using True by (simp add: entry_verdict_supported list_all_iff)
  next
    assume r: "intake_ok inp \<and> conflict_free inp \<and> current inp \<and>
        list_all (\<lambda>a. oa_status a \<in> {OS_Satisfied, OS_Degraded}) (cd_obligations d)"
    then have st: "\<forall>a \<in> set (cd_obligations d). oa_status a \<in> {OS_Satisfied, OS_Degraded}" by (simp add: list_all_iff)
    then have lo: "\<forall>a \<in> set (cd_obligations d). status_outcome (oa_status a) \<le> O_SupportedDegraded"
      by (auto simp: status_outcome_low)
    have al: "list_all alive rs" using True by (intro isolation_alive [OF _ _ f(2) lo]) (simp_all add: intake_ok_def)
    have "v = entry_verdict inp rs"
    proof (rule silent [THEN mp], intro ballI allI notI)
      fix item a u assume i: "item \<in> set ?plan" "assess_item (make_ctx inp rs) item = Some (a, u, True)"
      then have "a \<in> set (cd_obligations d)" using all2_pick(1) [OF f(2) i(1)] by force
      with st assess_item_overflow [OF i(2)] show False by force
    qed
    then have "fst v = O_Supported"
      using r alive_no_contradiction [OF f(1) al] by (simp add: entry_verdict_supported)
    with statuses_outcome_source [of "cd_obligations d" "fst v"] lo f(3) show "is_positive (cd_outcome d)"
      by (auto simp: is_positive_iff)
  qed
qed

section \<open>The degradation record of an evaluation\<close>

lemma assess_loop_degradations:
  "assess_loop ctx items d v = Some (d', v') \<Longrightarrow> cd_degradations d' = cd_degradations d"
  by (induction ctx items d v rule: assess_loop.induct) (auto simp: Let_def split: option.splits prod.splits)

lemma initial_degradations [simp]: "cd_degradations (initial_decision inp) = []"
  by (simp add: initial_decision_def Let_def)

lemma evaluate_degradations:
  assumes "evaluate inp = Some (Inr d)"
  shows "cd_degradations d = take kMaxDegradations (map degradation_of (filter (\<lambda>a. oa_status a = OS_Degraded) (cd_obligations d)))"
proof (cases "intake_ok inp")
  case False
  then show ?thesis by (simp add: evaluate_rejectedD [OF assms])
next
  case True
  from evaluate_accepted [OF True] obtain rs d0 v where r:
    "assess_loop (make_ctx inp rs) (build_plan (in_klass inp) (in_policy inp)) (initial_decision inp) (entry_verdict inp rs) = Some (d0, v)"
    "evaluate inp = Some (Inr (conclude inp rs d0 v))" by metis
  then have "cd_degradations d0 = []" using assess_loop_degradations by fastforce
  moreover obtain out reason where "v = (out, reason)" by (cases v)
  ultimately show ?thesis
    using conclude_degradations [of d0 inp rs out reason] conclude_fields(2) [of inp rs d0 out reason] r(2) assms by simp
qed

section \<open>Diversity and resource state\<close>

lemma diversity_degraded:
  assumes "assess_diversity ctx item = Some (a, u)" "length (ec_resolutions ctx) < 2 ^ 64" "oa_status a = OS_Degraded"
  shows "\<exists>v. oa_composed_value a = Some v \<and> unat v = diverse_domains ctx \<and>
    (if oa_relaxation_reported_only a then ec_report_only ctx
     else diversity_floor ctx (pl_required item) \<le> v \<and> v < pl_required item)"
proof -
  obtain ds m where s: "diversity_scan ctx (ec_resolutions ctx) [] False = Some (ds, m)"
    using assms(1) by (auto simp: assess_diversity_def split: option.splits)
  note c = diversity_scan_count [OF s]
  have w: "unat (word_of_nat (length ds) :: u64) = diverse_domains ctx"
    using c assms(2) by (simp add: unsigned_of_nat take_bit_nat_eq_self)
  show ?thesis
    using assms(1,3) s w
    by (auto simp: assess_diversity_def assess_short_diversity_def Let_def split: if_splits)
qed

lemma diversity_floor_window:
  assumes "diversity_floor ctx required \<le> v" and "v < required" and "unat (ec_window_ppm ctx) \<le> 1000000"
  shows "1 \<le> unat v \<and> inside_window Dir_AtLeast (unat required) (unat v) (unat (ec_window_ppm ctx))"
proof -
  let ?w = "ucast (ec_window_ppm ctx) :: u64"
  have one: "1 \<le> unat v" and le: "required - min ((case checked_mul required ?w of None \<Rightarrow> 0 | Some p \<Rightarrow> p) div kPpm) (required - 1) \<le> v"
    using assms(1) by (auto simp: diversity_floor_def Let_def word_le_nat_alt word_less_nat_alt split: if_splits)
  show ?thesis
  proof (cases "checked_mul required ?w")
    case None
    with le assms(2) show ?thesis by simp
  next
    case (Some p)
    have d: "unat (p div kPpm) = unat required * unat (ec_window_ppm ctx) div 1000000"
      using checked_mul_unat [OF Some] by (simp add: unat_div)
    have "1 \<le> required" using assms(2) by (auto simp: word_less_nat_alt word_le_nat_alt)
    then have "unat (required - 1) = unat required - 1" by (simp add: unat_sub)
    then have "min (p div kPpm) (required - 1) \<le> required" by (intro min.coboundedI2) (simp add: word_le_nat_alt)
    then have "unat (required - min (p div kPpm) (required - 1)) = unat required - unat (min (p div kPpm) (required - 1))"
      by (rule unat_sub)
    moreover have "unat (min (p div kPpm) (required - 1)) \<le> unat (p div kPpm)"
      by (simp add: min_def word_le_nat_alt)
    ultimately have "unat required - unat (p div kPpm) \<le> unat v"
      using le Some by (simp add: word_le_nat_alt)
    with one d show ?thesis by (simp add: inside_window_def)
  qed
qed

lemma state_degraded:
  assumes k: "pl_kind item = K_ResourceState" and ok: "scan_ok ctx item (ec_resolutions ctx) s"
    and coh: "coherent (ec_resolutions ctx)" and a: "assess_state ctx s (blank_assessment item) = Some a"
    and deg: "oa_status a = OS_Degraded"
  shows "list_all alive (ec_resolutions ctx) \<and> (\<exists>r \<in> set (ec_resolutions ctx). rv_status r = CStat_Degraded) \<and>
    \<not> oa_relaxation_reported_only a"
proof -
  let ?rs = "ec_resolutions ctx"
  obtain worst wi where l: "state_loop 0 (sc_values s) kStateAvailable 0 = (worst, wi)" by fastforce
  obtain owner where o: "(if ?rs = [] then Some None else map_option (\<lambda>r. Some (rv_resource r)) (at ?rs wi)) = Some owner"
    using a l by (cases "at ?rs wi") (auto simp: assess_state_def Let_def split: if_splits)
  let ?a = "(blank_assessment item)\<lparr>oa_binding_resource := owner, oa_weakest_resource := owner\<rparr>"
  obtain b where b: "blame_scan ?rs s ?a = Some b" using blame_scan_total [OF ok] by blast
  note cases = blame_scan_cases [OF ok b]
  have n: "b = None"
  proof (rule ccontr)
    assume "b \<noteq> None"
    then obtain a' where a': "b = Some a'" by blast
    then have "oa_status a' \<noteq> OS_Degraded" using cases by auto
    moreover have "a = a'" using a l o b a' by (simp add: assess_state_def)
    ultimately show False using deg by simp
  qed
  then have al: "list_all alive ?rs" using cases by blast
  have seen: "list_ex rv_self_declared_degraded (take (length (sc_values s)) ?rs)" and "\<not> oa_relaxation_reported_only a"
    using a l o b n deg by (auto simp: assess_state_def Let_def bind_eq_Some_conv split: if_splits)
  then obtain r where r: "r \<in> set ?rs" "rv_self_declared_degraded r" by (auto simp: list_ex_iff dest: in_set_takeD)
  then have "rv_status r = CStat_Degraded" using coh al by (auto simp: coherent_def list_all_iff)
  with r al \<open>\<not> oa_relaxation_reported_only a\<close> show ?thesis by blast
qed

lemma degraded_state:
  assumes r: "resolve_all inp = Some rs" and a: "assess_item (make_ctx inp rs) item = Some (a, u, over)"
    and k: "pl_kind item = K_ResourceState" and deg: "oa_status a = OS_Degraded"
    and len: "length (in_capabilities inp) = length (pa_components (in_path inp))"
  shows "list_all2 (\<lambda>c slot. \<exists>cap. slot = Some cap \<and> usable inp c cap) (pa_components (in_path inp)) (in_capabilities inp) \<and>
    (\<exists>cap. Some cap \<in> set (in_capabilities inp) \<and> ca_state cap = Cap_Degraded) \<and> \<not> oa_relaxation_reported_only a"
proof -
  let ?ctx = "make_ctx inp rs"
  obtain s where s: "scan_components ?ctx item = Some s" and st: "assess_state ?ctx s (blank_assessment item) = Some a"
    using a k by (auto simp: assess_item_def bind_eq_Some_conv)
  have "list_all alive rs \<and> (\<exists>q \<in> set rs. rv_status q = CStat_Degraded) \<and> \<not> oa_relaxation_reported_only a"
    using state_degraded [OF k scan_components_ok [OF s] _ st deg] resolve_all_coherent [OF r] by simp
  then obtain i where al: "list_all alive rs" "\<not> oa_relaxation_reported_only a" and i: "i < length rs" "rv_status (rs ! i) = CStat_Degraded"
    by (auto simp: in_set_conv_nth)
  note n = resolve_all_nth(1) [OF r] resolve_all_nth(2) [OF r]
  have "list_all2 (\<lambda>c slot. \<exists>cap. slot = Some cap \<and> usable inp c cap) (pa_components (in_path inp)) (in_capabilities inp)"
    using al(1) n len by (auto simp: list_all2_conv_all_nth list_all_length alive_def resolution_ok_def)
  moreover have "\<exists>cap. Some cap \<in> set (in_capabilities inp) \<and> ca_state cap = Cap_Degraded"
    using n(2) [OF i(1)] i n(1) len unfolding resolution_ok_def by (metis nth_mem)
  ultimately show ?thesis using al(2) by blast
qed

lemma degraded_diversity:
  assumes r: "resolve_all inp = Some rs" and a: "assess_item (make_ctx inp rs) item = Some (a, u, over)"
    and k: "pl_kind item = K_DisjointPaths" and deg: "oa_status a = OS_Degraded"
    and len: "length rs < 2 ^ 64" and w: "unat (ec_window_ppm (make_ctx inp rs)) \<le> 1000000"
  shows "\<exists>v. oa_composed_value a = Some v \<and> unat v = diverse_domains (make_ctx inp rs) \<and>
    (if oa_relaxation_reported_only a then ec_report_only (make_ctx inp rs)
     else 1 \<le> unat v \<and> inside_window Dir_AtLeast (unat (pl_required item)) (unat v) (unat (ec_window_ppm (make_ctx inp rs))))"
proof -
  obtain u' where d: "assess_diversity (make_ctx inp rs) item = Some (a, u')"
    using a k by (auto simp: assess_item_def)
  have "length (ec_resolutions (make_ctx inp rs)) < 2 ^ 64" using len by simp
  from diversity_degraded [OF d this deg] diversity_floor_window [OF _ _ w] show ?thesis by fastforce
qed

lemma window_ppm_bound:
  assumes "intake_ok inp"
  shows "window_ppm (in_klass inp) (in_policy inp) \<le> 1000000"
proof -
  have "validate_policy (in_policy inp) = Inr ()" using assms by (simp add: intake_ok_def)
  then have "\<not> kMaxRelaxationPpm < po_max_relaxation_ppm (in_policy inp)"
    by (simp add: validate_policy_def bind_iff)
  then have "unat (po_max_relaxation_ppm (in_policy inp)) \<le> 1000000"
    by (simp add: kMaxRelaxationPpm_def word_less_nat_alt)
  then show ?thesis by (simp add: window_ppm_def)
qed

lemma degraded_composed:
  assumes i: "intake_ok inp" and it: "item \<in> set (build_plan (in_klass inp) (in_policy inp))"
    and a: "assess_item (make_ctx inp rs) item = Some (a, u, over)" and deg: "oa_status a = OS_Degraded"
    and k: "pl_kind item \<notin> {K_DisjointPaths, K_ResourceState}"
    and wb: "unat (ec_window_ppm (make_ctx inp rs)) \<le> 1000000"
  shows "if oa_relaxation_reported_only a then qc_violation_policy (in_klass inp) = VP_ReportOnly
    else \<exists>v. oa_composed_value a = Some v \<and>
      inside_window (oa_direction a) (unat (oa_required_value a)) (unat v) (unat (ec_window_ppm (make_ctx inp rs)))"
proof (cases "oa_relaxation_reported_only a")
  case True
  then show ?thesis
    using assess_item_degraded [OF a] deg k by (auto simp: window_met_def intro: make_ctx_permitted(3))
next
  case False
  note D = assess_item_degraded [OF a]
  have s: "oa_required_value a = pl_required item" "oa_direction a = obligation_direction (pl_kind item)"
    using D by (simp_all add: same_item_def blank_assessment_def)
  from D deg k False obtain v product where v: "oa_composed_value a = Some v"
    "checked_mul (oa_required_value a) (ucast (ec_window_ppm (make_ctx inp rs))) = Some product"
    "meets (oa_direction a) v (relaxed_limit (oa_direction a) (oa_required_value a) (product div kPpm))"
    by (auto simp: window_met_def)
  have "oa_direction a = Dir_AtMost \<Longrightarrow> unat (oa_required_value a) < 2 ^ 63"
    using plan_required_bound [OF _ it] i s by (auto simp: intake_ok_def)
  from relaxed_limit_nat [OF v(2) wb this] v(1,3) False show ?thesis by auto
qed

end
