(* ===== verification/Samples.thy ===== *)
theory Samples
  imports Engine_Props
begin

text \<open>
  Concrete evaluation inputs on which the engine's theorems are exercised. Nothing here
  models code.
\<close>

section \<open>A sample contract\<close>

text \<open>
  One class asking for a minimum rate and a latency bound, a policy that permits a tenth of
  relaxation, a path of two components in different domains, and live evidence for both; the
  declared latency of the second component is the parameter.
\<close>

definition sample_class :: qos_class where
  "sample_class = \<lparr>qc_id = ''gold'', qc_generation = 1, qc_label = [],
     qc_min_rate_bps = Some 1000, qc_max_rate_bps = None, qc_peak_rate_bps = None,
     qc_max_latency_us = Some 500, qc_max_jitter_us = None, qc_max_loss_ppm = None,
     qc_burst_bytes = None, qc_burst_interval_us = None, qc_min_mtu_bytes = None,
     qc_isolation = Iso_Shared, qc_treatment = TM_BestEffort, qc_min_priority_rank = 0,
     qc_min_disjoint_paths = 1, qc_requires_reservation = False,
     qc_required_predicates = [''ecn''], qc_allow_degrade = True,
     qc_degrade_max_relaxation_ppm = 100000, qc_violation_policy = VP_DegradeThenReject,
     qc_published_epoch = 1, qc_digest = zero_digest, qc_provenance = empty_provenance\<rparr>"

definition sample_policy :: policy where
  "sample_policy = \<lparr>po_id = ''default'', po_generation = 1, po_label = [],
     po_degrade_permitted = True, po_max_relaxation_ppm = 200000, po_max_stale_epochs = 2,
     po_capability_max_age_ms = 60000, po_max_unknown_components = 0,
     po_required_predicates = [], po_denied_classes = [], po_published_epoch = 1,
     po_digest = zero_digest, po_provenance = empty_provenance\<rparr>"

definition sample_path :: path where
  "sample_path = \<lparr>pa_id = ''edge.core'', pa_generation = 1,
     pa_components =
       [\<lparr>pc_resource = ''edge'', pc_capability_generation = 1, pc_diversity_domain = ''east'', pc_role = PR_Primary\<rparr>,
        \<lparr>pc_resource = ''core'', pc_capability_generation = 1, pc_diversity_domain = ''west'', pc_role = PR_Member\<rparr>],
     pa_fixed_latency_us = 100, pa_fixed_jitter_us = 0, pa_epoch = 1, pa_digest = zero_digest,
     pa_provenance = empty_provenance\<rparr>"

definition sample_capability :: "string \<Rightarrow> string \<Rightarrow> u64 \<Rightarrow> resource_capability" where
  "sample_capability resource domain latency = \<lparr>ca_resource = resource, ca_generation = 1,
     ca_epoch = 4, ca_publisher = ''agent'', ca_incarnation = 1, ca_published_at_ms = 1000,
     ca_expires_at_ms = 90000, ca_state = Cap_Available, ca_supported_rate_bps = Some 5000,
     ca_latency_bound_us = Some latency, ca_jitter_bound_us = None, ca_loss_ppm = None,
     ca_max_burst_bytes = None, ca_burst_window_us = None, ca_mtu_bytes = None,
     ca_max_isolation = Iso_QueueIsolated, ca_max_treatment = TM_PriorityQueue,
     ca_max_priority_rank = 8, ca_predicates = [''ecn'', ''mpls''], ca_diversity_domain = domain,
     ca_digest = zero_digest, ca_provenance = empty_provenance\<rparr>"

definition sample_request :: contract_request where
  "sample_request = \<lparr>rq_contract = ''c1'', rq_contract_generation = 1, rq_subject = ''tenant'',
     rq_subject_generation = 1, rq_class_id = ''gold'', rq_class_generation = 0,
     rq_path = ''edge.core'', rq_path_generation = 0, rq_policy = ''default'',
     rq_policy_generation = 0, rq_priority = ''p1'', rq_priority_generation = 1,
     rq_observed_epoch = 5, rq_request_ms = 2000, rq_provenance = empty_provenance\<rparr>"

definition sample_inputs :: "u64 \<Rightarrow> evaluation_inputs" where
  "sample_inputs latency = \<lparr>in_request = sample_request, in_klass = sample_class,
     in_policy = sample_policy, in_path = sample_path,
     in_capabilities = [Some (sample_capability ''edge'' ''east'' 150),
       Some (sample_capability ''core'' ''west'' latency)],
     in_reservations = [],
     in_currency = \<lparr>cv_latest_class_generation = Some 1, cv_latest_policy_generation = Some 1,
       cv_latest_path_generation = None\<rparr>,
     in_conflicts = [], in_current_epoch = 5, in_now_ms = 3000, in_evaluator = []\<rparr>"

lemma sample_class_valid: "validate_class sample_class = Inr ()" by code_simp
lemma sample_policy_valid: "validate_policy sample_policy = Inr ()" by code_simp
lemma sample_path_valid: "validate_path sample_path = Inr ()" by code_simp
lemma sample_request_valid: "validate_request sample_request = Inr ()" by code_simp
lemma sample_intake: "intake_ok (sample_inputs latency)"
  by (simp add: intake_ok_def sample_inputs_def sample_class_valid sample_policy_valid sample_path_valid sample_request_valid)
    (simp add: sample_class_def sample_policy_def sample_path_def sample_request_def)
lemma sample_current: "conflict_free (sample_inputs latency)" "current (sample_inputs latency)"
  by (simp_all add: conflict_free_def current_def currency_findings_def superseded_def sample_inputs_def
      sample_policy_def sample_class_def sample_path_def sample_request_def)


definition sample_run :: "u64 \<Rightarrow> (obligation_status \<times> bool) list option" where
  "sample_run latency = (case resolve_all (sample_inputs latency) of None \<Rightarrow> None | Some rs \<Rightarrow>
     map_option (map (\<lambda>(a, u, over). (oa_status a, over)))
       (map_ub (assess_item (make_ctx (sample_inputs latency) rs)) (build_plan sample_class sample_policy)))"

lemma sample_plan: "build_plan sample_class sample_policy = take kMaxObligations (plan_items sample_class sample_policy)"
  by (rule build_plan_eq [OF sample_class_valid sample_policy_valid])

lemma sample_run_met: "sample_run 200 = Some (replicate 8 (OS_Satisfied, False))"
  unfolding sample_run_def sample_plan by code_simp

lemma sample_run_late: "sample_run 270 = Some ((OS_Satisfied, False) # (OS_Degraded, False) # replicate 6 (OS_Satisfied, False))"
  unfolding sample_run_def sample_plan by code_simp

lemma sample_run_obligations:
  assumes e: "evaluate (sample_inputs latency) = Some (Inr d)" and s: "sample_run latency = Some ss"
  shows "map oa_status (cd_obligations d) = map fst ss"
proof -
  let ?i = "sample_inputs latency"
  from evaluate_run [OF e sample_intake] obtain rs v where r: "run_facts ?i rs v d" by blast
  from s r obtain ts where t: "map_ub (assess_item (make_ctx ?i rs)) (build_plan sample_class sample_policy) = Some ts"
    "ss = map (\<lambda>(a, u, over). (oa_status a, over)) ts"
    by (auto simp: sample_run_def run_facts_def)
  have k: "in_klass ?i = sample_class" "in_policy ?i = sample_policy" by (simp_all add: sample_inputs_def)
  have a: "list_all2 (\<lambda>item a. \<exists>u o'. assess_item (make_ctx ?i rs) item = Some (a, u, o'))
      (build_plan sample_class sample_policy) (cd_obligations d)"
    using r k by (simp add: run_facts_def)
  show ?thesis
  proof (rule nth_equalityI)
    show l: "length (map oa_status (cd_obligations d)) = length (map fst ss)"
      using list_all2_lengthD [OF a] map_ub_length [OF t(1)] by (simp add: t(2))
    fix n assume "n < length (map oa_status (cd_obligations d))"
    with l a map_ub_Some [OF t(1)] show "map oa_status (cd_obligations d) ! n = map fst ss ! n"
      by (auto simp: t(2) list_all2_conv_all_nth split: prod.splits)
  qed
qed

text \<open>The outcome is the worst status of the run; the sample has no other finding.\<close>

lemma sample_outcome:
  assumes e: "evaluate (sample_inputs latency) = Some (Inr d)" and s: "sample_run latency = Some ss"
    and n: "list_all (\<lambda>x. \<not> snd x) ss"
    and c: "list_all (\<lambda>r. \<not> rv_domain_contradiction r) (the (resolve_all (sample_inputs latency)))"
  shows "cd_outcome d = statuses_outcome (cd_obligations d) O_Supported"
proof -
  let ?i = "sample_inputs latency"
  from evaluate_run [OF e sample_intake] obtain rs v where r: "run_facts ?i rs v d" by blast
  from s r obtain ts where t: "map_ub (assess_item (make_ctx ?i rs)) (build_plan sample_class sample_policy) = Some ts"
    "ss = map (\<lambda>(a, u, over). (oa_status a, over)) ts"
    by (auto simp: sample_run_def run_facts_def)
  have k: "in_klass ?i = sample_class" "in_policy ?i = sample_policy" by (simp_all add: sample_inputs_def)
  have "\<forall>item \<in> set (build_plan sample_class sample_policy). \<forall>a u. assess_item (make_ctx ?i rs) item \<noteq> Some (a, u, True)"
  proof (intro ballI allI notI)
    fix item a u
    assume i: "item \<in> set (build_plan sample_class sample_policy)" "assess_item (make_ctx ?i rs) item = Some (a, u, True)"
    then obtain n where "n < length (build_plan sample_class sample_policy)" "build_plan sample_class sample_policy ! n = item"
      by (auto simp: in_set_conv_nth)
    with map_ub_nth [OF t(1)] i(2) map_ub_length [OF t(1)] have "(a, u, True) \<in> set ts"
      by (metis nth_mem option.inject)
    with n show False by (force simp: t(2) list_all_iff)
  qed
  then have "v = entry_verdict ?i rs" and o: "cd_outcome d = statuses_outcome (cd_obligations d) (fst v)"
    using r k by (auto simp: run_facts_def)
  moreover have "fst (entry_verdict ?i rs) = O_Supported"
    using c r by (simp add: entry_verdict_supported sample_current run_facts_def list_all_iff)
  ultimately show ?thesis by simp
qed

lemma statuses_outcome_map:
  "statuses_outcome as out = fold (\<lambda>s o'. max o' (status_outcome s)) (map oa_status as) out"
  by (simp add: statuses_outcome_def fold_map comp_def)

lemma sample_supported:
  assumes "evaluate (sample_inputs 200) = Some (Inr d)"
  shows "cd_outcome d = O_Supported"
proof -
  have c: "list_all (\<lambda>r. \<not> rv_domain_contradiction r) (the (resolve_all (sample_inputs 200)))" by code_simp
  show ?thesis
    using sample_outcome [OF assms sample_run_met _ c]
    unfolding statuses_outcome_map sample_run_obligations [OF assms sample_run_met]
    by (simp add: eval_nat_numeral)
qed

lemma sample_degraded:
  assumes "evaluate (sample_inputs 270) = Some (Inr d)"
  shows "cd_outcome d = O_SupportedDegraded"
proof -
  have c: "list_all (\<lambda>r. \<not> rv_domain_contradiction r) (the (resolve_all (sample_inputs 270)))" by code_simp
  have "max O_Supported O_SupportedDegraded = O_SupportedDegraded" "max O_SupportedDegraded O_Supported = O_SupportedDegraded"
    by code_simp+
  then show ?thesis
    using sample_outcome [OF assms sample_run_late _ c]
    unfolding statuses_outcome_map sample_run_obligations [OF assms sample_run_late]
    by (simp add: eval_nat_numeral)
qed

end
