(* ===== verification/Engine_Claims.thy ===== *)
theory Engine_Claims imports Samples Complex_Main begin

text \<open>
  What \<open>evaluate\<close> of \<open>src/engine.cpp\<close> promises: the properties of the engine, each with a
  witness on a concrete input where it has a hypothesis.
\<close>

section \<open>The verdict\<close>

text \<open>
  C4: evaluation always returns a decision (it never dereferences a missing capability and
  never indexes out of range), and the verdict is SUPPORTED exactly when the inputs pass
  intake, no conflict applies, no authority is superseded and every obligation of the plan is
  met by the evidence.
\<close>

theorem supported_exactly:
  "\<exists>d. evaluate inp = Some (Inr d) \<and>
     (cd_outcome d = O_Supported \<longleftrightarrow>
        intake_ok inp \<and> conflict_free inp \<and> current inp \<and>
        list_all (item_met (make_ctx inp (the (resolve_all inp)))) (build_plan (in_klass inp) (in_policy inp)))"
proof -
  obtain d where "evaluate inp = Some (Inr d)" using evaluate_always_returns by blast
  with supported_iff [OF this] show ?thesis by (auto simp: list_all_iff)
qed

text \<open>
  C5: what SUPPORTED means for the evidence, in the arithmetic of the naturals: every component
  has live, available evidence of the required isolation that declares every required predicate
  of class and policy; the declared latencies, summed with the path's fixed latency, meet the
  class bound; every component declares at least the required rate. (The plan must not be
  truncated: at most 113 distinct predicates.)
\<close>

theorem supported_meaning:
  assumes "evaluate inp = Some (Inr d)" and "cd_outcome d = O_Supported"
    and "length (merged_predicates (in_klass inp) (in_policy inp)) \<le> 113"
  shows "\<exists>caps. in_capabilities inp = map Some caps \<and>
    list_all2 (\<lambda>c cap. usable inp c cap \<and> ca_state cap = Cap_Available) (pa_components (in_path inp)) caps \<and>
    list_all (\<lambda>cap. qc_isolation (in_klass inp) \<le> ca_max_isolation cap \<and>
      list_all (\<lambda>k. k \<in> set (ca_predicates cap)) (merged_predicates (in_klass inp) (in_policy inp))) caps \<and>
    (case qc_max_latency_us (in_klass inp) of None \<Rightarrow> True
     | Some bound \<Rightarrow> \<exists>ls. map ca_latency_bound_us caps = map Some ls \<and>
         unat (pa_fixed_latency_us (in_path inp)) + nat_sum ls \<le> unat bound) \<and>
    (case qc_min_rate_bps (in_klass inp) of None \<Rightarrow> True
     | Some rate \<Rightarrow> list_all (\<lambda>cap. case ca_supported_rate_bps cap of None \<Rightarrow> False | Some v \<Rightarrow> rate \<le> v) caps)"
proof -
  obtain caps rs where c:
    "in_capabilities inp = map Some caps" "resolve_all inp = Some rs"
    "list_all2 (\<lambda>c cap. usable inp c cap \<and> ca_state cap = Cap_Available) (pa_components (in_path inp)) caps"
    "map rv_capability rs = map Some caps"
    and met: "\<And>item. item \<in> set (plan_items (in_klass inp) (in_policy inp)) \<Longrightarrow> item_met (make_ctx inp rs) item"
    by (rule supported_evidence [OF assms]) blast
  note vals = item_met_values [OF met c(4)]
  let ?k = "in_klass inp" and ?p = "in_policy inp"
  have iso: "list_all (\<lambda>cap. qc_isolation ?k \<le> ca_max_isolation cap) caps"
  proof -
    let ?item = "plan_item K_Isolation (ucast (iso_rank (qc_isolation ?k)))"
    have f: "\<forall>r cap w. rv_capability r = Some cap \<longrightarrow> value_of (make_ctx inp rs) ?item r = Some w \<longrightarrow>
        rw_present w \<longrightarrow> Some (ucast (iso_rank (ca_max_isolation cap)) :: u64) = Some (rw_value w)"
      by (auto simp: value_of_def component_value_def present_def)
    have "\<exists>vs. map (\<lambda>cap. Some (ucast (iso_rank (ca_max_isolation cap)) :: u64)) caps = map Some vs \<and>
        (\<forall>v \<in> set vs. ucast (iso_rank (qc_isolation ?k)) \<le> v)"
      using vals [of ?item "\<lambda>cap. Some (ucast (iso_rank (ca_max_isolation cap)))", OF _ _ f]
      by (simp add: plan_items_def)
    then obtain vs where vs: "map (\<lambda>cap. Some (ucast (iso_rank (ca_max_isolation cap)) :: u64)) caps = map Some vs"
        "\<forall>v \<in> set vs. ucast (iso_rank (qc_isolation ?k)) \<le> v" by blast
    have "ucast (iso_rank (qc_isolation ?k)) \<le> (ucast (iso_rank (ca_max_isolation cap)) :: u64)" if "cap \<in> set caps" for cap
    proof -
      have "Some (ucast (iso_rank (ca_max_isolation cap)) :: u64) \<in> set (map Some vs)"
        using that unfolding vs(1) [symmetric] by auto
      with vs(2) show ?thesis by auto
    qed
    moreover have "(ucast (iso_rank a) :: u64) \<le> ucast (iso_rank b) \<longleftrightarrow> a \<le> b" for a b
      by (cases a; cases b) (simp_all add: less_eq_isolation_level_def word_le_nat_alt)
    ultimately show ?thesis by (auto simp: list_all_iff)
  qed
  have pred: "k \<in> set (ca_predicates cap)"
    if "k \<in> set (merged_predicates ?k ?p)" "cap \<in> set caps" for k cap
  proof -
    let ?item = "plan_predicate k"
    have f: "\<forall>r cap w. rv_capability r = Some cap \<longrightarrow> value_of (make_ctx inp rs) ?item r = Some w \<longrightarrow>
        rw_present w \<longrightarrow> (if k \<in> set (ca_predicates cap) then Some (1 :: u64) else None) = Some (rw_value w)"
      by (auto simp: value_of_def component_value_def present_def absent_def plan_predicate_def)
    have "?item \<in> set (plan_items ?k ?p)" using that(1) by (simp add: plan_items_def)
    then obtain vs where vs: "map (\<lambda>cap. if k \<in> set (ca_predicates cap) then Some (1 :: u64) else None) caps = map Some vs"
      using vals [of ?item "\<lambda>cap. if k \<in> set (ca_predicates cap) then Some 1 else None", OF _ _ f]
      by (auto simp: plan_predicate_def)
    have "(if k \<in> set (ca_predicates cap) then Some (1 :: u64) else None) \<in> set (map Some vs)"
      using that(2) unfolding vs [symmetric] by auto
    then show ?thesis by (auto split: if_splits)
  qed
  have lat: "\<exists>ls. map ca_latency_bound_us caps = map Some ls \<and>
      unat (pa_fixed_latency_us (in_path inp)) + nat_sum ls \<le> unat bound"
    if "qc_max_latency_us ?k = Some bound" for bound
  proof -
    let ?item = "plan_item K_Latency bound"
    have f: "\<forall>r cap w. rv_capability r = Some cap \<longrightarrow> value_of (make_ctx inp rs) ?item r = Some w \<longrightarrow>
        rw_present w \<longrightarrow> ca_latency_bound_us cap = Some (rw_value w)"
      by (auto simp: value_of_def component_value_def dest: declared_present)
    have "?item \<in> set (plan_items ?k ?p)" using that by (simp add: plan_items_def)
    then show ?thesis
      using vals [of ?item ca_latency_bound_us, OF _ _ f] by (auto simp: overhead_of_def)
  qed
  have rate: "list_all (\<lambda>cap. case ca_supported_rate_bps cap of None \<Rightarrow> False | Some v \<Rightarrow> rate \<le> v) caps"
    if "qc_min_rate_bps ?k = Some rate" for rate
  proof -
    let ?item = "plan_item K_MinRate rate"
    have f: "\<forall>r cap w. rv_capability r = Some cap \<longrightarrow> value_of (make_ctx inp rs) ?item r = Some w \<longrightarrow>
        rw_present w \<longrightarrow> ca_supported_rate_bps cap = Some (rw_value w)"
      by (auto simp: value_of_def component_value_def dest: declared_present)
    have "?item \<in> set (plan_items ?k ?p)" using that by (simp add: plan_items_def)
    then obtain vs where vs: "map ca_supported_rate_bps caps = map Some vs" "\<forall>v \<in> set vs. rate \<le> v"
      using vals [of ?item ca_supported_rate_bps, OF _ _ f] by auto
    have "ca_supported_rate_bps cap \<in> set (map Some vs)" if "cap \<in> set caps" for cap
      using that unfolding vs(1) [symmetric] by simp
    with vs(2) show ?thesis by (force simp: list_all_iff)
  qed
  show ?thesis
    using c(1,3) iso pred lat rate
    by (intro exI [of _ caps]) (auto simp: list_all_iff split: option.splits)
qed

theorem supported_meaning_witness:
  "\<exists>caps. in_capabilities (sample_inputs 200) = map Some caps \<and>
    list_all2 (\<lambda>c cap. usable (sample_inputs 200) c cap \<and> ca_state cap = Cap_Available) (pa_components sample_path) caps"
proof -
  obtain d where e: "evaluate (sample_inputs 200) = Some (Inr d)" using evaluate_always_returns by blast
  have "length (merged_predicates (in_klass (sample_inputs 200)) (in_policy (sample_inputs 200))) \<le> 113"
    by (simp add: sample_inputs_def sample_class_def sample_policy_def merged_predicates_def)
  note m = supported_meaning [OF e sample_supported [OF e] this]
  have "in_path (sample_inputs 200) = sample_path" by (simp add: sample_inputs_def)
  with m show ?thesis by (elim exE conjE) (intro exI conjI; simp)
qed

text \<open>
  C7: a positive verdict needs live evidence: every component of the path has a capability
  record for that resource, at the generation the path binds, inside the epoch and freshness
  windows, neither unavailable nor unknown, and of the declared failure domain, and the decision
  counts no unknown component. This holds whatever the policy's \<open>max_unknown_components\<close>, which
  evaluation never reads: the comment on that field in \<open>model.hpp\<close>, that so many components may
  stay UNKNOWN under a positive verdict, is not what the code does.
\<close>

theorem positive_needs_live_evidence:
  assumes "evaluate inp = Some (Inr d)" and "is_positive (cd_outcome d)"
  shows "list_all2 (\<lambda>c slot. \<exists>cap. slot = Some cap \<and> usable inp c cap)
    (pa_components (in_path inp)) (in_capabilities inp) \<and> cd_unknown_components d = 0"
proof -
  have "intake_ok inp"
  proof (rule ccontr)
    assume "\<not> intake_ok inp"
    from evaluate_rejectedD [OF assms(1) this] assms(2) show False by (simp add: is_positive_def)
  qed
  then show ?thesis
    using positive_alive [OF assms] positive_none_unknown [OF assms]
    by (auto simp: intake_ok_def list_all2_conv_all_nth)
qed

theorem positive_needs_live_evidence_witness:
  "list_all2 (\<lambda>c slot. \<exists>cap. slot = Some cap \<and> usable (sample_inputs 270) c cap)
    (pa_components (in_path (sample_inputs 270))) (in_capabilities (sample_inputs 270))"
proof -
  obtain d where e: "evaluate (sample_inputs 270) = Some (Inr d)" using evaluate_always_returns by blast
  show ?thesis
    using positive_needs_live_evidence [OF e] by (simp add: sample_degraded [OF e] is_positive_def)
qed

text \<open>
  C9: a denied class or an applicable conflict marker outranks every other finding short of
  a rejection: the verdict is CONFLICT or REJECTED, whatever the evidence says.
\<close>

theorem conflict_dominates:
  assumes "evaluate inp = Some (Inr d)"
    and "qc_id (in_klass inp) \<in> set (po_denied_classes (in_policy inp)) \<or> list_ex (marker_applies inp) (in_conflicts inp)"
  shows "cd_outcome d \<in> {O_Conflict, O_Rejected}"
proof -
  have "\<not> conflict_free inp" using assms(2) by (auto simp: conflict_free_def list_ex_iff)
  with outcome_ge_conflict [OF assms(1)] show ?thesis
    by (cases "cd_outcome d") (auto simp: less_eq_outcome_def word_le_nat_alt)
qed

theorem conflict_dominates_witness:
  "\<exists>d. evaluate ((sample_inputs 200)\<lparr>in_policy := sample_policy\<lparr>po_denied_classes := [''gold'']\<rparr>\<rparr>) = Some (Inr d) \<and>
     cd_outcome d \<in> {O_Conflict, O_Rejected}"
proof -
  let ?i = "(sample_inputs 200)\<lparr>in_policy := sample_policy\<lparr>po_denied_classes := [''gold'']\<rparr>\<rparr>"
  obtain d where e: "evaluate ?i = Some (Inr d)" using evaluate_always_returns by blast
  have "qc_id (in_klass ?i) \<in> set (po_denied_classes (in_policy ?i))"
    by (simp add: sample_inputs_def sample_class_def sample_policy_def)
  with conflict_dominates [OF e] e show ?thesis by blast
qed

text \<open>
  C8: no obligation is reported as degraded unless class and policy both permit it and the
  obligation is relaxable, and what was relaxed is bounded. The resource state has no window: it is
  degraded only when every component's evidence is usable and one declares itself degraded. Every
  other obligation lies inside the window both permit, computed over the naturals (the 64-bit limit
  never wraps), unless it is reported only, which takes a report-only class. The value of the
  diversity obligation is the number of distinct failure domains of the components that qualify, and
  inside its window at least one remains.
\<close>

theorem degraded_inside_window:
  assumes e: "evaluate inp = Some (Inr d)"
    and a: "a \<in> set (cd_obligations d)" "oa_status a = OS_Degraded"
  shows "permits_degradation (in_klass inp) (in_policy inp) \<and> obligation_relaxable (oa_kind a) \<and>
    (if oa_kind a = K_ResourceState
     then \<not> oa_relaxation_reported_only a \<and>
       list_all2 (\<lambda>c slot. \<exists>cap. slot = Some cap \<and> usable inp c cap) (pa_components (in_path inp)) (in_capabilities inp) \<and>
       (\<exists>cap. Some cap \<in> set (in_capabilities inp) \<and> ca_state cap = Cap_Degraded)
     else
       (if oa_relaxation_reported_only a then qc_violation_policy (in_klass inp) = VP_ReportOnly
        else \<exists>v. oa_composed_value a = Some v \<and>
          inside_window (oa_direction a) (unat (oa_required_value a)) (unat v) (window_ppm (in_klass inp) (in_policy inp)) \<and>
          (oa_kind a = K_DisjointPaths \<longrightarrow> 1 \<le> unat v)) \<and>
       (oa_kind a = K_DisjointPaths \<longrightarrow>
          map_option unat (oa_composed_value a) = Some (diverse_domains (make_ctx inp (the (resolve_all inp))))))"
proof -
  have i: "intake_ok inp"
  proof (rule ccontr)
    assume "\<not> intake_ok inp"
    from evaluate_rejectedD [OF e this] a(1) show False by simp
  qed
  from evaluate_run [OF e i] obtain rs v where r: "run_facts inp rs v d" by blast
  let ?ctx = "make_ctx inp rs"
  have rs: "resolve_all inp = Some rs" using r by (simp add: run_facts_def)
  obtain item u over where it: "item \<in> set (build_plan (in_klass inp) (in_policy inp))"
      "assess_item ?ctx item = Some (a, u, over)"
    using r a(1) by (fastforce simp: run_facts_def list_all2_conv_all_nth in_set_conv_nth)
  note D = assess_item_degraded [OF it(2)]
  have s: "oa_kind a = pl_kind item" "oa_required_value a = pl_required item"
      "oa_direction a = obligation_direction (pl_kind item)"
    using D by (simp_all add: same_item_def blank_assessment_def)
  have p: "ec_permitted ?ctx" "obligation_relaxable (pl_kind item)" using D a(2) by simp_all
  have w: "unat (ec_window_ppm ?ctx) = window_ppm (in_klass inp) (in_policy inp)"
    using make_ctx_permitted(2) [OF p(1)] .
  then have wb: "unat (ec_window_ppm ?ctx) \<le> 1000000" using window_ppm_bound [OF i] by simp
  have len: "length rs < 2 ^ 64" "length (in_capabilities inp) = length (pa_components (in_path inp))"
    using path_size [OF i] resolve_all_nth(1) [OF rs] i by (simp_all add: intake_ok_def)
  have "obligation_direction K_DisjointPaths = Dir_AtLeast" by simp
  then show ?thesis
    using p s w rs make_ctx_permitted(1,3) degraded_state [OF rs it(2) _ a(2) len(2)]
      degraded_diversity [OF rs it(2) _ a(2) len(1) wb] degraded_composed [OF i it a(2) _ wb]
    by (cases "oa_kind a = K_ResourceState"; cases "oa_kind a = K_DisjointPaths") (auto split: if_splits)
qed

theorem degraded_inside_window_witness:
  "\<exists>d a. evaluate (sample_inputs 270) = Some (Inr d) \<and> a \<in> set (cd_obligations d) \<and> oa_status a = OS_Degraded \<and>
     permits_degradation sample_class sample_policy \<and> obligation_relaxable (oa_kind a)"
proof -
  obtain d where e: "evaluate (sample_inputs 270) = Some (Inr d)" using evaluate_always_returns by blast
  have "OS_Degraded \<in> set (map oa_status (cd_obligations d))"
    using sample_run_obligations [OF e sample_run_late] by simp
  then obtain a where a: "a \<in> set (cd_obligations d)" "oa_status a = OS_Degraded" by auto
  from degraded_inside_window [OF e a] e a show ?thesis
    by (intro exI [of _ d] exI [of _ a]) (simp add: sample_inputs_def)
qed

text \<open>
  C6: a verdict is positive exactly when intake passes, no conflict applies, no authority is
  superseded and every obligation was assessed as satisfied or degraded: unknown, stale,
  unavailable or violated evidence on any obligation rules a positive verdict out, whatever number
  of unknown components the policy's \<open>max_unknown_components\<close> allows (the comment on that field
  in \<open>model.hpp\<close> says it would tolerate them).
\<close>

theorem positive_exactly:
  "\<exists>d. evaluate inp = Some (Inr d) \<and>
     (is_positive (cd_outcome d) \<longleftrightarrow>
        intake_ok inp \<and> conflict_free inp \<and> current inp \<and>
        list_all (\<lambda>a. oa_status a \<in> {OS_Satisfied, OS_Degraded}) (cd_obligations d))"
proof -
  obtain d where "evaluate inp = Some (Inr d)" using evaluate_always_returns by blast
  with positive_iff [OF this] show ?thesis by blast
qed

text \<open>
  C10: a request, class, policy or path that fails validation, disagrees with the request, or
  is not covered by the evidence vectors is rejected at intake: the decision says REJECTED,
  assesses no obligation and no resource, and names the class, policy, path and epoch.
\<close>

theorem malformed_is_rejected:
  assumes "\<not> intake_ok inp"
  shows "\<exists>d. evaluate inp = Some (Inr d) \<and> cd_outcome d = O_Rejected \<and>
    cd_obligations d = [] \<and> cd_resources d = [] \<and> cd_degradations d = [] \<and>
    map au_dimension (cd_authority d) = [Dim_Class, Dim_Policy, Dim_Path, Dim_FabricEpoch]"
  using evaluate_rejected [OF assms]
  by (simp add: rejected_decision_def seal_decision_def initial_decision_def Let_def
      authority_class_def authority_policy_def authority_path_def authority_epoch_def)

theorem malformed_is_rejected_witness:
  "\<exists>d. evaluate ((sample_inputs 200)\<lparr>in_capabilities := []\<rparr>) = Some (Inr d) \<and> cd_outcome d = O_Rejected"
proof -
  have "\<not> intake_ok ((sample_inputs 200)\<lparr>in_capabilities := []\<rparr>)"
    by (simp add: intake_ok_def sample_inputs_def sample_path_def)
  from malformed_is_rejected [OF this] show ?thesis by blast
qed

text \<open>
  The degradation record of a decision lists exactly its degraded obligations, in
  obligation order, with the relaxation applied, up to the record's bound of 64.
\<close>

theorem degradations_recorded:
  "\<exists>d. evaluate inp = Some (Inr d) \<and>
     cd_degradations d =
       take kMaxDegradations (map degradation_of (filter (\<lambda>a. oa_status a = OS_Degraded) (cd_obligations d)))"
proof -
  obtain d where "evaluate inp = Some (Inr d)" using evaluate_always_returns by blast
  with evaluate_degradations [OF this] show ?thesis by blast
qed

section \<open>The obligation plan\<close>

text \<open>
  C13: the plan is canonical: for a valid class and policy it is sorted by kind and identifier
  without repetition, every item of it is one the class or the policy implies, and it holds
  all of them up to the bound of 128.
\<close>

theorem plan_canonical:
  assumes "validate_class klass = Inr ()" and "validate_policy pol = Inr ()"
  shows "sorted (map plan_key (build_plan klass pol)) \<and> distinct (map plan_key (build_plan klass pol)) \<and>
    build_plan klass pol = take kMaxObligations (plan_items klass pol) \<and>
    set (plan_items klass pol) =
      {plan_item K_Isolation (ucast (iso_rank (qc_isolation klass))),
       plan_item K_Treatment (ucast (tm_rank (qc_treatment klass))),
       plan_item K_PriorityRank (ucast (qc_min_priority_rank klass)),
       plan_item K_DisjointPaths (ucast (qc_min_disjoint_paths klass)),
       plan_item K_ResourceState kStateAvailable} \<union>
      set (concat (map (\<lambda>(k, x). push_if k x)
        [(K_MinRate, qc_min_rate_bps klass), (K_MaxRate, qc_max_rate_bps klass),
         (K_PeakRate, qc_peak_rate_bps klass), (K_Latency, qc_max_latency_us klass),
         (K_Jitter, qc_max_jitter_us klass), (K_Loss, map_option ucast (qc_max_loss_ppm klass)),
         (K_BurstBytes, qc_burst_bytes klass), (K_BurstInterval, qc_burst_interval_us klass),
         (K_Mtu, qc_min_mtu_bytes klass),
         (K_Reservation, if qc_requires_reservation klass then qc_min_rate_bps klass else None)])) \<union>
      plan_predicate ` (set (qc_required_predicates klass) \<union> set (po_required_predicates pol))"
  (is "_ \<and> _ \<and> _ \<and> ?S")
proof -
  have ?S
    unfolding plan_items_def merged_predicates_set(2) [OF assms, symmetric]
    by (auto simp: push_if_def)
  then show ?thesis
    using build_plan_sorted build_plan_distinct build_plan_eq [OF assms] by blast
qed

theorem plan_canonical_witness: "distinct (map plan_key (build_plan sample_class sample_policy))"
  using plan_canonical [OF sample_class_valid sample_policy_valid] by blast

text \<open>
  The plan does not depend on the order in which class and policy list their required
  predicates, nor on which of the two lists them.
\<close>

theorem plan_order_independent:
  assumes "validate_class klass = Inr ()" and "validate_class (klass\<lparr>qc_required_predicates := ps\<rparr>) = Inr ()"
    and "validate_policy pol = Inr ()" and "validate_policy (pol\<lparr>po_required_predicates := qs\<rparr>) = Inr ()"
    and "set ps \<union> set qs = set (qc_required_predicates klass) \<union> set (po_required_predicates pol)"
  shows "build_plan (klass\<lparr>qc_required_predicates := ps\<rparr>) (pol\<lparr>po_required_predicates := qs\<rparr>) = build_plan klass pol"
proof -
  have "merged_predicates (klass\<lparr>qc_required_predicates := ps\<rparr>) (pol\<lparr>po_required_predicates := qs\<rparr>) =
      merged_predicates klass pol"
    using merged_predicates_set(1,2) [OF assms(1,3)] merged_predicates_set(1,2) [OF assms(2,4)] assms(5)
    by (intro sorted_distinct_set_unique) (simp_all add: merged_predicates_def)
  then show ?thesis by (simp add: build_plan_def plan_items_def)
qed

theorem plan_order_independent_witness:
  "build_plan (sample_class\<lparr>qc_required_predicates := []\<rparr>) (sample_policy\<lparr>po_required_predicates := [''ecn'']\<rparr>) =
   build_plan sample_class sample_policy"
proof (rule plan_order_independent [OF sample_class_valid _ sample_policy_valid])
  show "validate_class (sample_class\<lparr>qc_required_predicates := []\<rparr>) = Inr ()" by code_simp
  show "validate_policy (sample_policy\<lparr>po_required_predicates := [''ecn'']\<rparr>) = Inr ()" by code_simp
qed (simp add: sample_class_def sample_policy_def)

text \<open>
  C14: past the bound of 128 the plan silently loses its last items, and the resource state,
  whose kind sorts last, is always among them: a component that declares itself degraded is
  then never assessed against that declaration.
\<close>

theorem oversized_plan_drops_resource_state:
  assumes "validate_class klass = Inr ()" and "validate_policy pol = Inr ()"
    and "kMaxObligations < length (plan_items klass pol)"
  shows "list_all (\<lambda>p. pl_kind p \<noteq> K_ResourceState) (build_plan klass pol)"
  using plan_truncation [OF assms] by (simp add: list_all_iff)

definition crowded_class :: qos_class where
  "crowded_class = sample_class\<lparr>qc_required_predicates := map (\<lambda>i. replicate (Suc i) CHR ''a'') [0..<64]\<rparr>"

definition crowded_policy :: policy where
  "crowded_policy = sample_policy\<lparr>po_required_predicates := map (\<lambda>i. replicate (Suc i) CHR ''b'') [0..<64]\<rparr>"

lemma crowded_valid: "validate_class crowded_class = Inr ()" "validate_policy crowded_policy = Inr ()"
  by code_simp+

lemma crowded_plan: "kMaxObligations < length (plan_items crowded_class crowded_policy)"
proof -
  let ?f = "\<lambda>c i. replicate (Suc i) (c :: char)"
  have inj: "inj_on (?f c) X" for c X by (auto simp: inj_on_def dest: arg_cong [where f = length])
  have "set (merged_predicates crowded_class crowded_policy) = ?f CHR ''a'' ` {0..<64} \<union> ?f CHR ''b'' ` {0..<64}"
    using merged_predicates_set(2) [OF crowded_valid] by (simp add: crowded_class_def crowded_policy_def)
  moreover have "card (?f CHR ''a'' ` {0..<64} \<union> ?f CHR ''b'' ` {0..<64}) = 128"
    by (subst card_Un_disjoint) (auto simp: card_image [OF inj] simp del: replicate_Suc)
  ultimately have "length (merged_predicates crowded_class crowded_policy) = 128"
    using distinct_card [OF merged_predicates_set(1) [OF crowded_valid]] by simp
  then show ?thesis by (simp add: plan_items_def kMaxObligations_def)
qed

theorem oversized_plan_drops_resource_state_witness:
  "list_all (\<lambda>p. pl_kind p \<noteq> K_ResourceState) (build_plan crowded_class crowded_policy)"
  by (rule oversized_plan_drops_resource_state [OF crowded_valid crowded_plan])

section \<open>End-to-end composition\<close>

text \<open>What each aggregate composes to, over the naturals.\<close>

fun compose_spec :: "aggregate_kind \<Rightarrow> nat \<Rightarrow> nat list \<Rightarrow> nat option" where
  "compose_spec Agg_WeakestLink f vs = Some (Min (set vs))"
| "compose_spec Agg_AllPresent f vs = Some (Min (set vs))"
| "compose_spec Agg_WorstCase f vs = Some (Max (set vs))"
| "compose_spec Agg_Additive f vs = (if f + sum_list vs < 2 ^ 64 then Some (f + sum_list vs) else None)"
| "compose_spec Agg_LossCompose f vs = Some (1000000 - delivered 1000000 vs)"
| "compose_spec Agg_PathDiversity f vs = None"

lemma first_min_Min: "first_min vs v k \<Longrightarrow> Min (set (map unat vs)) = unat v"
  by (intro Min_eqI) (auto simp: first_min_def word_le_nat_alt)

lemma first_max_Max: "first_max vs v k \<Longrightarrow> Max (set (map unat vs)) = unat v"
  by (intro Max_eqI) (auto simp: first_max_def word_le_nat_alt)

text \<open>
  C11: composition over fully declared components is exact: the weakest link is the minimum,
  the worst case the maximum, the additive total the mathematical sum with the path overhead,
  refused exactly when it does not fit in 64 bits, and the loss the composed loss fold, which
  never overflows.
\<close>

theorem compose_values_exact:
  assumes "values \<noteq> []" and "list_all rw_present values"
  shows "map_option unat (co_value (compose_values agg values f)) =
      compose_spec agg (unat f) (map (\<lambda>w. unat (rw_value w)) values) \<and>
    (co_overflow (compose_values agg values f) \<longleftrightarrow>
      agg = Agg_Additive \<and> 2 ^ 64 \<le> unat f + sum_list (map (\<lambda>w. unat (rw_value w)) values))"
proof -
  let ?vs = "map rw_value values"
  have ne: "?vs \<noteq> []" using assms(1) by simp
  have n: "first_absent 0 values = None" using assms(2) by (simp add: first_absent_None)
  have m: "map (\<lambda>w. unat (rw_value w)) values = map unat ?vs" by simp
  have s: "nat_sum ?vs = sum_list (map (\<lambda>w. unat (rw_value w)) values)" by (simp add: nat_sum_def comp_def)
  note unfold = compose_values_def Let_def n composed_at_def empty_composition_def overflowed_def
  show ?thesis
  proof (cases agg)
    case Agg_WeakestLink
    obtain w k where l: "weakest_loop (hd ?vs) 0 1 (tl ?vs) = (w, k)" by fastforce
    with first_min_Min [OF weakest_of [OF ne l]] assms(1) Agg_WeakestLink show ?thesis
      by (simp add: unfold)
  next
    case Agg_AllPresent
    obtain w k where l: "weakest_loop (hd ?vs) 0 1 (tl ?vs) = (w, k)" by fastforce
    with first_min_Min [OF weakest_of [OF ne l]] assms(1) Agg_AllPresent show ?thesis
      by (simp add: unfold)
  next
    case Agg_WorstCase
    obtain w k where l: "worst_loop (hd ?vs) 0 1 (tl ?vs) = (w, k)" by fastforce
    with first_max_Max [OF worst_of [OF ne l]] assms(1) Agg_WorstCase show ?thesis
      by (simp add: unfold)
  next
    case Agg_Additive
    show ?thesis
    proof (cases "additive_loop f 0 0 0 ?vs")
      case None
      with assms(1) Agg_Additive additive_loop_None [of f 0 0 0 ?vs] show ?thesis
        by (simp add: unfold s)
    next
      case (Some p)
      then obtain t k where p: "additive_loop f 0 0 0 ?vs = Some (t, k)" by (cases p) auto
      with assms(1) Agg_Additive additive_loop_None [of f 0 0 0 ?vs] additive_loop_Some [OF p] show ?thesis
        by (simp add: unfold s)
    qed
  next
    case Agg_LossCompose
    from loss_loop_total [of kPpm 0 0 0 ?vs] obtain r k where
      r: "loss_loop kPpm 0 0 0 ?vs = Some (r, k)" "unat r = delivered 1000000 (map unat ?vs)" "unat r \<le> 1000000"
      by auto
    have "r \<le> kPpm" using r(3) by (simp add: word_le_nat_alt)
    with r assms(1) Agg_LossCompose show ?thesis
      unfolding m compose_spec.simps by (simp add: unfold unat_sub)
  next
    case Agg_PathDiversity
    with assms(1) show ?thesis by (simp add: unfold)
  qed
qed

theorem compose_values_exact_witness:
  "map_option unat (co_value (compose_values Agg_Additive [present 7, present (- 1)] 1)) = None"
proof -
  have "list_all rw_present [present 7, present (- 1)]" by (simp add: present_def)
  from compose_values_exact [OF _ this, of Agg_Additive 1] show ?thesis
    by (simp add: present_def unsigned_minus_1_eq_mask mask_eq_exp_minus_1)
qed

text \<open>The delivered share of the fold against the exact product.\<close>

lemma delivered_tight:
  "real (delivered 1000000 vs) \<le> 1000000 * prod_list (map (\<lambda>v. 1 - real (clip_ppm v) / 1000000) vs) \<and>
   1000000 * prod_list (map (\<lambda>v. 1 - real (clip_ppm v) / 1000000) vs) \<le> real (delivered 1000000 vs) + real (length vs)"
proof -
  let ?q = "\<lambda>v. 1 - real (clip_ppm v) / 1000000"
  have q: "0 \<le> ?q v" "?q v \<le> 1" for v by (simp_all add: clip_ppm_def)
  have P: "0 \<le> prod_list (map ?q vs)" "prod_list (map ?q vs) \<le> 1" for vs
  proof (induction vs)
    case Nil
    { case 1 show ?case by simp next case 2 show ?case by simp }
  next
    case (Cons v vs)
    { case 1 from mult_nonneg_nonneg [OF q(1) Cons.IH(1)] show ?case by simp
      next case 2 from mult_le_one [OF q(2) Cons.IH] show ?case by simp }
  qed
  have "real (delivered d vs) \<le> real d * prod_list (map ?q vs) \<and>
      real d * prod_list (map ?q vs) \<le> real (delivered d vs) + real (length vs)" for d
  proof (induction vs arbitrary: d)
    case Nil
    then show ?case by simp
  next
    case (Cons v vs)
    let ?d = "d * (1000000 - clip_ppm v) div 1000000"
    have e: "real (d * (1000000 - clip_ppm v)) / 1000000 = real d * ?q v"
      by (simp add: clip_ppm_def of_nat_diff field_simps)
    have lo: "real ?d \<le> real d * ?q v" unfolding e [symmetric] using of_nat_div_le_of_nat [of "d * (1000000 - clip_ppm v)" 1000000] by simp
    have "n < (n div 1000000 + 1) * 1000000" for n :: nat
      using dividend_less_div_times [of 1000000 n] by simp
    then have "real (d * (1000000 - clip_ppm v)) < real ((?d + 1) * 1000000)"
      unfolding of_nat_less_iff by blast
    then have hi: "real d * ?q v \<le> real ?d + 1" unfolding e [symmetric] by (simp add: field_simps)
    let ?P = "prod_list (map ?q vs)"
    have "real ?d * ?P \<le> real d * ?q v * ?P" by (rule mult_right_mono [OF lo P(1)])
    moreover have "real d * ?q v * ?P \<le> (real ?d + 1) * ?P" by (rule mult_right_mono [OF hi P(1)])
    moreover have "(real ?d + 1) * ?P \<le> real ?d * ?P + 1" using P(2) [of vs] by (simp add: algebra_simps)
    ultimately show ?case using Cons.IH [of ?d] by (simp add: mult.assoc)
  qed
  from this [of 1000000] show ?thesis by simp
qed

text \<open>
  C12: the integer loss composition is conservative and tight. Over fully declared components it
  never overflows; with a declared loss beyond a million taken as total, the composed loss is never
  below the exact loss of independent hops over the reals, and above it by at most one part per
  million for each component.
\<close>

theorem loss_composition_tight:
  assumes "values \<noteq> []" and "list_all rw_present values"
  shows "\<exists>loss. co_value (compose_values Agg_LossCompose values f) = Some loss \<and>
    \<not> co_overflow (compose_values Agg_LossCompose values f) \<and> unat loss \<le> 1000000 \<and>
    (let exact = 1000000 * (1 - prod_list (map (\<lambda>w. 1 - real (min (unat (rw_value w)) 1000000) / 1000000) values))
     in exact \<le> real (unat loss) \<and> real (unat loss) \<le> exact + real (length values))"
proof -
  let ?vs = "map rw_value values"
  have n: "first_absent 0 values = None" using assms(2) by (simp add: first_absent_None)
  from loss_loop_total [of kPpm 0 0 0 ?vs] obtain r k where
    r: "loss_loop kPpm 0 0 0 ?vs = Some (r, k)" "unat r = delivered 1000000 (map unat ?vs)" "unat r \<le> 1000000"
    by auto
  have "r \<le> kPpm" using r(3) by (simp add: word_le_nat_alt)
  then have l: "unat (kPpm - r) = 1000000 - unat r" by (simp add: unat_sub)
  have c: "compose_values Agg_LossCompose values f = composed_at (kPpm - r) k"
    using assms(1) n r(1) by (simp add: compose_values_def Let_def)
  have e: "map (\<lambda>v. 1 - real (clip_ppm v) / 1000000) (map unat ?vs) =
      map (\<lambda>w. 1 - real (min (unat (rw_value w)) 1000000) / 1000000) values"
    by (simp add: clip_ppm_def)
  have d: "real (unat (kPpm - r)) = 1000000 - real (delivered 1000000 (map unat ?vs))"
    unfolding l using r(2,3) by (simp add: of_nat_diff)
  have "1000000 * (1 - P) \<le> 1000000 - D \<and> 1000000 - D \<le> 1000000 * (1 - P) + n"
    if "D \<le> 1000000 * P \<and> 1000000 * P \<le> D + n" for D P n :: real
    using that by (simp add: right_diff_distrib)
  from this [OF delivered_tight [of "map unat ?vs"]]
  show ?thesis
    unfolding c Let_def e d [symmetric]
    by (intro exI [of _ "kPpm - r"]) (simp add: composed_at_def empty_composition_def l)
qed

theorem loss_composition_tight_witness:
  "\<exists>loss. co_value (compose_values Agg_LossCompose [present 720, present 2000000] 0) = Some loss \<and>
     1000000 \<le> real (unat loss)"
proof -
  have "list_all rw_present [present 720, present 2000000]" by (simp add: present_def)
  from loss_composition_tight [OF _ this, of 0] show ?thesis by (auto simp: present_def Let_def)
qed

text \<open>
  Because every hop rounds down, the composed loss depends on the order of the
  components: the same three components compose to different losses in two orders.
\<close>

theorem loss_composition_order_dependent:
  "co_value (compose_values Agg_LossCompose [present 720, present 974, present 307] 0) = Some 2001 \<and>
   co_value (compose_values Agg_LossCompose [present 720, present 307, present 974] 0) = Some 2000"
  by code_simp

end
