(* ===== verification/Record_Claims.thy ===== *)
theory Record_Claims imports Samples begin

text \<open>
  Properties of the supporting layers: the checksums and digests, checked arithmetic, the
  canonical encoding of every published record and of the decision, and its explanation.
\<close>

unbundle bit_operations_syntax

section \<open>Checksums and digests\<close>

text \<open>
  C25: hashing is streaming: feeding a message to the SHA-256 state in any sequence of chunks
  and finishing yields the digest of the concatenation, the fold of the compression function
  over the padded message.
\<close>

theorem sha256_streaming:
  "sha_finish (fold sha_update chunks sha_reset) = Some (sha256 (concat chunks)) \<and>
   sha256 (concat chunks) = sha_spec (concat chunks)"
  using sha_finish_absorbed [OF sha_absorbed_fold [OF sha_absorbed_reset, of chunks]]
  by (simp add: sha256_eq_spec)

text \<open>
  C26: the table-driven CRC-32C is the bitwise one: eight shift-and-xor steps of the reflected
  Castagnoli polynomial per byte.
\<close>

theorem crc32c_bitwise:
  "crc32c bs = foldl (\<lambda>s b. (crc_bit_step ^^ 8) (s XOR ucast b)) 0xFFFFFFFF bs XOR 0xFFFFFFFF"
proof -
  have "crc_byte = (\<lambda>s b. (crc_bit_step ^^ 8) (s XOR ucast b))" by (intro ext crc_byte_eq)
  then show ?thesis by (simp add: crc32c_def)
qed

text \<open>The checksum of two byte strings that differ in exactly one byte differs.\<close>

theorem crc32c_detects_byte:
  assumes "i < length bs" and "b \<noteq> bs ! i"
  shows "crc32c (bs[i := b]) \<noteq> crc32c bs"
proof -
  have "bs = take i bs @ bs ! i # drop (Suc i) bs" using assms(1) by (rule id_take_nth_drop)
  moreover have "bs[i := b] = take i bs @ b # drop (Suc i) bs" using assms(1) by (rule upd_conv_take_nth_drop)
  ultimately show ?thesis using crc32c_byte_change [OF assms(2)] by metis
qed

theorem crc32c_detects_byte_witness: "crc32c ([1, 2, 3][1 := 7]) \<noteq> crc32c [1, 2, 3]"
  by (rule crc32c_detects_byte) simp_all

text \<open>The hexadecimal form of a digest parses back to the digest.\<close>

theorem digest_hex_roundtrip:
  assumes "length d = kDigestBytes"
  shows "digest_parse_hex (digest_hex d) = Some d"
  using assms by (simp add: digest_parse_hex_def parse_hex_pairs_hex length_digest_hex kDigestBytes_def)

theorem digest_hex_roundtrip_witness: "digest_parse_hex (digest_hex (sha256 [])) = Some (sha256 [])"
  by (rule digest_hex_roundtrip) simp

section \<open>Checked arithmetic\<close>

text \<open>
  Checked addition and multiplication return the exact result, and refuse exactly when it
  does not fit in the width.
\<close>

theorem checked_arithmetic_exact:
  fixes a b :: "'a::len word"
  shows "map_option unat (checked_add a b) = (if unat a + unat b < 2 ^ LENGTH('a) then Some (unat a + unat b) else None) \<and>
    map_option unat (checked_mul a b) = (if unat a * unat b < 2 ^ LENGTH('a) then Some (unat a * unat b) else None)"
proof
  show "map_option unat (checked_add a b) = (if unat a + unat b < 2 ^ LENGTH('a) then Some (unat a + unat b) else None)"
    by (cases "checked_add a b") (auto simp: checked_add_unat checked_add_None not_less dest: checked_add_iff [THEN iffD1])
  show "map_option unat (checked_mul a b) = (if unat a * unat b < 2 ^ LENGTH('a) then Some (unat a * unat b) else None)"
    by (cases "checked_mul a b") (auto simp: checked_mul_unat checked_mul_None not_less dest: checked_mul_iff [THEN iffD1])
qed

text \<open>
  The relaxation a degraded obligation reports always exists, is zero only for no
  shortfall, never exceeds one million, and is the shortfall in parts per million of the
  requirement rounded up, when the product fits in 64 bits.
\<close>

theorem relative_ppm_reported:
  "\<exists>p. relative_ppm reference shortfall = Some p \<and> unat p \<le> 1000000 \<and> (p = 0 \<longleftrightarrow> shortfall = 0) \<and>
     (unat shortfall * 1000000 \<ge> 2 ^ 64 \<or> reference = 0 \<or>
      unat p = min 1000000 ((unat shortfall * 1000000 + unat reference - 1) div unat reference))"
proof -
  obtain p where p: "relative_ppm reference shortfall = Some p" using relative_ppm_total by blast
  have "p = 0 \<longleftrightarrow> shortfall = 0"
  proof (cases "shortfall = 0")
    case True
    with p show ?thesis by (simp add: relative_ppm_def)
  next
    case False
    from relative_ppm_pos [OF this, of reference] p False show ?thesis by auto
  qed
  moreover have "unat p = min 1000000 ((unat shortfall * 1000000 + unat reference - 1) div unat reference)"
    if "\<not> unat shortfall * 1000000 \<ge> 2 ^ 64" "reference \<noteq> 0"
    using relative_ppm_eq [of shortfall reference] that p by (metis linorder_not_le option.inject)
  ultimately show ?thesis using p relative_ppm_le [OF p] by blast
qed

section \<open>Canonical records\<close>

text \<open>
  C22: every valid class encodes within the record budget, and decoding its encoding consumes
  it exactly and returns the class with its predicates sorted and its digest recomputed.
\<close>

theorem class_roundtrip:
  assumes "validate_class v = Inr ()" and "provenance_ok (qc_provenance v)"
  shows "decode_class (new_reader (encode_canonical (encode_class v) kMaxCanonicalRecordBytes)) =
    (Inr (canon_class v), rd (lay_class v) [])"
proof -
  have ok: "class_ok v" using assms by (simp add: class_ok_def)
  show ?thesis
    using class_codec.dec_lay [OF ok, of "[]" "[]"] class_codec.encode_canonical_lay [OF ok class_fits [OF ok]]
    by (simp add: new_reader_rd)
qed

theorem class_roundtrip_witness:
  "fst (decode_class (new_reader (encode_canonical (encode_class sample_class) kMaxCanonicalRecordBytes))) =
   Inr (canon_class sample_class)"
  using class_roundtrip [OF sample_class_valid] by (simp add: sample_class_def)

text \<open>Likewise for a path: the decoded path is the path with its digest recomputed.\<close>

theorem path_roundtrip:
  assumes "validate_path v = Inr ()" and "provenance_ok (pa_provenance v)"
  shows "decode_path (new_reader (encode_canonical (encode_path v) kMaxCanonicalRecordBytes)) =
    (Inr (v\<lparr>pa_digest := compute_path_digest v\<rparr>), rd (lay_path v) [])"
proof -
  have ok: "path_ok v" using assms by (simp add: path_ok_def)
  show ?thesis
    using path_codec.dec_lay [OF ok, of "[]" "[]"] path_codec.encode_canonical_lay [OF ok path_fits [OF ok]]
    by (simp add: new_reader_rd canon_path_def)
qed

theorem path_roundtrip_witness:
  "fst (decode_path (new_reader (encode_canonical (encode_path sample_path) kMaxCanonicalRecordBytes))) =
   Inr (sample_path\<lparr>pa_digest := compute_path_digest sample_path\<rparr>)"
  using path_roundtrip [OF sample_path_valid] by (simp add: sample_path_def)

text \<open>A valid request decodes from its encoding unchanged.\<close>

theorem request_roundtrip:
  assumes "validate_request v = Inr ()" and "provenance_ok (rq_provenance v)"
  shows "decode_request (new_reader (encode_canonical (encode_request v) kMaxCanonicalRecordBytes)) =
    (Inr v, rd (lay_request v) [])"
proof -
  have ok: "request_ok v" using assms by (simp add: request_ok_def)
  show ?thesis
    using request_codec.dec_lay [OF ok, of "[]" "[]"] request_codec.encode_canonical_lay [OF ok request_fits [OF ok]]
    by (simp add: new_reader_rd)
qed

theorem request_roundtrip_witness:
  "fst (decode_request (new_reader (encode_canonical (encode_request sample_request) kMaxCanonicalRecordBytes))) =
   Inr sample_request"
  using request_roundtrip [OF sample_request_valid] by (simp add: sample_request_def)

text \<open>
  C23: a valid capability with a failure domain decodes from its encoding, with its predicates
  sorted and its digest recomputed.
\<close>

theorem capability_roundtrip:
  assumes "validate_capability v = Inr ()" and "provenance_ok (ca_provenance v)" and "ca_diversity_domain v \<noteq> []"
  shows "decode_capability (new_reader (encode_canonical (encode_capability v) kMaxCanonicalRecordBytes)) =
    (Inr (canon_capability v), rd (lay_capability v) [])"
proof -
  have ok: "capability_ok v" using assms by (simp add: capability_ok_def)
  show ?thesis
    using capability_codec.dec_lay [OF ok, of "[]" "[]"] capability_codec.encode_canonical_lay [OF ok capability_fits [OF ok]]
    by (simp add: new_reader_rd)
qed

theorem capability_roundtrip_witness:
  "fst (decode_capability (new_reader (encode_canonical (encode_capability (sample_capability ''edge'' ''east'' 150))
      kMaxCanonicalRecordBytes))) = Inr (canon_capability (sample_capability ''edge'' ''east'' 150))"
proof -
  have "validate_capability (sample_capability ''edge'' ''east'' 150) = Inr ()" by code_simp
  from capability_roundtrip [OF this] show ?thesis by (simp add: sample_capability_def)
qed

text \<open>
  C24: an unavailable resource may declare no failure domain: the declaration validates and
  encodes, but its own encoding is refused by the decoder, so a log that holds it cannot be
  replayed.
\<close>

theorem domainless_capability_does_not_decode:
  assumes "validate_capability v = Inr ()" and "provenance_ok (ca_provenance v)" and "ca_diversity_domain v = []"
  shows "\<not> w_failed (encode_capability v (new_writer kMaxCanonicalRecordBytes)) \<and>
    fst (decode_capability (new_reader (encode_canonical (encode_capability v) kMaxCanonicalRecordBytes))) =
      Inl (make_error EC_InvalidArgument ''identifier outside canonical alphabet'')"
proof -
  have k: "is_valid (ca_resource v)" "is_valid (ca_publisher v)"
    "length (ca_predicates v) \<le> kMaxCapabilityPredicates"
    "\<not> invalid_keys (ca_predicates v) kMaxPredicateKeyLen"
    using assms(1) by (auto simp: validate_capability_def bind_iff)
  have e: "emits (encode_capability v) (lay_capability v)"
    unfolding encode_capability_def lay_capability_def
    by (rule emits_fields) (simp add: writes_intros k assms)
  have f: "length (lay_capability v) \<le> kMaxCanonicalRecordBytes"
    using k length_lay_keys [of "ca_predicates v"] length_valid [of "ca_resource v"]
      length_valid [of "ca_publisher v"] length_lay_prov [OF assms(2)] length_lay_opt_word(2) [of "ca_loss_ppm v"]
      length_lay_opt_word(1) [of "ca_supported_rate_bps v"] length_lay_opt_word(1) [of "ca_latency_bound_us v"]
      length_lay_opt_word(1) [of "ca_jitter_bound_us v"] length_lay_opt_word(1) [of "ca_max_burst_bytes v"]
      length_lay_opt_word(1) [of "ca_burst_window_us v"] length_lay_opt_word(1) [of "ca_mtu_bytes v"]
    by (simp add: lay_capability_def kMaxCanonicalRecordBytes_def kMaxCapabilityPredicates_def assms(3))
  have d: "fst (decode_capability (rd [] (lay_capability v))) =
      Inl (make_error EC_InvalidArgument ''identifier outside canonical alphabet'')"
    using k assms(3) by (cases v)
      (simp add: decode_capability_def lay_capability_def codec decode_identifier_def)
  have b: "\<not> w_failed (encode_capability v (new_writer kMaxCanonicalRecordBytes))"
    "w_buffer (encode_capability v (new_writer kMaxCanonicalRecordBytes)) = lay_capability v"
    using emits_encode [OF e, of kMaxCanonicalRecordBytes] f by simp_all
  then have "encode_canonical (encode_capability v) kMaxCanonicalRecordBytes = lay_capability v"
    by (simp add: encode_canonical_def)
  with b d show ?thesis by (simp add: new_reader_rd)
qed

theorem domainless_capability_does_not_decode_witness:
  "isl (fst (decode_capability (new_reader (encode_canonical
     (encode_capability ((sample_capability ''edge'' [] 150)\<lparr>ca_state := Cap_Unavailable\<rparr>)) kMaxCanonicalRecordBytes))))"
proof -
  have "validate_capability ((sample_capability ''edge'' [] 150)\<lparr>ca_state := Cap_Unavailable\<rparr>) = Inr ()" by code_simp
  from domainless_capability_does_not_decode [OF this] show ?thesis by (simp add: sample_capability_def)
qed

section \<open>The explanation\<close>

lemma fold_text_prefix:
  assumes "\<not> bt_clipped t" and "length (bt_out t) \<le> bt_budget t"
  shows "\<exists>k \<le> length ls. length (bt_out t @ concat (map (\<lambda>l. l @ [newline]) (take k ls))) \<le> bt_budget t \<and>
    bt_out (fold text_line ls t) = bt_out t @ concat (map (\<lambda>l. l @ [newline]) (take k ls)) @
      (if k < length ls then truncation_marker (bt_budget t) else [])"
  using assms
proof (induction ls arbitrary: t)
  case Nil
  then show ?case by simp
next
  case (Cons l ls)
  show ?case
  proof (cases "length (bt_out t) + length l + 1 > bt_budget t")
    case True
    have "fold text_line ls u = u" if "bt_clipped u" for u
      using that by (induction ls) (simp_all add: text_line_def)
    with True Cons.prems show ?thesis by (intro exI [of _ 0]) (simp add: text_line_def [of l t])
  next
    case False
    let ?t = "t\<lparr>bt_out := bt_out t @ l @ [newline]\<rparr>"
    have "text_line l t = ?t" using False Cons.prems by (simp add: text_line_def)
    moreover obtain k where "k \<le> length ls"
      "length (bt_out ?t @ concat (map (\<lambda>l. l @ [newline]) (take k ls))) \<le> bt_budget ?t"
      "bt_out (fold text_line ls ?t) = bt_out ?t @ concat (map (\<lambda>l. l @ [newline]) (take k ls)) @
        (if k < length ls then truncation_marker (bt_budget ?t) else [])"
      using Cons.IH [of ?t] Cons.prems False by auto
    ultimately show ?thesis by (intro exI [of _ "Suc k"]) simp
  qed
qed

lemma fold_text_clipped: "bt_clipped u \<Longrightarrow> fold text_line ls u = u"
  by (induction ls) (simp_all add: text_line_def)

lemma fold_text_new:
  "\<exists>k. k \<le> length ls \<and> length (concat (map (\<lambda>l. l @ [newline]) (take k ls))) \<le> n \<and>
     bt_out (fold text_line ls (new_text n)) = concat (map (\<lambda>l. l @ [newline]) (take k ls)) @
       (if k < length ls then truncation_marker n else [])"
proof -
  have t [simp]: "bt_out (new_text n) = []" "bt_budget (new_text n) = n" "\<not> bt_clipped (new_text n)"
    by (simp_all add: new_text_def)
  from fold_text_prefix [of "new_text n" ls] show ?thesis
    unfolding t append_Nil by simp
qed

lemma fold_text_tiny: "l \<noteq> [] \<Longrightarrow> bt_out (fold text_line (l # ls) (new_text 1)) = truncation_marker 1"
  by (simp add: text_line_def [of l] new_text_def fold_text_clipped)

text \<open>
  An explanation is a prefix of its lines that fits the byte budget, followed by the
  truncation marker exactly when lines were left out.
\<close>

theorem explain_is_bounded_prefix:
  "\<exists>k. k \<le> length (explain_lines d options) \<and>
     length (concat (map (\<lambda>l. l @ [newline]) (take k (explain_lines d options)))) \<le> explain_budget options \<and>
     explain d options = concat (map (\<lambda>l. l @ [newline]) (take k (explain_lines d options))) @
       (if k < length (explain_lines d options) then truncation_marker (explain_budget options) else [])"
  unfolding explain_def by (rule fold_text_new)

text \<open>
  The marker itself is not charged to the budget: whatever the decision, an explanation
  asked for in one byte is longer than one byte.
\<close>

theorem explain_overruns_budget:
  "explain_budget (explain_defaults\<lparr>ex_max_bytes := 1\<rparr>) = 1 \<and>
   length (explain d (explain_defaults\<lparr>ex_max_bytes := 1\<rparr>)) > 1"
proof -
  have b: "explain_budget (explain_defaults\<lparr>ex_max_bytes := 1\<rparr>) = 1"
    by (simp add: explain_budget_def kMaxExplainBytes_def)
  obtain rest where l: "explain_lines d (explain_defaults\<lparr>ex_max_bytes := 1\<rparr>) =
      (''outcome: '' @ outcome_to_string (cd_outcome d)) # rest"
    by (simp only: explain_lines_def append_Cons)
  have "explain d (explain_defaults\<lparr>ex_max_bytes := 1\<rparr>) = truncation_marker 1"
    unfolding explain_def b l by (rule fold_text_tiny) simp
  with b show ?thesis by (simp add: truncation_marker_def)
qed

end
