(* ===== verification/Wire.thy ===== *)
theory Wire
  imports Model_Codec Checked
begin

text \<open>
  The wire protocol of \<open>include/qosfabric/wire.hpp\<close> and \<open>src/wire.cpp\<close>: the checksummed
  frame, the control messages and the status an error is reported as. A frame is a payload
  length, the CRC-32C of the payload and the payload: protocol version, message type, body
  length and body.

  The laws show that the decoder accepts exactly the encoder's frames, that a changed byte
  behind the length field is refused, that a stream of frames is read back frame by frame,
  and that every message round-trips.
\<close>

section \<open>Message types and statuses\<close>

datatype message_type =
    MT_Unknown | MT_Hello | MT_HelloAck | MT_PublishCapability | MT_PublishReservation
  | MT_PublishAck | MT_Revoke | MT_Bye | MT_Ping | MT_Pong | MT_RegistryStatus

datatype wire_status =
    WS_Ok | WS_Rejected | WS_Fenced | WS_Unauthorized | WS_Stale | WS_Conflict | WS_TooLarge
  | WS_NotFound | WS_Internal

primrec mt_rank :: "message_type \<Rightarrow> u8" where
  "mt_rank MT_Unknown = 0" | "mt_rank MT_Hello = 1" | "mt_rank MT_HelloAck = 2"
| "mt_rank MT_PublishCapability = 3" | "mt_rank MT_PublishReservation = 4"
| "mt_rank MT_PublishAck = 5" | "mt_rank MT_Revoke = 6" | "mt_rank MT_Bye = 7"
| "mt_rank MT_Ping = 8" | "mt_rank MT_Pong = 9" | "mt_rank MT_RegistryStatus = 10"

primrec ws_rank :: "wire_status \<Rightarrow> u8" where
  "ws_rank WS_Ok = 0" | "ws_rank WS_Rejected = 1" | "ws_rank WS_Fenced = 2"
| "ws_rank WS_Unauthorized = 3" | "ws_rank WS_Stale = 4" | "ws_rank WS_Conflict = 5"
| "ws_rank WS_TooLarge = 6" | "ws_rank WS_NotFound = 7" | "ws_rank WS_Internal = 8"

definition all_mt :: "message_type list" where
  "all_mt = [MT_Unknown, MT_Hello, MT_HelloAck, MT_PublishCapability, MT_PublishReservation,
     MT_PublishAck, MT_Revoke, MT_Bye, MT_Ping, MT_Pong, MT_RegistryStatus]"

definition all_ws :: "wire_status list" where
  "all_ws = [WS_Ok, WS_Rejected, WS_Fenced, WS_Unauthorized, WS_Stale, WS_Conflict, WS_TooLarge,
     WS_NotFound, WS_Internal]"

primrec mt_to_string :: "message_type \<Rightarrow> string" where
  "mt_to_string MT_Unknown = ''unknown''"
| "mt_to_string MT_Hello = ''hello''"
| "mt_to_string MT_HelloAck = ''hello-ack''"
| "mt_to_string MT_PublishCapability = ''publish-capability''"
| "mt_to_string MT_PublishReservation = ''publish-reservation''"
| "mt_to_string MT_PublishAck = ''publish-ack''"
| "mt_to_string MT_Revoke = ''revoke''"
| "mt_to_string MT_Bye = ''bye''"
| "mt_to_string MT_Ping = ''ping''"
| "mt_to_string MT_Pong = ''pong''"
| "mt_to_string MT_RegistryStatus = ''registry-status''"

primrec ws_to_string :: "wire_status \<Rightarrow> string" where
  "ws_to_string WS_Ok = ''ok''"
| "ws_to_string WS_Rejected = ''rejected''"
| "ws_to_string WS_Fenced = ''fenced''"
| "ws_to_string WS_Unauthorized = ''unauthorized''"
| "ws_to_string WS_Stale = ''stale''"
| "ws_to_string WS_Conflict = ''conflict''"
| "ws_to_string WS_TooLarge = ''too-large''"
| "ws_to_string WS_NotFound = ''not-found''"
| "ws_to_string WS_Internal = ''internal''"

text \<open>The status a peer may see; every code without a status of its own is internal.\<close>

fun status_from_error :: "error_code \<Rightarrow> wire_status" where
  "status_from_error EC_Ok = WS_Ok"
| "status_from_error EC_InvalidArgument = WS_Rejected"
| "status_from_error EC_Malformed = WS_Rejected"
| "status_from_error EC_Fenced = WS_Fenced"
| "status_from_error EC_Unauthorized = WS_Unauthorized"
| "status_from_error EC_Stale = WS_Stale"
| "status_from_error EC_Conflict = WS_Conflict"
| "status_from_error EC_Duplicate = WS_Conflict"
| "status_from_error EC_TooLarge = WS_TooLarge"
| "status_from_error EC_NotFound = WS_NotFound"
| "status_from_error _ = WS_Internal"

section \<open>Frames\<close>

definition kFrameHeaderBytes :: nat where "kFrameHeaderBytes = 8"
definition kEnvelopeBytes :: nat where "kEnvelopeBytes = 7"
definition kMaxMessageType :: u8 where "kMaxMessageType = 10"
definition kMaxWireStatus :: u8 where "kMaxWireStatus = 8"
definition kWireProtocolVersion :: u16 where "kWireProtocolVersion = 1"

record frame =
  fr_type :: message_type
  fr_body :: bytes

text \<open>
  The envelope size is a checked sum of two sizes; it is refused when it does not fit in 64
  bits or exceeds the wire budget. The writer budgets are those of the code.
\<close>

definition encode_frame :: "message_type \<Rightarrow> bytes \<Rightarrow> bytes" where
  "encode_frame type body =
     (let envelope = kEnvelopeBytes + length body in
      if 2 ^ 64 \<le> envelope \<or> envelope > kMaxWireFrameBytes then []
      else
        let payload = w_seq [w_u16 kWireProtocolVersion, w_u8 (mt_rank type),
              w_u32 (word_of_nat (length body)), w_raw body] (new_writer kMaxWireFrameBytes) in
        if w_failed payload then []
        else
          let inner = w_buffer payload;
              frame = w_seq [w_u32 (word_of_nat (length inner)), w_u32 (crc32c inner), w_raw inner]
                (new_writer (kFrameHeaderBytes + length inner))
          in if w_failed frame then [] else w_buffer frame)"

text \<open>The second component is the number of bytes consumed, zero with every error.\<close>

definition refused :: "error_code \<Rightarrow> string \<Rightarrow> 'a result \<times> nat" where
  "refused c detail = (Inl (make_error c detail), 0)"

definition decode_frame_prefix :: "bytes \<Rightarrow> frame result \<times> nat" where
  "decode_frame_prefix bs =
     (if length bs < kFrameHeaderBytes then refused EC_Malformed ''frame header is incomplete''
      else
        let header = new_reader bs; (len, header) = r_u32 header; (expected_crc, header) = r_u32 header in
        if r_failed header then refused EC_Malformed ''frame header is malformed''
        else if unat len > kMaxWireFrameBytes
        then refused EC_TooLarge ''frame length exceeds the wire budget''
        else if 2 ^ 64 \<le> kFrameHeaderBytes + unat len
        then refused EC_Overflow ''frame length arithmetic overflowed''
        else
          let total = kFrameHeaderBytes + unat len in
          if length bs < total then refused EC_Malformed ''frame body is incomplete''
          else
            let payload = take (unat len) (drop kFrameHeaderBytes bs) in
            if crc32c payload \<noteq> expected_crc then refused EC_Corrupt ''frame checksum mismatch''
            else if unat len < kEnvelopeBytes
            then refused EC_Malformed ''frame payload is too small to be an envelope''
            else
              let r = new_reader payload; (version, r) = r_u16 r; (raw_type, r) = r_u8 r;
                  (body_length, r) = r_u32 r in
              if r_failed r then refused EC_Malformed ''frame envelope is truncated''
              else if version \<noteq> kWireProtocolVersion
              then refused EC_VersionMismatch ''wire protocol version is not supported''
              else if raw_type > kMaxMessageType
              then refused EC_Malformed ''message type is not recognised''
              else if unat body_length > unat len - kEnvelopeBytes
              then refused EC_Malformed ''declared body length exceeds the frame''
              else
                let (body, r) = r_raw (unat body_length) r in
                if r_failed r then refused EC_Malformed ''frame body is truncated''
                else if \<not> r_at_end r then refused EC_Malformed ''frame carries trailing bytes''
                else (Inr \<lparr>fr_type = all_mt ! unat raw_type, fr_body = body\<rparr>, total))"

definition decode_frame :: "bytes \<Rightarrow> frame result" where
  "decode_frame bs =
     (let (frame, consumed) = decode_frame_prefix bs in
      case frame of
        Inl e \<Rightarrow> Inl e
      | Inr f \<Rightarrow>
          if consumed \<noteq> length bs
          then Inl (make_error EC_Malformed ''buffer holds more than one frame'')
          else Inr f)"

section \<open>Message bodies\<close>

definition encode_body :: "(writer \<Rightarrow> writer) \<Rightarrow> bytes" where
  "encode_body emit =
     (let body = emit (new_writer kMaxWireFrameBytes) in if w_failed body then [] else w_buffer body)"

definition write_text :: "string \<Rightarrow> nat \<Rightarrow> writer \<Rightarrow> writer" where
  "write_text text max_len = w_str (take (min (length text) max_len) text) max_len"

definition read_text :: "nat \<Rightarrow> reader \<Rightarrow> string result \<times> reader" where
  "read_text max_len r =
     (let (text, r) = r_str max_len r
      in if r_failed r
         then (Inl (make_error EC_Malformed ''text field is malformed or over budget''), r)
         else (Inr text, r))"

record hello_message =
  he_publisher :: string
  he_incarnation :: publisher_incarnation
  he_boot :: bytes
  he_ttl_ms :: u32
  he_origin :: string

record hello_ack_message =
  ha_status :: wire_status
  ha_epoch :: fabric_epoch
  ha_lease :: lease_id
  ha_expires_at_ms :: u64
  ha_detail :: string

record publish_ack_message =
  pk_status :: wire_status
  pk_generation :: generation
  pk_sequence :: sequence_no
  pk_digest :: digest256
  pk_detail :: string

record registry_status_message =
  st_epoch :: fabric_epoch
  st_classes :: u64
  st_policies :: u64
  st_paths :: u64
  st_capabilities :: u64
  st_decisions :: u64
  st_publishers :: u64
  st_conflicts :: u64

definition encode_hello :: "hello_message \<Rightarrow> bytes" where
  "encode_hello v = encode_body (\<lambda>w.
     if \<not> is_valid (he_publisher v) then w_fail w
     else w_seq [w_str (he_publisher v) kMaxIdentifierLen, w_u64 (he_incarnation v),
       w_raw (he_boot v), w_u32 (he_ttl_ms v), write_text (he_origin v) kMaxOriginLen] w)"

text \<open>
  A copy into a fixed array of zeros: when the view is shorter, the tail stays zero. (The
  failed read that yields an empty view is refused before the array is used.)
\<close>

definition fixed_array :: "nat \<Rightarrow> bytes \<Rightarrow> bytes" where
  "fixed_array n view = view @ replicate (n - length view) 0"

definition decode_hello :: "bytes \<Rightarrow> hello_message result" where
  "decode_hello body = fst
     (bindD (read_text kMaxIdentifierLen (new_reader body)) (\<lambda>publisher r.
      let (incarnation, r) = r_u64 r; (boot, r) = r_raw kBootBytes r; (ttl, r) = r_u32 r in
      bindD (read_text kMaxOriginLen r) (\<lambda>origin r.
      if r_failed r \<or> \<not> r_at_end r
      then (Inl (make_error EC_Malformed ''hello message is malformed''), r)
      else if \<not> is_valid publisher \<or> incarnation = 0
      then (Inl (make_error EC_InvalidArgument ''hello message carries an invalid identity''), r)
      else (Inr \<lparr>he_publisher = publisher, he_incarnation = incarnation,
        he_boot = fixed_array kBootBytes boot, he_ttl_ms = ttl, he_origin = origin\<rparr>, r))))"

definition encode_hello_ack :: "hello_ack_message \<Rightarrow> bytes" where
  "encode_hello_ack v = encode_body (w_seq [w_u8 (ws_rank (ha_status v)), w_u64 (ha_epoch v),
     w_u64 (ha_lease v), w_u64 (ha_expires_at_ms v), write_text (ha_detail v) kMaxReasonLen])"

definition decode_hello_ack :: "bytes \<Rightarrow> hello_ack_message result" where
  "decode_hello_ack body =
     (let (status, r) = r_u8 (new_reader body); (epoch, r) = r_u64 r; (lease, r) = r_u64 r;
          (expires, r) = r_u64 r in fst
      (bindD (read_text kMaxReasonLen r) (\<lambda>detail r.
       if r_failed r \<or> \<not> r_at_end r \<or> status > kMaxWireStatus
       then (Inl (make_error EC_Malformed ''hello acknowledgement is malformed''), r)
       else (Inr \<lparr>ha_status = all_ws ! unat status, ha_epoch = epoch, ha_lease = lease,
         ha_expires_at_ms = expires, ha_detail = detail\<rparr>, r))))"

definition encode_publish_ack :: "publish_ack_message \<Rightarrow> bytes" where
  "encode_publish_ack v = encode_body (w_seq [w_u8 (ws_rank (pk_status v)), w_u64 (pk_generation v),
     w_u64 (pk_sequence v), w_raw (pk_digest v), write_text (pk_detail v) kMaxReasonLen])"

definition decode_publish_ack :: "bytes \<Rightarrow> publish_ack_message result" where
  "decode_publish_ack body =
     (let (status, r) = r_u8 (new_reader body); (generation, r) = r_u64 r; (sequence, r) = r_u64 r;
          (digest, r) = r_raw kDigestBytes r in fst
      (bindD (read_text kMaxReasonLen r) (\<lambda>detail r.
       if r_failed r \<or> \<not> r_at_end r \<or> status > kMaxWireStatus
       then (Inl (make_error EC_Malformed ''publish acknowledgement is malformed''), r)
       else (Inr \<lparr>pk_status = all_ws ! unat status, pk_generation = generation,
         pk_sequence = sequence, pk_digest = fixed_array kDigestBytes digest, pk_detail = detail\<rparr>, r))))"

definition encode_registry_status :: "registry_status_message \<Rightarrow> bytes" where
  "encode_registry_status v = encode_body (w_seq [w_u64 (st_epoch v), w_u64 (st_classes v),
     w_u64 (st_policies v), w_u64 (st_paths v), w_u64 (st_capabilities v), w_u64 (st_decisions v),
     w_u64 (st_publishers v), w_u64 (st_conflicts v)])"

definition decode_registry_status :: "bytes \<Rightarrow> registry_status_message result" where
  "decode_registry_status body =
     (let (epoch, r) = r_u64 (new_reader body); (classes, r) = r_u64 r; (policies, r) = r_u64 r;
          (paths, r) = r_u64 r; (capabilities, r) = r_u64 r; (decisions, r) = r_u64 r;
          (publishers, r) = r_u64 r; (conflicts, r) = r_u64 r in
      if r_failed r \<or> \<not> r_at_end r
      then Inl (make_error EC_Malformed ''registry status message is malformed'')
      else Inr \<lparr>st_epoch = epoch, st_classes = classes, st_policies = policies, st_paths = paths,
        st_capabilities = capabilities, st_decisions = decisions, st_publishers = publishers,
        st_conflicts = conflicts\<rparr>)"

section \<open>The layout of a frame\<close>

definition lay_payload :: "message_type \<Rightarrow> bytes \<Rightarrow> bytes" where
  "lay_payload type body =
     lay_u16 kWireProtocolVersion @ lay_u8 (mt_rank type) @ lay_u32 (word_of_nat (length body)) @ body"

definition lay_frame :: "message_type \<Rightarrow> bytes \<Rightarrow> bytes" where
  "lay_frame type body =
     lay_u32 (word_of_nat (length (lay_payload type body))) @ lay_u32 (crc32c (lay_payload type body)) @
       lay_payload type body"

lemma length_lay_payload [simp]: "length (lay_payload type body) = kEnvelopeBytes + length body"
  by (simp add: lay_payload_def kEnvelopeBytes_def)

lemma length_lay_frame [simp]: "length (lay_frame type body) = kFrameHeaderBytes + kEnvelopeBytes + length body"
  by (simp add: lay_frame_def kFrameHeaderBytes_def)

lemma mt_rank_bound [simp]: "\<not> kMaxMessageType < mt_rank t" "all_mt ! unat (mt_rank t) = t"
  by (cases t; simp add: kMaxMessageType_def all_mt_def)+

lemma ws_rank_bound [simp]: "\<not> kMaxWireStatus < ws_rank s" "all_ws ! unat (ws_rank s) = s"
  by (cases s; simp add: kMaxWireStatus_def all_ws_def)+


lemma encode_frame_eq:
  "encode_frame type body =
     (if kEnvelopeBytes + length body \<le> kMaxWireFrameBytes then lay_frame type body else [])"
proof (cases "kEnvelopeBytes + length body \<le> kMaxWireFrameBytes")
  case True
  have p: "emits (w_seq [w_u16 kWireProtocolVersion, w_u8 (mt_rank type), w_u32 (word_of_nat (length body)), w_raw body])
      (lay_payload type body)"
    using emits_fields [of "[w_u16 kWireProtocolVersion, w_u8 (mt_rank type), w_u32 (word_of_nat (length body)), w_raw body]"
        "[lay_u16 kWireProtocolVersion, lay_u8 (mt_rank type), lay_u32 (word_of_nat (length body)), body]"]
    by (simp add: writes_intros emits_raw lay_payload_def)
  let ?i = "lay_payload type body"
  have f: "emits (w_seq [w_u32 (word_of_nat (length ?i)), w_u32 (crc32c ?i), w_raw ?i]) (lay_frame type body)"
    using emits_fields [of "[w_u32 (word_of_nat (length ?i)), w_u32 (crc32c ?i), w_raw ?i]"
        "[lay_u32 (word_of_nat (length ?i)), lay_u32 (crc32c ?i), ?i]"]
    by (simp add: writes_intros emits_raw lay_frame_def)
  have "kMaxWireFrameBytes < 2 ^ 64" by (simp add: kMaxWireFrameBytes_def)
  with True show ?thesis
    using emits_encode [OF p, of kMaxWireFrameBytes] emits_encode [OF f, of "kFrameHeaderBytes + length ?i"]
    by (simp add: encode_frame_def Let_def)
next
  case False
  then show ?thesis by (simp add: encode_frame_def Let_def)
qed

lemma decode_frame_prefix_lay:
  assumes "kEnvelopeBytes + length body \<le> kMaxWireFrameBytes"
  shows "decode_frame_prefix (lay_frame type body @ rest) =
    (Inr \<lparr>fr_type = type, fr_body = body\<rparr>, length (lay_frame type body))"
proof -
  let ?i = "lay_payload type body"
  have n: "unat (word_of_nat (kEnvelopeBytes + length body) :: u32) = kEnvelopeBytes + length body"
    "unat (word_of_nat (length body) :: u32) = length body"
    using assms by (simp_all add: unat_of_nat_u32 kMaxWireFrameBytes_def del: of_nat_add)
  have h: "r_u32 (new_reader (lay_frame type body @ rest)) =
      (word_of_nat (length ?i), rd (lay_u32 (word_of_nat (length ?i))) (lay_u32 (crc32c ?i) @ ?i @ rest))"
    unfolding new_reader_rd lay_frame_def append_assoc r_u32_codec by simp
  have s: "take (kEnvelopeBytes + length body) (drop kFrameHeaderBytes (lay_frame type body @ rest)) = ?i"
    by (simp add: lay_frame_def kFrameHeaderBytes_def)
  have p: "r_u16 (new_reader ?i) = (kWireProtocolVersion, rd (lay_u16 kWireProtocolVersion)
      (lay_u8 (mt_rank type) @ lay_u32 (word_of_nat (length body)) @ body))"
    unfolding new_reader_rd lay_payload_def r_u16_codec by simp
  have l: "\<not> length (lay_frame type body @ rest) < kFrameHeaderBytes"
    "\<not> length (lay_frame type body @ rest) < kFrameHeaderBytes + (kEnvelopeBytes + length body)"
    "\<not> 18446744073709551616 \<le> kFrameHeaderBytes + (kEnvelopeBytes + length body)"
    using assms by (simp_all add: kMaxWireFrameBytes_def kFrameHeaderBytes_def)
  show ?thesis
    unfolding decode_frame_prefix_def Let_def h p prod.case if_not_P [OF l(1)]
    using assms
    by (simp add: r_u32_codec r_u8_codec r_raw_rd s p n l kFrameHeaderBytes_def [symmetric] del: of_nat_add take_append drop_append)

qed

section \<open>The decoder accepts exactly the encoder's frames\<close>

lemma mt_rank_all: "\<not> kMaxMessageType < k \<Longrightarrow> mt_rank (all_mt ! unat k) = k"
proof -
  assume "\<not> kMaxMessageType < k"
  then have "unat k \<le> 10" by (simp add: kMaxMessageType_def word_less_nat_alt)
  then have "k \<in> set (map word_of_nat [0..<11])" by (auto intro: image_eqI [of _ _ "unat k"])
  moreover have "\<forall>k \<in> set (map word_of_nat [0..<11]). mt_rank (all_mt ! unat (k :: u8)) = k"
    by code_simp
  ultimately show ?thesis by blast
qed

lemma refused_Inr [simp]: "refused c d \<noteq> (Inr f, n)"
  by (simp add: refused_def)

lemma decode_payload:
  assumes "kEnvelopeBytes \<le> length p"
  obtains v t n rest where "p = lay_u16 v @ lay_u8 t @ lay_u32 n @ rest" "length rest = length p - kEnvelopeBytes"
proof -
  have l: "7 \<le> length p" using assms by (simp add: kEnvelopeBytes_def)
  obtain v where v: "p = lay_u16 v @ drop 2 p" by (rule lay_u16_split [of p]) (use l that in \<open>simp_all add: numeral_eq_Suc\<close>)
  obtain t where t: "drop 2 p = lay_u8 t @ drop 3 p" by (rule lay_u8_split [of "drop 2 p"]) (use l that in \<open>simp_all add: numeral_eq_Suc\<close>)
  obtain n where n: "drop 3 p = lay_u32 n @ drop 7 p" by (rule lay_u32_split [of "drop 3 p"]) (use l that in \<open>simp_all add: numeral_eq_Suc\<close>)
  show ?thesis
    by (rule that [of v t n "drop 7 p"]) (use v t n in \<open>simp_all add: kEnvelopeBytes_def\<close>)
qed

lemma decode_frame_prefixD:
  assumes d: "decode_frame_prefix bs = (Inr f, n)"
  shows "\<exists>rest. bs = lay_frame (fr_type f) (fr_body f) @ rest \<and> n = length (lay_frame (fr_type f) (fr_body f)) \<and>
    kEnvelopeBytes + length (fr_body f) \<le> kMaxWireFrameBytes"
proof -
  have l8: "8 \<le> length bs"
    using d by (simp add: decode_frame_prefix_def kFrameHeaderBytes_def split: if_splits)
  obtain len where h1: "bs = lay_u32 len @ drop 4 bs" by (rule lay_u32_split [of bs]) (use l8 that in \<open>simp_all add: numeral_eq_Suc\<close>)
  obtain crc where h2: "drop 4 bs = lay_u32 crc @ drop 8 bs" by (rule lay_u32_split [of "drop 4 bs"]) (use l8 that in \<open>simp_all add: numeral_eq_Suc\<close>)
  have bs: "bs = lay_u32 len @ lay_u32 crc @ drop 8 bs" using h1 h2 by simp
  have r1: "r_u32 (new_reader bs) = (len, rd (lay_u32 len) (lay_u32 crc @ drop 8 bs))"
    by (subst bs) (simp add: new_reader_rd r_u32_codec)
  have r2: "r_u32 (rd (lay_u32 len) (lay_u32 crc @ drop 8 bs)) = (crc, rd (lay_u32 len @ lay_u32 crc) (drop 8 bs))"
    by (simp add: r_u32_codec)
  let ?p = "take (unat len) (drop kFrameHeaderBytes bs)"
  note d1 = d [unfolded decode_frame_prefix_def Let_def r1 r2 prod.case]
  have c: "unat len \<le> kMaxWireFrameBytes" "kFrameHeaderBytes + unat len \<le> length bs" "crc32c ?p = crc"
      "kEnvelopeBytes \<le> unat len"
    using d1 by (auto split: if_splits)
  have lp: "length ?p = unat len" using c(2) by simp
  obtain v t m rest where p: "?p = lay_u16 v @ lay_u8 t @ lay_u32 m @ rest" "length rest = unat len - kEnvelopeBytes"
    using decode_payload [of ?p] c(4) lp by metis
  have r3: "r_u16 (new_reader ?p) = (v, rd (lay_u16 v) (lay_u8 t @ lay_u32 m @ rest))"
    unfolding p(1) by (simp add: new_reader_rd r_u16_codec)
  note d2 = d1 [unfolded r3 prod.case r_u8_codec r_u32_codec]
  have e: "v = kWireProtocolVersion" "\<not> kMaxMessageType < t" "unat m \<le> length rest" 
      "rest = take (unat m) rest" "f = \<lparr>fr_type = all_mt ! unat t, fr_body = rest\<rparr>" "n = kFrameHeaderBytes + unat len"
    using d2 c p(2) by (auto simp: r_raw_rd split: if_splits prod.splits)
  have m: "unat m = length rest" using e(3,4) by (metis length_take min.absorb2)
  have "word_of_nat (length rest) = m" by (simp flip: m)
  then have "?p = lay_payload (fr_type f) (fr_body f)"
    unfolding p(1) using e(1,5) mt_rank_all [OF e(2)] by (simp add: lay_payload_def)
  moreover have "length (lay_payload (fr_type f) (fr_body f)) = unat len"
    using lp calculation by metis
  moreover have "drop 8 bs = ?p @ drop (kFrameHeaderBytes + unat len) bs"
    by (simp add: kFrameHeaderBytes_def add.commute flip: drop_drop)
  ultimately have "bs = lay_frame (fr_type f) (fr_body f) @ drop (kFrameHeaderBytes + unat len) bs"
    unfolding lay_frame_def using bs c(3) by (simp del: length_lay_payload)
  moreover have "n = length (lay_frame (fr_type f) (fr_body f))"
    using e(5,6) p(2) c(4) by simp
  moreover have "kEnvelopeBytes + length (fr_body f) \<le> kMaxWireFrameBytes"
    using c(1,4) p(2) e(5) by simp
  ultimately show ?thesis by blast
qed

lemma decode_frame_prefix_accepts:
  "decode_frame_prefix bs = (Inr f, n) \<longleftrightarrow>
     (\<exists>rest. bs = lay_frame (fr_type f) (fr_body f) @ rest \<and> n = length (lay_frame (fr_type f) (fr_body f)) \<and>
       kEnvelopeBytes + length (fr_body f) \<le> kMaxWireFrameBytes)"
  (is "?L \<longleftrightarrow> ?R")
proof
  show "?L \<Longrightarrow> ?R" by (rule decode_frame_prefixD)
  assume ?R
  then show ?L using decode_frame_prefix_lay [of "fr_body f" "fr_type f"] by auto
qed

lemma decode_frame_iff:
  "decode_frame bs = Inr f \<longleftrightarrow> decode_frame_prefix bs = (Inr f, length bs)"
  by (cases "decode_frame_prefix bs") (auto simp: decode_frame_def split: sum.splits)

lemma decode_frame_error: "decode_frame_prefix bs = (Inl e, n) \<Longrightarrow> decode_frame bs = Inl e"
  by (simp add: decode_frame_def)

lemma bad_checksum:
  assumes "length p \<le> kMaxWireFrameBytes" "crc32c p \<noteq> c"
  shows "decode_frame (lay_u32 (word_of_nat (length p)) @ lay_u32 c @ p) =
    Inl (make_error EC_Corrupt ''frame checksum mismatch'')"
proof (rule decode_frame_error)
  let ?bs = "lay_u32 (word_of_nat (length p)) @ lay_u32 c @ p"
  have u: "unat (word_of_nat (length p) :: u32) = length p"
    using assms(1) by (intro unat_of_nat_u32) (simp add: kMaxWireFrameBytes_def)
  have r1: "r_u32 (new_reader ?bs) = (word_of_nat (length p), rd (lay_u32 (word_of_nat (length p))) (lay_u32 c @ p))"
    by (simp add: new_reader_rd r_u32_codec)
  have s: "take (length p) (drop kFrameHeaderBytes ?bs) = p" by (simp add: kFrameHeaderBytes_def)
  have l: "\<not> length ?bs < kFrameHeaderBytes" "\<not> length ?bs < kFrameHeaderBytes + length p"
    "\<not> 18446744073709551616 \<le> kFrameHeaderBytes + length p"
    using assms(1) by (simp_all add: kFrameHeaderBytes_def kMaxWireFrameBytes_def)
  show "decode_frame_prefix (lay_u32 (word_of_nat (length p)) @ lay_u32 c @ p) =
      (Inl (make_error EC_Corrupt ''frame checksum mismatch''), 0)"
    unfolding decode_frame_prefix_def Let_def r1 prod.case if_not_P [OF l(1)]
    using assms by (simp add: r_u32_codec u s l refused_def del: take_append drop_append length_append)
qed

section \<open>Properties\<close>

text \<open>
  C27: the frame decoder accepts a buffer exactly when it is the encoding of the frame it
  returns, within the wire budget: nothing but an encoder's output is ever accepted, and every
  encoding is accepted.
\<close>

theorem frames_accepted_exactly:
  "decode_frame bs = Inr f \<longleftrightarrow>
     bs = encode_frame (fr_type f) (fr_body f) \<and> kEnvelopeBytes + length (fr_body f) \<le> kMaxWireFrameBytes"
  unfolding decode_frame_iff decode_frame_prefix_accepts encode_frame_eq by auto

text \<open>
  A frame at the head of a stream is read back whatever follows it, consuming exactly its
  own bytes.
\<close>

theorem frame_read_from_stream:
  assumes "kEnvelopeBytes + length body \<le> kMaxWireFrameBytes"
  shows "decode_frame_prefix (encode_frame type body @ rest) =
    (Inr \<lparr>fr_type = type, fr_body = body\<rparr>, length (encode_frame type body))"
  using decode_frame_prefix_lay [OF assms] assms by (simp add: encode_frame_eq)

theorem frame_read_from_stream_witness:
  "fst (decode_frame_prefix (encode_frame MT_Ping [1, 2] @ [9, 9, 9])) = Inr \<lparr>fr_type = MT_Ping, fr_body = [1, 2]\<rparr>"
  using frame_read_from_stream [of "[1, 2]" MT_Ping "[9, 9, 9]"] by (simp add: kEnvelopeBytes_def kMaxWireFrameBytes_def)

text \<open>C28: changing any single byte of a frame behind its length field is detected as corruption.\<close>

theorem corrupted_frame_refused:
  assumes "kEnvelopeBytes + length body \<le> kMaxWireFrameBytes"
    and "4 \<le> i" and "i < length (encode_frame type body)" and "b \<noteq> encode_frame type body ! i"
  shows "decode_frame ((encode_frame type body)[i := b]) = Inl (make_error EC_Corrupt ''frame checksum mismatch'')"
proof -
  let ?p = "lay_payload type body"
  have e: "encode_frame type body = lay_block ?p"
    using assms(1) by (simp add: encode_frame_eq lay_frame_def lay_block_def)
  from lay_block_damaged [OF assms(2), of ?p b] assms(3,4)
  obtain c q where "(encode_frame type body)[i := b] = lay_u32 (word_of_nat (length ?p)) @ lay_u32 c @ q"
    "length q = length ?p" "crc32c q \<noteq> c" unfolding e by blast
  with bad_checksum [of q c] assms(1) show ?thesis by simp
qed

theorem corrupted_frame_refused_witness:
  "decode_frame ((encode_frame MT_Bye [])[14 := encode_frame MT_Bye [] ! 14 + 1]) =
   Inl (make_error EC_Corrupt ''frame checksum mismatch'')"
  by (rule corrupted_frame_refused)
    (simp_all add: encode_frame_eq kEnvelopeBytes_def kMaxWireFrameBytes_def kFrameHeaderBytes_def)

section \<open>Messages\<close>

lemma emits_text [writes_intros]: "emits (write_text s n) (lay_str (take n s))"
  unfolding write_text_def by (cases "length s \<le> n") (auto intro!: emits_str simp: min_def)

lemma read_text_codec [codec]:
  "length s \<le> n \<Longrightarrow> length s \<le> 0xFFFFFFFF \<Longrightarrow> read_text n (rd pre (lay_str s @ xs)) = (Inr s, rd (pre @ lay_str s) xs)"
  by (simp add: read_text_def r_str_codec)

lemma read_text_last:
  "length s \<le> n \<Longrightarrow> length s \<le> 0xFFFFFFFF \<Longrightarrow> read_text n (rd pre (lay_str s)) = (Inr s, rd (pre @ lay_str s) [])"
  using read_text_codec [of s n pre "[]"] by simp

lemma encode_body_lay:
  "emits emit lay \<Longrightarrow> length lay \<le> kMaxWireFrameBytes \<Longrightarrow> encode_body emit = lay"
  using emits_encode [of emit lay kMaxWireFrameBytes] by (simp add: encode_body_def)

lemma encode_hello_lay:
  assumes "is_valid (he_publisher h)" and "length (he_boot h) = kBootBytes"
  shows "encode_hello h = lay_str (he_publisher h) @ lay_u64 (he_incarnation h) @ he_boot h @
      lay_u32 (he_ttl_ms h) @ lay_str (take kMaxOriginLen (he_origin h))"
    "kEnvelopeBytes + length (encode_hello h) \<le> kMaxWireFrameBytes"
proof -
  let ?o = "take kMaxOriginLen (he_origin h)"
  let ?fs = "[w_str (he_publisher h) kMaxIdentifierLen, w_u64 (he_incarnation h), w_raw (he_boot h),
      w_u32 (he_ttl_ms h), write_text (he_origin h) kMaxOriginLen]"
  let ?ls = "[lay_str (he_publisher h), lay_u64 (he_incarnation h), he_boot h, lay_u32 (he_ttl_ms h), lay_str ?o]"
  have v: "length (he_publisher h) \<le> kMaxIdentifierLen" using is_valid_identifier_length [OF assms(1)] by simp
  have "emits (w_seq ?fs) (concat ?ls)"
    by (rule emits_fields) (simp add: writes_intros emits_raw v)
  moreover have "encode_hello h = encode_body (w_seq ?fs)" using assms(1) by (simp add: encode_hello_def)
  moreover have l: "kEnvelopeBytes + length (concat ?ls) \<le> kMaxWireFrameBytes"
    using v assms(2) by (simp add: kMaxIdentifierLen_def kMaxOriginLen_def kBootBytes_def kMaxWireFrameBytes_def kEnvelopeBytes_def)
  ultimately have e: "encode_hello h = concat ?ls" by (simp only: encode_body_lay add_leE)
  then show "encode_hello h = lay_str (he_publisher h) @ lay_u64 (he_incarnation h) @ he_boot h @
      lay_u32 (he_ttl_ms h) @ lay_str ?o" by simp
  show "kEnvelopeBytes + length (encode_hello h) \<le> kMaxWireFrameBytes" using l unfolding e .
qed

lemma hello_roundtrip:
  assumes "is_valid (he_publisher h)" and "he_incarnation h \<noteq> 0" and "length (he_boot h) = kBootBytes"
  shows "decode_hello (encode_hello h) = Inr (h\<lparr>he_origin := take kMaxOriginLen (he_origin h)\<rparr>)"
proof -
  have v: "length (he_publisher h) \<le> kMaxIdentifierLen" using is_valid_identifier_length [OF assms(1)] by simp
  then have p: "length (he_publisher h) \<le> 0xFFFFFFFF" "length (take kMaxOriginLen (he_origin h)) \<le> 0xFFFFFFFF"
    by (simp_all add: kMaxIdentifierLen_def kMaxOriginLen_def)
  show ?thesis
    using assms v p unfolding encode_hello_lay(1) [OF assms(1,3)] decode_hello_def new_reader_rd
    by (simp add: codec read_text_last r_raw_codec fixed_array_def)
qed

lemma encode_hello_ack_lay:
  "encode_hello_ack a = lay_u8 (ws_rank (ha_status a)) @ lay_u64 (ha_epoch a) @ lay_u64 (ha_lease a) @
     lay_u64 (ha_expires_at_ms a) @ lay_str (take kMaxReasonLen (ha_detail a))"
  "kEnvelopeBytes + length (encode_hello_ack a) \<le> kMaxWireFrameBytes"
proof -
  let ?o = "take kMaxReasonLen (ha_detail a)"
  let ?fs = "[w_u8 (ws_rank (ha_status a)), w_u64 (ha_epoch a), w_u64 (ha_lease a), w_u64 (ha_expires_at_ms a),
      write_text (ha_detail a) kMaxReasonLen]"
  let ?ls = "[lay_u8 (ws_rank (ha_status a)), lay_u64 (ha_epoch a), lay_u64 (ha_lease a), lay_u64 (ha_expires_at_ms a), lay_str ?o]"
  have "emits (w_seq ?fs) (concat ?ls)"
    by (rule emits_fields) (simp add: writes_intros)
  moreover have l: "kEnvelopeBytes + length (concat ?ls) \<le> kMaxWireFrameBytes"
    by (simp add: kMaxReasonLen_def kMaxWireFrameBytes_def kEnvelopeBytes_def)
  ultimately have e: "encode_hello_ack a = concat ?ls" by (simp only: encode_hello_ack_def encode_body_lay add_leE)
  then show "encode_hello_ack a = lay_u8 (ws_rank (ha_status a)) @ lay_u64 (ha_epoch a) @ lay_u64 (ha_lease a) @
     lay_u64 (ha_expires_at_ms a) @ lay_str ?o" by simp
  show "kEnvelopeBytes + length (encode_hello_ack a) \<le> kMaxWireFrameBytes" using l unfolding e .
qed

lemma hello_ack_roundtrip:
  "decode_hello_ack (encode_hello_ack a) = Inr (a\<lparr>ha_detail := take kMaxReasonLen (ha_detail a)\<rparr>)"
proof -
  have p: "length (take kMaxReasonLen (ha_detail a)) \<le> 0xFFFFFFFF" by (simp add: kMaxReasonLen_def)
  show ?thesis
    using p unfolding encode_hello_ack_lay(1) decode_hello_ack_def new_reader_rd
    by (simp add: codec read_text_last)
qed

lemma publish_ack_roundtrip:
  assumes "length (pk_digest a) = kDigestBytes"
  shows "decode_publish_ack (encode_publish_ack a) = Inr (a\<lparr>pk_detail := take kMaxReasonLen (pk_detail a)\<rparr>)"
proof -
  let ?o = "take kMaxReasonLen (pk_detail a)"
  let ?fs = "[w_u8 (ws_rank (pk_status a)), w_u64 (pk_generation a), w_u64 (pk_sequence a), w_raw (pk_digest a),
      write_text (pk_detail a) kMaxReasonLen]"
  let ?ls = "[lay_u8 (ws_rank (pk_status a)), lay_u64 (pk_generation a), lay_u64 (pk_sequence a), pk_digest a, lay_str ?o]"
  have "emits (w_seq ?fs) (concat ?ls)"
    by (rule emits_fields) (simp add: writes_intros emits_raw)
  moreover have "length (concat ?ls) \<le> kMaxWireFrameBytes"
    using assms by (simp add: kMaxReasonLen_def kMaxWireFrameBytes_def kDigestBytes_def)
  ultimately have e: "encode_publish_ack a = concat ?ls" by (simp only: encode_publish_ack_def encode_body_lay)
  have p: "length ?o \<le> 0xFFFFFFFF" by (simp add: kMaxReasonLen_def)
  show ?thesis
    using p assms unfolding e decode_publish_ack_def new_reader_rd
    by (simp add: codec read_text_last r_raw_codec fixed_array_def)
qed

lemma registry_status_roundtrip: "decode_registry_status (encode_registry_status s) = Inr s"
proof -
  let ?f = "[st_epoch s, st_classes s, st_policies s, st_paths s, st_capabilities s, st_decisions s, st_publishers s, st_conflicts s]"
  have "emits (w_seq (map w_u64 ?f)) (concat (map lay_u64 ?f))"
    by (rule emits_fields) (simp add: writes_intros)
  moreover have "length (concat (map lay_u64 ?f)) \<le> kMaxWireFrameBytes" by (simp add: kMaxWireFrameBytes_def)
  ultimately have e: "encode_registry_status s = concat (map lay_u64 ?f)"
    by (simp only: encode_registry_status_def list.map encode_body_lay)
  have last: "r_u64 (rd pre (lay_u64 v)) = (v, rd (pre @ lay_u64 v) [])" for pre v
    using r_u64_codec [of pre v "[]"] by simp
  show ?thesis unfolding e decode_registry_status_def new_reader_rd by (simp add: codec last)
qed

text \<open>
  C29: every control message round-trips: a hello with a valid publisher and a non-zero
  incarnation, both acknowledgements and the registry status decode to what was encoded, the
  free text of a message clipped to its budget.
\<close>

theorem messages_roundtrip:
  assumes "is_valid (he_publisher h)" and "he_incarnation h \<noteq> 0" and "length (he_boot h) = kBootBytes"
    and "length (pk_digest p) = kDigestBytes"
  shows "decode_hello (encode_hello h) = Inr (h\<lparr>he_origin := take kMaxOriginLen (he_origin h)\<rparr>) \<and>
    decode_hello_ack (encode_hello_ack a) = Inr (a\<lparr>ha_detail := take kMaxReasonLen (ha_detail a)\<rparr>) \<and>
    decode_publish_ack (encode_publish_ack p) = Inr (p\<lparr>pk_detail := take kMaxReasonLen (pk_detail p)\<rparr>) \<and>
    decode_registry_status (encode_registry_status s) = Inr s"
  using hello_roundtrip [OF assms(1-3)] hello_ack_roundtrip publish_ack_roundtrip [OF assms(4)]
    registry_status_roundtrip by blast

theorem messages_roundtrip_witness:
  "decode_hello (encode_hello \<lparr>he_publisher = ''agent'', he_incarnation = 3, he_boot = replicate 16 7,
     he_ttl_ms = 5000, he_origin = ''host''\<rparr>) =
   Inr \<lparr>he_publisher = ''agent'', he_incarnation = 3, he_boot = replicate 16 7, he_ttl_ms = 5000, he_origin = ''host''\<rparr>"
proof -
  have "is_valid ''agent''" by code_simp
  then show ?thesis
    using messages_roundtrip [of "\<lparr>he_publisher = ''agent'', he_incarnation = 3, he_boot = replicate 16 7,
      he_ttl_ms = 5000, he_origin = ''host''\<rparr>" "\<lparr>pk_status = WS_Ok, pk_generation = 1, pk_sequence = 1, pk_digest = zero_digest, pk_detail = []\<rparr>"]
    by (simp add: kBootBytes_def zero_digest_def kMaxOriginLen_def)
qed

end
