(* ===== verification/Disk.thy ===== *)
theory Disk
  imports Model "HOL-Library.AList"
begin

text \<open>
  The files a store keeps, and the file-system helpers at the head of \<open>src/store.cpp\<close> over
  them. A disk holds files by path, directories, and the outcomes of the system calls to come:
  a call takes the next outcome, \<^term>\<open>None\<close> for success and \<open>Some k\<close> for a failure, which for
  a write means that only the first \<open>k\<close> bytes reached the file. An empty list is a disk on which
  nothing fails any more. A path is the UTF-8 string the program builds, on the platforms where
  \<open>native_path\<close> is the identity.
\<close>

section \<open>The disk and its outcomes\<close>

record disk =
  d_files :: "(string \<times> bytes) list"
  d_dirs :: "string list"
  d_faults :: "nat option list"

definition io_step :: "disk \<Rightarrow> nat option \<times> disk" where
  "io_step d = (case d_faults d of [] \<Rightarrow> (None, d) | f # fs \<Rightarrow> (f, d\<lparr>d_faults := fs\<rparr>))"

definition file_at :: "disk \<Rightarrow> string \<Rightarrow> bytes option" where
  "file_at d path = map_of (d_files d) path"

definition put_file :: "string \<Rightarrow> bytes \<Rightarrow> disk \<Rightarrow> disk" where
  "put_file path bs d = d\<lparr>d_files := AList.update path bs (d_files d)\<rparr>"

definition drop_file :: "string \<Rightarrow> disk \<Rightarrow> disk" where
  "drop_file path d = d\<lparr>d_files := AList.delete path (d_files d)\<rparr>"

text \<open>A system call whose failure is reported with a message and changes nothing.\<close>

definition sys :: "string \<Rightarrow> disk \<Rightarrow> unit result \<times> disk" where
  "sys detail d =
     (let (f, d) = io_step d
      in case f of None \<Rightarrow> (Inr (), d) | Some _ \<Rightarrow> (Inl (make_error EC_IoError detail), d))"

section \<open>Paths\<close>

definition join_path :: "string \<Rightarrow> string \<Rightarrow> string" where
  "join_path directory leaf =
     (if directory = [] then leaf
      else if last directory = CHR ''/'' \<or> last directory = CHR 0x5C then directory @ leaf
      else directory @ ''/'' @ leaf)"

section \<open>File-system helpers\<close>

definition path_exists :: "string \<Rightarrow> disk \<Rightarrow> bool result \<times> disk" where
  "path_exists path d =
     bindD (sys ''existence check failed'' d) (\<lambda>_ d.
       (Inr (file_at d path \<noteq> None \<or> path \<in> set (d_dirs d)), d))"

definition ensure_directory :: "string \<Rightarrow> disk \<Rightarrow> unit result \<times> disk" where
  "ensure_directory path d =
     (let (f, d) = io_step d in
      case f of
        None \<Rightarrow> (Inr (), d\<lparr>d_dirs := List.insert path (d_dirs d)\<rparr>)
      | Some _ \<Rightarrow>
          let (probe, d) = io_step d in
          if path \<notin> set (d_dirs d) \<or> probe \<noteq> None
          then (Inl (make_error EC_IoError ''cannot create store directory''), d)
          else (Inr (), d))"

definition read_file :: "string \<Rightarrow> nat \<Rightarrow> disk \<Rightarrow> bytes result \<times> disk" where
  "read_file path max_bytes d =
     (let (f, d) = io_step d in
      case (f, file_at d path) of
        (None, Some bs) \<Rightarrow>
          bindD (sys ''seek failed'' d) (\<lambda>_ d.
          bindD (sys ''tell failed'' d) (\<lambda>_ d.
            if length bs > max_bytes
            then (Inl (make_error EC_TooLarge ''file exceeds the configured read budget''), d)
            else bindD (sys ''seek failed'' d) (\<lambda>_ d.
              if bs \<noteq> [] then bindD (sys ''short read'' d) (\<lambda>_ d. (Inr bs, d)) else (Inr [], d))))
      | _ \<Rightarrow> (Inl (make_error EC_NotFound (''cannot open file for reading: '' @ path)), d))"

definition remove_file :: "string \<Rightarrow> disk \<Rightarrow> unit result \<times> disk" where
  "remove_file path d =
     bindD (sys ''cannot remove file'' d) (\<lambda>_ d. (Inr (), drop_file path d))"

definition sync_handle :: "disk \<Rightarrow> unit result \<times> disk" where
  "sync_handle d = bindD (sys ''flush failed'' d) (\<lambda>_ d. sys ''fsync failed'' d)"

definition sync_directory :: "string \<Rightarrow> disk \<Rightarrow> unit result \<times> disk" where
  "sync_directory directory d =
     bindD (sys ''cannot open directory for sync'' d) (\<lambda>_ d. sys ''directory fsync failed'' d)"

definition atomic_replace :: "string \<Rightarrow> string \<Rightarrow> disk \<Rightarrow> unit result \<times> disk" where
  "atomic_replace source target d =
     bindD (sys ''atomic replace failed'' d) (\<lambda>_ d.
       case file_at d source of
         None \<Rightarrow> (Inl (make_error EC_IoError ''atomic replace failed''), d)
       | Some bs \<Rightarrow> (Inr (), put_file target bs (drop_file source d)))"

definition temp_path :: "string \<Rightarrow> string" where "temp_path path = path @ ''.tmp''"

definition write_file_atomic :: "string \<Rightarrow> bytes \<Rightarrow> disk \<Rightarrow> unit result \<times> disk" where
  "write_file_atomic path bs d =
     bindD (sys ''cannot open temporary file for writing'' d) (\<lambda>_ d.
       let (f, d) = (if bs = [] then (None, d) else io_step d) in
       case f of
         Some k \<Rightarrow>
           let (_, d) = remove_file (temp_path path) (put_file (temp_path path) (take k bs) d)
           in (Inl (make_error EC_IoError ''short write''), d)
       | None \<Rightarrow>
           let (synced, d) = sync_handle (put_file (temp_path path) bs d) in
           case synced of
             Inl e \<Rightarrow> let (_, d) = remove_file (temp_path path) d in (Inl e, d)
           | Inr _ \<Rightarrow> atomic_replace (temp_path path) path d)"

text \<open>The names in a directory: what follows its prefix in a path, if that is a single name.\<close>

definition entry_names :: "string \<Rightarrow> disk \<Rightarrow> string list" where
  "entry_names path d =
     (let pre = join_path path [] in
      filter (\<lambda>n. n \<noteq> [] \<and> CHR ''/'' \<notin> set n)
        (map (drop (length pre)) (filter (\<lambda>p. take (length pre) p = pre) (map fst (d_files d)))))"

definition list_directory :: "string \<Rightarrow> disk \<Rightarrow> string list result \<times> disk" where
  "list_directory path d =
     bindD (sys ''directory iteration failed'' d) (\<lambda>_ d.
       let entries = entry_names path d in
       if length entries > 4096
       then (Inl (make_error EC_TooLarge ''directory holds more entries than the budget allows''), d)
       else (Inr (sort entries), d))"

section \<open>Laws\<close>

lemma file_at_put [simp]: "file_at (put_file p bs d) q = (if q = p then Some bs else file_at d q)"
  by (simp add: file_at_def put_file_def update_conv')

lemma file_at_drop [simp]: "file_at (drop_file p d) q = (if q = p then None else file_at d q)"
  by (simp add: file_at_def drop_file_def delete_conv')

lemma d_fields [simp]:
  "d_faults (put_file p bs d) = d_faults d" "d_faults (drop_file p d) = d_faults d"
  "d_dirs (put_file p bs d) = d_dirs d" "d_dirs (drop_file p d) = d_dirs d"
  by (simp_all add: put_file_def drop_file_def)

lemma join_path_inject [simp]: "join_path dir a = join_path dir b \<longleftrightarrow> a = b"
  by (auto simp: join_path_def)

lemma temp_path_neq [simp]: "temp_path p \<noteq> p" "p \<noteq> temp_path p"
  by (simp_all add: temp_path_def)

text \<open>On a disk where nothing fails the helpers are what they are called.\<close>

lemma io_step_calm [simp]: "d_faults d = [] \<Longrightarrow> io_step d = (None, d)"
  by (simp add: io_step_def)

lemma sys_calm [simp]: "d_faults d = [] \<Longrightarrow> sys m d = (Inr (), d)"
  by (simp add: sys_def)

lemma path_exists_calm [simp]:
  "d_faults d = [] \<Longrightarrow> path_exists p d = (Inr (file_at d p \<noteq> None \<or> p \<in> set (d_dirs d)), d)"
  by (simp add: path_exists_def)

lemma read_file_calm:
  "d_faults d = [] \<Longrightarrow> file_at d p = Some bs \<Longrightarrow>
   read_file p n d = (if length bs \<le> n then Inr bs
     else Inl (make_error EC_TooLarge ''file exceeds the configured read budget''), d)"
  by (cases bs) (simp_all add: read_file_def)

lemma remove_file_calm [simp]: "d_faults d = [] \<Longrightarrow> remove_file p d = (Inr (), drop_file p d)"
  by (simp add: remove_file_def)

lemma sync_directory_calm [simp]: "d_faults d = [] \<Longrightarrow> sync_directory p d = (Inr (), d)"
  by (simp add: sync_directory_def)

lemma write_file_atomic_calm:
  "d_faults d = [] \<Longrightarrow> write_file_atomic p bs d =
     (Inr (), put_file p bs (drop_file (temp_path p) (put_file (temp_path p) bs d)))"
  by (simp add: write_file_atomic_def sync_handle_def atomic_replace_def)

text \<open>
  Replacing a file is atomic whatever fails: afterwards the path holds the new bytes, when the
  call reports success, or what it held before; no other file but the temporary one changes.
\<close>

lemma io_step_files [simp]: "io_step d = (f, d') \<Longrightarrow> file_at d' = file_at d"
  by (auto simp: io_step_def file_at_def fun_eq_iff split: list.splits)

lemma sys_files: "sys m d = (r, d') \<Longrightarrow> file_at d' = file_at d"
  by (auto simp: sys_def split: prod.splits option.splits)

lemma remove_file_files: "remove_file p d = (r, d') \<Longrightarrow> q \<noteq> p \<Longrightarrow> file_at d' q = file_at d q"
  by (auto simp: remove_file_def bindD_def dest!: sys_files split: prod.splits sum.splits)

lemma sync_handle_files: "sync_handle d = (r, d') \<Longrightarrow> file_at d' = file_at d"
  by (auto simp: sync_handle_def bindD_def dest!: sys_files split: prod.splits sum.splits)

lemma atomic_replace_files:
  "atomic_replace p q d = (r, d') \<Longrightarrow> x \<noteq> p \<Longrightarrow>
   file_at d' x = (if x = q \<and> r = Inr () then file_at d p else file_at d x)"
  by (auto simp: atomic_replace_def bindD_def dest!: sys_files
      split: prod.splits sum.splits option.splits)

lemma write_file_atomic_files:
  assumes "write_file_atomic p bs d = (r, d')" and "x \<noteq> temp_path p"
  shows "file_at d' x = (if x = p \<and> r = Inr () then Some bs else file_at d x)"
  using assms unfolding write_file_atomic_def bindD_def
  by (auto simp: Let_def split: prod.splits sum.splits option.splits if_splits
      dest!: sys_files remove_file_files [of "temp_path p" _ _ _ x] sync_handle_files
        atomic_replace_files [of _ _ _ _ _ x])

end
