(* ===== verification/Store.thy ===== *)
theory Store
  imports Disk Checked
begin

text \<open>
  The durable store of \<open>include/qosfabric/store.hpp\<close> and \<open>src/store.cpp\<close>: the write-ahead
  log of checksummed frames, the journalled intents, the snapshot and the manifest, recovery on
  open, compaction and verification. A \<open>store\<close> is the object's fields with the disk it is opened
  on; a member function takes it and returns its result and the object afterwards. The mutex that
  serialises the member functions is not modelled: a call is one step.
\<close>

unbundle bit_operations_syntax

section \<open>Records and options\<close>

datatype record_type =
    RT_Unknown | RT_StoreHeader | RT_EpochAdvance | RT_PublishClass | RT_PublishPolicy
  | RT_PublishPath | RT_PublishCapability | RT_PublishReservation | RT_RegisterPublisher
  | RT_RevokePublisher | RT_RecordDecision | RT_MutationIntent | RT_MutationCommit
  | RT_ConflictRecord | RT_PublisherLeaseCleared | RT_MutationAbort | RT_CleanShutdown

primrec rt_rank :: "record_type \<Rightarrow> u16" where
  "rt_rank RT_Unknown = 0" | "rt_rank RT_StoreHeader = 1" | "rt_rank RT_EpochAdvance = 2"
| "rt_rank RT_PublishClass = 3" | "rt_rank RT_PublishPolicy = 4" | "rt_rank RT_PublishPath = 5"
| "rt_rank RT_PublishCapability = 6" | "rt_rank RT_PublishReservation = 7"
| "rt_rank RT_RegisterPublisher = 8" | "rt_rank RT_RevokePublisher = 9"
| "rt_rank RT_RecordDecision = 10" | "rt_rank RT_MutationIntent = 11"
| "rt_rank RT_MutationCommit = 12" | "rt_rank RT_ConflictRecord = 13"
| "rt_rank RT_PublisherLeaseCleared = 14" | "rt_rank RT_MutationAbort = 15"
| "rt_rank RT_CleanShutdown = 16"

definition all_rt :: "record_type list" where
  "all_rt = [RT_Unknown, RT_StoreHeader, RT_EpochAdvance, RT_PublishClass, RT_PublishPolicy,
     RT_PublishPath, RT_PublishCapability, RT_PublishReservation, RT_RegisterPublisher,
     RT_RevokePublisher, RT_RecordDecision, RT_MutationIntent, RT_MutationCommit,
     RT_ConflictRecord, RT_PublisherLeaseCleared, RT_MutationAbort, RT_CleanShutdown]"

primrec rt_to_string :: "record_type \<Rightarrow> string" where
  "rt_to_string RT_Unknown = ''unknown''"
| "rt_to_string RT_StoreHeader = ''store-header''"
| "rt_to_string RT_EpochAdvance = ''epoch-advance''"
| "rt_to_string RT_PublishClass = ''publish-class''"
| "rt_to_string RT_PublishPolicy = ''publish-policy''"
| "rt_to_string RT_PublishPath = ''publish-path''"
| "rt_to_string RT_PublishCapability = ''publish-capability''"
| "rt_to_string RT_PublishReservation = ''publish-reservation''"
| "rt_to_string RT_RegisterPublisher = ''register-publisher''"
| "rt_to_string RT_RevokePublisher = ''revoke-publisher''"
| "rt_to_string RT_RecordDecision = ''record-decision''"
| "rt_to_string RT_MutationIntent = ''mutation-intent''"
| "rt_to_string RT_MutationCommit = ''mutation-commit''"
| "rt_to_string RT_ConflictRecord = ''conflict-record''"
| "rt_to_string RT_PublisherLeaseCleared = ''publisher-lease-cleared''"
| "rt_to_string RT_MutationAbort = ''mutation-abort''"
| "rt_to_string RT_CleanShutdown = ''clean-shutdown''"

record log_record =
  lr_type :: record_type
  lr_sequence :: sequence_no
  lr_payload :: bytes

record recovery_report =
  rr_store_created :: bool
  rr_opened_clean :: bool
  rr_manifest_rebuilt :: bool
  rr_snapshot_loaded :: bool
  rr_snapshot_sequence :: u64
  rr_replayed_records :: u64
  rr_truncated_tail_bytes :: u64
  rr_unfinished_intents :: u64
  rr_discarded_intents :: u64
  rr_mid_log_corruption :: bool
  rr_epoch_advances :: u64
  rr_last_sequence :: u64
  rr_detail :: string

definition no_recovery :: recovery_report where
  "no_recovery = \<lparr>rr_store_created = False, rr_opened_clean = False, rr_manifest_rebuilt = False,
     rr_snapshot_loaded = False, rr_snapshot_sequence = 0, rr_replayed_records = 0,
     rr_truncated_tail_bytes = 0, rr_unfinished_intents = 0, rr_discarded_intents = 0,
     rr_mid_log_corruption = False, rr_epoch_advances = 0, rr_last_sequence = 0, rr_detail = []\<rparr>"

definition kStoreFormatVersion :: u16 where "kStoreFormatVersion = 1"

record store_options =
  so_directory :: string
  so_format_version :: u16
  so_create_if_missing :: bool
  so_max_wal_bytes :: u64
  so_max_record_bytes :: nat
  so_repair_truncate_corrupt_tail :: bool

definition default_store_options :: store_options where
  "default_store_options = \<lparr>so_directory = [], so_format_version = kStoreFormatVersion,
     so_create_if_missing = True, so_max_wal_bytes = word_of_nat kMaxSnapshotBytes,
     so_max_record_bytes = kMaxWalRecordBytes, so_repair_truncate_corrupt_tail = False\<rparr>"

definition kManifestMagic :: bytes where "kManifestMagic = bytes_of_string ''QOSFMNF1''"
definition kSnapshotMagic :: bytes where "kSnapshotMagic = bytes_of_string ''QOSFSNP1''"
definition kFrameVersion :: u16 where "kFrameVersion = 1"
definition kLogHeaderBytes :: nat where "kLogHeaderBytes = 8"
definition kRecordHeaderBytes :: nat where "kRecordHeaderBytes = 25"
definition kMaxWalScanBytes :: nat where "kMaxWalScanBytes = kMaxSnapshotBytes + 1048576"
definition kFlagNone :: u8 where "kFlagNone = 0"
definition kFlagHasAttempt :: u8 where "kFlagHasAttempt = 1"

definition manifest_file_name :: string where "manifest_file_name = ''MANIFEST.qfm''"
definition wal_file_name :: string where "wal_file_name = ''WAL.qwl''"
definition snapshot_prefix :: string where "snapshot_prefix = ''SNAPSHOT-''"
definition snapshot_suffix :: string where "snapshot_suffix = ''.qsn''"

definition snapshot_file_name :: "u64 \<Rightarrow> string" where
  "snapshot_file_name sequence = snapshot_prefix @ u64_to_string sequence @ snapshot_suffix"

section \<open>Frames of the log\<close>

record frame_view =
  fv_ok :: bool
  fv_incomplete :: bool
  fv_next_offset :: nat
  fv_type :: record_type
  fv_flags :: u8
  fv_sequence :: sequence_no
  fv_attempt :: attempt_id
  fv_body :: bytes

definition no_frame :: frame_view where
  "no_frame = \<lparr>fv_ok = False, fv_incomplete = False, fv_next_offset = 0, fv_type = RT_Unknown,
     fv_flags = 0, fv_sequence = 0, fv_attempt = 0, fv_body = []\<rparr>"

definition load_at :: "bytes \<Rightarrow> nat \<Rightarrow> nat \<Rightarrow> u64" where
  "load_at bs offset width = load_le (take width (drop offset bs))"

definition parse_frame :: "bytes \<Rightarrow> nat \<Rightarrow> nat \<Rightarrow> frame_view" where
  "parse_frame bs offset max_record_bytes =
     (if offset + kLogHeaderBytes > length bs then no_frame\<lparr>fv_incomplete := True\<rparr>
      else
        let len = unat (load_at bs offset 4); expected_crc = ucast (load_at bs (offset + 4) 4) in
        if len > max_record_bytes then no_frame
        else if offset + kLogHeaderBytes + len > length bs then no_frame\<lparr>fv_incomplete := True\<rparr>
        else
          let payload = take len (drop (offset + kLogHeaderBytes) bs) in
          if crc32c payload \<noteq> expected_crc then no_frame
          else if len < kRecordHeaderBytes then no_frame
          else
            let r = new_reader payload; (version, r) = r_u16 r; (raw_type, r) = r_u16 r;
                (flags, r) = r_u8 r; (seq, r) = r_u64 r; (attempt, r) = r_u64 r;
                (body_length, r) = r_u32 r in
            if r_failed r \<or> version \<noteq> kFrameVersion then no_frame
            else if raw_type > rt_rank RT_CleanShutdown then no_frame
            else if unat body_length > len - kRecordHeaderBytes then no_frame
            else no_frame\<lparr>fv_ok := True, fv_next_offset := offset + kLogHeaderBytes + len,
              fv_type := all_rt ! unat raw_type, fv_flags := flags, fv_sequence := seq,
              fv_attempt := attempt,
              fv_body := take (unat body_length) (drop kRecordHeaderBytes payload)\<rparr>)"

definition any_valid_frame_after :: "bytes \<Rightarrow> nat \<Rightarrow> nat \<Rightarrow> bool" where
  "any_valid_frame_after bs offset max_record_bytes \<longleftrightarrow>
     list_ex (\<lambda>probe. fv_ok (parse_frame bs probe max_record_bytes))
       [offset + 1..<length bs + 1 - kLogHeaderBytes]"

lemma parse_frame_advances: "fv_ok (parse_frame bs offset m) \<Longrightarrow> offset < fv_next_offset (parse_frame bs offset m)"
  by (auto simp: parse_frame_def no_frame_def kLogHeaderBytes_def Let_def split: prod.splits if_splits)

section \<open>Snapshots\<close>

definition encode_snapshot :: "u64 \<Rightarrow> bytes \<Rightarrow> bytes" where
  "encode_snapshot sequence payload =
     (let w = w_seq [w_raw kSnapshotMagic, w_u16 kFrameVersion, w_u16 0, w_u64 sequence,
            w_u32 (word_of_nat (length payload)), w_raw payload, w_u32 (crc32c payload)]
          (new_writer (kMaxSnapshotBytes + 64))
      in if w_failed w then [] else w_buffer w)"

text \<open>The second component is the sequence the reference parameter holds afterwards.\<close>

definition decode_snapshot :: "bytes \<Rightarrow> u64 \<Rightarrow> bytes result \<times> u64" where
  "decode_snapshot bs sequence =
     (if length bs < length kSnapshotMagic + 2 + 2 + 8 + 4 + 4
      then (Inl (make_error EC_Corrupt ''snapshot is too small to be valid''), sequence)
      else
        let r = new_reader bs; (magic, r) = r_raw (length kSnapshotMagic) r in
        if r_failed r \<or> magic \<noteq> kSnapshotMagic
        then (Inl (make_error EC_Corrupt ''snapshot magic mismatch''), sequence)
        else
          let (version, r) = r_u16 r; (_, r) = r_u16 r; (sequence, r) = r_u64 r; (len, r) = r_u32 r in
          if r_failed r \<or> version \<noteq> kFrameVersion
          then (Inl (make_error EC_VersionMismatch ''snapshot format version is not supported''), sequence)
          else if unat len > kMaxSnapshotBytes
          then (Inl (make_error EC_TooLarge ''snapshot payload exceeds budget''), sequence)
          else
            let (payload, r) = r_raw (unat len) r; (expected_crc, r) = r_u32 r in
            if r_failed r then (Inl (make_error EC_Corrupt ''snapshot is truncated''), sequence)
            else if crc32c payload \<noteq> expected_crc
            then (Inl (make_error EC_Corrupt ''snapshot checksum mismatch''), sequence)
            else if \<not> r_at_end r
            then (Inl (make_error EC_Corrupt ''snapshot carries trailing bytes''), sequence)
            else (Inr payload, sequence))"

section \<open>The store object\<close>

record store =
  s_options :: store_options
  s_store_id :: string
  s_manifest_path :: string
  s_wal_path :: string
  s_snapshot_path :: string
  s_wal_open :: bool
  s_last_sequence :: sequence_no
  s_durable_epoch :: fabric_epoch
  s_wal_bytes :: u64
  s_snapshot_sequence :: u64
  s_staged_count :: u32
  s_replayed :: "log_record list"
  s_snapshot_bytes :: bytes
  s_recovery :: recovery_report
  s_read_only :: bool
  s_disk :: disk

definition new_store :: "disk \<Rightarrow> store" where
  "new_store d = \<lparr>s_options = default_store_options, s_store_id = [], s_manifest_path = [],
     s_wal_path = [], s_snapshot_path = [], s_wal_open = False, s_last_sequence = 0,
     s_durable_epoch = 0, s_wal_bytes = 0, s_snapshot_sequence = 0, s_staged_count = 0,
     s_replayed = [], s_snapshot_bytes = [], s_recovery = no_recovery, s_read_only = False,
     s_disk = d\<rparr>"

text \<open>A call of a file-system helper from a member function.\<close>

definition on_disk :: "(disk \<Rightarrow> 'a \<times> disk) \<Rightarrow> store \<Rightarrow> 'a \<times> store" where
  "on_disk f s = (let (x, d) = f (s_disk s) in (x, s\<lparr>s_disk := d\<rparr>))"

section \<open>Manifest\<close>

definition kManifestBudget :: nat where "kManifestBudget = 65536"

definition encode_manifest :: "store \<Rightarrow> writer" where
  "encode_manifest s =
     (let id_bytes = (case digest_parse_hex (s_store_id s) of Some d \<Rightarrow> d | None \<Rightarrow> zero_digest);
          name = (if s_snapshot_path s = [] then [] else snapshot_file_name (s_snapshot_sequence s))
      in w_seq [w_raw kManifestMagic, w_u16 kStoreFormatVersion, w_u16 0, w_raw id_bytes,
           w_u64 (s_durable_epoch s), w_u64 (s_snapshot_sequence s), w_u64 (s_last_sequence s),
           w_u32 (word_of_nat (length name)), w_raw (bytes_of_string name)]
         (new_writer kManifestBudget))"

definition write_manifest :: "store \<Rightarrow> unit result \<times> store" where
  "write_manifest s =
     (let w = encode_manifest s in
      if w_failed w then (Inl (make_error EC_TooLarge ''manifest exceeds its budget''), s)
      else
        let bs = w_buffer w @ store_le (ucast (crc32c (w_buffer w))) 4 in
        bindD (on_disk (write_file_atomic (s_manifest_path s) bs) s) (\<lambda>_ s.
          on_disk (sync_directory (so_directory (s_options s))) s))"

fun has_dot_dot :: "string \<Rightarrow> bool" where
  "has_dot_dot (a # b # cs) \<longleftrightarrow> (a = CHR ''.'' \<and> b = CHR ''.'') \<or> has_dot_dot (b # cs)"
| "has_dot_dot _ \<longleftrightarrow> False"

definition kMinManifestBytes :: nat where
  "kMinManifestBytes = 8 + 2 + 2 + kDigestBytes + 8 + 8 + 8 + 4 + 4"

definition load_manifest :: "store \<Rightarrow> unit result \<times> store" where
  "load_manifest s =
     bindD (on_disk (path_exists (s_manifest_path s)) s) (\<lambda>ex s.
     if \<not> ex then (Inl (make_error EC_NotFound ''manifest is absent''), s)
     else bindD (on_disk (read_file (s_manifest_path s) kManifestBudget) s) (\<lambda>raw s.
     if length raw < kMinManifestBytes then (Inl (make_error EC_Corrupt ''manifest is too small''), s)
     else if crc32c (take (length raw - 4) raw) \<noteq> ucast (load_at raw (length raw - 4) 4)
     then (Inl (make_error EC_Corrupt ''manifest checksum mismatch''), s)
     else if take 8 raw \<noteq> kManifestMagic
     then (Inl (make_error EC_Corrupt ''manifest magic mismatch''), s)
     else
       let version = ucast (load_at raw 8 2) :: u16 in
       if version \<noteq> kStoreFormatVersion \<or> so_format_version (s_options s) \<noteq> version
       then (Inl (make_error EC_VersionMismatch ''store format version is not supported''), s)
       else
         let s = s\<lparr>s_store_id := digest_hex (take kDigestBytes (drop 12 raw)),
               s_durable_epoch := load_at raw 44 8, s_snapshot_sequence := load_at raw 52 8,
               s_last_sequence := load_at raw 60 8\<rparr>;
             name_length = unat (ucast (load_at raw 68 4) :: u32) in
         if name_length > 64 \<or> 72 + name_length + 4 > length raw
         then (Inl (make_error EC_Corrupt ''manifest snapshot name is malformed''), s)
         else if 72 + name_length + 4 \<noteq> length raw
         then (Inl (make_error EC_Corrupt ''manifest length is inconsistent''), s)
         else
           let name = string_of_bytes (take name_length (drop 72 raw)) in
           if name = [] then (Inr (), s\<lparr>s_snapshot_path := [], s_snapshot_sequence := 0\<rparr>)
           else if CHR ''/'' \<in> set name \<or> CHR 0x5C \<in> set name \<or> has_dot_dot name
           then (Inl (make_error EC_Corrupt
             ''manifest snapshot name escapes the store directory''), s)
           else
             let s = s\<lparr>s_snapshot_path := join_path (so_directory (s_options s)) name\<rparr> in
             bindD (on_disk (path_exists (s_snapshot_path s)) s) (\<lambda>ex s.
               if \<not> ex
               then (Inl (make_error EC_Corrupt ''manifest references a snapshot that is absent''), s)
               else (Inr (), s))))"

text \<open>\<open>strtoull\<close> on a string of digits saturates.\<close>

definition digits_value :: "string \<Rightarrow> nat" where
  "digits_value ds = foldl (\<lambda>n c. 10 * n + (of_char c - 48)) 0 ds"

definition parse_u64 :: "string \<Rightarrow> u64" where
  "parse_u64 ds = (if digits_value ds \<ge> 2 ^ 64 then - 1 else word_of_nat (digits_value ds))"

definition is_snapshot_name :: "string \<Rightarrow> bool" where
  "is_snapshot_name name \<longleftrightarrow>
     (if length name \<le> length snapshot_prefix + length snapshot_suffix then False
      else if take (length snapshot_prefix) name \<noteq> snapshot_prefix then False
      else drop (length name - length snapshot_suffix) name = snapshot_suffix)"

definition snapshot_digits :: "string \<Rightarrow> string" where
  "snapshot_digits name =
     take (length name - length snapshot_prefix - length snapshot_suffix)
       (drop (length snapshot_prefix) name)"

text \<open>One turn of the loop over the directory: the best snapshot so far, by sequence and name.\<close>

definition consider_snapshot ::
    "string \<Rightarrow> (u64 \<times> string) option \<Rightarrow> store \<Rightarrow> (u64 \<times> string) option \<times> store" where
  "consider_snapshot name best s =
     (if \<not> is_snapshot_name name then (best, s)
      else
        let digits = snapshot_digits name in
        if digits = [] \<or> list_ex (\<lambda>c. c \<notin> set ''0123456789'') digits then (best, s)
        else
          let sequence = parse_u64 digits;
              (bs, s) = on_disk (read_file (join_path (so_directory (s_options s)) name)
                kMaxSnapshotBytes) s in
          case bs of
            Inl _ \<Rightarrow> (best, s)
          | Inr bs \<Rightarrow>
              let (payload, decoded_sequence) = decode_snapshot bs 0 in
              (case payload of
                 Inl _ \<Rightarrow> (best, s)
               | Inr _ \<Rightarrow>
                   if decoded_sequence \<noteq> sequence then (best, s)
                   else case best of
                     None \<Rightarrow> (Some (sequence, name), s)
                   | Some (best_sequence, _) \<Rightarrow>
                       if sequence > best_sequence then (Some (sequence, name), s) else (best, s)))"

fun best_snapshot ::
    "string list \<Rightarrow> (u64 \<times> string) option \<Rightarrow> store \<Rightarrow> (u64 \<times> string) option \<times> store" where
  "best_snapshot [] best s = (best, s)"
| "best_snapshot (name # names) best s =
     (let (best, s) = consider_snapshot name best s in best_snapshot names best s)"

text \<open>What the log says about the manifest's fields, up to the first frame that does not parse.\<close>

function scan_log :: "bytes \<Rightarrow> nat \<Rightarrow> store \<Rightarrow> store" where
  "scan_log bs offset s =
     (if offset + kLogHeaderBytes \<le> length bs then
        let frame = parse_frame bs offset (so_max_record_bytes (s_options s)) in
        if \<not> fv_ok frame then s
        else
          let s = (if fv_sequence frame > s_last_sequence s
                   then s\<lparr>s_last_sequence := fv_sequence frame\<rparr> else s);
              s = (if fv_type frame = RT_EpochAdvance \<and> length (fv_body frame) \<ge> 8
                   then s\<lparr>s_durable_epoch := load_le (take 8 (fv_body frame))\<rparr> else s);
              s = (if fv_type frame = RT_StoreHeader \<and> length (fv_body frame) \<ge> kDigestBytes
                   then s\<lparr>s_store_id := digest_hex (take kDigestBytes (fv_body frame))\<rparr> else s)
          in scan_log bs (fv_next_offset frame) s
      else s)"
  by pat_completeness auto
termination
  by (relation "measure (\<lambda>(bs, offset, s). length bs - offset)")
    (use parse_frame_advances in \<open>auto simp: kLogHeaderBytes_def intro!: diff_less_mono2\<close>)

declare scan_log.simps [simp del]

definition rebuild_manifest :: "store \<Rightarrow> unit result \<times> store" where
  "rebuild_manifest s =
     bindD (on_disk (list_directory (so_directory (s_options s))) s) (\<lambda>entries s.
       let (best, s) = best_snapshot entries None s;
           s = s\<lparr>s_store_id := digest_hex zero_digest, s_durable_epoch := 0, s_last_sequence := 0,
                 s_snapshot_sequence := 0, s_snapshot_path := []\<rparr>;
           s = (case best of None \<Rightarrow> s | Some (best_sequence, best_name) \<Rightarrow>
             s\<lparr>s_snapshot_sequence := best_sequence,
               s_snapshot_path := join_path (so_directory (s_options s)) best_name,
               s_last_sequence := best_sequence\<rparr>);
           (wal_exists, s) = on_disk (path_exists (s_wal_path s)) s;
           s = (case wal_exists of
             Inr True \<Rightarrow>
               let (bs, s) = on_disk (read_file (s_wal_path s) kMaxWalScanBytes) s in
               (case bs of Inl _ \<Rightarrow> s | Inr bs \<Rightarrow> scan_log bs 0 s)
           | _ \<Rightarrow> s)
       in bindD (write_manifest s) (\<lambda>_ s.
            (Inr (), s\<lparr>s_recovery := (s_recovery s)\<lparr>rr_detail :=
              rr_detail (s_recovery s) @ ''manifest rebuilt from durable artifacts; ''\<rparr>\<rparr>)))"

section \<open>Recovery\<close>

definition load_snapshot :: "store \<Rightarrow> unit result \<times> store" where
  "load_snapshot s =
     (if s_snapshot_path s = [] then (Inr (), s)
      else bindD (on_disk (read_file (s_snapshot_path s) kMaxSnapshotBytes) s) (\<lambda>bs s.
        let (payload, sequence) = decode_snapshot bs 0 in
        case payload of
          Inl e \<Rightarrow> (Inl e, s)
        | Inr payload \<Rightarrow>
            if sequence \<noteq> s_snapshot_sequence s
            then (Inl (make_error EC_Corrupt ''snapshot sequence does not match the manifest''), s)
            else (Inr (), s\<lparr>s_snapshot_bytes := payload, s_recovery := (s_recovery s)
              \<lparr>rr_snapshot_loaded := True, rr_snapshot_sequence := sequence\<rparr>\<rparr>)))"

text \<open>
  The variables of the replay loop: where it stands, the end of the last good frame, the offset
  of a bad one, whether the last frame was a clean shutdown, the staged intents, and the fields of
  the store it moves.
\<close>

record replay =
  rp_offset :: nat
  rp_good_end :: nat
  rp_bad :: "nat option"
  rp_clean :: bool
  rp_staged :: "(attempt_id \<times> log_record) list"
  rp_last_sequence :: sequence_no
  rp_durable_epoch :: fabric_epoch
  rp_replayed :: "log_record list"
  rp_discarded :: u64
  rp_epoch_advances :: u64

fun find_staged :: "attempt_id \<Rightarrow> (attempt_id \<times> 'a) list \<Rightarrow> 'a option" where
  "find_staged a [] = None"
| "find_staged a ((b, x) # xs) = (if b = a then Some x else find_staged a xs)"

fun erase_staged :: "attempt_id \<Rightarrow> (attempt_id \<times> 'a) list \<Rightarrow> (attempt_id \<times> 'a) list" where
  "erase_staged a [] = []"
| "erase_staged a ((b, x) # xs) = (if b = a then xs else (b, x) # erase_staged a xs)"

definition push_replayed :: "record_type \<Rightarrow> sequence_no \<Rightarrow> bytes \<Rightarrow> replay \<Rightarrow> replay" where
  "push_replayed t q body rp = rp\<lparr>rp_replayed := rp_replayed rp @
     [\<lparr>lr_type = t, lr_sequence = q, lr_payload = body\<rparr>]\<rparr>"

text \<open>The switch over the type of a frame; \<^term>\<open>None\<close> is a malformed body.\<close>

definition apply_frame :: "frame_view \<Rightarrow> replay \<Rightarrow> replay option" where
  "apply_frame frame rp =
     (case fv_type frame of
        RT_MutationIntent \<Rightarrow>
          let r = new_reader (fv_body frame); (raw_type, r) = r_u16 r; (attempt, r) = r_u64 r;
              (body_length, r) = r_u32 r in
          if r_failed r \<or> unat body_length > r_remaining r \<or> raw_type > rt_rank RT_CleanShutdown
          then None
          else
            let (body, r) = r_raw (unat body_length) r in
            if r_failed r then None
            else Some (rp\<lparr>rp_staged := rp_staged rp @ [(attempt, \<lparr>lr_type = all_rt ! unat raw_type,
              lr_sequence = 0, lr_payload = body\<rparr>)]\<rparr>)
      | RT_MutationCommit \<Rightarrow>
          let (attempt, r) = r_u64 (new_reader (fv_body frame)) in
          if r_failed r then None
          else (case find_staged attempt (rp_staged rp) of
            None \<Rightarrow> Some rp
          | Some record \<Rightarrow> Some (rp\<lparr>
              rp_replayed := rp_replayed rp @ [record\<lparr>lr_sequence := fv_sequence frame\<rparr>],
              rp_staged := erase_staged attempt (rp_staged rp)\<rparr>))
      | RT_MutationAbort \<Rightarrow>
          let (attempt, r) = r_u64 (new_reader (fv_body frame)) in
          if r_failed r then None
          else (case find_staged attempt (rp_staged rp) of
            None \<Rightarrow> Some rp
          | Some _ \<Rightarrow> Some (rp\<lparr>rp_staged := erase_staged attempt (rp_staged rp),
              rp_discarded := rp_discarded rp + 1\<rparr>))
      | RT_EpochAdvance \<Rightarrow>
          if length (fv_body frame) < 8 then None
          else Some (push_replayed RT_EpochAdvance (fv_sequence frame) (fv_body frame)
            (rp\<lparr>rp_durable_epoch := load_le (take 8 (fv_body frame)),
                rp_epoch_advances := rp_epoch_advances rp + 1\<rparr>))
      | RT_CleanShutdown \<Rightarrow> Some (rp\<lparr>rp_clean := True\<rparr>)
      | RT_StoreHeader \<Rightarrow> if length (fv_body frame) < kDigestBytes then None else Some rp
      | RT_Unknown \<Rightarrow> None
      | t \<Rightarrow> Some (push_replayed t (fv_sequence frame) (fv_body frame) rp))"

function replay_loop :: "bytes \<Rightarrow> nat \<Rightarrow> u64 \<Rightarrow> nat \<Rightarrow> replay \<Rightarrow> replay" where
  "replay_loop bs max_record_bytes snapshot_sequence offset rp =
     (if offset + kLogHeaderBytes \<le> length bs then
        let frame = parse_frame bs offset max_record_bytes in
        if \<not> fv_ok frame then rp\<lparr>rp_bad := Some offset\<rparr>
        else
          let next = fv_next_offset frame;
              rp = rp\<lparr>rp_offset := next, rp_good_end := next, rp_clean := False\<rparr> in
          if fv_sequence frame \<le> snapshot_sequence
          then replay_loop bs max_record_bytes snapshot_sequence next rp
          else
            let rp = (if fv_sequence frame > rp_last_sequence rp
                      then rp\<lparr>rp_last_sequence := fv_sequence frame\<rparr> else rp) in
            case apply_frame frame rp of
              None \<Rightarrow> rp\<lparr>rp_bad := Some offset\<rparr>
            | Some rp \<Rightarrow> replay_loop bs max_record_bytes snapshot_sequence next rp
      else rp)"
  by pat_completeness auto
termination
  by (relation "measure (\<lambda>(bs, m, q, offset, rp). length bs - offset)")
    (use parse_frame_advances in \<open>auto simp: kLogHeaderBytes_def intro!: diff_less_mono2\<close>)

declare replay_loop.simps [simp del]

definition start_replay :: "store \<Rightarrow> replay" where
  "start_replay s = \<lparr>rp_offset = 0, rp_good_end = 0, rp_bad = None, rp_clean = False,
     rp_staged = [], rp_last_sequence = s_last_sequence s, rp_durable_epoch = s_durable_epoch s,
     rp_replayed = s_replayed s, rp_discarded = rr_discarded_intents (s_recovery s),
     rp_epoch_advances = rr_epoch_advances (s_recovery s)\<rparr>"

text \<open>The fields of the store as the loop leaves them, with the intents still staged counted.\<close>

definition finish_replay :: "replay \<Rightarrow> store \<Rightarrow> store" where
  "finish_replay rp s = s\<lparr>s_last_sequence := rp_last_sequence rp,
     s_durable_epoch := rp_durable_epoch rp, s_replayed := rp_replayed rp,
     s_recovery := (s_recovery s)\<lparr>rr_discarded_intents := rp_discarded rp,
       rr_epoch_advances := rp_epoch_advances rp,
       rr_unfinished_intents := rr_unfinished_intents (s_recovery s) + word_of_nat (length (rp_staged rp))\<rparr>\<rparr>"

definition complete_frame_bad :: "bytes \<Rightarrow> nat \<Rightarrow> nat \<Rightarrow> bool" where
  "complete_frame_bad bs cutoff max_record_bytes \<longleftrightarrow>
     cutoff + kLogHeaderBytes \<le> length bs \<and>
     (let declared = unat (load_at bs cutoff 4) in
      declared \<le> max_record_bytes \<and> cutoff + kLogHeaderBytes + declared \<le> length bs)"

text \<open>Cutting the log back: neither a failed open nor a failed truncation is reported.\<close>

definition cut_log :: "string \<Rightarrow> nat \<Rightarrow> disk \<Rightarrow> disk" where
  "cut_log path good_end d =
     (let (opened, d) = io_step d in
      case (opened, file_at d path) of
        (None, Some bs) \<Rightarrow>
          (let (cut, d) = io_step d in
           if cut = None then put_file path (take good_end bs) d else d)
      | _ \<Rightarrow> d)"

definition replay_log :: "store \<Rightarrow> unit result \<times> store" where
  "replay_log s =
     bindD (on_disk (path_exists (s_wal_path s)) s) (\<lambda>ex s.
     if \<not> ex then (Inr (), s\<lparr>s_wal_bytes := 0\<rparr>)
     else bindD (on_disk (read_file (s_wal_path s) kMaxWalScanBytes) s) (\<lambda>bs s.
       let max_bytes = so_max_record_bytes (s_options s);
           rp = replay_loop bs max_bytes (s_snapshot_sequence s) 0 (start_replay s);
           s = finish_replay rp (s\<lparr>s_wal_bytes := word_of_nat (length bs)\<rparr>);
           saw_bad = (rp_bad rp \<noteq> None);
           trailing_partial = (\<not> saw_bad \<and> rp_offset rp < length bs);
           finish = (\<lambda>s. (Inr (), s\<lparr>s_recovery := (s_recovery s)
             \<lparr>rr_opened_clean := (rp_clean rp \<and> \<not> saw_bad \<and> \<not> trailing_partial \<and>
                rr_truncated_tail_bytes (s_recovery s) = 0),
              rr_replayed_records := word_of_nat (length (s_replayed s))\<rparr>\<rparr>))
       in
         if saw_bad \<or> trailing_partial then
           let cutoff = (case rp_bad rp of Some b \<Rightarrow> b | None \<Rightarrow> rp_offset rp);
               frame_bad = (saw_bad \<and> complete_frame_bad bs cutoff max_bytes);
               follows = (saw_bad \<and> any_valid_frame_after bs cutoff max_bytes);
               s = (if frame_bad \<or> follows
                    then s\<lparr>s_recovery := (s_recovery s)\<lparr>rr_mid_log_corruption := True\<rparr>\<rparr> else s) in
           if (frame_bad \<or> follows) \<and> (\<not> so_repair_truncate_corrupt_tail (s_options s) \<or> follows)
           then (Inl (make_error EC_Corrupt (''write-ahead log holds a corrupted frame; the store '' @
             ''refuses to interpret or discard it silently'')), s)
           else finish (s\<lparr>s_recovery := (s_recovery s)
               \<lparr>rr_truncated_tail_bytes := word_of_nat (length bs - rp_good_end rp),
                rr_detail := rr_detail (s_recovery s) @ ''truncated a torn write-ahead log tail; ''\<rparr>,
               s_disk := cut_log (s_wal_path s) (rp_good_end rp) (s_disk s),
               s_wal_bytes := word_of_nat (rp_good_end rp)\<rparr>)
         else finish s))"

text \<open>Opening the log for appending creates it when it is missing.\<close>

definition reopen_wal :: "store \<Rightarrow> unit result \<times> store" where
  "reopen_wal s =
     bindD (on_disk (sys ''cannot open the write-ahead log for appending'') (s\<lparr>s_wal_open := False\<rparr>))
       (\<lambda>_ s. (Inr (), s\<lparr>s_wal_open := True,
          s_disk := (if file_at (s_disk s) (s_wal_path s) = None
            then put_file (s_wal_path s) [] (s_disk s) else s_disk s)\<rparr>))"

section \<open>Appending\<close>

definition frame_body ::
    "nat \<Rightarrow> record_type \<Rightarrow> u8 \<Rightarrow> sequence_no \<Rightarrow> attempt_id \<Rightarrow> bytes \<Rightarrow> writer" where
  "frame_body max_record_bytes type flags seq attempt payload =
     w_seq [w_u16 kFrameVersion, w_u16 (rt_rank type), w_u8 flags, w_u64 seq, w_u64 attempt,
       w_u32 (word_of_nat (length payload)), w_raw payload] (new_writer max_record_bytes)"

text \<open>Adding bytes at the end of a file: all of them, or the first \<open>k\<close>.\<close>

definition append_file :: "string \<Rightarrow> bytes \<Rightarrow> disk \<Rightarrow> disk" where
  "append_file path bs d =
     put_file path ((case file_at d path of None \<Rightarrow> [] | Some old \<Rightarrow> old) @ bs) d"

text \<open>
  Writing a frame: the header, the body, the flush, the synchronisation. When one of the first
  three fails, a prefix of the frame may have reached the file; when the synchronisation fails,
  all of it has.
\<close>

definition write_frame :: "string \<Rightarrow> bytes \<Rightarrow> bytes \<Rightarrow> disk \<Rightarrow> unit result \<times> disk" where
  "write_frame path header body d =
     (let torn = (\<lambda>k m d. (Inl (make_error EC_IoError m), append_file path (take k (header @ body)) d));
          failed = ''failed to append a frame to the write-ahead log'';
          (f, d) = io_step d in
      case f of
        Some k \<Rightarrow> torn (min k (length header)) failed d
      | None \<Rightarrow>
          let (f, d) = io_step d in
          case f of
            Some k \<Rightarrow> torn (length header + k) failed d
          | None \<Rightarrow>
              let (f, d) = io_step d in
              case f of
                Some k \<Rightarrow> torn k ''flush failed'' d
              | None \<Rightarrow> sys ''fsync failed'' (append_file path (header @ body) d))"

definition append_frame ::
    "record_type \<Rightarrow> u8 \<Rightarrow> attempt_id \<Rightarrow> bytes \<Rightarrow> store \<Rightarrow> sequence_no result \<times> store" where
  "append_frame type flags attempt payload s =
     (if s_read_only s \<or> \<not> s_wal_open s
      then (Inl (make_error EC_ShuttingDown ''store is closed''), s)
      else
        case try_increment (s_last_sequence s) of
          None \<Rightarrow> (Inl (make_error EC_Overflow ''durable sequence space is exhausted''), s)
        | Some next \<Rightarrow>
            if length payload > so_max_record_bytes (s_options s)
            then (Inl (make_error EC_TooLarge ''record body exceeds the configured budget''), s)
            else
              let w = frame_body (so_max_record_bytes (s_options s)) type flags next attempt payload in
              if w_failed w
              then (Inl (make_error EC_TooLarge ''record exceeds the configured budget''), s)
              else
                let body = w_buffer w in
                case checked_add (word_of_nat (kLogHeaderBytes + length body)) (s_wal_bytes s) of
                  None \<Rightarrow>
                    (Inl (make_error EC_Overflow ''write-ahead log size accounting overflowed''), s)
                | Some frame_bytes \<Rightarrow>
                    if frame_bytes > so_max_wal_bytes (s_options s)
                    then (Inl (make_error EC_CapacityExhausted
                      ''write-ahead log budget exhausted; compaction is required''), s)
                    else
                      let header = store_le (word_of_nat (length body)) 4 @
                            store_le (ucast (crc32c body)) 4 in
                      bindD (on_disk (write_frame (s_wal_path s) header body) s) (\<lambda>_ s.
                        (Inr next, s\<lparr>s_wal_bytes := frame_bytes, s_last_sequence := next\<rparr>)))"

definition Append :: "record_type \<Rightarrow> bytes \<Rightarrow> store \<Rightarrow> sequence_no result \<times> store" where
  "Append type payload s = append_frame type kFlagNone 0 payload s"

definition Stage :: "record_type \<Rightarrow> bytes \<Rightarrow> store \<Rightarrow> attempt_id result \<times> store" where
  "Stage type payload s =
     (if unat (s_staged_count s) \<ge> kMaxJournalIntentsInFlight
      then (Inl (make_error EC_CapacityExhausted ''too many journalled intents are in flight''), s)
      else
        let attempt = s_last_sequence s + 1;
            w = w_seq [w_u16 (rt_rank type), w_u64 attempt, w_u32 (word_of_nat (length payload)),
                  w_raw payload] (new_writer (so_max_record_bytes (s_options s))) in
        if w_failed w
        then (Inl (make_error EC_TooLarge ''journalled intent exceeds the configured budget''), s)
        else bindD (append_frame RT_MutationIntent kFlagHasAttempt attempt (w_buffer w) s) (\<lambda>_ s.
          (Inr attempt, s\<lparr>s_staged_count := s_staged_count s + 1\<rparr>)))"

text \<open>One intent fewer in flight.\<close>

definition unstage :: "store \<Rightarrow> store" where
  "unstage s = (if s_staged_count s > 0 then s\<lparr>s_staged_count := s_staged_count s - 1\<rparr> else s)"

definition Commit :: "attempt_id \<Rightarrow> digest256 \<Rightarrow> store \<Rightarrow> unit result \<times> store" where
  "Commit attempt applied_digest s =
     (let w = w_seq [w_u64 attempt, w_raw applied_digest] (new_writer 256) in
      if w_failed w
      then (Inl (make_error EC_TooLarge ''commit record exceeds the configured budget''), s)
      else bindD (append_frame RT_MutationCommit kFlagHasAttempt attempt (w_buffer w) s) (\<lambda>_ s.
        (Inr (), unstage s)))"

definition Abort :: "attempt_id \<Rightarrow> string \<Rightarrow> store \<Rightarrow> unit result \<times> store" where
  "Abort attempt reason s =
     (let w = w_seq [w_u64 attempt, w_str (take kMaxReasonLen reason) kMaxReasonLen] (new_writer 512) in
      if w_failed w
      then (Inl (make_error EC_TooLarge ''abort record exceeds the configured budget''), s)
      else bindD (append_frame RT_MutationAbort kFlagHasAttempt attempt (w_buffer w) s) (\<lambda>_ s.
        (Inr (), unstage s)))"

definition AdoptStoreIdentity :: "string \<Rightarrow> store \<Rightarrow> unit result \<times> store" where
  "AdoptStoreIdentity store_id s = write_manifest (s\<lparr>s_store_id := store_id\<rparr>)"

definition Close :: "store \<Rightarrow> unit result \<times> store" where
  "Close s =
     (if s_read_only s then (Inr (), s)
      else if s_wal_open s then
        (let (closed, s) = append_frame RT_CleanShutdown kFlagNone 0 [] s;
             s = s\<lparr>s_wal_open := False, s_read_only := True\<rparr>
         in case closed of Inl e \<Rightarrow> (Inl e, s) | Inr _ \<Rightarrow> (Inr (), s))
      else (Inr (), s\<lparr>s_read_only := True\<rparr>))"

section \<open>Compaction and verification\<close>

definition WriteSnapshot :: "bytes \<Rightarrow> store \<Rightarrow> unit result \<times> store" where
  "WriteSnapshot snapshot s =
     (if length snapshot > kMaxSnapshotBytes
      then (Inl (make_error EC_TooLarge ''snapshot exceeds the configured budget''), s)
      else
        let sequence = s_last_sequence s; encoded = encode_snapshot sequence snapshot in
        if encoded = []
        then (Inl (make_error EC_TooLarge ''snapshot encoding exceeded its budget''), s)
        else
          let target = join_path (so_directory (s_options s)) (snapshot_file_name sequence);
              previous_path = s_snapshot_path s in
          bindD (on_disk (write_file_atomic target encoded) s) (\<lambda>_ s.
          bindD (write_manifest (s\<lparr>s_snapshot_path := target, s_snapshot_sequence := sequence\<rparr>)) (\<lambda>_ s.
            let (truncated, s) = on_disk (write_file_atomic (s_wal_path s) []) (s\<lparr>s_wal_open := False\<rparr>) in
            case truncated of
              Inl e \<Rightarrow> let (_, s) = reopen_wal s in (Inl e, s)
            | Inr _ \<Rightarrow> bindD (reopen_wal (s\<lparr>s_wal_bytes := 0\<rparr>)) (\<lambda>_ s.
                if previous_path \<noteq> [] \<and> previous_path \<noteq> target
                then let (_, s) = on_disk (remove_file previous_path) s in (Inr (), s)
                else (Inr (), s)))))"

text \<open>The loop of the verification: the offset behind the last frame, if every frame parses.\<close>

function verify_frames :: "bytes \<Rightarrow> nat \<Rightarrow> nat \<Rightarrow> nat option" where
  "verify_frames bs max_record_bytes offset =
     (if offset + kLogHeaderBytes \<le> length bs then
        let frame = parse_frame bs offset max_record_bytes in
        if \<not> fv_ok frame then None
        else verify_frames bs max_record_bytes (fv_next_offset frame)
      else Some offset)"
  by pat_completeness auto
termination
  by (relation "measure (\<lambda>(bs, m, offset). length bs - offset)")
    (use parse_frame_advances in \<open>auto simp: kLogHeaderBytes_def intro!: diff_less_mono2\<close>)

declare verify_frames.simps [simp del]

definition Verify :: "store \<Rightarrow> unit result \<times> store" where
  "Verify s =
     bindD (on_disk (read_file (s_manifest_path s) kManifestBudget) s) (\<lambda>manifest s.
     if length manifest < 12 then (Inl (make_error EC_Corrupt ''manifest is too small''), s)
     else if crc32c (take (length manifest - 4) manifest) \<noteq>
       ucast (load_at manifest (length manifest - 4) 4)
     then (Inl (make_error EC_Corrupt ''manifest checksum mismatch''), s)
     else bindD
       (if s_snapshot_path s = [] then (Inr (), s)
        else bindD (on_disk (read_file (s_snapshot_path s) kMaxSnapshotBytes) s) (\<lambda>bs s.
          let (payload, sequence) = decode_snapshot bs 0 in
          case payload of
            Inl e \<Rightarrow> (Inl e, s)
          | Inr _ \<Rightarrow>
              if sequence \<noteq> s_snapshot_sequence s
              then (Inl (make_error EC_Corrupt ''snapshot sequence mismatch during verification''), s)
              else (Inr (), s)))
       (\<lambda>_ s. bindD (on_disk (path_exists (s_wal_path s)) s) (\<lambda>ex s.
          if \<not> ex then (Inr (), s)
          else bindD (on_disk (read_file (s_wal_path s) kMaxWalScanBytes) s) (\<lambda>bs s.
            case verify_frames bs (so_max_record_bytes (s_options s)) 0 of
              None \<Rightarrow> (Inl (make_error EC_Corrupt ''write-ahead log frame failed verification''), s)
            | Some offset \<Rightarrow>
                if offset \<noteq> length bs
                then (Inl (make_error EC_Corrupt ''write-ahead log has a torn tail''), s)
                else (Inr (), s)))))"

section \<open>Opening\<close>

definition is_temp_name :: "string \<Rightarrow> bool" where
  "is_temp_name name \<longleftrightarrow> length name > 4 \<and> drop (length name - 4) name = ''.tmp''"

fun remove_temps :: "string list \<Rightarrow> store \<Rightarrow> store" where
  "remove_temps [] s = s"
| "remove_temps (name # names) s =
     remove_temps names
       (if is_temp_name name
        then snd (on_disk (remove_file (join_path (so_directory (s_options s)) name)) s) else s)"

fun retire_snapshots :: "string list \<Rightarrow> store \<Rightarrow> store" where
  "retire_snapshots [] s = s"
| "retire_snapshots (name # names) s =
     retire_snapshots names
       (let full = join_path (so_directory (s_options s)) name in
        if \<not> is_snapshot_name name then s
        else if s_snapshot_path s \<noteq> [] \<and> full = s_snapshot_path s then s
        else snd (on_disk (remove_file full) s))"

text \<open>A store without an identity takes the digest of a fresh boot identity, and logs it.\<close>

definition mint_identity :: "bytes \<Rightarrow> store \<Rightarrow> unit result \<times> store" where
  "mint_identity fresh s =
     (if (case digest_parse_hex (s_store_id s) of None \<Rightarrow> True | Some d \<Rightarrow> digest_is_zero d)
      then
        let minted = sha256 fresh; s = s\<lparr>s_store_id := digest_hex minted\<rparr> in
        bindD (Append RT_StoreHeader minted s) (\<lambda>_ s. write_manifest s)
      else (Inr (), s))"

definition open_impl :: "store_options \<Rightarrow> bytes \<Rightarrow> store \<Rightarrow> unit result \<times> store" where
  "open_impl options fresh s =
     (let s = s\<lparr>s_options := options,
           s_manifest_path := join_path (so_directory options) manifest_file_name,
           s_wal_path := join_path (so_directory options) wal_file_name\<rparr> in
      bindD (on_disk (path_exists (so_directory options)) s) (\<lambda>ex s.
      bindD
        (if ex then (Inr (), s)
         else if \<not> so_create_if_missing options
         then (Inl (make_error EC_NotFound ''store directory does not exist''), s)
         else bindD (on_disk (ensure_directory (so_directory options)) s) (\<lambda>_ s.
           (Inr (), s\<lparr>s_recovery := (s_recovery s)\<lparr>rr_store_created := True\<rparr>\<rparr>))) (\<lambda>_ s.
      let (manifest, s) = load_manifest s in
      bindD
        (case manifest of
           Inr _ \<Rightarrow> (Inr (), s)
         | Inl e \<Rightarrow>
             if err_code e = EC_VersionMismatch then (Inl e, s)
             else bindD (rebuild_manifest s) (\<lambda>_ s.
               (Inr (), s\<lparr>s_recovery := (s_recovery s)\<lparr>rr_manifest_rebuilt := True\<rparr>\<rparr>))) (\<lambda>_ s.
      let (entries, s) = on_disk (list_directory (so_directory options)) s;
          s = (case entries of Inl _ \<Rightarrow> s | Inr names \<Rightarrow> remove_temps names s) in
      bindD (load_snapshot s) (\<lambda>_ s.
      bindD (replay_log s) (\<lambda>_ s.
      let s = (case entries of Inl _ \<Rightarrow> s | Inr names \<Rightarrow> retire_snapshots names s) in
      bindD (reopen_wal s) (\<lambda>_ s.
      bindD (mint_identity fresh s) (\<lambda>_ s.
        (Inr (), s\<lparr>s_recovery := (s_recovery s)\<lparr>rr_last_sequence := s_last_sequence s\<rparr>\<rparr>)))))))))"

text \<open>
  \<open>Open\<close> takes the disk and the boot identity it may have to mint; the object is the result,
  when there is one, and the second component the disk as the attempt leaves it.
\<close>

definition Open :: "store_options \<Rightarrow> bytes \<Rightarrow> disk \<Rightarrow> store result \<times> disk" where
  "Open options fresh d =
     (if so_directory options = []
      then (Inl (make_error EC_InvalidArgument ''store directory is required''), d)
      else if so_format_version options \<noteq> kStoreFormatVersion
      then (Inl (make_error EC_VersionMismatch ''requested store format version is not supported''), d)
      else if so_max_record_bytes options = 0 \<or> so_max_record_bytes options > kMaxWalRecordBytes
      then (Inl (make_error EC_InvalidArgument ''record budget outside the supported range''), d)
      else
        let (opened, s) = open_impl options fresh (new_store d) in
        case opened of Inl e \<Rightarrow> (Inl e, s_disk s) | Inr _ \<Rightarrow> (Inr s, s_disk s))"

end
