(* ===== verification/Store_Props.thy ===== *)
theory Store_Props
  imports Store Model_Codec
begin

text \<open>
  What the log holds: the layout of a frame, the entries a sequence of operations leaves, and
  replay over them.
\<close>

unbundle bit_operations_syntax

section \<open>Layout\<close>

record log_entry =
  le_type :: record_type
  le_flags :: u8
  le_sequence :: sequence_no
  le_attempt :: attempt_id
  le_body :: bytes

definition lay_record :: "log_entry \<Rightarrow> bytes" where
  "lay_record e = lay_u16 kFrameVersion @ lay_u16 (rt_rank (le_type e)) @ lay_u8 (le_flags e) @
     lay_u64 (le_sequence e) @ lay_u64 (le_attempt e) @ lay_u32 (word_of_nat (length (le_body e))) @
     le_body e"

definition lay_entry :: "log_entry \<Rightarrow> bytes" where
  "lay_entry e = lay_u32 (word_of_nat (length (lay_record e))) @ lay_u32 (crc32c (lay_record e)) @
     lay_record e"

definition lay_log :: "log_entry list \<Rightarrow> bytes" where
  "lay_log es = concat (map lay_entry es)"

definition entry_fits :: "nat \<Rightarrow> log_entry \<Rightarrow> bool" where
  "entry_fits m e \<longleftrightarrow> kRecordHeaderBytes + length (le_body e) \<le> m"

definition view_of :: "nat \<Rightarrow> log_entry \<Rightarrow> frame_view" where
  "view_of next e = \<lparr>fv_ok = True, fv_incomplete = False, fv_next_offset = next, fv_type = le_type e,
     fv_flags = le_flags e, fv_sequence = le_sequence e, fv_attempt = le_attempt e,
     fv_body = le_body e\<rparr>"

lemma length_lay_record [simp]: "length (lay_record e) = kRecordHeaderBytes + length (le_body e)"
  by (simp add: lay_record_def kRecordHeaderBytes_def)

lemma length_lay_entry [simp]:
  "length (lay_entry e) = kLogHeaderBytes + kRecordHeaderBytes + length (le_body e)"
  by (simp add: lay_entry_def kLogHeaderBytes_def)

lemma lay_log_simps [simp]:
  "lay_log [] = []" "lay_log (e # es) = lay_entry e @ lay_log es"
  "lay_log (es @ fs) = lay_log es @ lay_log fs"
  by (simp_all add: lay_log_def)

lemma rt_rank_bound [simp]: "\<not> rt_rank RT_CleanShutdown < rt_rank t" "all_rt ! unat (rt_rank t) = t"
  by (cases t; simp add: all_rt_def)+

lemma load_at_skip: "load_at (pre @ xs) (length pre + n) k = load_at xs n k"
  by (simp add: load_at_def)

lemma load_store_le_u32: "load_le (store_le (ucast (v :: u32)) 4) = ucast v"
  by (rule bit_eqI) (auto simp: load_store_le bit_simps dest: bit_imp_le_length)

lemma ucast_u64_u32: "ucast (ucast v :: u64) = (v :: u32)"
  by (rule bit_eqI) (auto simp: bit_simps dest: bit_imp_le_length)

lemma load_at_lay:
  "load_at (lay_u32 v @ xs) 0 4 = ucast v" "load_at (lay_u32 u @ lay_u32 v @ xs) 4 4 = ucast v"
  by (simp_all add: load_at_def lay_u32_def load_store_le_u32)

text \<open>Parsing depends on the bytes from the offset on.\<close>

lemma parse_frame_skip:
  "parse_frame (pre @ bs) (length pre + k) m =
     (let v = parse_frame bs k m in
      if fv_ok v then v\<lparr>fv_next_offset := length pre + fv_next_offset v\<rparr> else v)"
proof -
  have "load_at (pre @ bs) (length pre + k + 4) 4 = load_at bs (k + 4) 4"
    using load_at_skip [of pre bs "k + 4" 4] by (simp add: add.assoc)
  moreover have "drop (length pre + k + n) (pre @ bs) = drop (k + n) bs" for n
    by (simp add: add.assoc)
  ultimately show ?thesis
    by (simp add: parse_frame_def load_at_skip no_frame_def Let_def split: prod.splits)
qed

lemma parse_frame_lay:
  assumes "entry_fits m e" and "m \<le> kMaxWalRecordBytes"
  shows "parse_frame (lay_entry e @ post) 0 m = view_of (length (lay_entry e)) e"
proof -
  have n: "length (lay_record e) \<le> m" "length (lay_record e) \<le> 0xFFFFFFFF" "length (le_body e) \<le> 0xFFFFFFFF"
    using assms by (simp_all add: entry_fits_def limit_defs)
  have len: "load_at (lay_entry e @ post) 0 4 = ucast (word_of_nat (length (lay_record e)) :: u32)"
    and crc: "load_at (lay_entry e @ post) 4 4 = ucast (crc32c (lay_record e))"
    by (simp_all add: lay_entry_def load_at_lay)
  have u: "unat (ucast (word_of_nat (length (lay_record e)) :: u32) :: u64) = length (lay_record e)"
    using unat_of_nat_u32 [OF n(2)] by (simp add: unsigned_ucast_eq take_bit_nat_eq_self del: length_lay_record)
  have payload: "take (length (lay_record e)) (drop kLogHeaderBytes (lay_entry e @ post)) = lay_record e"
    by (simp add: lay_entry_def kLogHeaderBytes_def)
  have nr: "new_reader (lay_record e) = rd [] (lay_u16 kFrameVersion @ lay_u16 (rt_rank (le_type e)) @
     lay_u8 (le_flags e) @ lay_u64 (le_sequence e) @ lay_u64 (le_attempt e) @
     lay_u32 (word_of_nat (length (le_body e))) @ le_body e)"
    by (simp add: lay_record_def new_reader_rd)
  have body: "drop kRecordHeaderBytes (lay_record e) = le_body e"
    by (simp add: lay_record_def kRecordHeaderBytes_def)
  show ?thesis
    unfolding parse_frame_def Let_def len crc u add_0 payload nr
    using n unat_of_nat_u32 [OF n(3)] rt_rank_bound(1) [of "le_type e"]
    by (simp add: codec ucast_u64_u32 body view_of_def no_frame_def)
qed

lemma parse_frame_at:
  assumes "entry_fits m e" and "m \<le> kMaxWalRecordBytes"
  shows "parse_frame (pre @ lay_entry e @ post) (length pre) m = view_of (length (pre @ lay_entry e)) e"
  using parse_frame_skip [of pre "lay_entry e @ post" 0 m] parse_frame_lay [OF assms, of post]
  by (simp add: view_of_def)

section \<open>Replay over the entries of a log\<close>

fun replay_entries :: "u64 \<Rightarrow> nat \<Rightarrow> log_entry list \<Rightarrow> replay \<Rightarrow> replay option" where
  "replay_entries q offset [] rp = Some rp"
| "replay_entries q offset (e # es) rp =
     (let next = offset + length (lay_entry e);
          rp = rp\<lparr>rp_offset := next, rp_good_end := next, rp_clean := False\<rparr> in
      if le_sequence e \<le> q then replay_entries q next es rp
      else
        let rp = (if le_sequence e > rp_last_sequence rp
                  then rp\<lparr>rp_last_sequence := le_sequence e\<rparr> else rp) in
        case apply_frame (view_of next e) rp of
          None \<Rightarrow> None
        | Some rp \<Rightarrow> replay_entries q next es rp)"

text \<open>The loop walks over the entries of a log and goes on with what stands behind them.\<close>

lemma replay_loop_entries:
  assumes "m \<le> kMaxWalRecordBytes" and "list_all (entry_fits m) es"
    and "replay_entries q (length pre) es rp = Some rp'"
  shows "replay_loop (pre @ lay_log es @ post) m q (length pre) rp =
    replay_loop (pre @ lay_log es @ post) m q (length (pre @ lay_log es)) rp'"
  using assms(2,3)
proof (induction es arbitrary: pre rp)
  case (Cons e es)
  from Cons.prems have e: "entry_fits m e" and es: "list_all (entry_fits m) es" by auto
  note pf = parse_frame_at [OF e assms(1), of pre "lay_log es @ post"]
  have IH: "replay_entries q (length (pre @ lay_entry e)) es rp1 = Some rp' \<Longrightarrow>
      replay_loop (pre @ lay_log (e # es) @ post) m q (length (pre @ lay_entry e)) rp1 =
      replay_loop (pre @ lay_log (e # es) @ post) m q (length (pre @ lay_log (e # es))) rp'" for rp1
    using Cons.IH [OF es, of "pre @ lay_entry e" rp1] by simp
  show ?case
    apply (subst replay_loop.simps)
    using Cons.prems(2) IH pf
    by (auto simp: Let_def view_of_def split: if_splits option.splits)
qed simp

section \<open>What an append adds\<close>

abbreviation calm :: "store \<Rightarrow> bool" where "calm s \<equiv> d_faults (s_disk s) = []"
abbreviation log_file :: "store \<Rightarrow> bytes option" where
  "log_file s \<equiv> file_at (s_disk s) (s_wal_path s)"

lemma store_le_nat_u32: "store_le (word_of_nat n) 4 = lay_u32 (word_of_nat n)"
  unfolding lay_u32_def
  by (rule nth_equalityI) (auto intro!: bit_word_eqI simp: bit_store_le bit_simps)

lemma emits_frame_body:
  "emits (w_seq [w_u16 kFrameVersion, w_u16 (rt_rank (le_type e)), w_u8 (le_flags e),
     w_u64 (le_sequence e), w_u64 (le_attempt e), w_u32 (word_of_nat (length (le_body e))),
     w_raw (le_body e)]) (lay_record e)"
proof -
  have "lay_record e = concat [lay_u16 kFrameVersion, lay_u16 (rt_rank (le_type e)),
      lay_u8 (le_flags e), lay_u64 (le_sequence e), lay_u64 (le_attempt e),
      lay_u32 (word_of_nat (length (le_body e))), le_body e]"
    by (simp add: lay_record_def)
  then show ?thesis
    by (auto intro!: emits_fields intro: writes_intros simp del: concat.simps)
qed

definition new_entry :: "record_type \<Rightarrow> u8 \<Rightarrow> attempt_id \<Rightarrow> bytes \<Rightarrow> store \<Rightarrow> log_entry" where
  "new_entry t fl a p s = \<lparr>le_type = t, le_flags = fl, le_sequence = s_last_sequence s + 1,
     le_attempt = a, le_body = p\<rparr>"

lemma frame_body_lay:
  "\<not> w_failed (frame_body m t fl (s_last_sequence s + 1) a p) \<longleftrightarrow> entry_fits m (new_entry t fl a p s)"
  "entry_fits m (new_entry t fl a p s) \<Longrightarrow>
     w_buffer (frame_body m t fl (s_last_sequence s + 1) a p) = lay_record (new_entry t fl a p s)"
  using emits_encode [OF emits_frame_body [of "new_entry t fl a p s"], of m]
  by (simp_all add: frame_body_def entry_fits_def new_entry_def)

text \<open>The state after a successful append: one entry more at the end of the log.\<close>

definition appended :: "log_entry \<Rightarrow> store \<Rightarrow> store" where
  "appended e s = s\<lparr>s_disk := append_file (s_wal_path s) (lay_entry e) (s_disk s),
     s_wal_bytes := word_of_nat (length (lay_entry e)) + s_wal_bytes s,
     s_last_sequence := le_sequence e\<rparr>"

text \<open>What admits an append: an open log, a sequence number left, and both budgets.\<close>

definition can_append :: "log_entry \<Rightarrow> store \<Rightarrow> bool" where
  "can_append e s \<longleftrightarrow> \<not> s_read_only s \<and> s_wal_open s \<and> s_last_sequence s \<noteq> - 1 \<and>
     entry_fits (so_max_record_bytes (s_options s)) e \<and>
     (case checked_add (word_of_nat (length (lay_entry e))) (s_wal_bytes s) of None \<Rightarrow> False
      | Some n \<Rightarrow> n \<le> so_max_wal_bytes (s_options s))"

lemma entry_header:
  "store_le (word_of_nat (length (lay_record e))) 4 @ store_le (ucast (crc32c (lay_record e))) 4 @
   lay_record e = lay_entry e"
  by (simp add: lay_entry_def store_le_nat_u32 lay_u32_def [of "crc32c (lay_record e)"] del: length_lay_record)

lemma write_frame_calm:
  "d_faults d = [] \<Longrightarrow> write_frame path h b d = (Inr (), append_file path (h @ b) d)"
  by (simp add: write_frame_def append_file_def)

lemma append_frame_calm:
  assumes "calm s"
  shows "append_frame t fl a p s =
    (if can_append (new_entry t fl a p s) s
     then (Inr (s_last_sequence s + 1), appended (new_entry t fl a p s) s)
     else (fst (append_frame t fl a p s), s)) \<and>
    (\<not> can_append (new_entry t fl a p s) s \<longrightarrow> (\<exists>e. fst (append_frame t fl a p s) = Inl e))"
proof -
  let ?e = "new_entry t fl a p s" and ?m = "so_max_record_bytes (s_options s)"
  have big: "?m < length p \<Longrightarrow> \<not> entry_fits ?m ?e"
    by (simp add: entry_fits_def new_entry_def)
  have l: "(word_of_nat (length (lay_entry ?e)) :: u64) =
      word_of_nat kLogHeaderBytes + word_of_nat (length (lay_record ?e))" by simp
  have seq: "le_sequence ?e = s_last_sequence s + 1" by (simp add: new_entry_def)
  show ?thesis
  proof (cases "entry_fits ?m ?e")
    case True
    then have nf: "\<not> w_failed (frame_body ?m t fl (s_last_sequence s + 1) a p)"
      and buf: "w_buffer (frame_body ?m t fl (s_last_sequence s + 1) a p) = lay_record ?e"
      and small: "\<not> ?m < length p"
      using frame_body_lay big by blast+
    show ?thesis
      using assms True
      by (auto simp: append_frame_def Let_def nf buf small can_append_def l try_increment_def
          on_disk_def write_frame_calm appended_def seq entry_header
          simp del: length_lay_entry length_lay_record dest: checked_add_iff [THEN iffD1]
          split: option.splits)
  next
    case False
    then have "w_failed (frame_body ?m t fl (s_last_sequence s + 1) a p)"
      using frame_body_lay by blast
    with False show ?thesis
      by (auto simp: append_frame_def Let_def can_append_def try_increment_def split: option.splits)
  qed
qed

section \<open>The journal a log stands for\<close>

text \<open>
  The abstract state of the store: the payload of the last snapshot, the records recovery replays
  over it, in the order they took effect, and the intents that are neither committed nor aborted,
  by attempt.
\<close>

record journal =
  jn_snapshot :: bytes
  jn_committed :: "log_record list"
  jn_pending :: "attempt_id \<rightharpoonup> record_type \<times> bytes"

datatype journal_event =
    Appended record_type sequence_no bytes
  | Staged attempt_id record_type bytes
  | Committed attempt_id sequence_no
  | Aborted attempt_id
  | Compacted bytes

definition empty_journal :: journal where
  "empty_journal = \<lparr>jn_snapshot = [], jn_committed = [], jn_pending = Map.empty\<rparr>"

definition add_committed :: "record_type \<Rightarrow> sequence_no \<Rightarrow> bytes \<Rightarrow> journal \<Rightarrow> journal" where
  "add_committed t q b j = j\<lparr>jn_committed := jn_committed j @
     [\<lparr>lr_type = t, lr_sequence = q, lr_payload = b\<rparr>]\<rparr>"

fun journal_step :: "journal_event \<Rightarrow> journal \<Rightarrow> journal" where
  "journal_step (Appended t q b) j =
     (if t = RT_StoreHeader \<or> t = RT_CleanShutdown then j else add_committed t q b j)"
| "journal_step (Staged a t b) j = j\<lparr>jn_pending := (jn_pending j)(a \<mapsto> (t, b))\<rparr>"
| "journal_step (Committed a q) j =
     (case jn_pending j a of
        None \<Rightarrow> j
      | Some (t, b) \<Rightarrow> (add_committed t q b j)\<lparr>jn_pending := (jn_pending j)(a := None)\<rparr>)"
| "journal_step (Aborted a) j = j\<lparr>jn_pending := (jn_pending j)(a := None)\<rparr>"
| "journal_step (Compacted p) j =
     \<lparr>jn_snapshot = p, jn_committed = [], jn_pending = Map.empty\<rparr>"

text \<open>The replay state agrees with the journal, and its attempts are at most \<open>bound\<close>.\<close>

definition tracks :: "sequence_no \<Rightarrow> journal \<Rightarrow> replay \<Rightarrow> bool" where
  "tracks bound j rp \<longleftrightarrow> rp_replayed rp = jn_committed j \<and>
     jn_pending j = (\<lambda>a. map_option (\<lambda>r. (lr_type r, lr_payload r)) (map_of (rp_staged rp) a)) \<and>
     distinct (map fst (rp_staged rp)) \<and> (\<forall>a \<in> fst ` set (rp_staged rp). a \<le> bound)"

text \<open>A store whose log is well formed, and the journal that log stands for.\<close>

definition represents :: "store \<Rightarrow> journal \<Rightarrow> bool" where
  "represents s j \<longleftrightarrow> (\<exists>es.
     log_file s = Some (lay_log es) \<and> unat (s_wal_bytes s) = length (lay_log es) \<and>
     list_all (entry_fits (so_max_record_bytes (s_options s))) es \<and>
     so_max_record_bytes (s_options s) \<le> kMaxWalRecordBytes \<and>
     s_snapshot_sequence s \<le> s_last_sequence s \<and>
     (\<forall>e \<in> set es. le_sequence e \<le> s_last_sequence s) \<and>
     (\<forall>rp. rp_replayed rp = [] \<longrightarrow> rp_staged rp = [] \<longrightarrow>
        s_snapshot_sequence s \<le> rp_last_sequence rp \<longrightarrow>
        (\<exists>rp'. replay_entries (s_snapshot_sequence s) 0 es rp = Some rp' \<and>
           tracks (s_last_sequence s) j rp' \<and>
           rp_last_sequence rp' = max (rp_last_sequence rp) (s_last_sequence s))))"

lemma replay_entries_snoc:
  "replay_entries q offset (es @ [e]) rp =
     (case replay_entries q offset es rp of
        None \<Rightarrow> None
      | Some rp' \<Rightarrow> replay_entries q (offset + length (lay_log es)) [e] rp')"
  by (induction es arbitrary: offset rp) (auto simp: Let_def add.assoc split: option.splits)

lemma find_staged_map_of: "find_staged a xs = map_of xs a"
  by (induction a xs rule: find_staged.induct) auto

lemma erase_staged_laws:
  "distinct (map fst xs) \<Longrightarrow> map_of (erase_staged a xs) = (map_of xs)(a := None)"
  "distinct (map fst xs) \<Longrightarrow> distinct (map fst (erase_staged a xs))"
  "set (erase_staged a xs) \<subseteq> set xs"
  by (induction a xs rule: erase_staged.induct)
    (auto simp: fun_eq_iff map_of_eq_None_iff image_iff dest: subsetD)

lemma appended_bytes:
  assumes "can_append e s" and "so_max_record_bytes (s_options s) \<le> kMaxWalRecordBytes"
  shows "unat (s_wal_bytes (appended e s)) = length (lay_entry e) + unat (s_wal_bytes s)"
proof -
  have "length (lay_entry e) \<le> kLogHeaderBytes + kMaxWalRecordBytes"
    using assms by (simp add: can_append_def entry_fits_def)
  then have "unat (word_of_nat (length (lay_entry e)) :: u64) = length (lay_entry e)"
    by (simp add: unat_of_nat take_bit_nat_eq_self unsigned_of_nat kLogHeaderBytes_def limit_defs
        del: length_lay_entry of_nat_add)
  with assms(1) show ?thesis
    by (auto simp: can_append_def appended_def checked_add_iff unat_word_ariths
        simp del: length_lay_entry split: option.splits)
qed

lemma represents_append:
  assumes r: "represents s j" and c: "can_append e s" and q: "le_sequence e = s_last_sequence s + 1"
    and step: "\<And>n rp. tracks (s_last_sequence s) j rp \<Longrightarrow> \<exists>rp'.
      apply_frame (view_of n e) rp = Some rp' \<and> tracks (s_last_sequence s + 1) j' rp' \<and>
      rp_last_sequence rp' = rp_last_sequence rp"
  shows "represents (appended e s) j'"
proof -
  from r obtain es where es: "log_file s = Some (lay_log es)"
    "unat (s_wal_bytes s) = length (lay_log es)"
    "list_all (entry_fits (so_max_record_bytes (s_options s))) es"
    "so_max_record_bytes (s_options s) \<le> kMaxWalRecordBytes"
    "s_snapshot_sequence s \<le> s_last_sequence s" "\<forall>x \<in> set es. le_sequence x \<le> s_last_sequence s"
    and run: "\<And>rp. rp_replayed rp = [] \<Longrightarrow> rp_staged rp = [] \<Longrightarrow>
        s_snapshot_sequence s \<le> rp_last_sequence rp \<Longrightarrow>
        (\<exists>rp'. replay_entries (s_snapshot_sequence s) 0 es rp = Some rp' \<and>
           tracks (s_last_sequence s) j rp' \<and>
           rp_last_sequence rp' = max (rp_last_sequence rp) (s_last_sequence s))"
    unfolding represents_def by blast
  have lt: "s_last_sequence s < s_last_sequence s + 1"
    using c by (intro try_increment_less) (auto simp: can_append_def try_increment_def)
  have bytes: "unat (s_wal_bytes (appended e s)) = length (lay_log (es @ [e]))"
    using appended_bytes [OF c es(4)] es(2) by (simp add: appended_def)
  show ?thesis
    unfolding represents_def
  proof (intro exI [of _ "es @ [e]"] conjI allI ballI impI)
    show "log_file (appended e s) = Some (lay_log (es @ [e]))"
      using es(1) by (simp add: appended_def append_file_def)
    show "unat (s_wal_bytes (appended e s)) = length (lay_log (es @ [e]))" by (rule bytes)
    show "list_all (entry_fits (so_max_record_bytes (s_options (appended e s)))) (es @ [e])"
      using es(3) c by (simp add: appended_def can_append_def)
    show "so_max_record_bytes (s_options (appended e s)) \<le> kMaxWalRecordBytes"
      using es(4) by (simp add: appended_def)
    show "s_snapshot_sequence (appended e s) \<le> s_last_sequence (appended e s)"
      using es(5) lt by (simp add: appended_def q)
    show "le_sequence x \<le> s_last_sequence (appended e s)" if "x \<in> set (es @ [e])" for x
      using that es(6) lt q by (auto simp: appended_def)
    fix rp :: replay assume rp: "rp_replayed rp = []" "rp_staged rp = []"
      "s_snapshot_sequence (appended e s) \<le> rp_last_sequence rp"
    then obtain rp1 where rp1: "replay_entries (s_snapshot_sequence s) 0 es rp = Some rp1"
      "tracks (s_last_sequence s) j rp1"
      "rp_last_sequence rp1 = max (rp_last_sequence rp) (s_last_sequence s)"
      using run [of rp] by (auto simp: appended_def)
    let ?n = "length (lay_log es) + length (lay_entry e)"
    let ?rp2 = "rp1\<lparr>rp_offset := ?n, rp_good_end := ?n, rp_clean := False,
      rp_last_sequence := max (rp_last_sequence rp) (s_last_sequence s + 1)\<rparr>"
    have "tracks (s_last_sequence s) j ?rp2" using rp1(2) by (simp add: tracks_def)
    then obtain rp3 where rp3: "apply_frame (view_of ?n e) ?rp2 = Some rp3"
      "tracks (s_last_sequence s + 1) j' rp3" "rp_last_sequence rp3 = rp_last_sequence ?rp2"
      using step by blast
    have late: "\<not> s_last_sequence s + 1 \<le> s_snapshot_sequence s" using es(5) lt by simp
    have "rp1\<lparr>rp_offset := ?n, rp_good_end := ?n, rp_clean := False,
        rp_last_sequence := s_last_sequence s + 1\<rparr> = ?rp2" if "rp_last_sequence rp1 < s_last_sequence s + 1"
      using that rp1(3) lt by simp
    moreover have "rp1\<lparr>rp_offset := ?n, rp_good_end := ?n, rp_clean := False\<rparr> = ?rp2"
      if "\<not> rp_last_sequence rp1 < s_last_sequence s + 1"
      using that rp1(3) lt by (simp add: max_def split: if_splits)
    ultimately have "replay_entries (s_snapshot_sequence s) 0 (es @ [e]) rp = Some rp3"
      using rp3(1) rp1(1) late
      by (cases "rp_last_sequence rp1 < s_last_sequence s + 1")
        (simp_all add: replay_entries_snoc Let_def q del: length_lay_entry)
    then show "\<exists>rp'. replay_entries (s_snapshot_sequence (appended e s)) 0 (es @ [e]) rp = Some rp' \<and>
        tracks (s_last_sequence (appended e s)) j' rp' \<and>
        rp_last_sequence rp' = max (rp_last_sequence rp) (s_last_sequence (appended e s))"
      using rp3(2,3) by (simp add: appended_def q)
  qed
qed

section \<open>Each operation is a step of the journal\<close>

lemma apply_frame_intent:
  assumes "length b \<le> kMaxWalRecordBytes"
    and "le_type e = RT_MutationIntent"
    and "le_body e = lay_u16 (rt_rank t) @ lay_u64 a @ lay_u32 (word_of_nat (length b)) @ b"
  shows "apply_frame (view_of n e) rp = Some (rp\<lparr>rp_staged := rp_staged rp @
    [(a, \<lparr>lr_type = t, lr_sequence = 0, lr_payload = b\<rparr>)]\<rparr>)"
proof -
  have u: "unat (word_of_nat (length b) :: u32) = length b"
    using assms(1) by (intro unat_of_nat_u32) (simp add: limit_defs)
  show ?thesis
    using rt_rank_bound(1) [of t]
    by (simp add: apply_frame_def view_of_def assms(2,3) new_reader_rd codec u r_raw_rd)
qed

lemma tracks_intent:
  assumes "tracks q j rp" and "a = q + 1" and "q < q + 1"
  shows "tracks (q + 1) (journal_step (Staged a t b) j)
    (rp\<lparr>rp_staged := rp_staged rp @ [(a, \<lparr>lr_type = t, lr_sequence = 0, lr_payload = b\<rparr>)]\<rparr>)"
proof -
  have "a \<notin> fst ` set (rp_staged rp)" using assms by (auto simp: tracks_def)
  with assms show ?thesis
    by (auto simp: tracks_def fun_eq_iff map_add_def map_of_eq_None_iff image_iff split: option.splits)
qed

lemma erased_bound:
  "tracks q j rp \<Longrightarrow> q < q + 1 \<Longrightarrow> x \<in> set (erase_staged a (rp_staged rp)) \<Longrightarrow> fst x \<le> q + 1"
  using erase_staged_laws(3) [of a "rp_staged rp"] by (fastforce simp: tracks_def)

lemma apply_frame_commit:
  assumes "tracks q j rp" and "q < q + 1" and "le_type e = RT_MutationCommit"
    and "le_body e = lay_u64 a @ xs" and "le_sequence e = r"
  shows "\<exists>rp'. apply_frame (view_of n e) rp = Some rp' \<and>
    tracks (q + 1) (journal_step (Committed a r) j) rp' \<and> rp_last_sequence rp' = rp_last_sequence rp"
proof -
  let ?l = "map_of (rp_staged rp) a"
  have d: "distinct (map fst (rp_staged rp))" and j: "map_option (\<lambda>r. (lr_type r, lr_payload r)) ?l = jn_pending j a"
    using assms(1) by (auto simp: tracks_def)
  have run_eq: "apply_frame (view_of n e) rp = (case ?l of None \<Rightarrow> Some rp
      | Some record \<Rightarrow> Some (rp\<lparr>
          rp_replayed := rp_replayed rp @ [record\<lparr>lr_sequence := r\<rparr>],
          rp_staged := erase_staged a (rp_staged rp)\<rparr>))"
    by (simp add: apply_frame_def view_of_def assms(3-5) new_reader_rd codec find_staged_map_of
        split: option.split)
  show ?thesis
  proof (cases ?l)
    case None
    then show ?thesis using assms(1,2) run_eq j by (auto simp: tracks_def)
  next
    case (Some item)
    then have "jn_pending j a = Some (lr_type item, lr_payload item)" using j by simp
    with Some run_eq assms(1,2) show ?thesis
      using erase_staged_laws(1,2) [OF d, of a] erased_bound [OF assms(1,2), of _ a]
      by (cases item) (fastforce simp: tracks_def fun_eq_iff add_committed_def)
  qed
qed

lemma apply_frame_abort:
  assumes "tracks q j rp" and "q < q + 1" and "le_type e = RT_MutationAbort"
    and "le_body e = lay_u64 a @ xs"
  shows "\<exists>rp'. apply_frame (view_of n e) rp = Some rp' \<and>
    tracks (q + 1) (journal_step (Aborted a) j) rp' \<and> rp_last_sequence rp' = rp_last_sequence rp"
proof -
  let ?l = "map_of (rp_staged rp) a"
  have d: "distinct (map fst (rp_staged rp))" and j: "jn_pending j a = map_option (\<lambda>r. (lr_type r, lr_payload r)) ?l"
    using assms(1) by (auto simp: tracks_def)
  have run_eq: "apply_frame (view_of n e) rp = (case ?l of None \<Rightarrow> Some rp
      | Some _ \<Rightarrow> Some (rp\<lparr>rp_staged := erase_staged a (rp_staged rp),
          rp_discarded := rp_discarded rp + 1\<rparr>))"
    by (simp add: apply_frame_def view_of_def assms(3-4) new_reader_rd codec find_staged_map_of)
  show ?thesis
  proof (cases ?l)
    case None
    then have "(jn_pending j)(a := None) = jn_pending j" using j by (auto simp: fun_eq_iff)
    then show ?thesis using None assms(1,2) run_eq by (auto simp: tracks_def)
  next
    case (Some item)
    with run_eq assms(1,2) show ?thesis
      using erase_staged_laws(1,2) [OF d, of a] erased_bound [OF assms(1,2), of _ a]
      by (fastforce simp: tracks_def fun_eq_iff)
  qed
qed

text \<open>A record that \<open>Append\<close> may write: not a frame of the journal itself, and long enough.\<close>

definition plain_record :: "record_type \<Rightarrow> bytes \<Rightarrow> bool" where
  "plain_record t b \<longleftrightarrow>
     t \<notin> {RT_Unknown, RT_MutationIntent, RT_MutationCommit, RT_MutationAbort} \<and>
     (t = RT_EpochAdvance \<longrightarrow> 8 \<le> length b) \<and> (t = RT_StoreHeader \<longrightarrow> kDigestBytes \<le> length b)"

lemma apply_frame_plain:
  assumes "tracks q j rp" and "q < q + 1" and "plain_record (le_type e) (le_body e)"
    and "le_sequence e = r"
  shows "\<exists>rp'. apply_frame (view_of n e) rp = Some rp' \<and>
    tracks (q + 1) (journal_step (Appended (le_type e) r (le_body e)) j) rp' \<and>
    rp_last_sequence rp' = rp_last_sequence rp"
  using assms
  by (cases "le_type e")
    (auto simp: apply_frame_def view_of_def tracks_def plain_record_def push_replayed_def add_committed_def)

section \<open>The steps of a live store\<close>

lemma can_append_less: "can_append e s \<Longrightarrow> s_last_sequence s < s_last_sequence s + 1"
  by (intro try_increment_less) (auto simp: can_append_def try_increment_def)

lemma appended_calm [simp]: "calm (appended e s) = calm s"
  by (simp add: appended_def append_file_def)

lemma represents_staged_count [simp]:
  "represents (s\<lparr>s_staged_count := n\<rparr>) j = represents s j" "represents (unstage s) j = represents s j"
  "calm (unstage s) = calm s" "s_last_sequence (unstage s) = s_last_sequence s"
  by (simp_all add: represents_def unstage_def)

lemma entry_sel [simp]:
  "le_type (new_entry t fl a p s) = t" "le_body (new_entry t fl a p s) = p"
  "le_sequence (new_entry t fl a p s) = s_last_sequence s + 1"
  "s_last_sequence (appended e s) = le_sequence e"
  by (simp_all add: new_entry_def appended_def)

lemma represents_small:
  "represents s j \<Longrightarrow> can_append e s \<Longrightarrow> length (le_body e) \<le> kMaxWalRecordBytes"
  by (auto simp: represents_def can_append_def entry_fits_def)

text \<open>The steps the four operations make, each from an entry that may be appended.\<close>

lemma plain_step:
  assumes "represents s j" and c: "can_append (new_entry t fl a b s) s" and "plain_record t b"
  shows "represents (appended (new_entry t fl a b s) s)
    (journal_step (Appended t (s_last_sequence s + 1) b) j)"
proof (rule represents_append [OF assms(1) c])
  fix n rp assume "tracks (s_last_sequence s) j rp"
  from apply_frame_plain [OF this can_append_less [OF c], of "new_entry t fl a b s"] assms(3)
  show "\<exists>rp'. apply_frame (view_of n (new_entry t fl a b s)) rp = Some rp' \<and>
      tracks (s_last_sequence s + 1) (journal_step (Appended t (s_last_sequence s + 1) b) j) rp' \<and>
      rp_last_sequence rp' = rp_last_sequence rp" by (simp del: journal_step.simps)
qed simp

lemma commit_step:
  assumes "represents s j" and c: "can_append (new_entry RT_MutationCommit fl a (lay_u64 a @ xs) s) s"
  shows "represents (appended (new_entry RT_MutationCommit fl a (lay_u64 a @ xs) s) s)
    (journal_step (Committed a (s_last_sequence s + 1)) j)"
proof (rule represents_append [OF assms(1) c])
  fix n rp assume "tracks (s_last_sequence s) j rp"
  from apply_frame_commit [OF this can_append_less [OF c],
      of "new_entry RT_MutationCommit fl a (lay_u64 a @ xs) s" a xs]
  show "\<exists>rp'. apply_frame (view_of n (new_entry RT_MutationCommit fl a (lay_u64 a @ xs) s)) rp = Some rp' \<and>
      tracks (s_last_sequence s + 1) (journal_step (Committed a (s_last_sequence s + 1)) j) rp' \<and>
      rp_last_sequence rp' = rp_last_sequence rp" by (simp del: journal_step.simps)
qed simp

lemma abort_step:
  assumes "represents s j" and c: "can_append (new_entry RT_MutationAbort fl a (lay_u64 a @ xs) s) s"
  shows "represents (appended (new_entry RT_MutationAbort fl a (lay_u64 a @ xs) s) s)
    (journal_step (Aborted a) j)"
proof (rule represents_append [OF assms(1) c])
  fix n rp assume "tracks (s_last_sequence s) j rp"
  from apply_frame_abort [OF this can_append_less [OF c],
      of "new_entry RT_MutationAbort fl a (lay_u64 a @ xs) s" a xs]
  show "\<exists>rp'. apply_frame (view_of n (new_entry RT_MutationAbort fl a (lay_u64 a @ xs) s)) rp = Some rp' \<and>
      tracks (s_last_sequence s + 1) (journal_step (Aborted a) j) rp' \<and>
      rp_last_sequence rp' = rp_last_sequence rp" by (simp del: journal_step.simps)
qed simp

definition lay_intent :: "record_type \<Rightarrow> attempt_id \<Rightarrow> bytes \<Rightarrow> bytes" where
  "lay_intent t a b = lay_u16 (rt_rank t) @ lay_u64 a @ lay_u32 (word_of_nat (length b)) @ b"

lemma stage_step:
  assumes "represents s j" and "a = s_last_sequence s + 1"
    and c: "can_append (new_entry RT_MutationIntent fl a (lay_intent t a b) s) s"
  shows "represents (appended (new_entry RT_MutationIntent fl a (lay_intent t a b) s) s)
    (journal_step (Staged a t b) j)"
proof (rule represents_append [OF assms(1) c])
  fix n rp assume "tracks (s_last_sequence s) j rp"
  from tracks_intent [OF this assms(2) can_append_less [OF c], of t b]
  show "\<exists>rp'. apply_frame (view_of n (new_entry RT_MutationIntent fl a (lay_intent t a b) s)) rp = Some rp' \<and>
      tracks (s_last_sequence s + 1) (journal_step (Staged a t b) j) rp' \<and>
      rp_last_sequence rp' = rp_last_sequence rp"
    using represents_small [OF assms(1) c]
    by (subst apply_frame_intent [where t = t and a = a and b = b])
      (simp_all add: lay_intent_def del: journal_step.simps)
qed simp

text \<open>What each call writes.\<close>

lemma emits_intent:
  "emits (w_seq [w_u16 (rt_rank t), w_u64 a, w_u32 (word_of_nat (length b)), w_raw b]) (lay_intent t a b)"
proof -
  have "lay_intent t a b = concat [lay_u16 (rt_rank t), lay_u64 a, lay_u32 (word_of_nat (length b)), b]"
    by (simp add: lay_intent_def)
  then show ?thesis
    by (auto intro!: emits_fields intro: writes_intros simp del: concat.simps)
qed

lemma emits_commit: "emits (w_seq [w_u64 a, w_raw d]) (lay_u64 a @ d)"
  using emits_fields [of "[w_u64 a, w_raw d]" "[lay_u64 a, d]"] by (auto intro: writes_intros)

lemma emits_abort:
  "emits (w_seq [w_u64 a, w_str (take kMaxReasonLen r) kMaxReasonLen])
     (lay_u64 a @ lay_str (take kMaxReasonLen r))"
  using emits_fields [of "[w_u64 a, w_str (take kMaxReasonLen r) kMaxReasonLen]"
      "[lay_u64 a, lay_str (take kMaxReasonLen r)]"] emits_u64 [of a]
    emits_str [of "take kMaxReasonLen r" kMaxReasonLen] by simp

lemma append_frame_cases:
  assumes "calm s"
  obtains e where "\<not> can_append (new_entry t fl a p s) s" "append_frame t fl a p s = (Inl e, s)"
  | "can_append (new_entry t fl a p s) s"
    "append_frame t fl a p s = (Inr (s_last_sequence s + 1), appended (new_entry t fl a p s) s)"
  using append_frame_calm [OF assms, of t fl a p] by (metis prod.collapse fst_conv snd_conv)

section \<open>Recovery of a log with a torn tail\<close>

text \<open>
  A tail that recovery cuts off: too short for a header, or a frame whose bytes end early, with no
  frame that parses anywhere inside it.
\<close>

definition torn_tail :: "nat \<Rightarrow> bytes \<Rightarrow> bool" where
  "torn_tail m tail \<longleftrightarrow> length tail < kLogHeaderBytes \<or>
     (\<not> fv_ok (parse_frame tail 0 m) \<and> \<not> complete_frame_bad tail 0 m \<and>
      \<not> any_valid_frame_after tail 0 m)"

lemma complete_frame_bad_skip:
  "complete_frame_bad (pre @ bs) (length pre) m = complete_frame_bad bs 0 m"
  using load_at_skip [of pre bs 0 4] by (simp add: complete_frame_bad_def)

lemma any_valid_frame_after_skip:
  assumes "kLogHeaderBytes \<le> length bs"
  shows "any_valid_frame_after (pre @ bs) (length pre) m = any_valid_frame_after bs 0 m"
proof -
  have "{length pre + 1..<length (pre @ bs) + 1 - kLogHeaderBytes} =
      (\<lambda>i. length pre + i) ` {0 + 1..<length bs + 1 - kLogHeaderBytes}"
    using assms by (simp add: image_add_atLeastLessThan add.commute)
  then have "(\<exists>p \<in> {length pre + 1..<length (pre @ bs) + 1 - kLogHeaderBytes}. fv_ok (parse_frame (pre @ bs) p m)) \<longleftrightarrow>
      (\<exists>i \<in> {0 + 1..<length bs + 1 - kLogHeaderBytes}. fv_ok (parse_frame (pre @ bs) (length pre + i) m))"
    by (simp only: bex_simps)
  then show ?thesis
    by (simp add: any_valid_frame_after_def list_ex_iff parse_frame_skip Let_def del: upt_Suc)
qed

lemma replay_loop_tail:
  "torn_tail m tail \<Longrightarrow> replay_loop (pre @ tail) m q (length pre) rp =
     (if length tail < kLogHeaderBytes then rp else rp\<lparr>rp_bad := Some (length pre)\<rparr>)"
  using parse_frame_skip [of pre tail 0 m]
  by (subst replay_loop.simps) (auto simp: torn_tail_def)

lemma apply_frame_keeps:
  "apply_frame v a = Some b \<Longrightarrow> rp_offset b = rp_offset a \<and> rp_good_end b = rp_good_end a \<and> rp_bad b = rp_bad a"
  by (auto simp: apply_frame_def push_replayed_def Let_def
      split: record_type.splits prod.splits if_splits option.splits)

lemma replay_entries_offset:
  "replay_entries q k es rp = Some rp' \<Longrightarrow> rp_offset rp = k \<Longrightarrow> rp_good_end rp = k \<Longrightarrow>
   rp_offset rp' = k + length (lay_log es) \<and> rp_good_end rp' = k + length (lay_log es) \<and> rp_bad rp' = rp_bad rp"
proof (induction es arbitrary: k rp)
  case (Cons e es)
  let ?n = "k + length (lay_entry e)"
  from Cons.prems obtain rp1 where "replay_entries q ?n es rp1 = Some rp'"
    "rp_offset rp1 = ?n" "rp_good_end rp1 = ?n" "rp_bad rp1 = rp_bad rp"
    by (auto simp: Let_def simp del: length_lay_entry split: if_splits option.splits dest!: apply_frame_keeps)
  with Cons.IH [of ?n rp1] show ?case by simp
qed simp

text \<open>The fields replay leaves alone.\<close>

definition same_frame :: "store \<Rightarrow> store \<Rightarrow> bool" where
  "same_frame t t' \<longleftrightarrow> s_options t' = s_options t \<and> s_store_id t' = s_store_id t \<and>
     s_manifest_path t' = s_manifest_path t \<and> s_wal_path t' = s_wal_path t \<and>
     s_snapshot_path t' = s_snapshot_path t \<and> s_wal_open t' = s_wal_open t \<and>
     s_snapshot_sequence t' = s_snapshot_sequence t \<and> s_staged_count t' = s_staged_count t \<and>
     s_snapshot_bytes t' = s_snapshot_bytes t \<and> s_read_only t' = s_read_only t \<and>
     d_dirs (s_disk t') = d_dirs (s_disk t) \<and> d_faults (s_disk t') = d_faults (s_disk t) \<and>
     (\<forall>p. p \<noteq> s_wal_path t \<longrightarrow> file_at (s_disk t') p = file_at (s_disk t) p)"

lemma cut_log_calm:
  "d_faults d = [] \<Longrightarrow> file_at d p = Some bs \<Longrightarrow> cut_log p n d = put_file p (take n bs) d"
  by (simp add: cut_log_def)

lemma unat_small: "n \<le> kMaxWalScanBytes \<Longrightarrow> unat (word_of_nat n :: u64) = n"
  by (simp add: unsigned_of_nat take_bit_nat_eq_self kMaxWalScanBytes_def limit_defs)

lemma replay_log_recovers:
  assumes r: "represents s j" and log: "log_file s = Some log"
    and t: "s_wal_path t = s_wal_path s" "s_options t = s_options s"
      "s_snapshot_sequence t = s_snapshot_sequence s" "s_replayed t = []"
      "s_snapshot_sequence t \<le> s_last_sequence t" "s_last_sequence t \<le> s_last_sequence s" "calm t"
    and content: "file_at (s_disk t) (s_wal_path t) = Some (log @ tail)"
    and torn: "torn_tail (so_max_record_bytes (s_options t)) tail"
    and small: "length (log @ tail) \<le> kMaxWalScanBytes"
  shows "\<exists>t'. replay_log t = (Inr (), t') \<and> s_replayed t' = jn_committed j \<and>
    s_last_sequence t' = s_last_sequence s \<and> represents t' j \<and> log_file t' = Some log \<and>
    same_frame t t'"
proof -
  let ?m = "so_max_record_bytes (s_options t)" and ?q = "s_snapshot_sequence t"
  let ?start = "start_replay t"
  obtain es where es: "log = lay_log es" "list_all (entry_fits ?m) es" "?m \<le> kMaxWalRecordBytes"
    "s_snapshot_sequence s \<le> s_last_sequence s" "\<forall>x \<in> set es. le_sequence x \<le> s_last_sequence s"
    and run: "\<And>rp. rp_replayed rp = [] \<Longrightarrow> rp_staged rp = [] \<Longrightarrow> ?q \<le> rp_last_sequence rp \<Longrightarrow>
        \<exists>rp'. replay_entries ?q 0 es rp = Some rp' \<and> tracks (s_last_sequence s) j rp' \<and>
          rp_last_sequence rp' = max (rp_last_sequence rp) (s_last_sequence s)"
    using r log t by (auto simp: represents_def)
  obtain rp where rp: "replay_entries ?q 0 es ?start = Some rp" "tracks (s_last_sequence s) j rp"
    "rp_last_sequence rp = s_last_sequence s"
    using run [of ?start] t by (auto simp: start_replay_def max_def)
  have off: "rp_offset rp = length log" "rp_good_end rp = length log" "rp_bad rp = None"
    using replay_entries_offset [OF rp(1)] by (simp_all add: start_replay_def es(1))
  let ?rp = "if length tail < kLogHeaderBytes then rp else rp\<lparr>rp_bad := Some (length log)\<rparr>"
  have loop: "replay_loop (log @ tail) ?m ?q 0 ?start = ?rp"
    using replay_loop_entries [OF es(3,2), of ?q "[]" ?start rp tail] rp(1)
      replay_loop_tail [OF torn, of log ?q rp] by (simp add: es(1))
  have len: "unat (word_of_nat (length log) :: u64) = length log"
    using small by (intro unat_small) simp
  have bad: "\<not> complete_frame_bad (log @ tail) (length log) ?m"
    "\<not> any_valid_frame_after (log @ tail) (length log) ?m" if "\<not> length tail < kLogHeaderBytes"
    using that torn by (auto simp: torn_tail_def complete_frame_bad_skip any_valid_frame_after_skip)
  define t' where "t' = snd (replay_log t)"
  have res: "replay_log t = (Inr (), t')"
    using t(7) content loop bad small off
    by (auto simp: t'_def replay_log_def on_disk_def read_file_calm Let_def)
  have reps: "represents t' j" if "s_last_sequence t' = s_last_sequence s" "same_frame t t'"
    "log_file t' = Some log" "s_wal_bytes t' = word_of_nat (length log)"
    using that es run len t by (auto simp: represents_def same_frame_def intro!: exI [of _ es])
  have fields: "s_replayed t' = jn_committed j \<and> s_last_sequence t' = s_last_sequence s \<and>
      log_file t' = Some log \<and> same_frame t t' \<and> s_wal_bytes t' = word_of_nat (length log)"
    using res t(7) content loop bad small off rp
    by (auto simp: replay_log_def on_disk_def read_file_calm Let_def finish_replay_def tracks_def
        same_frame_def cut_log_calm split: if_splits)
  with reps res show ?thesis by blast
qed

lemma entry_length_field:
  assumes "entry_fits m e" and "m \<le> kMaxWalRecordBytes" and "4 \<le> k"
  shows "unat (load_at (take k (lay_entry e) @ post) 0 4) = kRecordHeaderBytes + length (le_body e)"
proof -
  have "length (lay_record e) \<le> 0xFFFFFFFF"
    using assms by (simp add: entry_fits_def limit_defs)
  then have u: "unat (word_of_nat (length (lay_record e)) :: u32) = length (lay_record e)"
    by (rule unat_of_nat_u32)
  have "take k (lay_entry e) = lay_u32 (word_of_nat (length (lay_record e))) @
      take (k - 4) (lay_u32 (crc32c (lay_record e)) @ lay_record e)"
    using assms(3) by (simp add: lay_entry_def)
  then have "load_at (take k (lay_entry e) @ post) 0 4 = ucast (word_of_nat (length (lay_record e)) :: u32)"
    by (simp add: load_at_lay del: length_lay_record)
  then show ?thesis
    using u by (simp add: unsigned_ucast_eq take_bit_nat_eq_self del: length_lay_record)
      (simp add: lay_record_def kRecordHeaderBytes_def)
qed

text \<open>A frame cut short is a torn tail, unless its payload happens to hold a frame itself.\<close>

lemma torn_prefix:
  assumes "entry_fits m e" and "m \<le> kMaxWalRecordBytes" and "k < length (lay_entry e)"
    and "\<not> any_valid_frame_after (take k (lay_entry e)) 0 m"
  shows "torn_tail m (take k (lay_entry e))"
proof (cases "k < kLogHeaderBytes")
  case False
  then have "unat (load_at (take k (lay_entry e)) 0 4) = kRecordHeaderBytes + length (le_body e)"
    using entry_length_field [OF assms(1,2), of k "[]"] by (simp add: kLogHeaderBytes_def)
  then show ?thesis
    using assms False
    by (simp add: torn_tail_def parse_frame_def complete_frame_bad_def Let_def no_frame_def)
qed (use assms(3) in \<open>simp add: torn_tail_def\<close>)

lemma torn_Nil: "torn_tail m []"
  by (simp add: torn_tail_def kLogHeaderBytes_def)

section \<open>Manifest round trip\<close>

definition manifest_name :: "store \<Rightarrow> string" where
  "manifest_name s = (if s_snapshot_path s = [] then [] else snapshot_file_name (s_snapshot_sequence s))"

definition lay_manifest_body :: "digest256 \<Rightarrow> store \<Rightarrow> bytes" where
  "lay_manifest_body ident s = kManifestMagic @ lay_u16 kStoreFormatVersion @ lay_u16 0 @ ident @
     lay_u64 (s_durable_epoch s) @ lay_u64 (s_snapshot_sequence s) @ lay_u64 (s_last_sequence s) @
     lay_u32 (word_of_nat (length (manifest_name s))) @ bytes_of_string (manifest_name s)"

definition lay_manifest :: "digest256 \<Rightarrow> store \<Rightarrow> bytes" where
  "lay_manifest ident s = lay_manifest_body ident s @ lay_u32 (crc32c (lay_manifest_body ident s))"

lemma length_dec_string: "n < 10 ^ k \<Longrightarrow> 0 < k \<Longrightarrow> length (dec_string n) \<le> k"
proof (induction k arbitrary: n)
  case (Suc k)
  then show ?case by (cases "n < 10"; cases k) (auto simp: dec_string.simps [of n])
qed simp

lemma length_snapshot_file_name: "length (snapshot_file_name q) \<le> 33"
proof -
  have "unat q < 10 ^ 20" using unsigned_less [of q, where 'a = nat] by simp
  then show ?thesis
    using length_dec_string [of "unat q" 20]
    by (simp add: snapshot_file_name_def snapshot_prefix_def snapshot_suffix_def u64_to_string_def)
qed

lemma length_manifest_name: "length (manifest_name s) \<le> 33"
  using length_snapshot_file_name by (simp add: manifest_name_def)

lemma encode_manifest_lay:
  assumes "s_store_id s = digest_hex ident" and "length ident = kDigestBytes"
  shows "\<not> w_failed (encode_manifest s)" "w_buffer (encode_manifest s) = lay_manifest_body ident s"
proof -
  have p: "digest_parse_hex (s_store_id s) = Some ident"
    using assms parse_hex_pairs_hex [of ident] length_digest_hex [of ident]
    by (simp add: digest_parse_hex_def)
  have l: "lay_manifest_body ident s = concat [kManifestMagic, lay_u16 kStoreFormatVersion, lay_u16 0,
      ident, lay_u64 (s_durable_epoch s), lay_u64 (s_snapshot_sequence s), lay_u64 (s_last_sequence s),
      lay_u32 (word_of_nat (length (manifest_name s))), bytes_of_string (manifest_name s)]"
    by (simp add: lay_manifest_body_def)
  have e: "emits (w_seq [w_raw kManifestMagic, w_u16 kStoreFormatVersion, w_u16 0, w_raw ident,
      w_u64 (s_durable_epoch s), w_u64 (s_snapshot_sequence s), w_u64 (s_last_sequence s),
      w_u32 (word_of_nat (length (manifest_name s))), w_raw (bytes_of_string (manifest_name s))])
    (lay_manifest_body ident s)"
    unfolding l by (auto intro!: emits_fields intro: writes_intros simp del: concat.simps)
  have "length (lay_manifest_body ident s) \<le> kManifestBudget"
    using length_manifest_name [of s] assms(2)
    by (simp add: lay_manifest_body_def kManifestMagic_def kManifestBudget_def kDigestBytes_def)
  with emits_encode [OF e, of kManifestBudget]
  show "\<not> w_failed (encode_manifest s)" "w_buffer (encode_manifest s) = lay_manifest_body ident s"
    by (simp_all add: encode_manifest_def p manifest_name_def Let_def)
qed

lemma write_manifest_calm:
  assumes "s_store_id s = digest_hex ident" "length ident = kDigestBytes" "calm s"
  shows "write_manifest s = (Inr (), s\<lparr>s_disk := put_file (s_manifest_path s) (lay_manifest ident s)
    (drop_file (temp_path (s_manifest_path s))
      (put_file (temp_path (s_manifest_path s)) (lay_manifest ident s) (s_disk s)))\<rparr>)"
  using assms(3) encode_manifest_lay [OF assms(1,2)]
  by (simp add: write_manifest_def Let_def on_disk_def write_file_atomic_calm lay_manifest_def
      lay_u32_def [of "crc32c _"])

lemma digit_char: "k < 10 \<Longrightarrow> (char_of (k + 48) :: char) \<in> set ''0123456789''" for k :: nat
proof -
  have "list_all (\<lambda>k. (char_of (k + 48) :: char) \<in> set ''0123456789'') [0..<10::nat]" by code_simp
  then show "k < 10 \<Longrightarrow> (char_of (k + 48) :: char) \<in> set ''0123456789''"
    unfolding list_all_iff by auto
qed

lemma dec_string_digits: "c \<in> set (dec_string n) \<Longrightarrow> c \<in> set ''0123456789''"
proof (induction n rule: dec_string.induct)
  case (1 n)
  define D where "D = set ''0123456789''"
  have "n < 10 \<Longrightarrow> char_of (n + 48) \<in> D" "char_of (n mod 10 + 48) \<in> D"
    unfolding D_def by (rule digit_char; simp)+
  with 1 show ?case
    unfolding D_def [symmetric] by (cases "n < 10") (auto simp: dec_string.simps [of n])
qed

lemma has_dot_dot_count: "has_dot_dot s \<Longrightarrow> 2 \<le> count_list s CHR ''.''"
  by (induction s rule: has_dot_dot.induct) (auto split: if_splits)

lemma snapshot_name_safe:
  "CHR ''/'' \<notin> set (snapshot_file_name q)" "CHR 0x5C \<notin> set (snapshot_file_name q)"
  "\<not> has_dot_dot (snapshot_file_name q)" "snapshot_file_name q \<noteq> []"
proof -
  let ?d = "dec_string (unat q)"
  have d: "set ?d \<subseteq> set ''0123456789''" using dec_string_digits by blast
  then have "count_list ?d CHR ''.'' = 0" by (auto intro!: count_notin)
  then have "count_list (snapshot_file_name q) CHR ''.'' = 1"
    by (simp add: snapshot_file_name_def snapshot_prefix_def snapshot_suffix_def u64_to_string_def)
  then show "\<not> has_dot_dot (snapshot_file_name q)" using has_dot_dot_count by fastforce
  show "CHR ''/'' \<notin> set (snapshot_file_name q)" "CHR 0x5C \<notin> set (snapshot_file_name q)"
    "snapshot_file_name q \<noteq> []"
    using d by (auto simp: snapshot_file_name_def snapshot_prefix_def snapshot_suffix_def u64_to_string_def)
qed

text \<open>The fields of a manifest, at the offsets the loader reads them from.\<close>

lemma load_at_append:
  "length a = n \<Longrightarrow> load_at (a @ b) (n + k) w = load_at b k w"
  by (auto simp: load_at_def)

lemma load_at_u64: "load_at (lay_u64 v @ xs) 0 8 = v"
  by (simp add: load_at_def lay_u64_def load_store_le_64)

lemma load_at_u16: "ucast (load_at (lay_u16 v @ xs) 0 2) = v"
  by (simp add: load_at_def lay_u16_def load_store_le_16)

lemma manifest_fields:
  fixes s :: store
  assumes "length ident = kDigestBytes" and raw: "raw = lay_manifest ident s"
  defines "n \<equiv> length (manifest_name s)"
  shows "length raw = 76 + n" "take 8 raw = kManifestMagic"
    "ucast (load_at raw 8 2) = kStoreFormatVersion" "take kDigestBytes (drop 12 raw) = ident"
    "load_at raw 44 8 = s_durable_epoch s" "load_at raw 52 8 = s_snapshot_sequence s"
    "load_at raw 60 8 = s_last_sequence s" "unat (ucast (load_at raw 68 4) :: u32) = n"
    "take n (drop 72 raw) = bytes_of_string (manifest_name s)"
    "take (length raw - 4) raw = lay_manifest_body ident s"
    "ucast (load_at raw (length raw - 4) 4) = crc32c (lay_manifest_body ident s)"
proof -
  have m: "length kManifestMagic = 8" by (simp add: kManifestMagic_def)
  note l = raw lay_manifest_def lay_manifest_body_def
  note len = m assms(1) kDigestBytes_def
  have b: "length (lay_manifest_body ident s) = 72 + n"
    using assms(1) m by (simp add: lay_manifest_body_def n_def kDigestBytes_def)
  show "length raw = 76 + n" by (simp add: raw lay_manifest_def b)
  show "take 8 raw = kManifestMagic" using m by (simp add: l)
  show "take kDigestBytes (drop 12 raw) = ident" using len by (simp add: l)
  show "take n (drop 72 raw) = bytes_of_string (manifest_name s)" using len by (simp add: l n_def)
  show "take (length raw - 4) raw = lay_manifest_body ident s" by (simp add: raw lay_manifest_def)
  show "ucast (load_at raw 8 2) = kStoreFormatVersion"
    using load_at_append [of kManifestMagic 8 _ 0 2] m by (simp add: l load_at_u16)
  show "load_at raw 44 8 = s_durable_epoch s"
    using load_at_append [of "kManifestMagic @ lay_u16 kStoreFormatVersion @ lay_u16 0 @ ident" 44 _ 0 8] len
    by (simp add: l load_at_u64)
  show "load_at raw 52 8 = s_snapshot_sequence s"
    using load_at_append [of "kManifestMagic @ lay_u16 kStoreFormatVersion @ lay_u16 0 @ ident @
      lay_u64 (s_durable_epoch s)" 52 _ 0 8] len
    by (simp add: l load_at_u64)
  show "load_at raw 60 8 = s_last_sequence s"
    using load_at_append [of "kManifestMagic @ lay_u16 kStoreFormatVersion @ lay_u16 0 @ ident @
      lay_u64 (s_durable_epoch s) @ lay_u64 (s_snapshot_sequence s)" 60 _ 0 8] len
    by (simp add: l load_at_u64)
  have "unat (word_of_nat n :: u32) = n"
    using length_manifest_name [of s] by (intro unat_of_nat_u32) (simp add: n_def)
  then show "unat (ucast (load_at raw 68 4) :: u32) = n"
    using load_at_append [of "kManifestMagic @ lay_u16 kStoreFormatVersion @ lay_u16 0 @ ident @
      lay_u64 (s_durable_epoch s) @ lay_u64 (s_snapshot_sequence s) @ lay_u64 (s_last_sequence s)" 68 _ 0 4] len
    by (simp add: l load_at_lay ucast_u64_u32 n_def)
  show "ucast (load_at raw (length raw - 4) 4) = crc32c (lay_manifest_body ident s)"
    using load_at_append [OF b, of "lay_u32 (crc32c (lay_manifest_body ident s))" 0 4]
      load_at_lay(1) [of "crc32c (lay_manifest_body ident s)" "[]"] b
    by (simp add: raw lay_manifest_def ucast_u64_u32)
qed

lemma load_manifest_lay:
  assumes t: "calm t" "file_at (s_disk t) (s_manifest_path t) = Some (lay_manifest ident s)"
    "length ident = kDigestBytes" "so_format_version (s_options t) = kStoreFormatVersion"
    and snap: "manifest_name s \<noteq> [] \<Longrightarrow>
      file_at (s_disk t) (join_path (so_directory (s_options t)) (manifest_name s)) \<noteq> None"
  shows "load_manifest t = (Inr (), t\<lparr>s_store_id := digest_hex ident,
    s_durable_epoch := s_durable_epoch s,
    s_snapshot_sequence := (if manifest_name s = [] then 0 else s_snapshot_sequence s),
    s_last_sequence := s_last_sequence s,
    s_snapshot_path := (if manifest_name s = [] then []
      else join_path (so_directory (s_options t)) (manifest_name s))\<rparr>)"
proof -
  note f = manifest_fields [OF t(3) refl, of s]
  let ?n = "length (manifest_name s)"
  have "?n \<le> 33" by (rule length_manifest_name)
  have safe: "CHR ''/'' \<notin> set (manifest_name s)" "CHR 0x5C \<notin> set (manifest_name s)"
    "\<not> has_dot_dot (manifest_name s)"
    using snapshot_name_safe by (auto simp: manifest_name_def)
  have min: "kMinManifestBytes = 76" by (simp add: kMinManifestBytes_def kDigestBytes_def)
  have nil: "string_of_bytes [] = []" by (simp add: string_of_bytes_def)
  have crc: "crc32c (take (72 + ?n) (lay_manifest ident s)) = ucast (load_at (lay_manifest ident s) (72 + ?n) 4)"
    using f(10,11) by (simp add: f(1))
  show ?thesis
    using crc t snap \<open>?n \<le> 33\<close> safe
    by (cases "manifest_name s = []")
      (simp_all add: load_manifest_def on_disk_def read_file_calm Let_def f nil min kManifestBudget_def)
qed

section \<open>Snapshot round trip\<close>

definition lay_snapshot :: "u64 \<Rightarrow> bytes \<Rightarrow> bytes" where
  "lay_snapshot q p = kSnapshotMagic @ lay_u16 kFrameVersion @ lay_u16 0 @ lay_u64 q @
     lay_u32 (word_of_nat (length p)) @ p @ lay_u32 (crc32c p)"

lemma length_kSnapshotMagic [simp]: "length kSnapshotMagic = 8"
  by (simp add: kSnapshotMagic_def)

lemma length_lay_snapshot [simp]: "length (lay_snapshot q p) = 28 + length p"
  by (simp add: lay_snapshot_def)

lemma encode_snapshot_lay:
  assumes "length p \<le> kMaxSnapshotBytes"
  shows "encode_snapshot q p = lay_snapshot q p"
proof -
  have l: "lay_snapshot q p = concat [kSnapshotMagic, lay_u16 kFrameVersion, lay_u16 0, lay_u64 q,
      lay_u32 (word_of_nat (length p)), p, lay_u32 (crc32c p)]"
    by (simp add: lay_snapshot_def)
  have e: "emits (w_seq [w_raw kSnapshotMagic, w_u16 kFrameVersion, w_u16 0, w_u64 q,
      w_u32 (word_of_nat (length p)), w_raw p, w_u32 (crc32c p)]) (lay_snapshot q p)"
    unfolding l by (auto intro!: emits_fields intro: writes_intros simp del: concat.simps)
  show ?thesis
    using emits_encode [OF e, of "kMaxSnapshotBytes + 64"] assms by (simp add: encode_snapshot_def)
qed

lemma decode_snapshot_lay:
  assumes "length p \<le> kMaxSnapshotBytes"
  shows "decode_snapshot (lay_snapshot q p) q0 = (Inr p, q)"
proof -
  have u: "unat (word_of_nat (length p) :: u32) = length p"
    using assms by (intro unat_of_nat_u32) (simp add: limit_defs)
  have nr: "new_reader (lay_snapshot q p) = rd [] (kSnapshotMagic @ lay_u16 kFrameVersion @ lay_u16 0 @
      lay_u64 q @ lay_u32 (word_of_nat (length p)) @ p @ lay_u32 (crc32c p) @ [])"
    by (simp add: lay_snapshot_def new_reader_rd)
  show ?thesis
    using assms u by (simp add: decode_snapshot_def nr r_raw_codec codec del: append_Nil2)
qed

section \<open>A store whose durable files agree\<close>

text \<open>
  \<open>published s j\<close>: the manifest on the disk is one the store wrote, it names the snapshot the
  store refers to, that snapshot can be read back within the read budget, and the paths and
  options are those of an opened store.
\<close>

definition paths_of :: "store \<Rightarrow> bool" where
  "paths_of s \<longleftrightarrow> s_manifest_path s = join_path (so_directory (s_options s)) manifest_file_name \<and>
     s_wal_path s = join_path (so_directory (s_options s)) wal_file_name \<and>
     so_directory (s_options s) \<in> set (d_dirs (s_disk s)) \<and> so_directory (s_options s) \<noteq> [] \<and>
     so_format_version (s_options s) = kStoreFormatVersion \<and> so_max_record_bytes (s_options s) \<noteq> 0 \<and>
     so_max_record_bytes (s_options s) \<le> kMaxWalRecordBytes"

definition names_snapshot :: "store \<Rightarrow> store \<Rightarrow> bool" where
  "names_snapshot m s \<longleftrightarrow>
     s_snapshot_sequence s = (if manifest_name m = [] then 0 else s_snapshot_sequence m) \<and>
     s_snapshot_path s = (if manifest_name m = [] then []
       else join_path (so_directory (s_options s)) (manifest_name m))"

definition published :: "store \<Rightarrow> journal \<Rightarrow> bool" where
  "published s j \<longleftrightarrow> (\<exists>ident m.
     file_at (s_disk s) (s_manifest_path s) = Some (lay_manifest ident m) \<and>
     s_store_id s = digest_hex ident \<and> length ident = kDigestBytes \<and> \<not> digest_is_zero ident \<and>
     names_snapshot m s \<and> s_snapshot_sequence s \<le> s_last_sequence m \<and>
     s_last_sequence m \<le> s_last_sequence s \<and>
     (if manifest_name m = [] then jn_snapshot j = []
      else file_at (s_disk s) (s_snapshot_path s) = Some (lay_snapshot (s_snapshot_sequence s) (jn_snapshot j)) \<and>
        length (jn_snapshot j) + 28 \<le> kMaxSnapshotBytes))"

definition durable :: "store \<Rightarrow> journal \<Rightarrow> bool" where
  "durable s j \<longleftrightarrow> represents s j \<and> published s j \<and> paths_of s \<and> calm s \<and>
     so_max_wal_bytes (s_options s) \<le> word_of_nat kMaxSnapshotBytes \<and>
     s_wal_bytes s \<le> so_max_wal_bytes (s_options s)"

section \<open>Opening recovers\<close>

text \<open>Neither of the two loops over the directory touches the files recovery reads.\<close>

definition disk_only :: "(string \<Rightarrow> bool) \<Rightarrow> store \<Rightarrow> store \<Rightarrow> bool" where
  "disk_only P s s' \<longleftrightarrow> (\<exists>d. s' = s\<lparr>s_disk := d\<rparr> \<and> d_dirs d = d_dirs (s_disk s) \<and>
     d_faults d = d_faults (s_disk s) \<and> (\<forall>p. P p \<longrightarrow> file_at d p = file_at (s_disk s) p))"

lemma disk_only_refl: "disk_only P s s"
  by (auto simp: disk_only_def intro: exI [of _ "s_disk s"])

lemma disk_only_trans: "disk_only P s t \<Longrightarrow> disk_only P t u \<Longrightarrow> disk_only P s u"
  by (fastforce simp: disk_only_def)

lemma disk_only_remove:
  "calm s \<Longrightarrow> \<not> P p \<Longrightarrow> disk_only P s (snd (on_disk (remove_file p) s))"
  by (auto simp: disk_only_def on_disk_def)

lemma remove_temps_only:
  "calm s \<Longrightarrow> so_directory (s_options s) = dir \<Longrightarrow>
   (\<And>n. is_temp_name n \<Longrightarrow> \<not> P (join_path dir n)) \<Longrightarrow> disk_only P s (remove_temps names s)"
proof (induction names arbitrary: s)
  case (Cons n names)
  let ?s = "if is_temp_name n then snd (on_disk (remove_file (join_path dir n)) s) else s"
  have a: "disk_only P s ?s" using Cons.prems by (auto intro: disk_only_remove disk_only_refl)
  then have "calm ?s" "so_directory (s_options ?s) = dir"
    using Cons.prems(1,2) by (auto simp: disk_only_def)
  from disk_only_trans [OF a Cons.IH [OF this Cons.prems(3)]] Cons.prems(2) show ?case
    by (cases "is_temp_name n") simp_all
qed (simp add: disk_only_refl)

lemma retire_snapshots_only:
  "calm s \<Longrightarrow> so_directory (s_options s) = dir \<Longrightarrow>
   (\<And>n. is_snapshot_name n \<Longrightarrow> s_snapshot_path s = [] \<or> join_path dir n \<noteq> s_snapshot_path s \<Longrightarrow>
      \<not> P (join_path dir n)) \<Longrightarrow> disk_only P s (retire_snapshots names s)"
proof (induction names arbitrary: s)
  case (Cons n names)
  let ?s = "let full = join_path dir n in
        if \<not> is_snapshot_name n then s
        else if s_snapshot_path s \<noteq> [] \<and> full = s_snapshot_path s then s
        else snd (on_disk (remove_file full) s)"
  have a: "disk_only P s ?s" using Cons.prems by (auto intro: disk_only_remove disk_only_refl simp: Let_def)
  then have "calm ?s" "so_directory (s_options ?s) = dir" "s_snapshot_path ?s = s_snapshot_path s"
    using Cons.prems(1,2) by (auto simp: disk_only_def)
  from disk_only_trans [OF a Cons.IH [OF this(1,2)]] Cons.prems(2,3) this(3) show ?case by simp
qed (simp add: disk_only_refl)

lemma file_names_distinct:
  "\<not> is_temp_name manifest_file_name" "\<not> is_temp_name wal_file_name"
  "\<not> is_temp_name (snapshot_file_name q)" "\<not> is_snapshot_name manifest_file_name"
  "\<not> is_snapshot_name wal_file_name" "snapshot_file_name q \<noteq> wal_file_name"
  "snapshot_file_name q \<noteq> manifest_file_name" "manifest_file_name \<noteq> wal_file_name"
  by (auto simp: is_temp_name_def manifest_file_name_def wal_file_name_def is_snapshot_name_def
      snapshot_file_name_def snapshot_prefix_def snapshot_suffix_def)

lemma list_directory_calm:
  "calm s \<Longrightarrow> on_disk (list_directory p) s = (fst (list_directory p (s_disk s)), s)"
  by (simp add: on_disk_def list_directory_def Let_def)

lemma digest_parse_hex_inverse:
  "length d = kDigestBytes \<Longrightarrow> digest_parse_hex (digest_hex d) = Some d"
  using parse_hex_pairs_hex [of d] length_digest_hex [of d] by (simp add: digest_parse_hex_def)

lemma load_snapshot_calm:
  assumes "calm s" and "s_snapshot_path s \<noteq> []" and "length p + 28 \<le> kMaxSnapshotBytes"
    and "file_at (s_disk s) (s_snapshot_path s) = Some (lay_snapshot (s_snapshot_sequence s) p)"
  shows "load_snapshot s = (Inr (), s\<lparr>s_snapshot_bytes := p, s_recovery := (s_recovery s)
    \<lparr>rr_snapshot_loaded := True, rr_snapshot_sequence := s_snapshot_sequence s\<rparr>\<rparr>)"
proof -
  have "read_file (s_snapshot_path s) kMaxSnapshotBytes (s_disk s) =
      (Inr (lay_snapshot (s_snapshot_sequence s) p), s_disk s)"
    using assms by (simp add: read_file_calm)
  moreover have "decode_snapshot (lay_snapshot (s_snapshot_sequence s) p) 0 = (Inr p, s_snapshot_sequence s)"
    using assms(3) by (intro decode_snapshot_lay) simp
  ultimately show ?thesis using assms(2) by (simp add: load_snapshot_def on_disk_def)
qed

lemma join_path_Nil: "join_path dir leaf = [] \<longleftrightarrow> dir = [] \<and> leaf = []"
  by (auto simp: join_path_def)

lemma represents_bytes:
  "represents s j \<Longrightarrow> log_file s = Some log \<Longrightarrow> unat (s_wal_bytes s) = length log"
  by (auto simp: represents_def)

lemma represents_cong:
  "represents s j \<Longrightarrow> log_file t = log_file s \<Longrightarrow> s_wal_bytes t = s_wal_bytes s \<Longrightarrow>
   s_options t = s_options s \<Longrightarrow> s_snapshot_sequence t = s_snapshot_sequence s \<Longrightarrow>
   s_last_sequence t = s_last_sequence s \<Longrightarrow> represents t j"
  by (simp add: represents_def)

lemma open_recovers:
  assumes D: "durable s j" and d: "d_faults d = []" "d_dirs d = d_dirs (s_disk s)"
    and other: "\<And>p. p \<noteq> s_wal_path s \<Longrightarrow> file_at d p = file_at (s_disk s) p"
    and log: "log_file s = Some log" and crash: "file_at d (s_wal_path s) = Some (log @ tail)"
    and torn: "torn_tail (so_max_record_bytes (s_options s)) tail"
    and small: "length (log @ tail) \<le> kMaxWalScanBytes"
  shows "\<exists>t. Open (s_options s) fresh d = (Inr t, s_disk t) \<and> durable t j \<and>
    s_replayed t = jn_committed j \<and> s_snapshot_bytes t = jn_snapshot j \<and>
    s_last_sequence t = s_last_sequence s \<and> s_wal_open t \<and> \<not> s_read_only t \<and>
    s_options t = s_options s \<and> s_staged_count t = 0 \<and> s_store_id t = s_store_id s"
proof -
  let ?o = "s_options s" and ?dir = "so_directory (s_options s)"
  from D have r: "represents s j" and pub: "published s j" and paths: "paths_of s"
    and budget: "so_max_wal_bytes ?o \<le> word_of_nat kMaxSnapshotBytes"
      "s_wal_bytes s \<le> so_max_wal_bytes ?o"
    by (auto simp: durable_def)
  obtain ident m where m: "file_at (s_disk s) (s_manifest_path s) = Some (lay_manifest ident m)"
    "s_store_id s = digest_hex ident" "length ident = kDigestBytes" "\<not> digest_is_zero ident"
    "names_snapshot m s" "s_snapshot_sequence s \<le> s_last_sequence m"
    "s_last_sequence m \<le> s_last_sequence s"
    and snap: "if manifest_name m = [] then jn_snapshot j = []
      else file_at (s_disk s) (s_snapshot_path s) = Some (lay_snapshot (s_snapshot_sequence s) (jn_snapshot j)) \<and>
        length (jn_snapshot j) + 28 \<le> kMaxSnapshotBytes"
    using pub by (auto simp: published_def)
  note p = paths [unfolded paths_of_def]
  note n = m(5) [unfolded names_snapshot_def]
  have neq: "s_manifest_path s \<noteq> s_wal_path s" "manifest_name m \<noteq> [] \<Longrightarrow> s_snapshot_path s \<noteq> s_wal_path s"
    using p n file_names_distinct by (auto simp: manifest_name_def split: if_splits)
  define s0 where "s0 = (new_store d)\<lparr>s_options := ?o, s_manifest_path := s_manifest_path s,
    s_wal_path := s_wal_path s\<rparr>"
  define s1 where "s1 = s0\<lparr>s_store_id := digest_hex ident, s_durable_epoch := s_durable_epoch m,
    s_snapshot_sequence := s_snapshot_sequence s, s_last_sequence := s_last_sequence m,
    s_snapshot_path := s_snapshot_path s\<rparr>"
  have s0: "calm s0" "file_at (s_disk s0) (s_manifest_path s0) = Some (lay_manifest ident m)"
    "so_format_version (s_options s0) = kStoreFormatVersion" "s_options s0 = ?o" "s_disk s0 = d"
    using d m(1) p other [OF neq(1)] by (simp_all add: s0_def new_store_def)
  have "file_at (s_disk s0) (join_path (so_directory (s_options s0)) (manifest_name m)) \<noteq> None"
    if "manifest_name m \<noteq> []"
    using that snap n neq(2) other by (simp add: s0)
  from load_manifest_lay [OF s0(1,2) m(3) s0(3) this] have manifest: "load_manifest s0 = (Inr (), s1)"
    using n by (simp add: s0 s1_def)
  have "calm s1" using d by (simp add: s1_def s0_def new_store_def)
  then obtain entries where entries: "on_disk (list_directory ?dir) s1 = (entries, s1)"
    using list_directory_calm by blast
  let ?P = "\<lambda>p. p = s_manifest_path s \<or> p = s_wal_path s \<or> (s_snapshot_path s \<noteq> [] \<and> p = s_snapshot_path s)"
  define s2 where "s2 = (case entries of Inl _ \<Rightarrow> s1 | Inr names \<Rightarrow> remove_temps names s1)"
  have s1: "calm s1" "so_directory (s_options s1) = ?dir"
    using d by (simp_all add: s1_def s0_def new_store_def)
  have names: "is_temp_name x \<Longrightarrow> \<not> ?P (join_path ?dir x)" for x
    using p n file_names_distinct by (auto simp: manifest_name_def split: if_splits)
  have "disk_only ?P s1 s2"
    using remove_temps_only [where P = ?P, OF s1 names] by (auto simp: s2_def disk_only_refl split: sum.splits)
  then obtain d2 where s2: "s2 = s1\<lparr>s_disk := d2\<rparr>" "d_dirs d2 = d_dirs (s_disk s)" "d_faults d2 = []"
    "\<And>p. ?P p \<Longrightarrow> file_at d2 p = file_at d p"
    using d by (fastforce simp: disk_only_def s1_def s0_def new_store_def)
  have f2: "s_snapshot_path s2 = s_snapshot_path s" "s_snapshot_sequence s2 = s_snapshot_sequence s"
    "s_snapshot_bytes s2 = []" "calm s2" "s_disk s2 = d2"
    using s2(1,3) by (simp_all add: s1_def s0_def new_store_def)
  obtain report where s3: "load_snapshot s2 = (Inr (), s2\<lparr>s_snapshot_bytes := jn_snapshot j, s_recovery := report\<rparr>)"
  proof (cases "manifest_name m = []")
    case True
    then have "load_snapshot s2 = (Inr (), s2\<lparr>s_snapshot_bytes := jn_snapshot j, s_recovery := s_recovery s2\<rparr>)"
      using snap n f2 by (simp add: load_snapshot_def)
    then show ?thesis by (rule that)
  next
    case False
    then have "s_snapshot_path s \<noteq> []" using n by (simp add: join_path_Nil)
    then show ?thesis
      using load_snapshot_calm [OF f2(4), of "jn_snapshot j"] f2 snap False s2(4) [of "s_snapshot_path s"]
        other [OF neq(2)] that by simp
  qed
  define s3 where "s3 = s2\<lparr>s_snapshot_bytes := jn_snapshot j, s_recovery := report\<rparr>"
  have f3: "s_wal_path s3 = s_wal_path s" "s_options s3 = ?o" "s_snapshot_sequence s3 = s_snapshot_sequence s"
    "s_replayed s3 = []" "s_last_sequence s3 = s_last_sequence m" "calm s3" "s_disk s3 = d2"
    using s2(3) by (simp_all add: s3_def s2(1) s1_def s0_def new_store_def)
  obtain s4 where s4: "replay_log s3 = (Inr (), s4)" "s_replayed s4 = jn_committed j"
    "s_last_sequence s4 = s_last_sequence s" "represents s4 j" "log_file s4 = Some log" "same_frame s3 s4"
    using replay_log_recovers [OF r log, of s3 tail] f3 s2(4) [of "s_wal_path s"] m(6,7) crash torn small
    by auto
  define s5 where "s5 = (case entries of Inl _ \<Rightarrow> s4 | Inr names \<Rightarrow> retire_snapshots names s4)"
  have f4: "calm s4" "so_directory (s_options s4) = ?dir" "s_snapshot_path s4 = s_snapshot_path s"
    using s4(6) f3 f2 by (simp_all add: same_frame_def) (simp add: s3_def)
  have names5: "is_snapshot_name x \<Longrightarrow> s_snapshot_path s4 = [] \<or> join_path ?dir x \<noteq> s_snapshot_path s4 \<Longrightarrow>
      \<not> ?P (join_path ?dir x)" for x
    using p n file_names_distinct f4(3) by auto
  have "disk_only ?P s4 s5"
    using retire_snapshots_only [where P = ?P, OF f4(1,2) names5]
    by (auto simp: s5_def disk_only_refl f4(3) split: sum.splits)
  then obtain d5 where s5: "s5 = s4\<lparr>s_disk := d5\<rparr>" "d_dirs d5 = d_dirs (s_disk s4)" "d_faults d5 = []"
    "\<And>p. ?P p \<Longrightarrow> file_at d5 p = file_at (s_disk s4) p"
    using f4 by (auto simp: disk_only_def)
  have f5: "s_wal_path s5 = s_wal_path s" "s_store_id s5 = digest_hex ident" "calm s5"
    "log_file s5 = Some log" "s_options s5 = ?o"
    using s4(5,6) s5 f3 by (auto simp: same_frame_def s3_def s2(1) s1_def)
  define s6 where "s6 = s5\<lparr>s_wal_open := True\<rparr>"
  have reopen: "reopen_wal s5 = (Inr (), s6)"
    using f5 by (simp add: reopen_wal_def on_disk_def s6_def)
  have mint: "mint_identity fresh s6 = (Inr (), s6)"
    using f5 m(3,4) by (simp add: mint_identity_def s6_def digest_parse_hex_inverse)
  define t where "t = s6\<lparr>s_recovery := (s_recovery s6)\<lparr>rr_last_sequence := s_last_sequence s6\<rparr>\<rparr>"
  have impl: "open_impl ?o fresh (new_store d) = (Inr (), t)"
  proof -
    have "(new_store d)\<lparr>s_options := ?o, s_manifest_path := join_path ?dir manifest_file_name,
        s_wal_path := join_path ?dir wal_file_name\<rparr> = s0"
      using p by (simp add: s0_def)
    moreover have "on_disk (path_exists ?dir) s0 = (Inr True, s0)"
      using s0(1,5) p d(2) by (simp add: on_disk_def)
    ultimately show ?thesis
      using manifest entries s3 s4(1) reopen mint
      by (simp add: open_impl_def Let_def s2_def [symmetric] s3_def [symmetric] s5_def [symmetric] t_def)
  qed
  have opened: "Open ?o fresh d = (Inr t, s_disk t)"
    using p impl by (simp add: Open_def)
  have t: "s_disk t = d5" "s_replayed t = jn_committed j" "s_last_sequence t = s_last_sequence s"
    "s_wal_open t" "s_options t = ?o" "s_wal_bytes t = s_wal_bytes s4" "s_wal_path t = s_wal_path s"
    "s_snapshot_sequence t = s_snapshot_sequence s4"
    using s4(2,3) f5 by (simp_all add: t_def s6_def s5(1))
  have t': "s_read_only t = False" "s_staged_count t = 0" "s_store_id t = digest_hex ident"
    "s_snapshot_bytes t = jn_snapshot j" "s_manifest_path t = s_manifest_path s"
    "s_snapshot_path t = s_snapshot_path s" "s_snapshot_sequence t = s_snapshot_sequence s"
    using s4(6) by (simp_all add: t_def s6_def s5(1) same_frame_def s3_def s2(1) s1_def s0_def new_store_def)
  have files: "file_at d5 q = file_at (s_disk s) q" if "?P q" "q \<noteq> s_wal_path s" for q
    using that s5(4) [of q] s4(6) f3(1,7) s2(4) [of q] other [of q] by (simp add: same_frame_def)
  have same: "s_options s4 = ?o" "s_wal_path s4 = s_wal_path s" "d_dirs (s_disk s4) = d_dirs (s_disk s)"
    using s4(6) f3 s2(2) by (simp_all add: same_frame_def)
  have rt: "represents t j"
    by (rule represents_cong [OF s4(4)]) (use t same s4 s5(4) [of "s_wal_path s"] in simp_all)
  moreover have "published t j"
    using m snap n neq files [of "s_manifest_path s"] files [of "s_snapshot_path s"] t t' names_snapshot_def
    by (auto simp: published_def names_snapshot_def join_path_Nil intro!: exI [of _ ident] exI [of _ m])
  moreover have "paths_of t"
    using p t t' s5(2) same by (simp add: paths_of_def)
  moreover have "s_wal_bytes t = s_wal_bytes s"
  proof (rule word_unat_eq_iff [THEN iffD2])
    show "unat (s_wal_bytes t) = unat (s_wal_bytes s)"
      using represents_bytes [OF r log] represents_bytes [OF s4(4,5)] t by simp
  qed
  ultimately have "durable t j" using budget s5(3) t by (simp add: durable_def)
  then show ?thesis using opened t t' m(2) by (intro exI [of _ t]) simp
qed

section \<open>Compaction\<close>

lemma join_path_Nil_sym: "[] = join_path dir leaf \<longleftrightarrow> dir = [] \<and> leaf = []"
  by (auto simp: join_path_def)

lemma temp_path_join: "temp_path (join_path dir leaf) = join_path dir (leaf @ ''.tmp'')"
  by (simp add: temp_path_def join_path_def)

lemma temp_name: "leaf \<noteq> [] \<Longrightarrow> is_temp_name (leaf @ ''.tmp'')"
  by (simp add: is_temp_name_def)

lemma temp_name_neq:
  "leaf \<noteq> [] \<Longrightarrow> leaf @ ''.tmp'' \<noteq> manifest_file_name" "leaf \<noteq> [] \<Longrightarrow> leaf @ ''.tmp'' \<noteq> wal_file_name"
  "leaf \<noteq> [] \<Longrightarrow> leaf @ ''.tmp'' \<noteq> snapshot_file_name q"
  "leaf \<noteq> [] \<Longrightarrow> manifest_file_name \<noteq> leaf @ ''.tmp''" "leaf \<noteq> [] \<Longrightarrow> wal_file_name \<noteq> leaf @ ''.tmp''"
  "leaf \<noteq> [] \<Longrightarrow> snapshot_file_name q \<noteq> leaf @ ''.tmp''"
  using temp_name [of leaf] file_names_distinct by metis+

lemma file_names_nonempty [simp]: "manifest_file_name \<noteq> []" "wal_file_name \<noteq> []" "snapshot_file_name q \<noteq> []"
  using snapshot_name_safe(4) by (simp_all add: manifest_file_name_def wal_file_name_def)

lemma represents_empty:
  assumes "log_file s = Some []" "s_wal_bytes s = 0" "s_snapshot_sequence s = s_last_sequence s"
    "so_max_record_bytes (s_options s) \<le> kMaxWalRecordBytes"
    "jn_committed j = []" "jn_pending j = Map.empty"
  shows "represents s j"
  unfolding represents_def using assms
  by (intro exI [of _ "[]"]) (auto simp: tracks_def max_def)

text \<open>The state a compaction leaves when nothing fails.\<close>

definition compacted :: "disk \<Rightarrow> store \<Rightarrow> store" where
  "compacted d s = s\<lparr>s_disk := d,
     s_snapshot_path := join_path (so_directory (s_options s)) (snapshot_file_name (s_last_sequence s)),
     s_snapshot_sequence := s_last_sequence s, s_wal_open := True, s_wal_bytes := 0\<rparr>"

lemma write_snapshot_calm:
  assumes D: "durable s j" and p: "length p \<le> kMaxSnapshotBytes"
    and m: "s_store_id s = digest_hex ident" "length ident = kDigestBytes"
  obtains d where "WriteSnapshot p s = (Inr (), compacted d s)" "d_faults d = []"
    "d_dirs d = d_dirs (s_disk s)" "file_at d (s_wal_path s) = Some []"
    "file_at d (s_manifest_path s) = Some (lay_manifest ident (compacted d s))"
    "file_at d (s_snapshot_path (compacted d s)) = Some (lay_snapshot (s_last_sequence s) p)"
proof -
  let ?dir = "so_directory (s_options s)" and ?q = "s_last_sequence s"
  from D have r: "represents s j" and pub: "published s j" and paths: "paths_of s" and calm: "calm s"
    by (auto simp: durable_def)
  obtain old where old: "names_snapshot old s" using pub by (auto simp: published_def)
  note P = paths [unfolded paths_of_def]
  define target where "target = join_path ?dir (snapshot_file_name ?q)"
  note names = file_names_distinct temp_name_neq
  have prev: "s_snapshot_path s \<noteq> s_wal_path s" "s_snapshot_path s \<noteq> s_manifest_path s"
    using P old names by (auto simp: names_snapshot_def manifest_name_def join_path_Nil join_path_Nil_sym)
  have neq: "target \<noteq> []" "target \<noteq> s_wal_path s" "target \<noteq> s_manifest_path s" "s_manifest_path s \<noteq> s_wal_path s"
    "temp_path target \<noteq> s_wal_path s" "temp_path target \<noteq> s_manifest_path s"
    "temp_path (s_manifest_path s) \<noteq> target" "temp_path (s_manifest_path s) \<noteq> s_wal_path s"
    "temp_path (s_wal_path s) \<noteq> target" "temp_path (s_wal_path s) \<noteq> s_manifest_path s"
    using P names by (simp_all add: target_def temp_path_join join_path_Nil)
  let ?snap = "lay_snapshot ?q p"
  define d1 where "d1 = put_file target ?snap (drop_file (temp_path target) (put_file (temp_path target) ?snap (s_disk s)))"
  define s1 where "s1 = s\<lparr>s_disk := d1, s_snapshot_path := target, s_snapshot_sequence := ?q\<rparr>"
  let ?man = "lay_manifest ident s1"
  define d2 where "d2 = put_file (s_manifest_path s) ?man (drop_file (temp_path (s_manifest_path s))
    (put_file (temp_path (s_manifest_path s)) ?man d1))"
  have w: "write_manifest s1 = (Inr (), s1\<lparr>s_disk := d2\<rparr>)"
    using write_manifest_calm [of s1 ident] m calm by (simp add: s1_def d1_def d2_def)
  define d3 where "d3 = put_file (s_wal_path s) [] (drop_file (temp_path (s_wal_path s))
    (put_file (temp_path (s_wal_path s)) [] d2))"
  define drop where "drop = (s_snapshot_path s \<noteq> [] \<and> s_snapshot_path s \<noteq> target)"
  define d4 where "d4 = (if drop then drop_file (s_snapshot_path s) d3 else d3)"
  define s' where "s' = s1\<lparr>s_disk := d4, s_wal_open := True, s_wal_bytes := 0\<rparr>"
  have calms: "d_faults d1 = []" "d_faults d2 = []" "d_faults d3 = []" "d_faults d4 = []"
    using calm by (simp_all add: d1_def d2_def d3_def d4_def)
  have enc: "encode_snapshot ?q p = ?snap" "?snap \<noteq> []"
    using p encode_snapshot_lay by (auto simp: lay_snapshot_def kSnapshotMagic_def bytes_of_string_def)
  have "WriteSnapshot p s = (Inr (), s')"
  proof -
    have wal: "file_at d3 (s_wal_path s) = Some []" by (simp add: d3_def)
    have a: "on_disk (write_file_atomic target ?snap) s = (Inr (), s\<lparr>s_disk := d1\<rparr>)"
      using calm by (simp add: on_disk_def write_file_atomic_calm d1_def)
    have b: "on_disk (write_file_atomic (s_wal_path s) []) (s1\<lparr>s_disk := d2, s_wal_open := False\<rparr>) =
        (Inr (), s1\<lparr>s_disk := d3, s_wal_open := False\<rparr>)"
      using calms by (simp add: on_disk_def write_file_atomic_calm d3_def)
    have c: "reopen_wal (s1\<lparr>s_disk := d3, s_wal_open := False, s_wal_bytes := 0\<rparr>) =
        (Inr (), s1\<lparr>s_disk := d3, s_wal_open := True, s_wal_bytes := 0\<rparr>)"
      using calms wal by (simp add: reopen_wal_def on_disk_def s1_def)
    show ?thesis
      using p enc a w b c calms neq(1)
      by (simp add: WriteSnapshot_def Let_def target_def [symmetric] s'_def d4_def drop_def)
        (simp add: s1_def on_disk_def)
  qed
  moreover have "s' = compacted d4 s" by (simp add: s'_def s1_def compacted_def target_def)
  moreover have "file_at d4 (s_wal_path s) = Some []" using prev by (simp add: d4_def d3_def)
  moreover have "file_at d4 (s_manifest_path s) = Some ?man"
    using prev neq by (simp add: d4_def d3_def d2_def)
  moreover have "?man = lay_manifest ident (compacted d4 s)"
    by (simp add: lay_manifest_def lay_manifest_body_def manifest_name_def s1_def compacted_def target_def)
  moreover have "file_at d4 target = Some ?snap"
    using neq by (auto simp: d4_def drop_def d3_def d2_def d1_def)
  moreover have "d_dirs d4 = d_dirs (s_disk s)" by (simp add: d4_def d3_def d2_def d1_def)
  ultimately show thesis using calms by (intro that [of d4]) (simp_all add: compacted_def target_def)
qed

lemma write_snapshot_durable:
  assumes D: "durable s j" and p: "length p + 28 \<le> kMaxSnapshotBytes"
  shows "\<exists>s'. WriteSnapshot p s = (Inr (), s') \<and> durable s' (journal_step (Compacted p) j) \<and>
    s_options s' = s_options s"
proof -
  obtain ident m where m: "s_store_id s = digest_hex ident" "length ident = kDigestBytes"
    "\<not> digest_is_zero ident" "names_snapshot m s"
    using D by (auto simp: durable_def published_def)
  have paths: "paths_of s" using D by (simp add: durable_def)
  have "length p \<le> kMaxSnapshotBytes" using p by simp
  then obtain d where d: "WriteSnapshot p s = (Inr (), compacted d s)" "d_faults d = []"
    "d_dirs d = d_dirs (s_disk s)" "file_at d (s_wal_path s) = Some []"
    "file_at d (s_manifest_path s) = Some (lay_manifest ident (compacted d s))"
    "file_at d (s_snapshot_path (compacted d s)) = Some (lay_snapshot (s_last_sequence s) p)"
    using write_snapshot_calm [OF D _ m(1,2)] by blast
  let ?s = "compacted d s" and ?j = "journal_step (Compacted p) j"
  have name: "manifest_name ?s = snapshot_file_name (s_last_sequence s)"
    by (simp add: manifest_name_def compacted_def join_path_Nil)
  have "represents ?s ?j"
    using d(4) paths by (intro represents_empty) (simp_all add: compacted_def paths_of_def)
  moreover have "published ?s ?j"
    unfolding published_def
    by (intro exI [of _ ident] exI [of _ ?s] conjI)
      (use m d name p in \<open>simp_all add: names_snapshot_def\<close>, simp_all add: compacted_def)
  moreover have "paths_of ?s" using paths d(3) by (simp add: paths_of_def compacted_def)
  ultimately have "durable ?s ?j" using D d(2) by (simp add: durable_def compacted_def)
  with d(1) show ?thesis by (intro exI [of _ ?s]) (simp add: compacted_def)
qed

section \<open>Runs, crashes included\<close>

text \<open>
  The calls a client makes, and the crash: the process stops while \<open>tail\<close> was being appended, and
  the store is opened again with \<open>fresh\<close> as boot identity. A call reports the event it logs.
\<close>

datatype store_call =
    CallAppend record_type bytes
  | CallStage record_type bytes
  | CallCommit attempt_id digest256
  | CallAbort attempt_id string
  | CallSnapshot bytes
  | CallClose
  | CallCrash bytes bytes

definition crashed_disk :: "bytes \<Rightarrow> store \<Rightarrow> disk" where
  "crashed_disk tail s = append_file (s_wal_path s) tail (s_disk s)"

fun run_call :: "store_call \<Rightarrow> store \<Rightarrow> journal_event option \<times> store" where
  "run_call (CallAppend t b) s =
     (case Append t b s of (Inr q, s) \<Rightarrow> (Some (Appended t q b), s) | (Inl _, s) \<Rightarrow> (None, s))"
| "run_call (CallStage t b) s =
     (case Stage t b s of (Inr a, s) \<Rightarrow> (Some (Staged a t b), s) | (Inl _, s) \<Rightarrow> (None, s))"
| "run_call (CallCommit a d) s =
     (case Commit a d s of (Inr _, s) \<Rightarrow> (Some (Committed a (s_last_sequence s)), s)
      | (Inl _, s) \<Rightarrow> (None, s))"
| "run_call (CallAbort a r) s =
     (case Abort a r s of (Inr _, s) \<Rightarrow> (Some (Aborted a), s) | (Inl _, s) \<Rightarrow> (None, s))"
| "run_call (CallSnapshot p) s =
     (case WriteSnapshot p s of (Inr _, s) \<Rightarrow> (Some (Compacted p), s) | (Inl _, s) \<Rightarrow> (None, s))"
| "run_call CallClose s = (None, snd (Close s))"
| "run_call (CallCrash tail fresh) s =
     (case Open (s_options s) fresh (crashed_disk tail s) of
        (Inr t, _) \<Rightarrow> (None, t) | (Inl _, d) \<Rightarrow> (None, new_store d))"

text \<open>
  What is asked of the calls: records \<open>Append\<close> may write, snapshots within the size that can be
  read back, tails of at most a mebibyte that no frame stands inside.
\<close>

fun sound_call :: "nat \<Rightarrow> store_call \<Rightarrow> bool" where
  "sound_call m (CallAppend t b) \<longleftrightarrow> plain_record t b"
| "sound_call m (CallSnapshot p) \<longleftrightarrow> length p + 28 \<le> kMaxSnapshotBytes"
| "sound_call m (CallCrash tail fresh) \<longleftrightarrow> torn_tail m tail \<and> length tail \<le> 1048576"
| "sound_call m _ \<longleftrightarrow> True"

definition journal_after :: "journal_event option \<Rightarrow> journal \<Rightarrow> journal" where
  "journal_after ev j = (case ev of None \<Rightarrow> j | Some ev \<Rightarrow> journal_step ev j)"

fun run_calls :: "store_call list \<Rightarrow> store \<Rightarrow> journal_event list \<times> store" where
  "run_calls [] s = ([], s)"
| "run_calls (c # cs) s =
     (let (ev, s) = run_call c s; (evs, s) = run_calls cs s
      in (case ev of None \<Rightarrow> evs | Some ev \<Rightarrow> ev # evs, s))"

lemma appended_budget:
  "can_append e s \<Longrightarrow> s_wal_bytes (appended e s) \<le> so_max_wal_bytes (s_options s)"
  by (auto simp: can_append_def appended_def checked_add_iff simp del: length_lay_entry split: option.splits)

text \<open>What an append leaves of a durable store, whatever it counts as in flight.\<close>

lemma durable_appended:
  assumes D: "durable s j" and c: "can_append e s" and q: "le_sequence e = s_last_sequence s + 1"
    and r: "represents (appended e s) j'" and snap: "jn_snapshot j' = jn_snapshot j"
  shows "durable (appended e s) j'"
proof -
  have lt: "s_last_sequence s < s_last_sequence s + 1" using can_append_less [OF c] .
  obtain ident m where m: "file_at (s_disk s) (s_manifest_path s) = Some (lay_manifest ident m)"
    "s_store_id s = digest_hex ident" "length ident = kDigestBytes" "\<not> digest_is_zero ident"
    "names_snapshot m s" "s_snapshot_sequence s \<le> s_last_sequence m"
    "s_last_sequence m \<le> s_last_sequence s"
    "if manifest_name m = [] then jn_snapshot j = []
      else file_at (s_disk s) (s_snapshot_path s) = Some (lay_snapshot (s_snapshot_sequence s) (jn_snapshot j)) \<and>
        length (jn_snapshot j) + 28 \<le> kMaxSnapshotBytes"
    using D by (auto simp: durable_def published_def)
  have paths: "paths_of s" using D by (simp add: durable_def)
  then have "s_manifest_path s \<noteq> s_wal_path s" "manifest_name m \<noteq> [] \<Longrightarrow> s_snapshot_path s \<noteq> s_wal_path s"
    using m(5) file_names_distinct by (auto simp: paths_of_def names_snapshot_def manifest_name_def)
  then have "published (appended e s) j'"
    using m lt snap q
    by (auto simp: published_def names_snapshot_def appended_def append_file_def intro!: exI [of _ ident] exI [of _ m])
  moreover have "paths_of (appended e s)"
    using paths by (simp add: paths_of_def appended_def append_file_def)
  moreover note appended_budget [OF c]
  ultimately show ?thesis using D r by (simp add: durable_def appended_def append_file_def)
qed

lemma durable_cong [simp]:
  "durable (s\<lparr>s_staged_count := n\<rparr>) j = durable s j" "durable (unstage s) j = durable s j"
  "durable (s\<lparr>s_wal_open := b1, s_read_only := b2\<rparr>) j = durable s j"
  "durable (s\<lparr>s_read_only := b2\<rparr>) j = durable s j"
  by (simp_all add: durable_def represents_def published_def names_snapshot_def paths_of_def unstage_def)

lemma durable_log_small:
  assumes "durable s j" and "log_file s = Some log" and "length tail \<le> 1048576"
  shows "length (log @ tail) \<le> kMaxWalScanBytes"
proof -
  have "unat (s_wal_bytes s) = length log"
    using assms by (auto simp: durable_def intro: represents_bytes)
  moreover have "s_wal_bytes s \<le> word_of_nat kMaxSnapshotBytes"
    using assms(1) by (auto simp: durable_def)
  then have "unat (s_wal_bytes s) \<le> kMaxSnapshotBytes"
    by (simp add: word_le_nat_alt limit_defs)
  ultimately show ?thesis using assms(3) by (simp add: kMaxWalScanBytes_def)
qed

lemma durable_log: "durable s j \<Longrightarrow> \<exists>log. log_file s = Some log"
  by (auto simp: durable_def represents_def)

lemma crash_recovers:
  assumes D: "durable s j" and "torn_tail (so_max_record_bytes (s_options s)) tail"
    and "length tail \<le> 1048576"
  shows "\<exists>t. Open (s_options s) fresh (crashed_disk tail s) = (Inr t, s_disk t) \<and> durable t j \<and>
    s_replayed t = jn_committed j \<and> s_snapshot_bytes t = jn_snapshot j \<and>
    s_last_sequence t = s_last_sequence s \<and> s_wal_open t \<and> \<not> s_read_only t \<and>
    s_options t = s_options s \<and> s_staged_count t = 0 \<and> s_store_id t = s_store_id s"
proof -
  obtain log where log: "log_file s = Some log" using durable_log [OF D] by blast
  have "calm s" using D by (simp add: durable_def)
  then show ?thesis
    using assms(2) durable_log_small [OF D log assms(3)]
    by (intro open_recovers [OF D _ _ _ log]) (simp_all add: crashed_disk_def append_file_def log)
qed

lemma durable_closed [simp]: "durable (s\<lparr>s_wal_open := b\<rparr>) j = durable s j"
  by (simp add: durable_def represents_def published_def names_snapshot_def paths_of_def)

lemma options_kept [simp]:
  "s_options (appended e s) = s_options s" "s_options (unstage s) = s_options s"
  by (simp_all add: appended_def unstage_def)

lemma close_options: "s_options (snd (Close s)) = s_options s"
  by (auto simp: Close_def append_frame_def on_disk_def bindD_def Let_def
      split: prod.splits sum.splits option.splits)

lemma journal_step_snapshot:
  "(\<And>p. ev \<noteq> Compacted p) \<Longrightarrow> jn_snapshot (journal_step ev j) = jn_snapshot j"
  by (cases ev) (auto simp: add_committed_def split: option.splits prod.splits)

lemma close_durable:
  assumes D: "durable s j"
  shows "durable (snd (Close s)) j"
proof (cases "\<not> s_read_only s \<and> s_wal_open s")
  case True
  have calm: "calm s" and r: "represents s j" using D by (simp_all add: durable_def)
  show ?thesis
  proof (cases rule: append_frame_cases [OF calm, of RT_CleanShutdown kFlagNone 0 "[]"])
    case (1 e)
    then show ?thesis using True D by (simp add: Close_def)
  next
    case 2
    have "represents (appended (new_entry RT_CleanShutdown kFlagNone 0 [] s) s) j"
      using plain_step [OF r 2(1)] by (simp add: plain_record_def)
    from durable_appended [OF D 2(1) _ this] 2 True show ?thesis by (simp add: Close_def)
  qed
qed (use D in \<open>auto simp: Close_def\<close>)

lemma run_call_durable:
  assumes D: "durable s j" and ok: "sound_call (so_max_record_bytes (s_options s)) c"
    and run: "run_call c s = (ev, s')"
  shows "durable s' (journal_after ev j) \<and> s_options s' = s_options s"
proof -
  have calm: "calm s" and r: "represents s j" using D by (simp_all add: durable_def)
  show ?thesis
  proof (cases c)
    case (CallAppend t b)
    show ?thesis
    proof (cases rule: append_frame_cases [OF calm, of t kFlagNone 0 b])
      case 2
      with ok CallAppend have "plain_record t b" by simp
      from durable_appended [OF D 2(1) _ plain_step [OF r 2(1) this] journal_step_snapshot]
      have "durable (appended (new_entry t kFlagNone 0 b s) s)
        (journal_step (Appended t (s_last_sequence s + 1) b) j)" by simp
      with 2 run CallAppend show ?thesis
        by (auto simp: Append_def journal_after_def simp del: journal_step.simps)
    qed (use run CallAppend D in \<open>auto simp: Append_def journal_after_def\<close>)
  next
    case (CallStage t b)
    let ?a = "s_last_sequence s + 1"
    let ?w = "w_seq [w_u16 (rt_rank t), w_u64 ?a, w_u32 (word_of_nat (length b)), w_raw b]
      (new_writer (so_max_record_bytes (s_options s)))"
    have w: "\<not> w_failed ?w \<Longrightarrow> w_buffer ?w = lay_intent t ?a b"
      using emits_encode [OF emits_intent] by blast
    show ?thesis
    proof (cases rule: append_frame_cases [OF calm, of RT_MutationIntent kFlagHasAttempt ?a "lay_intent t ?a b"])
      case 2
      from durable_appended [OF D 2(1) _ stage_step [OF r refl 2(1)] journal_step_snapshot]
      have "durable (appended (new_entry RT_MutationIntent kFlagHasAttempt ?a (lay_intent t ?a b) s) s)
        (journal_step (Staged ?a t b) j)" by simp
      with 2 run CallStage w D show ?thesis
        by (auto simp: Stage_def Let_def journal_after_def simp del: journal_step.simps split: if_splits)
    qed (use run CallStage w D in \<open>auto simp: Stage_def Let_def journal_after_def split: if_splits\<close>)
  next
    case (CallCommit a d)
    have w: "\<not> w_failed (w_seq [w_u64 a, w_raw d] (new_writer 256)) \<Longrightarrow>
        w_buffer (w_seq [w_u64 a, w_raw d] (new_writer 256)) = lay_u64 a @ d"
      using emits_encode [OF emits_commit] by blast
    show ?thesis
    proof (cases rule: append_frame_cases [OF calm, of RT_MutationCommit kFlagHasAttempt a "lay_u64 a @ d"])
      case 2
      from durable_appended [OF D 2(1) _ commit_step [OF r 2(1)] journal_step_snapshot]
      have "durable (appended (new_entry RT_MutationCommit kFlagHasAttempt a (lay_u64 a @ d) s) s)
        (journal_step (Committed a (s_last_sequence s + 1)) j)" by simp
      with 2 run CallCommit w D show ?thesis
        by (auto simp: Commit_def Let_def journal_after_def simp del: journal_step.simps split: if_splits)
    qed (use run CallCommit w D in \<open>auto simp: Commit_def Let_def journal_after_def split: if_splits\<close>)
  next
    case (CallAbort a x)
    let ?r = "lay_str (take kMaxReasonLen x)"
    let ?w = "w_seq [w_u64 a, w_str (take kMaxReasonLen x) kMaxReasonLen] (new_writer 512)"
    have w: "\<not> w_failed ?w \<Longrightarrow> w_buffer ?w = lay_u64 a @ ?r"
      using emits_encode [OF emits_abort] by blast
    show ?thesis
    proof (cases rule: append_frame_cases [OF calm, of RT_MutationAbort kFlagHasAttempt a "lay_u64 a @ ?r"])
      case 2
      from durable_appended [OF D 2(1) _ abort_step [OF r 2(1)] journal_step_snapshot]
      have "durable (appended (new_entry RT_MutationAbort kFlagHasAttempt a (lay_u64 a @ ?r) s) s)
        (journal_step (Aborted a) j)" by simp
      with 2 run CallAbort w D show ?thesis
        by (auto simp: Abort_def Let_def journal_after_def simp del: journal_step.simps split: if_splits)
    qed (use run CallAbort w D in \<open>auto simp: Abort_def Let_def journal_after_def split: if_splits\<close>)
  next
    case (CallSnapshot p)
    with ok have "length p + 28 \<le> kMaxSnapshotBytes" by simp
    from write_snapshot_durable [OF D this] CallSnapshot run show ?thesis
      by (auto simp: journal_after_def)
  next
    case CallClose
    then show ?thesis using run close_durable [OF D] close_options by (auto simp: journal_after_def)
  next
    case (CallCrash tail fresh)
    with ok have "torn_tail (so_max_record_bytes (s_options s)) tail" "length tail \<le> 1048576" by simp_all
    from crash_recovers [OF D this, of fresh] CallCrash run show ?thesis
      by (auto simp: journal_after_def)
  qed
qed

lemma run_calls_durable:
  "durable s j \<Longrightarrow> list_all (sound_call (so_max_record_bytes (s_options s))) cs \<Longrightarrow>
   run_calls cs s = (evs, s') \<Longrightarrow>
   durable s' (fold journal_step evs j) \<and> s_options s' = s_options s"
proof (induction cs arbitrary: s j evs)
  case (Cons c cs)
  obtain ev s1 where c: "run_call c s = (ev, s1)" by fastforce
  obtain evs' where cs: "run_calls cs s1 = (evs', s')" "evs = (case ev of None \<Rightarrow> evs' | Some ev \<Rightarrow> ev # evs')"
    using Cons.prems(3) c by (auto simp: Let_def split: prod.splits)
  have 1: "durable s1 (journal_after ev j) \<and> s_options s1 = s_options s"
    using run_call_durable [OF Cons.prems(1) _ c] Cons.prems(2) by simp
  then have "durable s' (fold journal_step evs' (journal_after ev j)) \<and> s_options s' = s_options s1"
    using Cons.IH [of s1 "journal_after ev j" evs'] Cons.prems(2) cs(1) by simp
  then show ?case using 1 cs(2) by (auto simp: journal_after_def split: option.splits)
qed auto

section \<open>Compaction on a failing disk\<close>

lemma io_step_dirs: "io_step d = (f, d') \<Longrightarrow> d_dirs d' = d_dirs d"
  by (auto simp: io_step_def split: list.splits)

lemma sys_dirs: "sys m d = (r, d') \<Longrightarrow> d_dirs d' = d_dirs d"
  by (auto simp: sys_def dest: io_step_dirs split: prod.splits option.splits)

lemma remove_file_dirs: "remove_file p d = (r, d') \<Longrightarrow> d_dirs d' = d_dirs d"
  by (auto simp: remove_file_def bindD_def dest!: sys_dirs split: prod.splits sum.splits)

lemma sys_keeps: "sys m d = (r, d') \<Longrightarrow> d_dirs d' = d_dirs d \<and> file_at d' = file_at d"
  using sys_dirs sys_files by blast

lemma sync_directory_keeps:
  "sync_directory p d = (r, d') \<Longrightarrow> d_dirs d' = d_dirs d \<and> file_at d' = file_at d"
  by (auto simp: sync_directory_def bindD_def dest!: sys_keeps split: prod.splits sum.splits)

lemma write_file_atomic_dirs: "write_file_atomic p bs d = (r, d') \<Longrightarrow> d_dirs d' = d_dirs d"
  by (auto simp: write_file_atomic_def bindD_def Let_def sync_handle_def atomic_replace_def
      split: prod.splits sum.splits option.splits if_splits
      dest!: sys_dirs remove_file_dirs io_step_dirs)

lemma digits_value_snoc: "digits_value (ds @ [c]) = 10 * digits_value ds + (of_char c - 48)"
  by (simp add: digits_value_def)

lemma digits_value_dec: "digits_value (dec_string n) = n"
proof (induction n rule: dec_string.induct)
  case (1 n)
  have d: "k < 10 \<Longrightarrow> of_char (char_of (k + 48) :: char) - 48 = k" for k :: nat
    by (simp add: of_char_of)
  show ?case
  proof (cases "n < 10")
    case True
    then show ?thesis using d [of n] by (simp add: dec_string.simps [of n] digits_value_def)
  next
    case False
    then show ?thesis using 1 d [of "n mod 10"]
      by (simp add: dec_string.simps [of n] digits_value_snoc)
  qed
qed

lemma snapshot_file_name_inject [simp]: "snapshot_file_name a = snapshot_file_name b \<longleftrightarrow> a = b"
proof
  assume "snapshot_file_name a = snapshot_file_name b"
  then have "dec_string (unat a) = dec_string (unat b)"
    by (simp add: snapshot_file_name_def u64_to_string_def)
  then show "a = b" by (metis digits_value_dec word_unat_eq_iff)
qed simp

lemma write_manifest_faulty:
  assumes "s_store_id s = digest_hex ident" "length ident = kDigestBytes"
    and w: "write_manifest s = (r, s')"
  obtains d where "s' = s\<lparr>s_disk := d\<rparr>" "d_dirs d = d_dirs (s_disk s)"
    "\<And>x. x \<noteq> temp_path (s_manifest_path s) \<Longrightarrow> x \<noteq> s_manifest_path s \<Longrightarrow>
      file_at d x = file_at (s_disk s) x"
    "file_at d (s_manifest_path s) = Some (lay_manifest ident s) \<or>
     (file_at d (s_manifest_path s) = file_at (s_disk s) (s_manifest_path s) \<and> r \<noteq> Inr ())"
proof -
  obtain r1 d1 where w1: "write_file_atomic (s_manifest_path s) (lay_manifest ident s) (s_disk s) = (r1, d1)"
    by fastforce
  note f = write_file_atomic_files [OF w1] write_file_atomic_dirs [OF w1]
  have eq: "write_manifest s = bindD (r1, s\<lparr>s_disk := d1\<rparr>)
      (\<lambda>_ s. on_disk (sync_directory (so_directory (s_options s))) s)"
    using encode_manifest_lay [OF assms(1,2)] w1
    by (simp add: write_manifest_def Let_def on_disk_def lay_manifest_def lay_u32_def [of "crc32c _"])
  obtain r2 d2 where w2: "sync_directory (so_directory (s_options s)) d1 = (r2, d2)" by fastforce
  note g = sync_directory_keeps [OF w2]
  show thesis
  proof (cases r1)
    case (Inl e)
    then have "s' = s\<lparr>s_disk := d1\<rparr>" "r \<noteq> Inr ()" using eq w by auto
    with Inl f show thesis by (intro that [of d1]) (auto)
  next
    case (Inr u)
    then have "s' = s\<lparr>s_disk := d2\<rparr>" using eq w w2 by (simp add: on_disk_def)
    with Inr f g show thesis by (intro that [of d2]) (auto)
  qed
qed

text \<open>
  The states the files may be left in by a compaction that may fail at any call. The order of the
  writes shows: the manifest is replaced after the snapshot, the log is emptied after the
  manifest, and the previous snapshot is removed last.
\<close>

definition compaction_files ::
    "bytes \<Rightarrow> digest256 \<Rightarrow> store \<Rightarrow> string \<Rightarrow> bool \<Rightarrow> disk \<Rightarrow> bool" where
  "compaction_files p ident s target completed d \<longleftrightarrow>
     (let s1 = s\<lparr>s_snapshot_path := target, s_snapshot_sequence := s_last_sequence s\<rparr>;
          old = (\<lambda>x. file_at d x = file_at (s_disk s) x);
          snap = (file_at d target = Some (lay_snapshot (s_last_sequence s) p));
          man = (file_at d (s_manifest_path s) = Some (lay_manifest ident s1)) in
      d_dirs d = d_dirs (s_disk s) \<and>
      ((\<not> completed \<and> old (s_manifest_path s) \<and> old (s_wal_path s) \<and> (snap \<or> old target) \<and>
         (s_snapshot_path s \<noteq> target \<longrightarrow> old (s_snapshot_path s))) \<or>
       (man \<and> snap \<and> (\<not> completed \<and> old (s_wal_path s) \<or> file_at d (s_wal_path s) = Some []))))"

lemma reopen_wal_keeps:
  assumes "reopen_wal s = (r, s')" and "log_file s \<noteq> None"
  shows "file_at (s_disk s') = file_at (s_disk s)" "d_dirs (s_disk s') = d_dirs (s_disk s)"
  using assms
  by (auto simp: reopen_wal_def on_disk_def bindD_def dest!: sys_keeps split: prod.splits sum.splits)

abbreviation snapshot_target :: "store \<Rightarrow> string" where
  "snapshot_target s \<equiv> join_path (so_directory (s_options s)) (snapshot_file_name (s_last_sequence s))"

lemma paths_distinct:
  assumes "paths_of s"
  shows "snapshot_target s \<noteq> []" "snapshot_target s \<noteq> s_wal_path s"
    "snapshot_target s \<noteq> s_manifest_path s" "s_manifest_path s \<noteq> s_wal_path s"
    "temp_path (snapshot_target s) \<noteq> s_wal_path s" "temp_path (snapshot_target s) \<noteq> s_manifest_path s"
    "temp_path (s_manifest_path s) \<noteq> snapshot_target s" "temp_path (s_manifest_path s) \<noteq> s_wal_path s"
    "temp_path (s_wal_path s) \<noteq> snapshot_target s" "temp_path (s_wal_path s) \<noteq> s_manifest_path s"
  using assms file_names_distinct temp_name_neq
  by (simp_all add: paths_of_def temp_path_join join_path_Nil)

lemma previous_distinct:
  assumes "paths_of s" and "names_snapshot m s"
  shows "s_snapshot_path s \<noteq> s_wal_path s" "s_snapshot_path s \<noteq> s_manifest_path s"
    "s_snapshot_path s \<noteq> temp_path (snapshot_target s)" "s_snapshot_path s \<noteq> temp_path (s_manifest_path s)"
    "s_snapshot_path s \<noteq> temp_path (s_wal_path s)"
  using assms file_names_distinct temp_name_neq
  by (auto simp: paths_of_def names_snapshot_def temp_path_join manifest_name_def join_path_Nil
      join_path_Nil_sym)

lemma write_snapshot_files:
  assumes paths: "paths_of s" and ident: "s_store_id s = digest_hex ident" "length ident = kDigestBytes"
    and names: "names_snapshot m s" and log: "log_file s \<noteq> None"
    and p: "length p \<le> kMaxSnapshotBytes" and w: "WriteSnapshot p s = (r, s')"
  shows "compaction_files p ident s (snapshot_target s) (r = Inr ()) (s_disk s')"
proof -
  let ?target = "snapshot_target s" and ?q = "s_last_sequence s"
  let ?snap = "lay_snapshot ?q p"
  note neq = paths_distinct [OF paths] previous_distinct [OF paths names]
  have enc: "encode_snapshot ?q p = ?snap" "?snap \<noteq> []"
    using p encode_snapshot_lay by (auto simp: lay_snapshot_def kSnapshotMagic_def bytes_of_string_def)
  obtain r1 d1 where w1: "write_file_atomic ?target ?snap (s_disk s) = (r1, d1)" by fastforce
  note f1 = write_file_atomic_files [OF w1] write_file_atomic_dirs [OF w1]
  define s1 where "s1 = s\<lparr>s_disk := d1, s_snapshot_path := ?target, s_snapshot_sequence := ?q\<rparr>"
  show ?thesis
  proof (cases r1)
    case (Inl e)
    then have "s' = s\<lparr>s_disk := d1\<rparr>" "r \<noteq> Inr ()"
      using w p enc w1 by (auto simp: WriteSnapshot_def Let_def on_disk_def)
    with f1 neq Inl show ?thesis by (simp add: compaction_files_def)
  next
    case (Inr u)
    obtain r2 s2 where w2: "write_manifest s1 = (r2, s2)" by fastforce
    obtain d2 where d2: "s2 = s1\<lparr>s_disk := d2\<rparr>" "d_dirs d2 = d_dirs (s_disk s1)"
      "\<And>x. x \<noteq> temp_path (s_manifest_path s1) \<Longrightarrow> x \<noteq> s_manifest_path s1 \<Longrightarrow> file_at d2 x = file_at (s_disk s1) x"
      "file_at d2 (s_manifest_path s1) = Some (lay_manifest ident s1) \<or>
       (file_at d2 (s_manifest_path s1) = file_at (s_disk s1) (s_manifest_path s1) \<and> r2 \<noteq> Inr ())"
      by (rule write_manifest_faulty [OF _ ident(2) w2]) (use ident in \<open>auto simp: s1_def\<close>)
    have d2': "file_at d2 ?target = Some ?snap" "file_at d2 (s_wal_path s) = log_file s"
      "s_snapshot_path s \<noteq> ?target \<Longrightarrow> file_at d2 (s_snapshot_path s) = file_at (s_disk s) (s_snapshot_path s)"
      using d2(3) neq f1 Inr by (auto simp: s1_def)
    have "lay_manifest ident s1 = lay_manifest ident (s\<lparr>s_snapshot_path := ?target, s_snapshot_sequence := ?q\<rparr>)"
      by (simp add: lay_manifest_def lay_manifest_body_def manifest_name_def s1_def)
    note man = d2(4) [unfolded this]
    have base: "WriteSnapshot p s = bindD (write_manifest s1) (\<lambda>_ s'.
        let (truncated, s') = on_disk (write_file_atomic (s_wal_path s') []) (s'\<lparr>s_wal_open := False\<rparr>) in
        case truncated of
          Inl e \<Rightarrow> let (_, s') = reopen_wal s' in (Inl e, s')
        | Inr _ \<Rightarrow> bindD (reopen_wal (s'\<lparr>s_wal_bytes := 0\<rparr>)) (\<lambda>_ s'.
            if s_snapshot_path s \<noteq> [] \<and> s_snapshot_path s \<noteq> ?target
            then let (_, s') = on_disk (remove_file (s_snapshot_path s)) s' in (Inr (), s')
            else (Inr (), s')))"
      using Inr p enc w1 by (simp add: WriteSnapshot_def Let_def on_disk_def s1_def)
    show ?thesis
    proof (cases r2)
      case (Inl e)
      then have "(r, s') = (Inl e, s2)" using w w2 base by simp
      then have "s' = s2" "r \<noteq> Inr ()" by auto
      with man d2 d2' f1 neq show ?thesis by (auto simp: compaction_files_def s1_def Let_def)
    next
      case (Inr u2)
      obtain r3 d3 where w3: "write_file_atomic (s_wal_path s) [] d2 = (r3, d3)" by fastforce
      note f3 = write_file_atomic_files [OF w3] write_file_atomic_dirs [OF w3]
      have d3: "file_at d3 ?target = Some ?snap" "file_at d3 (s_manifest_path s) = file_at d2 (s_manifest_path s)"
        "if r3 = Inr () then file_at d3 (s_wal_path s) = Some [] else file_at d3 (s_wal_path s) = log_file s"
        "file_at d3 (s_wal_path s) \<noteq> None" "d_dirs d3 = d_dirs (s_disk s)"
        using f3 neq d2' log d2(2) f1(2) by (auto simp: s1_def)
      have "file_at (s_disk s') ?target = file_at d3 ?target \<and>
          file_at (s_disk s') (s_manifest_path s) = file_at d3 (s_manifest_path s) \<and>
          file_at (s_disk s') (s_wal_path s) = file_at d3 (s_wal_path s) \<and>
          d_dirs (s_disk s') = d_dirs d3 \<and> (r = Inr () \<longrightarrow> r3 = Inr ())"
      proof -
        define s3 where "s3 = s2\<lparr>s_wal_open := False, s_disk := d3\<rparr>"
        have s3: "log_file s3 \<noteq> None" "s_disk s3 = d3" "s_wal_path s3 = s_wal_path s"
          using d3(4) by (simp_all add: s3_def d2(1) s1_def)
        have on3: "on_disk (write_file_atomic (s_wal_path s2) []) (s2\<lparr>s_wal_open := False\<rparr>) = (r3, s3)"
          using w3 by (simp add: on_disk_def s3_def d2(1) s1_def)
        show ?thesis
        proof (cases r3)
          case (Inl e)
          obtain r4 s4 where w4: "reopen_wal s3 = (r4, s4)" by fastforce
          then have "s' = s4" "r \<noteq> Inr ()" using w base w2 Inr Inl on3 by auto
          then show ?thesis using reopen_wal_keeps [OF w4 s3(1)] s3(2) by simp
        next
          case (Inr u3)
          obtain r4 s4 where w4: "reopen_wal (s3\<lparr>s_wal_bytes := 0\<rparr>) = (r4, s4)" by fastforce
          note k = reopen_wal_keeps [OF w4]
          have s': "s' = s4 \<or> s' = snd (on_disk (remove_file (s_snapshot_path s)) s4) \<and> s_snapshot_path s \<noteq> ?target"
            using w base w2 \<open>r2 = Inr u2\<close> Inr on3 w4
            by (auto simp: Let_def split: if_splits prod.splits simp: bindD_def split: sum.splits)
          obtain r5 d5 where w5: "remove_file (s_snapshot_path s) (s_disk s4) = (r5, d5)" by fastforce
          show ?thesis
            using s' k s3 Inr remove_file_files [OF w5] remove_file_dirs [OF w5] neq w5
            by (auto simp: on_disk_def)
        qed
      qed
      then show ?thesis using d3 man Inr
        by (auto simp: compaction_files_def Let_def s1_def split: if_splits)
    qed
  qed
qed

lemma replay_entries_skip:
  "\<forall>e \<in> set es. le_sequence e \<le> q \<Longrightarrow> \<exists>rp'. replay_entries q k es rp = Some rp' \<and>
    rp_replayed rp' = rp_replayed rp \<and> rp_staged rp' = rp_staged rp \<and>
    rp_last_sequence rp' = rp_last_sequence rp"
proof (induction es arbitrary: k rp)
  case (Cons e es)
  let ?n = "k + length (lay_entry e)"
  let ?rp = "rp\<lparr>rp_offset := ?n, rp_good_end := ?n, rp_clean := False\<rparr>"
  from Cons.IH [of ?n ?rp] Cons.prems show ?case by (simp add: Let_def del: length_lay_entry)
qed simp

lemma represents_skipped:
  assumes "represents s j0" "log_file s = log_file v" "s_wal_bytes v = s_wal_bytes s"
    "s_options v = s_options s" "s_last_sequence v = s_last_sequence s"
    "s_snapshot_sequence v = s_last_sequence s"
    "jn_committed j = []" "jn_pending j = Map.empty"
  shows "represents v j"
proof -
  obtain es where es: "log_file s = Some (lay_log es)" "unat (s_wal_bytes s) = length (lay_log es)"
    "list_all (entry_fits (so_max_record_bytes (s_options s))) es"
    "so_max_record_bytes (s_options s) \<le> kMaxWalRecordBytes"
    "\<forall>e \<in> set es. le_sequence e \<le> s_last_sequence s"
    using assms(1) unfolding represents_def by blast
  show ?thesis
    unfolding represents_def
  proof (intro exI [of _ es] conjI allI impI)
    fix rp :: replay
    assume rp: "rp_replayed rp = []" "rp_staged rp = []" "s_snapshot_sequence v \<le> rp_last_sequence rp"
    from replay_entries_skip [OF es(5), of 0 rp] rp assms
    show "\<exists>rp'. replay_entries (s_snapshot_sequence v) 0 es rp = Some rp' \<and>
        tracks (s_last_sequence v) j rp' \<and>
        rp_last_sequence rp' = max (rp_last_sequence rp) (s_last_sequence v)"
      by (auto simp: tracks_def max_def)
  qed (use es assms in auto)
qed

abbreviation settled :: "store \<Rightarrow> store" where
  "settled s \<equiv> s\<lparr>s_disk := (s_disk s)\<lparr>d_faults := []\<rparr>\<rparr>"

lemma file_at_faults [simp]: "file_at (d\<lparr>d_faults := f\<rparr>) x = file_at d x"
  by (simp add: file_at_def)

lemma names_settled: "names_snapshot m (s\<lparr>s_disk := d\<rparr>) = names_snapshot m s"
  by (simp add: names_snapshot_def)

lemma compaction_recoverable:
  assumes D: "durable (settled s) j" and p: "length p + 28 \<le> kMaxSnapshotBytes"
    and w: "WriteSnapshot p s = (r, s')"
  shows "\<exists>v j'. durable v j' \<and> s_disk v = s_disk (settled s') \<and> s_options v = s_options s \<and>
    s_last_sequence v = s_last_sequence s \<and>
    (j' = j \<and> r \<noteq> Inr () \<or> j' = journal_step (Compacted p) j)"
proof -
  obtain ident m where m: "file_at (s_disk s) (s_manifest_path s) = Some (lay_manifest ident m)"
    "s_store_id s = digest_hex ident" "length ident = kDigestBytes" "\<not> digest_is_zero ident"
    "names_snapshot m s" "s_snapshot_sequence s \<le> s_last_sequence m"
    "s_last_sequence m \<le> s_last_sequence s"
    and snap: "if manifest_name m = [] then jn_snapshot j = []
      else file_at (s_disk s) (s_snapshot_path s) = Some (lay_snapshot (s_snapshot_sequence s) (jn_snapshot j)) \<and>
        length (jn_snapshot j) + 28 \<le> kMaxSnapshotBytes"
    using D by (simp add: durable_def published_def names_settled cong: if_cong) blast
  have paths: "paths_of s" and r: "represents (settled s) j"
    using D by (simp_all add: durable_def paths_of_def)
  then obtain log where log: "log_file s = Some log" by (auto simp: represents_def)
  let ?d = "s_disk s'" and ?target = "snapshot_target s" and ?j = "journal_step (Compacted p) j"
  let ?disk = "?d\<lparr>d_faults := []\<rparr>"
  have files: "compaction_files p ident s ?target (r = Inr ()) ?d"
    using write_snapshot_files [OF paths m(2,3,5) _ _ w] p log by simp
  have budget: "so_max_wal_bytes (s_options s) \<le> word_of_nat kMaxSnapshotBytes"
    "s_wal_bytes s \<le> so_max_wal_bytes (s_options s)" and dirs: "d_dirs ?d = d_dirs (s_disk s)"
    using D files by (simp_all add: durable_def compaction_files_def Let_def)
  define v where "v = s\<lparr>s_disk := ?disk\<rparr>"
  have pv: "paths_of v" using paths dirs by (simp add: v_def paths_of_def)
  let ?new = "file_at ?d ?target = Some (lay_snapshot (s_last_sequence s) p)"
  let ?s1 = "s\<lparr>s_snapshot_path := ?target, s_snapshot_sequence := s_last_sequence s\<rparr>"
  have "?target \<noteq> []" using paths_distinct(1) [OF paths] .
  consider (old) "r \<noteq> Inr ()" "file_at ?d (s_manifest_path s) = Some (lay_manifest ident m)"
      "file_at ?d (s_wal_path s) = Some log"
      "s_snapshot_path s \<noteq> [] \<Longrightarrow> file_at ?d (s_snapshot_path s) = file_at (s_disk s) (s_snapshot_path s)"
    | (same) "file_at ?d (s_manifest_path s) = Some (lay_manifest ident m)"
      "file_at ?d (s_wal_path s) = Some log" "s_snapshot_path s = ?target" ?new
    | (new) "file_at ?d (s_manifest_path s) = Some (lay_manifest ident ?s1)" ?new
      "file_at ?d (s_wal_path s) = Some log \<or> file_at ?d (s_wal_path s) = Some []"
    using files m(1) log by (fastforce simp: compaction_files_def Let_def)
  then show ?thesis
  proof cases
    case old
    have "represents v j" by (rule represents_cong [OF r]) (use log old in \<open>simp_all add: v_def\<close>)
    moreover have "published v j"
      using old m snap by (auto simp: published_def v_def names_settled names_snapshot_def join_path_Nil
          intro!: exI [of _ ident] exI [of _ m])
    ultimately have "durable v j" using pv budget by (simp add: durable_def v_def)
    with old(1) show ?thesis by (intro exI [of _ v] exI [of _ j]) (simp add: v_def)
  next
    case same
    then have q: "manifest_name m \<noteq> []" "s_snapshot_sequence s = s_last_sequence s"
      using m(5) \<open>?target \<noteq> []\<close> by (auto simp: names_snapshot_def manifest_name_def split: if_splits)
    have "represents v ?j" by (rule represents_skipped [OF r]) (use log same q in \<open>simp_all add: v_def\<close>)
    moreover have "published v ?j"
      using same m q p by (auto simp: published_def v_def names_settled intro!: exI [of _ ident] exI [of _ m])
    ultimately have "durable v ?j" using pv budget by (simp add: durable_def v_def)
    then show ?thesis by (intro exI [of _ v] exI [of _ ?j]) (simp add: v_def)
  next
    case new
    define u where "u = v\<lparr>s_snapshot_path := ?target, s_snapshot_sequence := s_last_sequence s,
      s_wal_bytes := (if file_at ?d (s_wal_path s) = Some log then s_wal_bytes s else 0)\<rparr>"
    have name: "manifest_name ?s1 = snapshot_file_name (s_last_sequence s)"
      using \<open>?target \<noteq> []\<close> by (simp add: manifest_name_def)
    have "represents u ?j"
    proof (cases "file_at ?d (s_wal_path s) = Some log")
      case True
      then show ?thesis by (intro represents_skipped [OF r]) (use log in \<open>simp_all add: u_def v_def\<close>)
    next
      case False
      then show ?thesis using new paths by (intro represents_empty) (simp_all add: u_def v_def paths_of_def)
    qed
    moreover have "published u ?j"
      unfolding published_def
      by (intro exI [of _ ident] exI [of _ ?s1] conjI)
        (use new name m p in \<open>simp_all add: u_def v_def names_snapshot_def\<close>)
    ultimately have "durable u ?j"
      using pv budget by (simp add: durable_def u_def v_def paths_of_def)
    then show ?thesis by (intro exI [of _ u] exI [of _ ?j]) (simp add: u_def v_def)
  qed
qed

end
