(* ===== verification/Store_Claims.thy ===== *)
theory Store_Claims
  imports Store_Props
begin

text \<open>
  The promises of the durable store: recovery after any run of operations and crashes is the
  abstract journal, a compaction interrupted anywhere leaves the old or the new state, and a
  damaged log is refused untouched. Two results state where the code falls short of its own
  promise: a snapshot of the largest size cannot be read back, and a log that is appended to
  after a failed write cannot be opened again.
\<close>

section \<open>Damaged logs\<close>

text \<open>A complete frame that does not parse, or whose body is malformed, stops an open.\<close>

lemma replay_entries_None:
  "replay_entries q k es rp = None \<Longrightarrow> \<exists>es0 e es1 rp'. es = es0 @ e # es1 \<and>
     replay_entries q k es0 rp = Some rp' \<and> replay_entries q (k + length (lay_log es0)) [e] rp' = None"
proof (induction es rule: rev_induct)
  case (snoc e es)
  show ?case
  proof (cases "replay_entries q k es rp")
    case None
    with snoc.IH show ?thesis by fastforce
  next
    case (Some rp')
    with snoc.prems show ?thesis
      by (intro exI [of _ es] exI [of _ e] exI [of _ "[]"] exI [of _ rp'])
        (simp add: replay_entries_snoc del: replay_entries.simps)
  qed
qed simp

lemma replay_loop_malformed:
  assumes m: "m \<le> kMaxWalRecordBytes" and fits: "list_all (entry_fits m) es"
    and none: "replay_entries q 0 es rp = None"
  obtains es0 e es1 where "es = es0 @ e # es1"
    "rp_bad (replay_loop (lay_log es @ post) m q 0 rp) = Some (length (lay_log es0))"
proof -
  obtain es0 e es1 rp1 where es: "es = es0 @ e # es1" "replay_entries q 0 es0 rp = Some rp1"
    "replay_entries q (length (lay_log es0)) [e] rp1 = None"
    using replay_entries_None [OF none] by auto
  let ?tail = "lay_entry e @ lay_log es1 @ post"
  have e: "entry_fits m e" "list_all (entry_fits m) es0" using fits es(1) by auto
  have "replay_loop (lay_log es @ post) m q 0 rp =
      replay_loop (lay_log es0 @ ?tail) m q (length (lay_log es0)) rp1"
    using replay_loop_entries [OF m e(2), of q "[]" rp rp1 ?tail] es(1,2) by simp
  also have "rp_bad \<dots> = Some (length (lay_log es0))"
    using parse_frame_at [OF e(1) m, of "lay_log es0" "lay_log es1 @ post"] es(3)
    by (subst replay_loop.simps) (auto simp: Let_def view_of_def split: if_splits option.splits)
  finally show thesis using that es(1) by blast
qed

text \<open>A frame with a damaged byte declares its length and fails its checksum.\<close>

lemma parse_damaged:
  assumes n: "length q = n" "n \<le> m" and m: "m \<le> kMaxWalRecordBytes" and c: "crc32c q \<noteq> c"
  shows "\<not> fv_ok (parse_frame (lay_u32 (word_of_nat n) @ lay_u32 c @ q @ post) 0 m)"
    "complete_frame_bad (lay_u32 (word_of_nat n) @ lay_u32 c @ q @ post) 0 m"
proof -
  let ?bs = "lay_u32 (word_of_nat n) @ lay_u32 c @ q @ post"
  have "unat (word_of_nat n :: u32) = n" using n m by (intro unat_of_nat_u32) (simp add: limit_defs)
  then have len: "unat (load_at ?bs 0 4) = n" by (simp add: load_at_lay unsigned_ucast_eq take_bit_nat_eq_self)
  have crc: "ucast (load_at ?bs 4 4) = c" by (simp add: load_at_lay ucast_u64_u32)
  have payload: "take n (drop kLogHeaderBytes ?bs) = q" using n by (simp add: kLogHeaderBytes_def)
  show "\<not> fv_ok (parse_frame ?bs 0 m)"
    unfolding parse_frame_def Let_def len crc payload add_0 using c by (simp add: no_frame_def)
  show "complete_frame_bad ?bs 0 m"
    using n by (simp add: complete_frame_bad_def len kLogHeaderBytes_def)
qed

lemma complete_entry:
  assumes "entry_fits m e" and "m \<le> kMaxWalRecordBytes"
  shows "complete_frame_bad (lay_entry e @ post) 0 m"
  using entry_length_field [OF assms, of "length (lay_entry e)" post] assms(1)
  by (simp add: complete_frame_bad_def kLogHeaderBytes_def kRecordHeaderBytes_def entry_fits_def)

lemma replay_refuses:
  assumes "calm t" and "log_file t = Some bs" and "length bs \<le> kMaxWalScanBytes"
    and "\<not> so_repair_truncate_corrupt_tail (s_options t)"
    and "rp_bad (replay_loop bs (so_max_record_bytes (s_options t)) (s_snapshot_sequence t) 0
      (start_replay t)) = Some x"
    and "complete_frame_bad bs x (so_max_record_bytes (s_options t))"
  shows "\<exists>e t'. replay_log t = (Inl e, t') \<and> err_code e = EC_Corrupt \<and> s_disk t' = s_disk t"
  using assms
  by (simp add: replay_log_def on_disk_def read_file_calm Let_def finish_replay_def start_replay_def)

text \<open>
  C38: a log in which any single byte behind a length field has changed is refused: opening stops
  with a corruption error and leaves the files untouched, whichever frame the byte is in.
\<close>

theorem corrupted_log_refused:
  assumes "calm t" and "so_max_record_bytes (s_options t) \<le> kMaxWalRecordBytes"
    and "\<not> so_repair_truncate_corrupt_tail (s_options t)"
    and "list_all (entry_fits (so_max_record_bytes (s_options t))) (es0 @ e # es1)"
    and "length (lay_log (es0 @ e # es1)) \<le> kMaxWalScanBytes"
    and "4 \<le> k" and "k < length (lay_entry e)" and "b \<noteq> lay_entry e ! k"
    and "log_file t = Some ((lay_log (es0 @ e # es1))[length (lay_log es0) + k := b])"
  shows "\<exists>err t'. replay_log t = (Inl err, t') \<and> err_code err = EC_Corrupt \<and> s_disk t' = s_disk t"
proof -
  let ?m = "so_max_record_bytes (s_options t)" and ?q = "s_snapshot_sequence t"
  let ?n = "length (lay_record e)" and ?post = "lay_log es1"
  have block: "lay_entry e = lay_block (lay_record e)" by (simp add: lay_entry_def lay_block_def)
  obtain c q where dam: "(lay_entry e)[k := b] = lay_u32 (word_of_nat ?n) @ lay_u32 c @ q"
    "length q = ?n" "crc32c q \<noteq> c"
    using lay_block_damaged [OF assms(6), of "lay_record e" b] assms(7,8) unfolding block by blast
  let ?tail = "lay_u32 (word_of_nat ?n) @ lay_u32 c @ q @ ?post"
  have fits: "list_all (entry_fits ?m) es0" "entry_fits ?m e" using assms(4) by auto
  have log: "log_file t = Some (lay_log es0 @ ?tail)"
    using assms(9) dam(1) assms(7) by (simp add: list_update_append)
  have small: "length (lay_log es0 @ ?tail) \<le> kMaxWalScanBytes"
    using assms(5) dam(2) by (simp add: kLogHeaderBytes_def)
  have "?n \<le> ?m" using fits(2) by (simp add: entry_fits_def)
  note bad = parse_damaged [OF dam(2) this assms(2) dam(3), of ?post]
  let ?run = "replay_loop (lay_log es0 @ ?tail) ?m ?q 0 (start_replay t)"
  obtain x where "rp_bad ?run = Some x" "complete_frame_bad (lay_log es0 @ ?tail) x ?m"
  proof (cases "replay_entries ?q 0 es0 (start_replay t)")
    case (Some rp)
    have "?run = replay_loop (lay_log es0 @ ?tail) ?m ?q (length (lay_log es0)) rp"
      using replay_loop_entries [OF assms(2) fits(1), of ?q "[]" _ rp ?tail] Some by simp
    also have "\<dots> = rp\<lparr>rp_bad := Some (length (lay_log es0))\<rparr>"
      using bad(1) parse_frame_skip [of "lay_log es0" ?tail 0 ?m]
      by (subst replay_loop.simps) (simp add: kLogHeaderBytes_def)
    finally show thesis
      using that [of "length (lay_log es0)"] bad(2) by (simp add: complete_frame_bad_skip)
  next
    case None
    then obtain fs f gs where f: "es0 = fs @ f # gs" "rp_bad ?run = Some (length (lay_log fs))"
      by (rule replay_loop_malformed [OF assms(2) fits(1)])
    have "entry_fits ?m f" using fits(1) f(1) by simp
    from complete_entry [OF this assms(2), of "lay_log gs @ ?tail"]
    show thesis using that [OF f(2)] f(1) complete_frame_bad_skip [of "lay_log fs"] by simp
  qed
  then show ?thesis by (rule replay_refuses [OF assms(1) log small assms(3)])
qed

section \<open>A concrete store\<close>

definition sample_identity :: digest256 where "sample_identity = replicate kDigestBytes 1"

definition sample_options :: store_options where
  "sample_options = default_store_options\<lparr>so_directory := ''d''\<rparr>"

definition sample_base :: store where
  "sample_base = (new_store \<lparr>d_files = [], d_dirs = [''d''], d_faults = []\<rparr>)
     \<lparr>s_options := sample_options, s_manifest_path := join_path ''d'' manifest_file_name,
      s_wal_path := join_path ''d'' wal_file_name, s_store_id := digest_hex sample_identity,
      s_wal_open := True\<rparr>"

definition sample_store :: store where
  "sample_store = sample_base\<lparr>s_disk := put_file (s_wal_path sample_base) []
     (put_file (s_manifest_path sample_base) (lay_manifest sample_identity sample_base) (s_disk sample_base))\<rparr>"

lemma sample_durable: "durable sample_store empty_journal"
proof -
  note defs = sample_store_def sample_base_def sample_options_def default_store_options_def new_store_def
  have "represents sample_store empty_journal"
    by (rule represents_empty) (simp_all add: defs empty_journal_def)
  moreover have "join_path ''d'' manifest_file_name \<noteq> join_path ''d'' wal_file_name"
    using file_names_distinct by simp
  then have "published sample_store empty_journal"
    unfolding published_def
    by (intro exI [of _ sample_identity] exI [of _ sample_base] conjI)
      (simp_all add: defs sample_identity_def names_snapshot_def manifest_name_def empty_journal_def
        digest_is_zero_def kDigestBytes_def list_all_iff)
  ultimately show ?thesis
    by (simp add: durable_def defs paths_of_def limit_defs)
qed

definition sample_entry :: log_entry where
  "sample_entry = new_entry RT_PublishClass 0 0 [1, 2] sample_store"

definition damaged_store :: store where
  "damaged_store = sample_store\<lparr>s_disk := put_file (s_wal_path sample_store)
     ((lay_log [sample_entry, sample_entry])[length (lay_log [sample_entry]) + 9 :=
       lay_entry sample_entry ! 9 + 1]) (s_disk sample_store)\<rparr>"

lemma sample_entry_fits: "entry_fits (so_max_record_bytes (s_options sample_store)) sample_entry"
  by (simp add: entry_fits_def sample_entry_def new_entry_def sample_store_def sample_base_def
    sample_options_def default_store_options_def limit_defs kRecordHeaderBytes_def)

theorem corrupted_log_refused_witness:
  "\<exists>err t. replay_log damaged_store = (Inl err, t) \<and> err_code err = EC_Corrupt \<and>
     s_disk t = s_disk damaged_store"
proof -
  have opts: "s_options damaged_store = s_options sample_store" by (simp add: damaged_store_def)
  show ?thesis
  proof (rule corrupted_log_refused [of damaged_store "[sample_entry]" sample_entry "[]" 9
      "lay_entry sample_entry ! 9 + 1"])
    show "calm damaged_store" using sample_durable by (simp add: damaged_store_def durable_def)
    show "list_all (entry_fits (so_max_record_bytes (s_options damaged_store)))
      ([sample_entry] @ sample_entry # [])"
      using sample_entry_fits by (simp add: opts)
    show "log_file damaged_store = Some ((lay_log ([sample_entry] @ sample_entry # []))
      [length (lay_log [sample_entry]) + 9 := lay_entry sample_entry ! 9 + 1])"
      by (simp add: damaged_store_def)
  qed (simp_all add: opts limit_defs sample_store_def sample_base_def sample_options_def
    default_store_options_def sample_entry_def new_entry_def kLogHeaderBytes_def kRecordHeaderBytes_def
    kMaxWalScanBytes_def)
qed

section \<open>Properties\<close>

text \<open>
  C3: the store refines its journal. From any store whose files agree with a journal, after any
  sequence of appends, stages, commits, aborts, compactions, closes and crashes with recovery
  (a torn frame left at the end of the log each time), and one crash more, opening succeeds and
  hands out exactly the last snapshot and the records appended or committed since, in the order
  they took effect: an intent that was staged and not committed never appears.
\<close>

theorem store_refines_journal:
  assumes "durable s j" and "list_all (sound_call (so_max_record_bytes (s_options s))) calls"
    and "run_calls calls s = (evs, s')"
    and "torn_tail (so_max_record_bytes (s_options s)) tail" and "length tail \<le> 1048576"
  shows "\<exists>t. Open (s_options s) fresh (crashed_disk tail s') = (Inr t, s_disk t) \<and>
    s_replayed t = jn_committed (fold journal_step evs j) \<and>
    s_snapshot_bytes t = jn_snapshot (fold journal_step evs j) \<and>
    s_last_sequence t = s_last_sequence s'"
  using run_calls_durable [OF assms(1-3)] crash_recovers [of s' "fold journal_step evs j" tail fresh] assms(4,5)
  by auto

definition sample_calls :: "store_call list" where
  "sample_calls = [CallStage RT_PublishClass [1, 2], CallCommit 1 sample_identity,
     CallAppend RT_RegisterPublisher [3], CallCrash [0, 0, 0] [], CallStage RT_PublishPath [4],
     CallSnapshot [7], CallAbort 4 ''late'', CallClose]"

theorem store_refines_journal_witness:
  "\<exists>evs s t. run_calls sample_calls sample_store = (evs, s) \<and>
     Open (s_options sample_store) [] (crashed_disk [9, 9] s) = (Inr t, s_disk t) \<and>
     s_replayed t = jn_committed (fold journal_step evs empty_journal)"
proof -
  obtain evs s where run: "run_calls sample_calls sample_store = (evs, s)" by fastforce
  have "list_all (sound_call (so_max_record_bytes (s_options sample_store))) sample_calls"
    by (simp add: sample_calls_def plain_record_def limit_defs torn_tail_def kLogHeaderBytes_def)
  moreover have "torn_tail (so_max_record_bytes (s_options sample_store)) [9, 9]"
    by (simp add: torn_tail_def kLogHeaderBytes_def)
  ultimately show ?thesis
    using store_refines_journal [OF sample_durable _ run, of "[9, 9]" "[]"] run by auto
qed

text \<open>
  C37: a compaction is atomic. Whichever of its system calls fail, and wherever it stops, the files
  it leaves open again to the journal before it or to the new snapshot with an empty journal, and
  to the new one when it reports success; the sequence counter never goes back.
\<close>

theorem compaction_crash_safe:
  assumes "durable (settled s) j" and "length p + 28 \<le> kMaxSnapshotBytes"
    and "WriteSnapshot p s = (r, s')"
  shows "\<exists>t j'. Open (s_options s) fresh (s_disk (settled s')) = (Inr t, s_disk t) \<and>
    s_replayed t = jn_committed j' \<and> s_snapshot_bytes t = jn_snapshot j' \<and>
    s_last_sequence t = s_last_sequence s \<and>
    (j' = j \<and> r \<noteq> Inr () \<or> j' = journal_step (Compacted p) j)"
proof -
  obtain v j' where v: "durable v j'" "s_disk v = s_disk (settled s')" "s_options v = s_options s"
    "s_last_sequence v = s_last_sequence s" "j' = j \<and> r \<noteq> Inr () \<or> j' = journal_step (Compacted p) j"
    using compaction_recoverable [OF assms] by blast
  obtain log where log: "log_file v = Some log" using durable_log [OF v(1)] by blast
  have "calm v" using v(1) by (simp add: durable_def)
  then obtain t where "Open (s_options v) fresh (s_disk v) = (Inr t, s_disk t)"
    "s_replayed t = jn_committed j'" "s_snapshot_bytes t = jn_snapshot j'" "s_last_sequence t = s_last_sequence v"
    using open_recovers [OF v(1) _ _ _ log, of "s_disk v" "[]" fresh] durable_log_small [OF v(1) log, of "[]"]
      torn_Nil log by auto
  with v show ?thesis by (intro exI [of _ t] exI [of _ j']) simp
qed

theorem compaction_crash_safe_witness:
  "\<exists>r s' t j'. WriteSnapshot [5] (sample_store\<lparr>s_disk := (s_disk sample_store)
       \<lparr>d_faults := [None, None, None, None, None, None, Some 2]\<rparr>\<rparr>) = (r, s') \<and>
     Open (s_options sample_store) [] (s_disk (settled s')) = (Inr t, s_disk t) \<and>
     (j' = empty_journal \<or> j' = journal_step (Compacted [5]) empty_journal) \<and>
     s_replayed t = jn_committed j'"
proof -
  let ?s = "sample_store\<lparr>s_disk := (s_disk sample_store)
       \<lparr>d_faults := [None, None, None, None, None, None, Some 2]\<rparr>\<rparr>"
  have "settled ?s = sample_store" using sample_durable by (simp add: durable_def)
  then have d: "durable (settled ?s) empty_journal" using sample_durable by simp
  obtain r s' where w: "WriteSnapshot [5] ?s = (r, s')" by fastforce
  from compaction_crash_safe [OF d _ w, of "[]"] w show ?thesis
    by (simp add: limit_defs) blast
qed

text \<open>
  C39: a snapshot of the largest accepted size is lost. The payload budget is checked without the
  28 bytes of framing, the read budget with them, so a compaction with a payload in the gap
  reports success, empties the log and leaves a snapshot that neither recovery nor verification
  will read.
\<close>

theorem oversized_snapshot_unreadable:
  assumes "durable s j" and "length p \<le> kMaxSnapshotBytes" and "kMaxSnapshotBytes < length p + 28"
  shows "\<exists>s' e. WriteSnapshot p s = (Inr (), s') \<and> log_file s' = Some [] \<and>
    load_snapshot s' = (Inl e, s') \<and> err_code e = EC_TooLarge \<and> Verify s' = (Inl e, s')"
proof -
  obtain ident m where m: "s_store_id s = digest_hex ident" "length ident = kDigestBytes"
    using assms(1) by (auto simp: durable_def published_def)
  from write_snapshot_calm [OF assms(1,2) m]
  obtain d where d: "WriteSnapshot p s = (Inr (), compacted d s)" "d_faults d = []"
    "file_at d (s_wal_path s) = Some []"
    "file_at d (s_manifest_path s) = Some (lay_manifest ident (compacted d s))"
    "file_at d (s_snapshot_path (compacted d s)) = Some (lay_snapshot (s_last_sequence s) p)"
    by blast
  let ?s = "compacted d s"
  let ?e = "make_error EC_TooLarge ''file exceeds the configured read budget''"
  have f: "s_disk ?s = d" "s_manifest_path ?s = s_manifest_path s" "s_wal_path ?s = s_wal_path s"
    "s_snapshot_path ?s \<noteq> []"
    by (simp_all add: compacted_def join_path_Nil)
  have same: "?s\<lparr>s_disk := d\<rparr> = ?s" by (simp add: compacted_def)
  have snap: "on_disk (read_file (s_snapshot_path ?s) kMaxSnapshotBytes) ?s = (Inl ?e, ?s)"
    using d assms(3) f same by (simp add: on_disk_def read_file_calm)
  have man: "on_disk (read_file (s_manifest_path ?s) kManifestBudget) ?s = (Inr (lay_manifest ident ?s), ?s)"
    using d f same manifest_fields(1) [OF m(2) refl, of ?s] length_manifest_name [of ?s]
    by (simp add: on_disk_def read_file_calm kManifestBudget_def)
  have "load_snapshot ?s = (Inl ?e, ?s)" using snap f by (simp add: load_snapshot_def)
  moreover have "Verify ?s = (Inl ?e, ?s)"
    using man snap f manifest_fields(1,10,11) [OF m(2) refl, of ?s] by (simp add: Verify_def)
  ultimately show ?thesis using d f by (intro exI [of _ ?s] exI [of _ ?e]) simp
qed

theorem oversized_snapshot_unreadable_witness:
  "\<exists>s' e. WriteSnapshot (replicate kMaxSnapshotBytes 0) sample_store = (Inr (), s') \<and>
     load_snapshot s' = (Inl e, s') \<and> err_code e = EC_TooLarge"
  using oversized_snapshot_unreadable [OF sample_durable, of "replicate kMaxSnapshotBytes 0"] by auto

text \<open>An append whose first write stops after \<open>k\<close> bytes.\<close>

lemma write_frame_short:
  "d_faults d = [Some k] \<Longrightarrow> k \<le> length h \<Longrightarrow> write_frame path h b d =
     (Inl (make_error EC_IoError ''failed to append a frame to the write-ahead log''),
      append_file path (take k (h @ b)) (d\<lparr>d_faults := []\<rparr>))"
  by (simp add: write_frame_def io_step_def min_absorb1)

lemma append_frame_short:
  assumes "d_faults (s_disk s) = [Some k]" and "k \<le> kLogHeaderBytes"
    and c: "can_append (new_entry t fl a p s) s"
  shows "append_frame t fl a p s =
    (Inl (make_error EC_IoError ''failed to append a frame to the write-ahead log''),
     s\<lparr>s_disk := append_file (s_wal_path s) (take k (lay_entry (new_entry t fl a p s)))
       ((s_disk s)\<lparr>d_faults := []\<rparr>)\<rparr>)"
proof -
  let ?e = "new_entry t fl a p s" and ?m = "so_max_record_bytes (s_options s)"
  let ?h = "store_le (word_of_nat (length (lay_record ?e))) 4 @ store_le (ucast (crc32c (lay_record ?e))) 4"
  have fits: "entry_fits ?m ?e" using c by (simp add: can_append_def)
  then have small: "\<not> ?m < length p" by (simp add: entry_fits_def)
  note body = frame_body_lay(1) [THEN iffD2, OF fits] frame_body_lay(2) [OF fits]
  have l: "(word_of_nat (length (lay_entry ?e)) :: u64) =
      word_of_nat kLogHeaderBytes + word_of_nat (length (lay_record ?e))" by simp
  obtain n where n: "checked_add (word_of_nat kLogHeaderBytes + word_of_nat (length (lay_record ?e))) (s_wal_bytes s) = Some n"
    "\<not> n > so_max_wal_bytes (s_options s)"
    using c unfolding can_append_def l by (auto split: option.splits)
  have h: "k \<le> length ?h" using assms(2) by (simp add: kLogHeaderBytes_def)
  have e: "?h @ lay_record ?e = lay_entry ?e" using entry_header [of ?e] by (simp del: length_lay_record)
  note w = write_frame_short [OF assms(1) h, of "s_wal_path s" "lay_record ?e", unfolded e]
  have live: "\<not> s_read_only s" "s_wal_open s" "s_last_sequence s \<noteq> - 1"
    using c by (auto simp: can_append_def)
  show ?thesis
    using body small n live w
    by (simp add: append_frame_def Let_def try_increment_def on_disk_def del: length_lay_record length_lay_entry)
qed

lemma replay_refuses_follows:
  assumes "calm t" and "log_file t = Some bs" and "length bs \<le> kMaxWalScanBytes"
    and "rp_bad (replay_loop bs (so_max_record_bytes (s_options t)) (s_snapshot_sequence t) 0
      (start_replay t)) = Some x"
    and "any_valid_frame_after bs x (so_max_record_bytes (s_options t))"
  shows "\<exists>e t'. replay_log t = (Inl e, t') \<and> err_code e = EC_Corrupt \<and> s_disk t' = s_disk t"
  using assms
  by (simp add: replay_log_def on_disk_def read_file_calm Let_def finish_replay_def start_replay_def)

text \<open>
  C40: a failed append poisons the log. When writing a frame fails after some of its bytes have
  reached the file, the call reports the failure and forgets the bytes; the next append reports
  success behind them. From then on the log cannot be opened: unless the torn bytes happen to
  parse as a frame together with what follows, recovery finds the valid frame behind them, takes
  the tear for corruption in the middle of the log and refuses, with every record since.
\<close>

theorem failed_append_poisons_log:
  assumes "durable (settled s) j" and "d_faults (s_disk s) = [Some k]" and "0 < k" and "k \<le> kLogHeaderBytes"
    and "can_append (new_entry t fl a b s) s" and "can_append (new_entry u fl' a' c s) s"
    and "\<not> fv_ok (parse_frame (take k (lay_entry (new_entry t fl a b s)) @
      lay_entry (new_entry u fl' a' c s)) 0 (so_max_record_bytes (s_options s)))"
  shows "\<exists>e s1 s2 e' t'. append_frame t fl a b s = (Inl e, s1) \<and> err_code e = EC_IoError \<and>
    append_frame u fl' a' c s1 = (Inr (s_last_sequence s + 1), s2) \<and>
    replay_log (s2\<lparr>s_replayed := []\<rparr>) = (Inl e', t') \<and> err_code e' = EC_Corrupt"
proof -
  let ?e = "new_entry t fl a b s" and ?f = "new_entry u fl' a' c s"
  let ?m = "so_max_record_bytes (s_options s)" and ?q = "s_snapshot_sequence s"
  define s1 where "s1 = s\<lparr>s_disk := append_file (s_wal_path s) (take k (lay_entry ?e))
    ((s_disk s)\<lparr>d_faults := []\<rparr>)\<rparr>"
  define s2 where "s2 = appended ?f s1"
  define v where "v = s2\<lparr>s_replayed := []\<rparr>"
  note short = append_frame_short [OF assms(2,4,5), folded s1_def]
  have f: "new_entry u fl' a' c s1 = ?f" "can_append ?f s1" "calm s1" "s_last_sequence s1 = s_last_sequence s"
    using assms(6) by (auto simp: s1_def new_entry_def can_append_def append_file_def split: option.splits)
  have app: "append_frame u fl' a' c s1 = (Inr (s_last_sequence s + 1), s2)"
    using append_frame_calm [OF f(3), of u fl' a' c] f by (simp add: s2_def)
  obtain es where es: "log_file s = Some (lay_log es)" "unat (s_wal_bytes s) = length (lay_log es)"
    "list_all (entry_fits ?m) es" "?m \<le> kMaxWalRecordBytes" "?q \<le> s_last_sequence s"
    and run: "\<And>rp. rp_replayed rp = [] \<Longrightarrow> rp_staged rp = [] \<Longrightarrow> ?q \<le> rp_last_sequence rp \<Longrightarrow>
        \<exists>rp'. replay_entries ?q 0 es rp = Some rp'"
    using assms(1) by (auto simp: durable_def represents_def) blast
  let ?tail = "take k (lay_entry ?e) @ lay_entry ?f"
  have lt: "s_last_sequence s < s_last_sequence s + 1" using can_append_less [OF assms(5)] .
  have v: "calm v" "log_file v = Some (lay_log es @ ?tail)" "s_options v = s_options s"
    "s_snapshot_sequence v = ?q"
    using es(1) by (simp_all add: v_def s2_def s1_def appended_def append_file_def)
  obtain rp where rp: "replay_entries ?q 0 es (start_replay v) = Some rp"
    using run [of "start_replay v"] order.trans [OF es(5) less_imp_le [OF lt]]
    by (auto simp: start_replay_def v_def s2_def appended_def new_entry_def)
  have "replay_loop (lay_log es @ ?tail) ?m ?q 0 (start_replay v) =
      replay_loop (lay_log es @ ?tail) ?m ?q (length (lay_log es)) rp"
    using replay_loop_entries [OF es(4,3), of ?q "[]" _ rp ?tail] rp by simp
  also have "\<dots> = rp\<lparr>rp_bad := Some (length (lay_log es))\<rparr>"
    using assms(7) parse_frame_skip [of "lay_log es" ?tail 0 ?m]
    by (subst replay_loop.simps) (simp add: kLogHeaderBytes_def)
  finally have bad: "rp_bad (replay_loop (lay_log es @ ?tail) ?m ?q 0 (start_replay v)) = Some (length (lay_log es))"
    by simp
  have k: "length (take k (lay_entry ?e)) = k" using assms(4) by (simp add: kLogHeaderBytes_def)
  have fits: "entry_fits ?m ?f" using assms(6) by (simp add: can_append_def)
  have "fv_ok (parse_frame ?tail k ?m)"
    using parse_frame_at [OF fits es(4), of "take k (lay_entry ?e)" "[]"] k by (simp add: view_of_def)
  then have "any_valid_frame_after ?tail 0 ?m"
    using k assms(3) by (auto simp: any_valid_frame_after_def list_ex_iff kLogHeaderBytes_def intro!: bexI [of _ k])
  then have follows: "any_valid_frame_after (lay_log es @ ?tail) (length (lay_log es)) ?m"
    by (subst any_valid_frame_after_skip) (simp_all add: kLogHeaderBytes_def)
  have "unat (s_wal_bytes s) + length (lay_entry ?f) \<le> kMaxSnapshotBytes"
    using appended_bytes [OF assms(6) es(4)] appended_budget [OF assms(6)] assms(1)
    by (simp add: durable_def word_le_nat_alt limit_defs del: length_lay_entry)
  then have small: "length (lay_log es @ ?tail) \<le> kMaxWalScanBytes"
    using es(2) k assms(4) by (simp add: kMaxWalScanBytes_def kLogHeaderBytes_def)
  obtain e' t' where "replay_log v = (Inl e', t')" "err_code e' = EC_Corrupt"
    using replay_refuses_follows [OF v(1,2) small] bad follows v(3,4) by auto
  with short app show ?thesis by (auto simp: v_def)
qed

theorem failed_append_poisons_log_witness:
  "\<exists>e s1 s2 e' t'. Append RT_RegisterPublisher [3] (sample_store\<lparr>s_disk := (s_disk sample_store)
       \<lparr>d_faults := [Some 1]\<rparr>\<rparr>) = (Inl e, s1) \<and>
     Append RT_RegisterPublisher [4] s1 = (Inr 1, s2) \<and>
     replay_log (s2\<lparr>s_replayed := []\<rparr>) = (Inl e', t') \<and> err_code e' = EC_Corrupt"
proof -
  let ?s = "sample_store\<lparr>s_disk := (s_disk sample_store)\<lparr>d_faults := [Some 1]\<rparr>\<rparr>"
  let ?e = "new_entry RT_RegisterPublisher kFlagNone 0 [3] ?s"
  let ?f = "new_entry RT_RegisterPublisher kFlagNone 0 [4] ?s"
  note defs = sample_store_def sample_base_def sample_options_def default_store_options_def new_store_def
  have fields: "s_last_sequence sample_store = 0" "s_wal_bytes sample_store = 0"
    "\<not> s_read_only sample_store" "s_wal_open sample_store"
    "so_max_wal_bytes (s_options sample_store) = word_of_nat kMaxSnapshotBytes"
    "so_max_record_bytes (s_options sample_store) = kMaxWalRecordBytes"
    by (simp_all add: defs)
  have "settled ?s = sample_store" using sample_durable by (simp add: durable_def)
  then have d: "durable (settled ?s) empty_journal" using sample_durable by simp
  have can: "can_append ?e ?s" "can_append ?f ?s"
    by (simp_all add: can_append_def fields entry_fits_def checked_add_def kLogHeaderBytes_def
        kRecordHeaderBytes_def limit_defs)
  have len: "lay_u32 26 = [26, 0, 0, 0]" by code_simp
  have lay: "lay_entry e = [26, 0, 0, 0] @ lay_u32 (crc32c (lay_record e)) @ lay_record e"
    if "length (le_body e) = 1" for e
    using that by (simp add: lay_entry_def kRecordHeaderBytes_def len)
  have "load_at (take 1 (lay_entry ?e) @ lay_entry ?f) 0 4 = load_le [26, 26, 0, 0]"
    by (simp add: lay load_at_def)
  moreover have "unat (load_le [26, 26, 0, 0]) = 6682" by code_simp
  ultimately have "\<not> fv_ok (parse_frame (take 1 (lay_entry ?e) @ lay_entry ?f) 0
      (so_max_record_bytes (s_options ?s)))"
    by (simp add: parse_frame_def no_frame_def fields kLogHeaderBytes_def kRecordHeaderBytes_def limit_defs)
  from failed_append_poisons_log [OF d _ _ _ can this] fields(1) show ?thesis
    by (simp add: Append_def kLogHeaderBytes_def) blast
qed

end
