(* ===== verification/Registry.thy ===== *)
theory Registry
  imports Evaluate Store "HOL-Library.Finite_Map"
begin

text \<open>
  The registry of \<open>include/qosfabric/registry.hpp\<close> and \<open>src/registry.cpp\<close>: the tables of
  published definitions and evidence, publisher leases and their fencing watermarks, recorded
  conflicts and decisions, the fabric epoch, and the facade that binds a request to the current
  evidence and hands it to the engine. A \<open>registry\<close> is the object's fields with the store it
  owns; a member function takes it and returns its result and the object afterwards. A hash table
  is a finite map; the code iterates over one only where the order does not matter, or sorts the
  keys first. The mutex is not modelled: a call is one step. The reading of the system clock is an
  argument of the calls that take one.
\<close>

section \<open>State\<close>

definition kSnapshotTag :: u16 where "kSnapshotTag = 0x0301"
definition kSnapshotVersion :: u16 where "kSnapshotVersion = 1"
definition kMaxStoredConflicts :: nat where "kMaxStoredConflicts = 256"

record publisher_lease =
  ls_publisher :: string
  ls_incarnation :: publisher_incarnation
  ls_epoch :: fabric_epoch
  ls_lease :: lease_id
  ls_boot :: bytes
  ls_granted_at_ms :: u64
  ls_expires_at_ms :: u64

record registry_options =
  ro_directory :: string
  ro_create_if_missing :: bool
  ro_repair_truncate_corrupt_tail :: bool
  ro_claim_authority :: bool
  ro_max_wal_bytes :: u64
  ro_max_record_bytes :: nat
  ro_max_generations_per_id :: nat

definition default_registry_options :: registry_options where
  "default_registry_options = \<lparr>ro_directory = [], ro_create_if_missing = True,
     ro_repair_truncate_corrupt_tail = False, ro_claim_authority = True,
     ro_max_wal_bytes = word_of_nat kMaxSnapshotBytes, ro_max_record_bytes = kMaxWalRecordBytes,
     ro_max_generations_per_id = kMaxGenerationsPerId\<rparr>"

record registry_counts =
  rc_classes :: nat
  rc_policies :: nat
  rc_paths :: nat
  rc_capabilities :: nat
  rc_reservations :: nat
  rc_publishers :: nat
  rc_decisions :: nat
  rc_conflicts :: nat
  rc_live_leases :: nat

record publication_result =
  pr_generation :: generation
  pr_sequence :: sequence_no
  pr_digest :: digest256

type_synonym 'a table = "(string, 'a list) fmap"

record registry =
  rg_options :: registry_options
  rg_store :: store
  rg_classes :: "qos_class table"
  rg_policies :: "policy table"
  rg_paths :: "path table"
  rg_capabilities :: "resource_capability table"
  rg_reservations :: "reservation table"
  rg_watermark :: "(string, publisher_incarnation) fmap"
  rg_leases :: "(string, publisher_lease) fmap"
  rg_conflicts :: "conflict_marker list"
  rg_decision_order :: "string list"
  rg_decisions :: "(string, contract_decision) fmap"
  rg_durable_epoch :: fabric_epoch
  rg_current_epoch :: fabric_epoch
  rg_now_ms :: u64
  rg_clock_pinned :: bool

definition new_registry :: "registry_options \<Rightarrow> store \<Rightarrow> registry" where
  "new_registry options st = \<lparr>rg_options = options, rg_store = st, rg_classes = fmempty,
     rg_policies = fmempty, rg_paths = fmempty, rg_capabilities = fmempty,
     rg_reservations = fmempty, rg_watermark = fmempty, rg_leases = fmempty, rg_conflicts = [],
     rg_decision_order = [], rg_decisions = fmempty, rg_durable_epoch = 0, rg_current_epoch = 0,
     rg_now_ms = 0, rg_clock_pinned = False\<rparr>"

definition tick :: "u64 \<Rightarrow> registry \<Rightarrow> registry" where
  "tick clock rg = (if rg_clock_pinned rg then rg else rg\<lparr>rg_now_ms := clock\<rparr>)"

text \<open>A call of the store from a member function.\<close>

definition on_store :: "(store \<Rightarrow> 'a \<times> store) \<Rightarrow> registry \<Rightarrow> 'a \<times> registry" where
  "on_store f rg = (let (x, st) = f (rg_store rg) in (x, rg\<lparr>rg_store := st\<rparr>))"

definition key_of :: "string \<Rightarrow> generation \<Rightarrow> string" where
  "key_of ident generation = ident @ ''#'' @ u64_to_string generation"

section \<open>The operations of the five entity types\<close>

text \<open>
  The templates of the source take their operations on the element type by overloading:
  \<open>entity_id\<close>, \<open>assertion_epoch\<close>, \<open>assertion_provenance\<close>, \<open>validate\<close>, \<open>compute_digest\<close>,
  \<open>canonical_encode\<close>, \<open>canonical_decode\<close>, and the member of the registry that holds the table.
  Here each type has a record of them.
\<close>

record 'a entity =
  en_id :: "'a \<Rightarrow> string"
  en_generation :: "'a \<Rightarrow> generation"
  en_digest :: "'a \<Rightarrow> digest256"
  en_set_epoch :: "fabric_epoch \<Rightarrow> 'a \<Rightarrow> 'a"
  en_set_provenance :: "provenance \<Rightarrow> 'a \<Rightarrow> 'a"
  en_set_digest :: "digest256 \<Rightarrow> 'a \<Rightarrow> 'a"
  en_validate :: "'a \<Rightarrow> unit result"
  en_compute_digest :: "'a \<Rightarrow> digest256"
  en_encode :: "'a \<Rightarrow> writer \<Rightarrow> writer"
  en_decode :: "reader \<Rightarrow> 'a result \<times> reader"
  en_table :: "registry \<Rightarrow> 'a table"
  en_set_table :: "'a table \<Rightarrow> registry \<Rightarrow> registry"

definition class_entity :: "qos_class entity" where
  "class_entity = \<lparr>en_id = qc_id, en_generation = qc_generation, en_digest = qc_digest,
     en_set_epoch = (\<lambda>e. qc_published_epoch_update (\<lambda>_. e)),
     en_set_provenance = (\<lambda>p. qc_provenance_update (\<lambda>_. p)),
     en_set_digest = (\<lambda>d. qc_digest_update (\<lambda>_. d)),
     en_validate = validate_class, en_compute_digest = compute_class_digest,
     en_encode = encode_class, en_decode = decode_class, en_table = rg_classes,
     en_set_table = (\<lambda>t. rg_classes_update (\<lambda>_. t))\<rparr>"

definition policy_entity :: "policy entity" where
  "policy_entity = \<lparr>en_id = po_id, en_generation = po_generation, en_digest = po_digest,
     en_set_epoch = (\<lambda>e. po_published_epoch_update (\<lambda>_. e)),
     en_set_provenance = (\<lambda>p. po_provenance_update (\<lambda>_. p)),
     en_set_digest = (\<lambda>d. po_digest_update (\<lambda>_. d)),
     en_validate = validate_policy, en_compute_digest = compute_policy_digest,
     en_encode = encode_policy, en_decode = decode_policy, en_table = rg_policies,
     en_set_table = (\<lambda>t. rg_policies_update (\<lambda>_. t))\<rparr>"

definition path_entity :: "path entity" where
  "path_entity = \<lparr>en_id = pa_id, en_generation = pa_generation, en_digest = pa_digest,
     en_set_epoch = (\<lambda>e. pa_epoch_update (\<lambda>_. e)),
     en_set_provenance = (\<lambda>p. pa_provenance_update (\<lambda>_. p)),
     en_set_digest = (\<lambda>d. pa_digest_update (\<lambda>_. d)),
     en_validate = validate_path, en_compute_digest = compute_path_digest,
     en_encode = encode_path, en_decode = decode_path, en_table = rg_paths,
     en_set_table = (\<lambda>t. rg_paths_update (\<lambda>_. t))\<rparr>"

definition capability_entity :: "resource_capability entity" where
  "capability_entity = \<lparr>en_id = ca_resource, en_generation = ca_generation, en_digest = ca_digest,
     en_set_epoch = (\<lambda>e. ca_epoch_update (\<lambda>_. e)),
     en_set_provenance = (\<lambda>p. ca_provenance_update (\<lambda>_. p)),
     en_set_digest = (\<lambda>d. ca_digest_update (\<lambda>_. d)),
     en_validate = validate_capability, en_compute_digest = compute_capability_digest,
     en_encode = encode_capability, en_decode = decode_capability, en_table = rg_capabilities,
     en_set_table = (\<lambda>t. rg_capabilities_update (\<lambda>_. t))\<rparr>"

definition reservation_entity :: "reservation entity" where
  "reservation_entity = \<lparr>en_id = rs_resource, en_generation = rs_generation, en_digest = rs_digest,
     en_set_epoch = (\<lambda>e. rs_epoch_update (\<lambda>_. e)),
     en_set_provenance = (\<lambda>p. rs_provenance_update (\<lambda>_. p)),
     en_set_digest = (\<lambda>d. rs_digest_update (\<lambda>_. d)),
     en_validate = validate_reservation, en_compute_digest = compute_reservation_digest,
     en_encode = encode_reservation, en_decode = decode_reservation, en_table = rg_reservations,
     en_set_table = (\<lambda>t. rg_reservations_update (\<lambda>_. t))\<rparr>"

lemmas entity_defs = class_entity_def policy_entity_def path_entity_def capability_entity_def
  reservation_entity_def

text \<open>\<open>table[key].push_back(value)\<close>, which makes the entry when there is none.\<close>

definition held :: "'a table \<Rightarrow> string \<Rightarrow> 'a list" where
  "held table key = (case fmlookup table key of None \<Rightarrow> [] | Some vs \<Rightarrow> vs)"

definition push_to :: "string \<Rightarrow> 'a \<Rightarrow> 'a table \<Rightarrow> 'a table" where
  "push_to key v table = fmupd key (held table key @ [v]) table"

definition push_entity :: "'a entity \<Rightarrow> 'a \<Rightarrow> registry \<Rightarrow> registry" where
  "push_entity en v rg = en_set_table en (push_to (en_id en v) v (en_table en rg)) rg"

section \<open>Blobs and markers\<close>

definition write_blob :: "('a \<Rightarrow> writer \<Rightarrow> writer) \<Rightarrow> 'a \<Rightarrow> writer \<Rightarrow> writer" where
  "write_blob encode v w =
     (let inner = encode v (new_writer kMaxCanonicalRecordBytes)
      in if w_failed inner then w_fail w else w_bytes (w_buffer inner) w)"

definition read_blob :: "(reader \<Rightarrow> 'a result \<times> reader) \<Rightarrow> reader \<Rightarrow> 'a result \<times> reader" where
  "read_blob decode r =
     (let (raw, r) = r_bytes kMaxCanonicalRecordBytes r
      in if r_failed r then (Inl (make_error EC_Malformed ''record blob is malformed or over budget''), r)
         else (fst (decode (new_reader raw)), r))"

definition write_marker :: "conflict_marker \<Rightarrow> writer \<Rightarrow> writer" where
  "write_marker m = w_seq
     [w_u8 (scope_rank (cm_scope m)), w_str (cm_id m) kMaxIdentifierLen, w_u64 (cm_generation m),
      w_raw (cm_incumbent_digest m), w_raw (cm_challenger_digest m), w_u64 (cm_epoch m),
      w_str (cm_detail m) kMaxReasonLen]"

text \<open>The two readers of a marker, in the snapshot and in the log, differ in the error text.\<close>

definition read_marker :: "string \<Rightarrow> reader \<Rightarrow> conflict_marker result \<times> reader" where
  "read_marker detail r =
     (let (scope, r) = r_u8 r; (ident, r) = r_str kMaxIdentifierLen r; (generation, r) = r_u64 r;
          (incumbent, r) = r_raw kDigestBytes r; (challenger, r) = r_raw kDigestBytes r;
          (epoch, r) = r_u64 r; (text, r) = r_str kMaxReasonLen r
      in if r_failed r \<or> scope > scope_rank Scope_Count then (Inl (make_error EC_Corrupt detail), r)
         else (Inr \<lparr>cm_scope = all_scope ! unat scope, cm_id = ident, cm_generation = generation,
           cm_incumbent_digest = incumbent, cm_challenger_digest = challenger, cm_epoch = epoch,
           cm_detail = text\<rparr>, r))"

text \<open>The conflict list keeps its newest \<^const>\<open>kMaxStoredConflicts\<close> markers.\<close>

definition push_conflict :: "conflict_marker \<Rightarrow> conflict_marker list \<Rightarrow> conflict_marker list" where
  "push_conflict m ms = (let ms = ms @ [m] in if length ms > kMaxStoredConflicts then tl ms else ms)"

section \<open>The snapshot of the state\<close>

text \<open>\<open>reader.count\<close> with the error of a table that is over its budget.\<close>

definition read_count :: "nat \<Rightarrow> string \<Rightarrow> reader \<Rightarrow> nat result \<times> reader" where
  "read_count max_count detail r =
     (let (n, r) = r_count max_count r
      in case n of None \<Rightarrow> (Inl (make_error EC_TooLarge detail), r) | Some n \<Rightarrow> (Inr n, r))"

definition read_watermark :: "reader \<Rightarrow> (string \<times> publisher_incarnation) result \<times> reader" where
  "read_watermark r =
     (let (ident, r) = r_str kMaxIdentifierLen r; (incarnation, r) = r_u64 r
      in if r_failed r \<or> \<not> is_valid_identifier ident kMaxIdentifierLen
         then (Inl (make_error EC_Corrupt ''publisher watermark entry is malformed''), r)
         else (Inr (ident, incarnation), r))"

text \<open>
  A table: the number of identifiers, and for each the number of its generations and a blob for
  each of them. Every value is pushed under its own identifier.
\<close>

definition read_generation_table :: "'a entity \<Rightarrow> nat \<Rightarrow> reader \<Rightarrow> registry \<Rightarrow> registry result \<times> reader" where
  "read_generation_table en max_ids r rg =
     bindD (read_count max_ids ''snapshot identifier table exceeds its budget'' r) (\<lambda>id_count r.
     bindD (decode_times id_count
       (\<lambda>r. bindD (read_count kMaxGenerationsPerId ''snapshot generation table exceeds its budget'' r)
          (\<lambda>generation_count r. decode_times generation_count (read_blob (en_decode en)) r)) r)
     (\<lambda>tables r. (Inr (fold (push_entity en) (concat tables) rg), r)))"

text \<open>A decision of the snapshot; an entry marked absent is skipped.\<close>

definition read_decision :: "reader \<Rightarrow> contract_decision option result \<times> reader" where
  "read_decision r =
     (let (there, r) = r_presence r
      in if \<not> there then (Inr None, r)
         else bindD (read_blob decode_decision r) (\<lambda>v r. (Inr (Some (seal_decision v)), r)))"

definition load_decision :: "contract_decision \<Rightarrow> registry \<Rightarrow> registry" where
  "load_decision v rg = rg\<lparr>rg_decision_order := rg_decision_order rg @ [cd_contract v],
     rg_decisions := fmupd (key_of (cd_contract v) (cd_contract_generation v)) v (rg_decisions rg)\<rparr>"

definition load_snapshot_state :: "registry \<Rightarrow> registry result" where
  "load_snapshot_state rg =
     (let raw = s_snapshot_bytes (rg_store rg) in
      if raw = [] then Inr rg
      else
        let r = new_reader raw; (tag, r) = r_u16 r; (version, r) = r_u16 r in
        if r_failed r \<or> tag \<noteq> kSnapshotTag \<or> version \<noteq> kSnapshotVersion
        then Inl (make_error EC_VersionMismatch ''registry snapshot schema is not supported'')
        else
          let (durable, r) = r_u64 r; (current, r) = r_u64 r;
              rg = rg\<lparr>rg_durable_epoch := durable, rg_current_epoch := current\<rparr> in
          fst (
          bindD (read_count kMaxPublishersRetained ''publisher watermark table exceeds its budget'' r) (\<lambda>n r.
          bindD (decode_times n read_watermark r) (\<lambda>marks r.
          let rg = rg\<lparr>rg_watermark := fold (\<lambda>(k, i). fmupd k i) marks (rg_watermark rg)\<rparr> in
          bindD (read_generation_table class_entity kMaxClassesRetained r rg) (\<lambda>rg r.
          bindD (read_generation_table policy_entity kMaxPoliciesRetained r rg) (\<lambda>rg r.
          bindD (read_generation_table path_entity kMaxPathsRetained r rg) (\<lambda>rg r.
          bindD (read_generation_table capability_entity kMaxCapabilitiesRetained r rg) (\<lambda>rg r.
          bindD (read_generation_table reservation_entity kMaxCapabilitiesRetained r rg) (\<lambda>rg r.
          bindD (read_count kMaxStoredConflicts ''conflict table exceeds its budget'' r) (\<lambda>n r.
          bindD (decode_times n (read_marker ''conflict marker is malformed'') r) (\<lambda>markers r.
          bindD (read_count kMaxDecisionsRetained ''decision audit table exceeds its budget'' r) (\<lambda>n r.
          bindD (decode_times n read_decision r) (\<lambda>decisions r.
          if r_failed r
          then (Inl (make_error EC_Corrupt ''registry snapshot is truncated''), r)
          else if \<not> r_at_end r
          then (Inl (make_error EC_Corrupt ''registry snapshot carries trailing bytes''), r)
          else (Inr (fold load_decision (List.map_filter (\<lambda>v. v) decisions)
            (rg\<lparr>rg_conflicts := rg_conflicts rg @ markers\<rparr>)), r))))))))))))))"

definition write_watermarks :: "(string, publisher_incarnation) fmap \<Rightarrow> writer \<Rightarrow> writer" where
  "write_watermarks marks =
     (let ordered = sorted_list_of_fset (fmdom marks)
      in w_counted (length ordered) (w_each (\<lambda>k. w_seq
           [w_str k kMaxIdentifierLen, w_u64 (the (fmlookup marks k))]) ordered))"

definition write_generation_table :: "'a entity \<Rightarrow> 'a table \<Rightarrow> writer \<Rightarrow> writer" where
  "write_generation_table en table =
     (let ids = sorted_list_of_fset (fmdom table)
      in w_counted (length ids) (w_each (\<lambda>k. w_counted (length (held table k))
           (w_each (write_blob (en_encode en)) (held table k))) ids))"

definition write_decisions :: "(string, contract_decision) fmap \<Rightarrow> writer \<Rightarrow> writer" where
  "write_decisions decisions =
     (let keys = sorted_list_of_fset (fmdom decisions)
      in w_counted (length keys) (w_each (\<lambda>k. case fmlookup decisions k of
             None \<Rightarrow> w_presence False
           | Some v \<Rightarrow> w_seq [w_presence True, write_blob encode_decision v]) keys))"

definition encode_snapshot_state :: "registry \<Rightarrow> bytes result" where
  "encode_snapshot_state rg =
     (let w = w_seq
        [w_u16 kSnapshotTag, w_u16 kSnapshotVersion, w_u64 (rg_durable_epoch rg),
         w_u64 (rg_current_epoch rg),
         write_watermarks (rg_watermark rg),
         write_generation_table class_entity (rg_classes rg),
         write_generation_table policy_entity (rg_policies rg),
         write_generation_table path_entity (rg_paths rg),
         write_generation_table capability_entity (rg_capabilities rg),
         write_generation_table reservation_entity (rg_reservations rg),
         w_counted (length (rg_conflicts rg)) (w_each write_marker (rg_conflicts rg)),
         write_decisions (rg_decisions rg)] (new_writer kMaxSnapshotBytes)
      in if w_failed w then Inl (make_error EC_TooLarge ''registry snapshot exceeds its budget'')
         else Inr (w_buffer w))"

section \<open>Pruning and compaction\<close>

text \<open>
  One round of the loop of \<open>prune_decisions\<close>: the contract of the oldest decision leaves the
  order, and its decisions go once no later entry of the order names it.
\<close>

function prune_decisions :: "registry \<Rightarrow> registry" where
  "prune_decisions rg =
     (case rg_decision_order rg of
        [] \<Rightarrow> rg
      | oldest # order \<Rightarrow>
          if length (rg_decision_order rg) \<le> kMaxDecisionsRetained then rg
          else prune_decisions (rg\<lparr>rg_decision_order := order,
            rg_decisions := (if oldest \<in> set order then rg_decisions rg
              else fmfilter (\<lambda>k. case fmlookup (rg_decisions rg) k of
                  None \<Rightarrow> False | Some v \<Rightarrow> cd_contract v \<noteq> oldest) (rg_decisions rg))\<rparr>))"
  by pat_completeness auto
termination by (relation "measure (\<lambda>rg. length (rg_decision_order rg))") auto

declare prune_decisions.simps [simp del]

text \<open>The newest generations of an identifier, in ascending order.\<close>

definition prune_list :: "'a entity \<Rightarrow> nat \<Rightarrow> 'a list \<Rightarrow> 'a list" where
  "prune_list en keep vs =
     (if length vs \<le> keep then vs
      else let vs = sort_key (en_generation en) vs in drop (length vs - keep) vs)"

definition prune_table :: "'a entity \<Rightarrow> registry \<Rightarrow> registry" where
  "prune_table en rg =
     en_set_table en (fmmap (prune_list en (ro_max_generations_per_id (rg_options rg))) (en_table en rg)) rg"

definition prune :: "registry \<Rightarrow> registry" where
  "prune rg =
     (let rg = prune_table class_entity rg; rg = prune_table policy_entity rg;
          rg = prune_table path_entity rg; rg = prune_table capability_entity rg;
          rg = prune_table reservation_entity rg; rg = prune_decisions rg
      in if length (rg_conflicts rg) > kMaxStoredConflicts
         then rg\<lparr>rg_conflicts := drop (length (rg_conflicts rg) - kMaxStoredConflicts) (rg_conflicts rg)\<rparr>
         else rg)"

definition compact_locked :: "registry \<Rightarrow> unit result \<times> registry" where
  "compact_locked rg =
     (let rg = prune rg in
      case encode_snapshot_state rg of
        Inl e \<Rightarrow> (Inl e, rg)
      | Inr bs \<Rightarrow> on_store (WriteSnapshot bs) rg)"

section \<open>Recovery\<close>

definition epoch_payload :: "bytes \<Rightarrow> u64" where "epoch_payload bs = load_le (take 8 bs)"

text \<open>A publication record: the value is decoded and pushed under its identifier.\<close>

definition apply_publication :: "'a entity \<Rightarrow> bytes \<Rightarrow> registry \<Rightarrow> registry result" where
  "apply_publication en payload rg =
     (case fst (en_decode en (new_reader payload)) of
        Inl e \<Rightarrow> Inl e
      | Inr v \<Rightarrow> Inr (push_entity en v rg))"

definition apply_registration :: "bytes \<Rightarrow> registry \<Rightarrow> registry result" where
  "apply_registration payload rg =
     (let r = new_reader payload; (ident, r) = r_str kMaxIdentifierLen r; (incarnation, r) = r_u64 r
      in if r_failed r \<or> \<not> is_valid_identifier ident kMaxIdentifierLen \<or> incarnation = 0
         then Inl (make_error EC_Corrupt ''publisher registration record is malformed'')
         else Inr (if (case fmlookup (rg_watermark rg) ident of
                 None \<Rightarrow> True | Some found \<Rightarrow> found < incarnation)
           then rg\<lparr>rg_watermark := fmupd ident incarnation (rg_watermark rg)\<rparr> else rg))"

text \<open>A decision enters under its key; a new key also enters the order.\<close>

definition put_decision :: "contract_decision \<Rightarrow> registry \<Rightarrow> registry" where
  "put_decision v rg =
     (let key = key_of (cd_contract v) (cd_contract_generation v)
      in rg\<lparr>rg_decision_order :=
              (if fmlookup (rg_decisions rg) key = None then rg_decision_order rg @ [cd_contract v]
               else rg_decision_order rg),
            rg_decisions := fmupd key v (rg_decisions rg)\<rparr>)"

definition apply_record :: "log_record \<Rightarrow> registry \<Rightarrow> registry result" where
  "apply_record rec rg =
     (case lr_type rec of
        RT_EpochAdvance \<Rightarrow>
          if length (lr_payload rec) < 8 then Inl (make_error EC_Corrupt ''epoch record is too small'')
          else
            let v = epoch_payload (lr_payload rec)
            in Inr (rg\<lparr>rg_durable_epoch := v,
                 rg_current_epoch := (if rg_current_epoch rg < v then v else rg_current_epoch rg)\<rparr>)
      | RT_PublishClass \<Rightarrow> apply_publication class_entity (lr_payload rec) rg
      | RT_PublishPolicy \<Rightarrow> apply_publication policy_entity (lr_payload rec) rg
      | RT_PublishPath \<Rightarrow> apply_publication path_entity (lr_payload rec) rg
      | RT_PublishCapability \<Rightarrow> apply_publication capability_entity (lr_payload rec) rg
      | RT_PublishReservation \<Rightarrow> apply_publication reservation_entity (lr_payload rec) rg
      | RT_RegisterPublisher \<Rightarrow> apply_registration (lr_payload rec) rg
      | RT_ConflictRecord \<Rightarrow>
          (case fst (read_marker ''conflict record is malformed'' (new_reader (lr_payload rec))) of
             Inl e \<Rightarrow> Inl e
           | Inr m \<Rightarrow> Inr (rg\<lparr>rg_conflicts := push_conflict m (rg_conflicts rg)\<rparr>))
      | RT_RecordDecision \<Rightarrow>
          (case fst (decode_decision (new_reader (lr_payload rec))) of
             Inl e \<Rightarrow> Inl e
           | Inr v \<Rightarrow> Inr (prune_decisions (put_decision (seal_decision v) rg)))
      | _ \<Rightarrow> Inr rg)"

fun apply_records :: "log_record list \<Rightarrow> registry \<Rightarrow> registry result" where
  "apply_records [] rg = Inr rg"
| "apply_records (rec # recs) rg = bindR (apply_record rec rg) (apply_records recs)"

definition rebuild_from_log :: "registry \<Rightarrow> registry result" where
  "rebuild_from_log rg = apply_records (s_replayed (rg_store rg)) rg"

section \<open>Epochs\<close>

definition advance_epoch_locked :: "string \<Rightarrow> registry \<Rightarrow> fabric_epoch result \<times> registry" where
  "advance_epoch_locked reason rg =
     (case try_increment (rg_durable_epoch rg) of
        None \<Rightarrow> (Inl (make_error EC_Overflow ''fabric epoch space is exhausted''), rg)
      | Some epoch \<Rightarrow>
          let w = w_seq [w_u64 epoch, w_str (take kMaxReasonLen reason) kMaxReasonLen] (new_writer 512) in
          if w_failed w then (Inl (make_error EC_TooLarge ''epoch record exceeds its budget''), rg)
          else bindD (on_store (Append RT_EpochAdvance (w_buffer w)) rg) (\<lambda>_ rg.
            (Inr epoch, rg\<lparr>rg_durable_epoch := epoch, rg_current_epoch := epoch,
               rg_leases := fmempty\<rparr>)))"

section \<open>Opening and closing\<close>

definition store_options_of :: "registry_options \<Rightarrow> store_options" where
  "store_options_of options = default_store_options
     \<lparr>so_directory := ro_directory options,
      so_create_if_missing := ro_create_if_missing options,
      so_max_wal_bytes := ro_max_wal_bytes options,
      so_max_record_bytes := ro_max_record_bytes options,
      so_repair_truncate_corrupt_tail := ro_repair_truncate_corrupt_tail options\<rparr>"

text \<open>
  What \<open>open_impl\<close> does once the store is open: the snapshot, the log, and the claim of authority.
\<close>

definition claim_state :: "u64 \<Rightarrow> registry \<Rightarrow> unit result \<times> registry" where
  "claim_state clock rg =
     (let rg = rg\<lparr>rg_now_ms := clock\<rparr> in
      case bindR (load_snapshot_state rg) rebuild_from_log of
        Inl e \<Rightarrow> (Inl e, rg)
      | Inr rg \<Rightarrow>
          if \<not> ro_claim_authority (rg_options rg) then (Inr (), rg)
          else bindD (advance_epoch_locked ''fabric-authority-restart'' rg) (\<lambda>_ rg.
            (Inr (), rg\<lparr>rg_leases := fmempty\<rparr>)))"

text \<open>
  The arguments beside the options are the boot identity the store may have to mint, the reading
  of the clock and the disk; the second component is the disk as the attempt leaves it.
\<close>

definition RegistryOpen :: "registry_options \<Rightarrow> bytes \<Rightarrow> u64 \<Rightarrow> disk \<Rightarrow> registry result \<times> disk" where
  "RegistryOpen options fresh clock d =
     (if ro_directory options = []
      then (Inl (make_error EC_InvalidArgument ''registry directory is required''), d)
      else if ro_max_generations_per_id options = 0 \<or> ro_max_generations_per_id options > 1024
      then (Inl (make_error EC_InvalidArgument ''generation retention outside the supported range''), d)
      else
        let (opened, d) = Open (store_options_of options) fresh d in
        case opened of
          Inl e \<Rightarrow> (Inl e, d)
        | Inr st \<Rightarrow>
            let (claimed, rg) = claim_state clock (new_registry options st) in
            case claimed of
              Inl e \<Rightarrow> (Inl e, s_disk (rg_store rg))
            | Inr _ \<Rightarrow> (Inr rg, s_disk (rg_store rg)))"

definition AdvanceEpoch :: "string \<Rightarrow> registry \<Rightarrow> fabric_epoch result \<times> registry" where
  "AdvanceEpoch reason rg = advance_epoch_locked reason rg"

definition Compact :: "registry \<Rightarrow> unit result \<times> registry" where
  "Compact rg = compact_locked rg"

definition RegistryVerify :: "registry \<Rightarrow> unit result \<times> registry" where
  "RegistryVerify rg = on_store Verify rg"

definition RegistryClose :: "registry \<Rightarrow> unit result \<times> registry" where
  "RegistryClose rg = on_store Close rg"

section \<open>Publication\<close>

definition stage_with_retry :: "record_type \<Rightarrow> bytes \<Rightarrow> registry \<Rightarrow> sequence_no result \<times> registry" where
  "stage_with_retry type payload rg =
     (let (attempt, rg) = on_store (Stage type payload) rg in
      case attempt of
        Inr a \<Rightarrow> (Inr a, rg)
      | Inl e \<Rightarrow>
          if err_code e = EC_CapacityExhausted
          then bindD (compact_locked rg) (\<lambda>_. on_store (Stage type payload))
          else (Inl e, rg))"

definition scope_of :: "record_type \<Rightarrow> conflict_scope" where
  "scope_of type = (case type of RT_PublishClass \<Rightarrow> Scope_Class | RT_PublishPolicy \<Rightarrow> Scope_Policy
     | RT_PublishPath \<Rightarrow> Scope_Path | RT_PublishCapability \<Rightarrow> Scope_Capability
     | RT_PublishReservation \<Rightarrow> Scope_Reservation | _ \<Rightarrow> Scope_Class)"

text \<open>The window of an identifier is bounded before more is accepted.\<close>

definition make_room :: "'a entity \<Rightarrow> string \<Rightarrow> registry \<Rightarrow> unit result \<times> registry" where
  "make_room en ident rg =
     (case fmlookup (en_table en rg) ident of
        Some vs \<Rightarrow> if length vs \<ge> ro_max_generations_per_id (rg_options rg)
          then compact_locked rg else (Inr (), rg)
      | None \<Rightarrow> (Inr (), rg))"

text \<open>Epoch, provenance and digest are assertion metadata: the content digest leaves them out.\<close>

definition normalized :: "'a entity \<Rightarrow> 'a \<Rightarrow> 'a" where
  "normalized en v = en_set_digest en zero_digest
     (en_set_provenance en empty_provenance (en_set_epoch en 0 v))"

definition equivocation_detail :: string where
  "equivocation_detail =
     ''two different definitions were asserted for the same identifier and generation''"

text \<open>
  A different definition for a generation that is held: the conflict is journalled, and the
  publication is refused. The incumbent stays.
\<close>

definition record_conflict :: "conflict_marker \<Rightarrow> registry \<Rightarrow> publication_result result \<times> registry" where
  "record_conflict marker rg =
     (let w = write_marker marker (new_writer 512) in
      if w_failed w then (Inl (make_error EC_TooLarge ''conflict record exceeds its budget''), rg)
      else bindD (stage_with_retry RT_ConflictRecord (w_buffer w) rg) (\<lambda>staged rg.
        let rg = rg\<lparr>rg_conflicts := push_conflict marker (rg_conflicts rg)\<rparr>;
            (committed, rg) = on_store (Commit staged (sha256 (bytes_of_string (cm_detail marker)))) rg in
        case committed of
          Inl e \<Rightarrow> (Inl e, rg\<lparr>rg_conflicts := butlast (rg_conflicts rg)\<rparr>)
        | Inr _ \<Rightarrow> (Inl (make_error EC_Conflict
            ''equivocated definition: the identifier and generation already carry different content''), rg)))"

text \<open>The new generation: staged, taken into the table, committed, and dropped if that fails.\<close>

definition store_generation ::
    "'a entity \<Rightarrow> record_type \<Rightarrow> 'a \<Rightarrow> digest256 \<Rightarrow> registry \<Rightarrow> publication_result result \<times> registry" where
  "store_generation en type v digest rg =
     (let v = en_set_digest en digest (en_set_epoch en (rg_current_epoch rg) v);
          w = en_encode en v (new_writer kMaxCanonicalRecordBytes) in
      if w_failed w
      then (Inl (make_error EC_TooLarge ''definition exceeds the canonical record budget''), rg)
      else bindD (stage_with_retry type (w_buffer w) rg) (\<lambda>staged rg.
        let v = en_set_provenance en
              (make_provenance ''registry'' (rg_current_epoch rg) (en_generation en v) staged) v;
            ident = en_id en v; vs = held (en_table en rg) ident;
            rg = en_set_table en (fmupd ident (vs @ [v]) (en_table en rg)) rg;
            (committed, rg) = on_store (Commit staged digest) rg in
        case committed of
          Inl e \<Rightarrow> (Inl e, en_set_table en (if vs = [] then fmdrop ident (en_table en rg)
            else fmupd ident vs (en_table en rg)) rg)
        | Inr _ \<Rightarrow> (Inr \<lparr>pr_generation = en_generation en v, pr_sequence = staged,
            pr_digest = digest\<rparr>, rg)))"

definition publish_entity ::
    "'a entity \<Rightarrow> record_type \<Rightarrow> 'a \<Rightarrow> nat \<Rightarrow> registry \<Rightarrow> publication_result result \<times> registry" where
  "publish_entity en type v max_identifiers rg =
     (case en_validate en v of
        Inl e \<Rightarrow> (Inl e, rg)
      | Inr _ \<Rightarrow>
        if en_generation en v = 0
        then (Inl (make_error EC_InvalidArgument ''generation must be non-zero''), rg)
        else bindD (make_room en (en_id en v) rg) (\<lambda>_ rg.
          let ident = en_id en v; v = normalized en v; digest = en_compute_digest en v in
          case fmlookup (en_table en rg) ident of
            None \<Rightarrow>
              if fcard (fmdom (en_table en rg)) \<ge> max_identifiers
              then (Inl (make_error EC_CapacityExhausted
                ''identifier budget exhausted; retire identifiers or raise the budget''), rg)
              else if en_generation en v \<noteq> 1
              then (Inl (make_error EC_Stale
                ''the first published generation of an identifier must be generation 1''), rg)
              else store_generation en type v digest rg
          | Some vs \<Rightarrow>
              let latest = en_generation en (last vs) in
              if en_generation en v < latest
              then (Inl (make_error EC_Stale ''generation is older than the retained generation''), rg)
              else if en_generation en v = latest then
                (if en_digest en (last vs) = digest
                 then (Inr \<lparr>pr_generation = latest, pr_sequence = 0, pr_digest = digest\<rparr>, rg)
                 else record_conflict \<lparr>cm_scope = scope_of type, cm_id = ident,
                   cm_generation = en_generation en v, cm_incumbent_digest = en_digest en (last vs),
                   cm_challenger_digest = digest, cm_epoch = rg_current_epoch rg,
                   cm_detail = equivocation_detail\<rparr> rg)
              else if try_increment latest \<noteq> Some (en_generation en v)
              then (Inl (make_error EC_InvalidArgument ''generation must advance by exactly one''), rg)
              else store_generation en type v digest rg))"

text \<open>The provenance the public operations stamp on the copy they publish.\<close>

definition stamped :: "'a entity \<Rightarrow> string \<Rightarrow> registry \<Rightarrow> 'a \<Rightarrow> 'a" where
  "stamped en origin rg v = en_set_provenance en
     (make_provenance origin (rg_current_epoch rg) (en_generation en v) 0) v"

definition PublishClass :: "qos_class \<Rightarrow> string \<Rightarrow> registry \<Rightarrow> publication_result result \<times> registry" where
  "PublishClass v origin rg = publish_entity class_entity RT_PublishClass
     (stamped class_entity (take kMaxOriginLen origin) rg v) kMaxClassesRetained rg"

definition PublishPolicy :: "policy \<Rightarrow> string \<Rightarrow> registry \<Rightarrow> publication_result result \<times> registry" where
  "PublishPolicy v origin rg = publish_entity policy_entity RT_PublishPolicy
     (stamped policy_entity (take kMaxOriginLen origin) rg v) kMaxPoliciesRetained rg"

definition PublishPath :: "path \<Rightarrow> string \<Rightarrow> registry \<Rightarrow> publication_result result \<times> registry" where
  "PublishPath v origin rg = publish_entity path_entity RT_PublishPath
     (stamped path_entity (take kMaxOriginLen origin) rg v) kMaxPathsRetained rg"

text \<open>A lease speaks for its publisher in the epoch it was granted in, until it expires.\<close>

definition find_lease :: "string \<Rightarrow> registry \<Rightarrow> publisher_lease option" where
  "find_lease publisher rg =
     (case fmlookup (rg_leases rg) publisher of
        None \<Rightarrow> None
      | Some lease \<Rightarrow>
          if ls_epoch lease \<noteq> rg_current_epoch rg then None
          else if ls_expires_at_ms lease \<le> rg_now_ms rg then None
          else Some lease)"

definition FindLease :: "string \<Rightarrow> registry \<Rightarrow> publisher_lease option" where
  "FindLease publisher rg = find_lease publisher rg"

definition PublishCapability :: "resource_capability \<Rightarrow> registry \<Rightarrow> publication_result result \<times> registry" where
  "PublishCapability v rg =
     (case validate_capability v of
        Inl e \<Rightarrow> (Inl e, rg)
      | Inr _ \<Rightarrow>
        case find_lease (ca_publisher v) rg of
          None \<Rightarrow> (Inl (make_error EC_Unauthorized
            ''publisher holds no live lease in the current fabric epoch''), rg)
        | Some lease \<Rightarrow>
            if ls_incarnation lease \<noteq> ca_incarnation v
            then (Inl (make_error EC_Fenced ''publisher incarnation does not match the live lease''), rg)
            else if ca_epoch v \<noteq> ls_epoch lease \<or> ca_epoch v \<noteq> rg_current_epoch rg
            then (Inl (make_error EC_Stale ''capability asserts an epoch that is not current''), rg)
            else publish_entity capability_entity RT_PublishCapability
              (stamped capability_entity (ca_publisher v) rg v) kMaxCapabilitiesRetained rg)"

definition PublishReservation :: "reservation \<Rightarrow> registry \<Rightarrow> publication_result result \<times> registry" where
  "PublishReservation v rg =
     (case validate_reservation v of
        Inl e \<Rightarrow> (Inl e, rg)
      | Inr _ \<Rightarrow>
        case find_lease (rs_publisher v) rg of
          None \<Rightarrow> (Inl (make_error EC_Unauthorized
            ''reservation publisher holds no live lease in the current fabric epoch''), rg)
        | Some lease \<Rightarrow>
            if ls_incarnation lease \<noteq> rs_incarnation v
            then (Inl (make_error EC_Fenced ''reservation publisher incarnation is not live''), rg)
            else if rs_epoch v \<noteq> ls_epoch lease \<or> rs_epoch v \<noteq> rg_current_epoch rg
            then (Inl (make_error EC_Stale ''reservation asserts an epoch that is not current''), rg)
            else publish_entity reservation_entity RT_PublishReservation
              (stamped reservation_entity (rs_publisher v) rg v) kMaxCapabilitiesRetained rg)"

section \<open>Reads\<close>

definition find_entity :: "'a entity \<Rightarrow> 'a table \<Rightarrow> string \<Rightarrow> generation \<Rightarrow> 'a result" where
  "find_entity en table ident generation =
     (let missing = Inl (make_error EC_NotFound
            ''no definition is held for that identifier and generation'') in
      case fmlookup table ident of
        None \<Rightarrow> missing
      | Some vs \<Rightarrow>
          (case List.find (\<lambda>v. en_generation en v = generation) vs of
             None \<Rightarrow> missing | Some v \<Rightarrow> Inr v))"

definition find_latest :: "'a entity \<Rightarrow> 'a table \<Rightarrow> string \<Rightarrow> 'a result" where
  "find_latest en table ident =
     (case held table ident of
        [] \<Rightarrow> Inl (make_error EC_NotFound ''no definition is held for that identifier'')
      | v # vs \<Rightarrow> Inr (fold (\<lambda>item best.
          if en_generation en best < en_generation en item then item else best) (v # vs) v))"

text \<open>Generation zero means the newest; any other is looked up exactly.\<close>

definition entity_for :: "'a entity \<Rightarrow> 'a table \<Rightarrow> string \<Rightarrow> generation \<Rightarrow> 'a result" where
  "entity_for en table ident generation =
     (if generation = 0 then find_latest en table ident
      else find_entity en table ident generation)"

definition class_for :: "string \<Rightarrow> generation \<Rightarrow> registry \<Rightarrow> qos_class result" where
  "class_for ident generation rg = entity_for class_entity (rg_classes rg) ident generation"

definition policy_for :: "string \<Rightarrow> generation \<Rightarrow> registry \<Rightarrow> policy result" where
  "policy_for ident generation rg = entity_for policy_entity (rg_policies rg) ident generation"

definition path_for :: "string \<Rightarrow> generation \<Rightarrow> registry \<Rightarrow> path result" where
  "path_for ident generation rg = entity_for path_entity (rg_paths rg) ident generation"

definition GetClass :: "string \<Rightarrow> generation \<Rightarrow> registry \<Rightarrow> qos_class result" where
  "GetClass ident generation rg = class_for ident generation rg"
definition LatestClass :: "string \<Rightarrow> registry \<Rightarrow> qos_class result" where
  "LatestClass ident rg = class_for ident 0 rg"
definition GetPolicy :: "string \<Rightarrow> generation \<Rightarrow> registry \<Rightarrow> policy result" where
  "GetPolicy ident generation rg = policy_for ident generation rg"
definition LatestPolicy :: "string \<Rightarrow> registry \<Rightarrow> policy result" where
  "LatestPolicy ident rg = policy_for ident 0 rg"
definition GetPath :: "string \<Rightarrow> generation \<Rightarrow> registry \<Rightarrow> path result" where
  "GetPath ident generation rg = path_for ident generation rg"
definition LatestPath :: "string \<Rightarrow> registry \<Rightarrow> path result" where
  "LatestPath ident rg = path_for ident 0 rg"
definition GetCapability :: "string \<Rightarrow> generation \<Rightarrow> registry \<Rightarrow> resource_capability result" where
  "GetCapability ident generation rg =
     find_entity capability_entity (rg_capabilities rg) ident generation"
definition LatestCapability :: "string \<Rightarrow> registry \<Rightarrow> resource_capability result" where
  "LatestCapability ident rg = find_latest capability_entity (rg_capabilities rg) ident"
definition GetReservation :: "string \<Rightarrow> generation \<Rightarrow> registry \<Rightarrow> reservation result" where
  "GetReservation ident generation rg =
     find_entity reservation_entity (rg_reservations rg) ident generation"
definition LatestReservation :: "string \<Rightarrow> registry \<Rightarrow> reservation result" where
  "LatestReservation ident rg = find_latest reservation_entity (rg_reservations rg) ident"

definition list_identifiers :: "'a entity \<Rightarrow> 'a table \<Rightarrow> string list" where
  "list_identifiers en table =
     remdups_adj (sort (map (\<lambda>k. en_id en (last (held table k)))
       (filter (\<lambda>k. held table k \<noteq> []) (sorted_list_of_fset (fmdom table)))))"

definition list_classes :: "registry \<Rightarrow> string list" where
  "list_classes rg = list_identifiers class_entity (rg_classes rg)"
definition list_policies :: "registry \<Rightarrow> string list" where
  "list_policies rg = list_identifiers policy_entity (rg_policies rg)"
definition list_paths :: "registry \<Rightarrow> string list" where
  "list_paths rg = list_identifiers path_entity (rg_paths rg)"
definition list_resources :: "registry \<Rightarrow> string list" where
  "list_resources rg = list_identifiers capability_entity (rg_capabilities rg)"

section \<open>Publisher authority\<close>

definition highest_incarnation :: "string \<Rightarrow> registry \<Rightarrow> publisher_incarnation" where
  "highest_incarnation publisher rg =
     (case fmlookup (rg_watermark rg) publisher of None \<Rightarrow> 0 | Some i \<Rightarrow> i)"

text \<open>
  The journalled half of a registration: stage the record, take the watermark and the lease into
  memory, commit, and put the watermark back if that fails.
\<close>

definition grant_lease :: "publisher_lease \<Rightarrow> string \<Rightarrow> registry \<Rightarrow> publisher_lease result \<times> registry" where
  "grant_lease lease origin rg =
     (let publisher = ls_publisher lease; previous = fmlookup (rg_watermark rg) publisher;
          w = w_seq [w_str publisher kMaxIdentifierLen, w_u64 (ls_incarnation lease),
            w_raw (ls_boot lease), w_u64 (ls_granted_at_ms lease), w_u64 (ls_expires_at_ms lease),
            w_str (take kMaxOriginLen origin) kMaxOriginLen] (new_writer 512) in
      if w_failed w then (Inl (make_error EC_TooLarge ''lease record exceeds its budget''), rg)
      else bindD (stage_with_retry RT_RegisterPublisher (w_buffer w) rg) (\<lambda>staged rg.
        let lease = lease\<lparr>ls_lease := staged\<rparr>;
            rg = rg\<lparr>rg_watermark := fmupd publisher (ls_incarnation lease) (rg_watermark rg),
              rg_leases := fmupd publisher lease (rg_leases rg)\<rparr>;
            (committed, rg) = on_store (Commit staged (sha256 (bytes_of_string publisher))) rg in
        case committed of
          Inl e \<Rightarrow> (Inl e, rg\<lparr>rg_leases := fmdrop publisher (rg_leases rg),
            rg_watermark := (case previous of None \<Rightarrow> fmdrop publisher (rg_watermark rg)
              | Some i \<Rightarrow> fmupd publisher i (rg_watermark rg))\<rparr>)
        | Inr _ \<Rightarrow> (Inr lease, rg)))"

definition RegisterPublisher ::
    "u64 \<Rightarrow> string \<Rightarrow> publisher_incarnation \<Rightarrow> bytes \<Rightarrow> u64 \<Rightarrow> string \<Rightarrow> registry \<Rightarrow>
     publisher_lease result \<times> registry" where
  "RegisterPublisher clock publisher incarnation boot ttl_ms origin rg =
     (let rg = tick clock rg in
      if \<not> is_valid publisher
      then (Inl (make_error EC_InvalidArgument ''publisher identifier is not canonical''), rg)
      else if incarnation = 0
      then (Inl (make_error EC_InvalidArgument ''publisher incarnation must be non-zero''), rg)
      else if ttl_ms = 0 \<or> ttl_ms > kMaxLeaseMs
      then (Inl (make_error EC_InvalidArgument ''lease duration is outside the supported range''), rg)
      else if boot_is_zero boot
      then (Inl (make_error EC_InvalidArgument ''publisher boot identity must be non-zero''), rg)
      else if incarnation \<le> highest_incarnation publisher rg
      then (Inl (make_error EC_Fenced
        ''publisher incarnation is not newer than the durable watermark''), rg)
      else if fmlookup (rg_watermark rg) publisher = None \<and>
        fcard (fmdom (rg_watermark rg)) \<ge> kMaxPublishersRetained
      then (Inl (make_error EC_CapacityExhausted ''publisher table is at its configured budget''), rg)
      else
        case checked_add (rg_now_ms rg) ttl_ms of
          None \<Rightarrow> (Inl (make_error EC_Overflow
            ''lease expiry overflowed the representable domain''), rg)
        | Some expires \<Rightarrow> grant_lease \<lparr>ls_publisher = publisher, ls_incarnation = incarnation,
            ls_epoch = rg_current_epoch rg, ls_lease = 0, ls_boot = boot,
            ls_granted_at_ms = rg_now_ms rg, ls_expires_at_ms = expires\<rparr> origin rg)"

definition RevokePublisher ::
    "u64 \<Rightarrow> string \<Rightarrow> publisher_incarnation \<Rightarrow> registry \<Rightarrow> unit result \<times> registry" where
  "RevokePublisher clock publisher incarnation rg =
     (let rg = tick clock rg in
      if \<not> is_valid publisher \<or> incarnation = 0
      then (Inl (make_error EC_InvalidArgument ''revocation names an invalid publisher''), rg)
      else
        case fmlookup (rg_leases rg) publisher of
          None \<Rightarrow> (Inl (make_error EC_Fenced ''revocation does not match the live lease''), rg)
        | Some removed \<Rightarrow>
            if ls_incarnation removed \<noteq> incarnation
            then (Inl (make_error EC_Fenced ''revocation does not match the live lease''), rg)
            else
              let w = w_seq [w_str publisher kMaxIdentifierLen, w_u64 incarnation] (new_writer 256) in
              if w_failed w
              then (Inl (make_error EC_TooLarge ''revocation record exceeds its budget''), rg)
              else bindD (stage_with_retry RT_RevokePublisher (w_buffer w) rg) (\<lambda>staged rg.
                let rg = rg\<lparr>rg_leases := fmdrop publisher (rg_leases rg)\<rparr>;
                    (committed, rg) = on_store (Commit staged (sha256 (bytes_of_string publisher))) rg in
                case committed of
                  Inl e \<Rightarrow> (Inl e, rg\<lparr>rg_leases := fmupd publisher removed (rg_leases rg)\<rparr>)
                | Inr _ \<Rightarrow> (Inr (), rg)))"

definition ExpireLeases :: "u64 \<Rightarrow> registry \<Rightarrow> unit result \<times> registry" where
  "ExpireLeases clock rg =
     (let rg = tick clock rg in
      (Inr (), rg\<lparr>rg_leases := fmfilter (\<lambda>k. case fmlookup (rg_leases rg) k of
         None \<Rightarrow> False
       | Some lease \<Rightarrow> \<not> (ls_expires_at_ms lease \<le> rg_now_ms rg \<or> ls_epoch lease \<noteq> rg_current_epoch rg))
         (rg_leases rg)\<rparr>))"

definition set_now_millis :: "u64 \<Rightarrow> registry \<Rightarrow> registry" where
  "set_now_millis v rg = rg\<lparr>rg_now_ms := v, rg_clock_pinned := True\<rparr>"

section \<open>Contracts\<close>

definition rejection :: "contract_request \<Rightarrow> string \<Rightarrow> registry \<Rightarrow> contract_decision" where
  "rejection request reason rg = seal_decision
     \<lparr>cd_contract = rq_contract request, cd_contract_generation = rq_contract_generation request,
      cd_outcome = O_Rejected, cd_class_id = rq_class_id request,
      cd_class_generation = rq_class_generation request, cd_class_digest = zero_digest,
      cd_subject = rq_subject request, cd_subject_generation = rq_subject_generation request,
      cd_path = rq_path request, cd_path_generation = rq_path_generation request,
      cd_path_digest = zero_digest, cd_policy = rq_policy request,
      cd_policy_generation = rq_policy_generation request, cd_policy_digest = zero_digest,
      cd_priority = rq_priority request, cd_priority_generation = rq_priority_generation request,
      cd_fabric_epoch = rg_current_epoch rg, cd_observed_epoch = rq_observed_epoch request,
      cd_decided_at_ms = rg_now_ms rg, cd_obligations = [], cd_resources = [],
      cd_degradations = [],
      cd_authority = [\<lparr>au_dimension = Dim_FabricEpoch, au_id = ''fabric'',
        au_generation = rg_current_epoch rg, au_digest_hex = [], au_epoch = rg_current_epoch rg,
        au_source = ''registry''\<rparr>],
      cd_binding_obligation = None, cd_binding_resource = None, cd_unknown_components = 0,
      cd_violated_obligations = 0, cd_unsatisfied_diversity_domains = 0,
      cd_primary_reason = take kMaxReasonLen reason,
      cd_request_digest = compute_request_digest request, cd_decision_digest = zero_digest,
      cd_provenance = make_provenance ''registry'' (rg_current_epoch rg) 1 1\<rparr>"

definition record_decision :: "contract_decision \<Rightarrow> registry \<Rightarrow> unit result \<times> registry" where
  "record_decision decision rg =
     (let w = encode_decision decision (new_writer kMaxCanonicalRecordBytes) in
      if w_failed w
      then (Inl (make_error EC_TooLarge ''decision exceeds the canonical record budget''), rg)
      else bindD (stage_with_retry RT_RecordDecision (w_buffer w) rg) (\<lambda>staged rg.
        let key = key_of (cd_contract decision) (cd_contract_generation decision);
            created = (fmlookup (rg_decisions rg) key = None); rg = put_decision decision rg;
            (committed, rg) = on_store (Commit staged (cd_decision_digest decision)) rg in
        case committed of
          Inl e \<Rightarrow> (Inl e, rg\<lparr>rg_decisions := fmdrop key (rg_decisions rg),
            rg_decision_order := (if created then butlast (rg_decision_order rg)
              else rg_decision_order rg)\<rparr>)
        | Inr _ \<Rightarrow> (Inr (), prune_decisions rg)))"

text \<open>A decision is handed out once it is recorded.\<close>

definition recorded :: "contract_decision \<Rightarrow> registry \<Rightarrow> contract_decision result \<times> registry" where
  "recorded decision rg = bindD (record_decision decision rg) (\<lambda>_ rg. (Inr decision, rg))"

definition latest_of :: "'a result \<Rightarrow> 'a option" where
  "latest_of r = (case r of Inl _ \<Rightarrow> None | Inr v \<Rightarrow> Some v)"

definition bound_inputs ::
    "contract_request \<Rightarrow> qos_class \<Rightarrow> policy \<Rightarrow> path \<Rightarrow> registry \<Rightarrow> evaluation_inputs" where
  "bound_inputs request klass pol pth rg =
     \<lparr>in_request = request, in_klass = klass, in_policy = pol, in_path = pth,
      in_capabilities = map (\<lambda>c. latest_of
        (find_latest capability_entity (rg_capabilities rg) (pc_resource c))) (pa_components pth),
      in_reservations = map (\<lambda>c. latest_of
        (find_latest reservation_entity (rg_reservations rg) (pc_resource c))) (pa_components pth),
      in_currency =
        \<lparr>cv_latest_class_generation =
           map_option qc_generation (latest_of (class_for (rq_class_id request) 0 rg)),
         cv_latest_policy_generation =
           map_option po_generation (latest_of (policy_for (rq_policy request) 0 rg)),
         cv_latest_path_generation =
           map_option pa_generation (latest_of (path_for (rq_path request) 0 rg))\<rparr>,
      in_conflicts = rg_conflicts rg, in_current_epoch = rg_current_epoch rg,
      in_now_ms = rg_now_ms rg,
      in_evaluator = ''registry:'' @ take 16 (s_store_id (rg_store rg))\<rparr>"

text \<open>What the registry decides on a request, before it records it.\<close>

definition decide :: "contract_request \<Rightarrow> registry \<Rightarrow> contract_decision result option" where
  "decide request rg =
     (case validate_request request of
        Inl e \<Rightarrow> Some (Inr (rejection request (''request rejected at intake: '' @ err_detail e) rg))
      | Inr _ \<Rightarrow>
      case policy_for (rq_policy request) (rq_policy_generation request) rg of
        Inl _ \<Rightarrow> Some (Inr (rejection request ''policy definition is absent from the registry'' rg))
      | Inr pol \<Rightarrow>
      case path_for (rq_path request) (rq_path_generation request) rg of
        Inl _ \<Rightarrow> Some (Inr (rejection request ''path definition is absent from the registry'' rg))
      | Inr pth \<Rightarrow>
      case class_for (rq_class_id request) (rq_class_generation request) rg of
        Inl _ \<Rightarrow>
          Some (Inr (rejection request ''service class definition is absent from the registry'' rg))
      | Inr klass \<Rightarrow> evaluate (bound_inputs request klass pol pth rg))"

definition RegistryEvaluate ::
    "u64 \<Rightarrow> contract_request \<Rightarrow> registry \<Rightarrow> (contract_decision result \<times> registry) option" where
  "RegistryEvaluate clock request rg =
     (let rg = tick clock rg in
      map_option (\<lambda>decided. case decided of Inl e \<Rightarrow> (Inl e, rg) | Inr decision \<Rightarrow> recorded decision rg)
        (decide request rg))"

definition GetDecision :: "string \<Rightarrow> generation \<Rightarrow> registry \<Rightarrow> contract_decision result" where
  "GetDecision ident generation rg =
     (case fmlookup (rg_decisions rg) (key_of ident generation) of
        None \<Rightarrow> Inl (make_error EC_NotFound ''no decision is recorded for that contract'')
      | Some v \<Rightarrow> Inr v)"

definition list_contracts :: "registry \<Rightarrow> string list" where
  "list_contracts rg = rg_decision_order rg"

section \<open>Counts\<close>

definition count_generations :: "'a table \<Rightarrow> nat" where
  "count_generations table =
     sum_list (map (\<lambda>k. length (held table k)) (sorted_list_of_fset (fmdom table)))"

definition counts :: "registry \<Rightarrow> registry_counts" where
  "counts rg =
     \<lparr>rc_classes = length (list_identifiers class_entity (rg_classes rg)),
      rc_policies = length (list_identifiers policy_entity (rg_policies rg)),
      rc_paths = length (list_identifiers path_entity (rg_paths rg)),
      rc_capabilities = count_generations (rg_capabilities rg),
      rc_reservations = count_generations (rg_reservations rg),
      rc_publishers = fcard (fmdom (rg_watermark rg)),
      rc_decisions = fcard (fmdom (rg_decisions rg)), rc_conflicts = length (rg_conflicts rg),
      rc_live_leases = fcard (fmdom (rg_leases rg))\<rparr>"

end
