(* ===== verification/Registry_Laws.thy ===== *)
theory Registry_Laws
  imports Registry Model_Codec
begin

text \<open>
  The contract the five entity types share, which the template code of the registry relies on, and
  the invariant of the registry that every operation keeps.
\<close>

section \<open>Generation lists and tables\<close>

text \<open>The generations of an identifier: at least one, none zero, each the successor of the one before.\<close>

definition consecutive :: "generation list \<Rightarrow> bool" where
  "consecutive gs \<longleftrightarrow> gs \<noteq> [] \<and> hd gs \<noteq> 0 \<and> successively (\<lambda>g h. try_increment g = Some h) gs"

definition table_ok :: "'a entity \<Rightarrow> ('a \<Rightarrow> bool) \<Rightarrow> nat \<Rightarrow> nat \<Rightarrow> 'a table \<Rightarrow> bool" where
  "table_ok en Q keep max_ids t \<longleftrightarrow> fcard (fmdom t) \<le> max_ids \<and>
     (\<forall>k vs. fmlookup t k = Some vs \<longrightarrow> consecutive (map (en_generation en) vs) \<and>
        length vs \<le> Suc keep \<and>
        (\<forall>v \<in> set vs. en_id en v = k \<and> Q v \<and> en_digest en v = en_compute_digest en v))"

lemma consecutive_sorted: "consecutive gs \<Longrightarrow> sorted_wrt (<) gs"
  unfolding consecutive_def
  by (rule successively_conv_sorted_wrt [THEN iffD1])
    (auto simp: transp_on_def intro: successively_mono try_increment_less)

lemma consecutive_nonzero: "consecutive gs \<Longrightarrow> g \<in> set gs \<Longrightarrow> g \<noteq> 0"
proof -
  assume c: "consecutive gs" and g: "g \<in> set gs"
  obtain h hs where gs: "gs = h # hs" "h \<noteq> 0" using c by (cases gs) (auto simp: consecutive_def)
  have "\<forall>x \<in> set hs. h < x" using consecutive_sorted [OF c] gs by simp
  with g gs show ?thesis by auto
qed

lemma consecutive_last:
  assumes "consecutive gs" and "g \<in> set gs"
  shows "g \<le> last gs"
proof -
  obtain i where "i < length gs" "g = gs ! i" using assms(2) by (auto simp: in_set_conv_nth)
  then show ?thesis
    using assms(1) consecutive_sorted [OF assms(1)]
    by (cases "i = length gs - 1")
      (auto simp: last_conv_nth sorted_wrt_iff_nth_less less_imp_le consecutive_def)
qed

lemma consecutive_drop:
  assumes "consecutive gs" and "n < length gs"
  shows "consecutive (drop n gs)"
proof -
  have "successively (\<lambda>g h. try_increment g = Some h) (take n gs @ drop n gs)"
    using assms(1) by (simp only: append_take_drop_id consecutive_def)
  then have "successively (\<lambda>g h. try_increment g = Some h) (drop n gs)"
    by (simp only: successively_append_iff)
  moreover have "hd (drop n gs) \<in> set gs" using assms(2) by (simp add: hd_drop_conv_nth)
  ultimately show ?thesis
    using assms(2) consecutive_nonzero [OF assms(1)] by (auto simp: consecutive_def)
qed

lemma consecutive_snoc:
  "consecutive (gs @ [g]) \<longleftrightarrow>
     (if gs = [] then g \<noteq> 0 else consecutive gs \<and> try_increment (last gs) = Some g)"
  by (auto simp: consecutive_def successively_append_iff)

lemma prune_list_consecutive:
  assumes "consecutive (map (en_generation en) vs)"
  shows "prune_list en keep vs = drop (length vs - keep) vs"
proof -
  have "sorted (map (en_generation en) vs)"
    using consecutive_sorted [OF assms] by (simp add: strict_sorted_iff)
  then show ?thesis by (simp add: prune_list_def Let_def sort_key_id_if_sorted)
qed

lemma prune_list_ok:
  assumes "consecutive (map (en_generation en) vs)" and "0 < keep"
  shows "consecutive (map (en_generation en) (prune_list en keep vs))" "length (prune_list en keep vs) \<le> keep"
    "set (prune_list en keep vs) \<subseteq> set vs" "last (prune_list en keep vs) = last vs"
proof -
  have n: "vs \<noteq> []" using assms(1) by (auto simp: consecutive_def)
  then have l: "length vs - keep < length vs" using assms(2) by simp
  note p = prune_list_consecutive [OF assms(1), of keep]
  show "consecutive (map (en_generation en) (prune_list en keep vs))"
    using consecutive_drop [OF assms(1), of "length vs - keep"] l by (simp add: p drop_map)
  show "length (prune_list en keep vs) \<le> keep" "set (prune_list en keep vs) \<subseteq> set vs"
    "last (prune_list en keep vs) = last vs"
    using l by (auto simp: p dest: in_set_dropD)
qed

lemma table_ok_prune:
  assumes "table_ok en Q keep m t" and "0 < keep"
  shows "table_ok en Q keep m (fmmap (prune_list en keep) t)"
  using assms prune_list_ok [OF _ assms(2), of en] unfolding table_ok_def
  by (fastforce intro: le_SucI)

lemma table_ok_empty: "table_ok en Q keep m fmempty"
  by (simp add: table_ok_def fcard_def)

lemma table_ok_drop: "table_ok en Q keep m t \<Longrightarrow> table_ok en Q keep m (fmdrop k t)"
  unfolding table_ok_def by (auto intro: order_trans [OF fcard_mono])

abbreviation keep :: "registry \<Rightarrow> nat" where "keep rg \<equiv> ro_max_generations_per_id (rg_options rg)"

section \<open>Pruning\<close>

text \<open>What the loop over the decisions touches, and where it stops.\<close>

lemma prune_decisions_frame: "\<exists>d. prune_decisions rg =
  rg\<lparr>rg_decision_order := drop (length (rg_decision_order rg) - kMaxDecisionsRetained) (rg_decision_order rg),
     rg_decisions := d\<rparr>"
proof (induction rg rule: prune_decisions.induct)
  case (1 rg)
  show ?case
  proof (cases "rg_decision_order rg")
    case Nil
    then show ?thesis by (subst prune_decisions.simps) (auto intro!: exI [of _ "rg_decisions rg"])
  next
    case (Cons oldest order)
    show ?thesis
    proof (cases "length (rg_decision_order rg) \<le> kMaxDecisionsRetained")
      case True
      then show ?thesis
        using Cons by (subst prune_decisions.simps) (auto intro!: exI [of _ "rg_decisions rg"])
    next
      case False
      from "1.IH" [OF Cons False] Cons False show ?thesis
        by (subst prune_decisions.simps) (auto simp: Suc_diff_le)
    qed
  qed
qed

lemma prune_decisions_small:
  "length (rg_decision_order rg) \<le> kMaxDecisionsRetained \<Longrightarrow> prune_decisions rg = rg"
  by (subst prune_decisions.simps) (auto split: list.splits)

definition entry_ok :: "string list \<Rightarrow> string \<Rightarrow> contract_decision \<Rightarrow> bool" where
  "entry_ok order k v \<longleftrightarrow> k = key_of (cd_contract v) (cd_contract_generation v) \<and> cd_contract v \<in> set order"

text \<open>A decision of the audit stays while the order names its contract.\<close>

lemma prune_decisions_ok:
  assumes "\<forall>k v. fmlookup (rg_decisions rg) k = Some v \<longrightarrow> entry_ok (rg_decision_order rg) k v"
  shows "\<forall>k v. fmlookup (rg_decisions (prune_decisions rg)) k = Some v \<longrightarrow>
    entry_ok (rg_decision_order (prune_decisions rg)) k v"
  using assms
proof (induction rg rule: prune_decisions.induct)
  case (1 rg)
  show ?case
  proof (cases "rg_decision_order rg")
    case Nil
    with 1(2) show ?thesis by (simp add: prune_decisions.simps [of rg])
  next
    case (Cons oldest order)
    show ?thesis
    proof (cases "length (rg_decision_order rg) \<le> kMaxDecisionsRetained")
      case True
      with 1(2) Cons show ?thesis by (simp add: prune_decisions.simps [of rg])
    next
      case False
      let ?rg = "rg\<lparr>rg_decision_order := order,
            rg_decisions := (if oldest \<in> set order then rg_decisions rg
              else fmfilter (\<lambda>k. case fmlookup (rg_decisions rg) k of
                  None \<Rightarrow> False | Some v \<Rightarrow> cd_contract v \<noteq> oldest) (rg_decisions rg))\<rparr>"
      have "\<forall>k v. fmlookup (rg_decisions ?rg) k = Some v \<longrightarrow> entry_ok (rg_decision_order ?rg) k v"
        using 1(2) Cons by (fastforce simp: entry_ok_def split: if_splits)
      from "1.IH" [OF Cons False this] show ?thesis
        using Cons False by (simp add: prune_decisions.simps [of rg])
    qed
  qed
qed

lemma prune_fields:
  "rg_options (prune rg) = rg_options rg" "rg_store (prune rg) = rg_store rg"
  "rg_classes (prune rg) = fmmap (prune_list class_entity (keep rg)) (rg_classes rg)"
  "rg_policies (prune rg) = fmmap (prune_list policy_entity (keep rg)) (rg_policies rg)"
  "rg_paths (prune rg) = fmmap (prune_list path_entity (keep rg)) (rg_paths rg)"
  "rg_capabilities (prune rg) = fmmap (prune_list capability_entity (keep rg)) (rg_capabilities rg)"
  "rg_reservations (prune rg) = fmmap (prune_list reservation_entity (keep rg)) (rg_reservations rg)"
  "rg_watermark (prune rg) = rg_watermark rg" "rg_leases (prune rg) = rg_leases rg"
  "rg_conflicts (prune rg) = drop (length (rg_conflicts rg) - kMaxStoredConflicts) (rg_conflicts rg)"
  "rg_durable_epoch (prune rg) = rg_durable_epoch rg" "rg_current_epoch (prune rg) = rg_current_epoch rg"
  "rg_now_ms (prune rg) = rg_now_ms rg" "rg_clock_pinned (prune rg) = rg_clock_pinned rg"
  using prune_decisions_frame [of "prune_table reservation_entity (prune_table capability_entity
    (prune_table path_entity (prune_table policy_entity (prune_table class_entity rg))))"]
  by (auto simp: prune_def prune_table_def entity_defs Let_def)

lemma prune_decisions_local:
  "rg_decision_order rg' = rg_decision_order rg \<Longrightarrow> rg_decisions rg' = rg_decisions rg \<Longrightarrow>
   rg_decision_order (prune_decisions rg') = rg_decision_order (prune_decisions rg) \<and>
   rg_decisions (prune_decisions rg') = rg_decisions (prune_decisions rg)"
proof (induction rg arbitrary: rg' rule: prune_decisions.induct)
  case (1 rg)
  show ?case
  proof (cases "rg_decision_order rg")
    case Nil
    with 1(2,3) show ?thesis by (simp add: prune_decisions.simps [of rg] prune_decisions.simps [of rg'])
  next
    case (Cons oldest order)
    show ?thesis
    proof (cases "length (rg_decision_order rg) \<le> kMaxDecisionsRetained")
      case True
      with 1(2,3) Cons show ?thesis by (simp add: prune_decisions.simps [of rg] prune_decisions.simps [of rg'])
    next
      case False
      let ?next = "\<lambda>rg. rg\<lparr>rg_decision_order := order,
            rg_decisions := (if oldest \<in> set order then rg_decisions rg
              else fmfilter (\<lambda>k. case fmlookup (rg_decisions rg) k of
                  None \<Rightarrow> False | Some v \<Rightarrow> cd_contract v \<noteq> oldest) (rg_decisions rg))\<rparr>"
      have "rg_decision_order (prune_decisions (?next rg')) = rg_decision_order (prune_decisions (?next rg)) \<and>
          rg_decisions (prune_decisions (?next rg')) = rg_decisions (prune_decisions (?next rg))"
        by (rule "1.IH" [OF Cons False]) (simp_all add: "1.prems"(2) cong del: fmfilter_cong)
      with 1(2,3) Cons False show ?thesis
        by (simp add: prune_decisions.simps [of rg] prune_decisions.simps [of rg'])
    qed
  qed
qed

lemma prune_audit:
  "rg_decision_order (prune rg) = rg_decision_order (prune_decisions rg)"
  "rg_decisions (prune rg) = rg_decisions (prune_decisions rg)"
  using prune_decisions_local [of "prune_table reservation_entity (prune_table capability_entity
    (prune_table path_entity (prune_table policy_entity (prune_table class_entity rg))))" rg]
  by (simp_all add: prune_def prune_table_def entity_defs Let_def)

section \<open>Steps that change no content\<close>

text \<open>Calls of the store and compactions, in any order and number.\<close>

inductive moved :: "registry \<Rightarrow> registry \<Rightarrow> bool" where
  moved_refl: "moved rg rg"
| moved_store: "moved rg rg0 \<Longrightarrow> moved rg (rg0\<lparr>rg_store := st\<rparr>)"
| moved_prune: "moved rg rg0 \<Longrightarrow> moved rg (prune rg0)"

lemma moved_trans: "moved b c \<Longrightarrow> moved a b \<Longrightarrow> moved a c"
  by (induction b c rule: moved.induct) (auto intro: moved.intros)

lemma moved_fields:
  "moved rg rg0 \<Longrightarrow> rg_options rg0 = rg_options rg \<and> rg_watermark rg0 = rg_watermark rg \<and>
     rg_leases rg0 = rg_leases rg \<and> rg_durable_epoch rg0 = rg_durable_epoch rg \<and>
     rg_current_epoch rg0 = rg_current_epoch rg \<and> rg_now_ms rg0 = rg_now_ms rg \<and>
     rg_clock_pinned rg0 = rg_clock_pinned rg"
  by (induction rule: moved.induct) (simp_all add: prune_fields)

lemma on_store_moved: "on_store f rg = (r, rg') \<Longrightarrow> moved rg rg'"
  by (auto simp: on_store_def Let_def split: prod.splits intro: moved.intros)

lemma compact_moved: "compact_locked rg = (r, rg') \<Longrightarrow> moved rg rg'"
  by (auto simp: compact_locked_def Let_def split: sum.splits
      intro: moved.intros moved_trans [OF on_store_moved])

lemma stage_moved: "stage_with_retry type payload rg = (r, rg') \<Longrightarrow> moved rg rg'"
  by (auto simp: stage_with_retry_def Let_def bindD_def split: prod.splits sum.splits if_splits
      dest!: on_store_moved compact_moved intro: moved_trans)

lemma room_moved: "make_room en ident rg = (r, rg') \<Longrightarrow> moved rg rg'"
  by (auto simp: make_room_def intro: moved.intros compact_moved split: option.splits if_splits)

section \<open>The contract of an entity type\<close>

text \<open>
  \<open>complete\<close> is what a value needs beside validation to be decoded again: a capability must name
  its failure domain. Epoch, provenance and digest are metadata: they move neither the identifier,
  the generation, the validation nor the content digest.
\<close>

locale published = codec "en_encode en" "en_decode en" lay ok canon
  for en :: "'a entity" and lay ok canon +
  fixes complete :: "'a \<Rightarrow> bool"
  assumes meta_id [simp]: "en_id en (en_set_epoch en e v) = en_id en v"
      "en_id en (en_set_provenance en p v) = en_id en v" "en_id en (en_set_digest en d v) = en_id en v"
    and meta_generation [simp]: "en_generation en (en_set_epoch en e v) = en_generation en v"
      "en_generation en (en_set_provenance en p v) = en_generation en v"
      "en_generation en (en_set_digest en d v) = en_generation en v"
    and meta_digest [simp]: "en_digest en (en_set_epoch en e v) = en_digest en v"
      "en_digest en (en_set_provenance en p v) = en_digest en v"
      "en_digest en (en_set_digest en d v) = d"
    and meta_validate [simp]: "en_validate en (en_set_epoch en e v) = en_validate en v"
      "en_validate en (en_set_provenance en p v) = en_validate en v"
      "en_validate en (en_set_digest en d v) = en_validate en v"
    and meta_content [simp]: "en_compute_digest en (en_set_epoch en e v) = en_compute_digest en v"
      "en_compute_digest en (en_set_provenance en p v) = en_compute_digest en v"
      "en_compute_digest en (en_set_digest en d v) = en_compute_digest en v"
    and meta_complete [simp]: "complete (en_set_epoch en e v) = complete v"
      "complete (en_set_provenance en p v) = complete v" "complete (en_set_digest en d v) = complete v"
    and set_set [simp]: "en_set_provenance en p (en_set_provenance en q v) = en_set_provenance en p v"
      "en_set_digest en d (en_set_digest en c v) = en_set_digest en d v"
      "en_set_epoch en e (en_set_epoch en f v) = en_set_epoch en e v"
      "en_set_epoch en e (en_set_digest en d v) = en_set_digest en d (en_set_epoch en e v)"
      "en_set_provenance en p (en_set_epoch en e v) = en_set_epoch en e (en_set_provenance en p v)"
      "en_set_provenance en p (en_set_digest en d v) = en_set_digest en d (en_set_provenance en p v)"
    and ok_set: "en_validate en v = Inr () \<Longrightarrow> complete v \<Longrightarrow> provenance_ok p \<Longrightarrow>
      ok (en_set_provenance en p v)"
    and ok_meta [simp]: "ok (en_set_epoch en e v) = ok v" "ok (en_set_digest en d v) = ok v"
    and okD: "ok v \<Longrightarrow> en_validate en v = Inr () \<and> complete v"
    and valid_id: "ok v \<Longrightarrow> is_valid (en_id en v)"
    and fits: "ok v \<Longrightarrow> length (lay v) \<le> kMaxCanonicalRecordBytes"
    and canon_id [simp]: "en_id en (canon v) = en_id en v"
    and canon_generation [simp]: "en_generation en (canon v) = en_generation en v"
    and canon_digest [simp]: "en_digest en (canon v) = en_compute_digest en v"
    and canon_provenance [simp]: "canon (en_set_provenance en p v) = en_set_provenance en p (canon v)"
    and canon_drop [simp]: "canon (en_set_digest en d v) = canon v" "canon (canon v) = canon v"
    and canon_ok [simp]: "ok (canon v) = ok v"
    and digest_length [simp]: "length (en_compute_digest en v) = kDigestBytes"
    and lens [simp]: "en_table en (en_set_table en t rg) = t"
      "en_set_table en t (en_set_table en u rg) = en_set_table en t rg"
      "en_table en (rg\<lparr>rg_store := st\<rparr>) = en_table en rg"
      "en_set_table en t (rg\<lparr>rg_store := st\<rparr>) = (en_set_table en t rg)\<lparr>rg_store := st\<rparr>"
      "en_set_table en (en_table en rg) rg = rg"
    and table_pruned [simp]: "en_table en (prune rg) = fmmap (prune_list en (keep rg)) (en_table en rg)"
    and frame [simp]: "rg_options (en_set_table en t rg) = rg_options rg"
      "rg_store (en_set_table en t rg) = rg_store rg"
      "rg_current_epoch (en_set_table en t rg) = rg_current_epoch rg"
begin

text \<open>What a value means: its content, read back without provenance.\<close>

definition core :: "'a \<Rightarrow> 'a" where
  "core v = en_set_provenance en empty_provenance (canon v)"

end

text \<open>Every class, policy, path and reservation is complete.\<close>

lemma length_digest_of_writer [simp]: "length (digest_of_writer w) = kDigestBytes"
  by (simp add: digest_of_writer_def length_sha256 zero_digest_def)

lemma sort_sort [simp]: "sort (sort xs) = sort xs"
  by (rule sort_key_id_if_sorted) simp

definition any :: "'a \<Rightarrow> bool" where "any v = True"


lemma class_meta:
  "compute_class_digest (v\<lparr>qc_published_epoch := e\<rparr>) = compute_class_digest v"
  "compute_class_digest (v\<lparr>qc_provenance := p\<rparr>) = compute_class_digest v"
  "compute_class_digest (v\<lparr>qc_digest := d\<rparr>) = compute_class_digest v"
  "validate_class (v\<lparr>qc_published_epoch := e\<rparr>) = validate_class v"
  "validate_class (v\<lparr>qc_provenance := p\<rparr>) = validate_class v"
  "validate_class (v\<lparr>qc_digest := d\<rparr>) = validate_class v"
  by (simp_all add: compute_class_digest_def validate_class_def)

lemma class_sorted:
  "validate_class (v\<lparr>qc_required_predicates := sort (qc_required_predicates v)\<rparr>) = validate_class v"
  "compute_class_digest (v\<lparr>qc_required_predicates := sort (qc_required_predicates v)\<rparr>) = compute_class_digest v"
  by (simp_all add: validate_class_def compute_class_digest_def encode_class_def)

lemma policy_meta:
  "compute_policy_digest (v\<lparr>po_published_epoch := e\<rparr>) = compute_policy_digest v"
  "compute_policy_digest (v\<lparr>po_provenance := p\<rparr>) = compute_policy_digest v"
  "compute_policy_digest (v\<lparr>po_digest := d\<rparr>) = compute_policy_digest v"
  "validate_policy (v\<lparr>po_published_epoch := e\<rparr>) = validate_policy v"
  "validate_policy (v\<lparr>po_provenance := p\<rparr>) = validate_policy v"
  "validate_policy (v\<lparr>po_digest := d\<rparr>) = validate_policy v"
  by (simp_all add: compute_policy_digest_def validate_policy_def)

lemma policy_sorted:
  "validate_policy (v\<lparr>po_required_predicates := sort (po_required_predicates v)\<rparr>) = validate_policy v"
  "compute_policy_digest (v\<lparr>po_required_predicates := sort (po_required_predicates v)\<rparr>) = compute_policy_digest v"
  by (simp_all add: validate_policy_def compute_policy_digest_def encode_policy_def)

lemma path_meta:
  "compute_path_digest (v\<lparr>pa_epoch := e\<rparr>) = compute_path_digest v"
  "compute_path_digest (v\<lparr>pa_provenance := p\<rparr>) = compute_path_digest v"
  "compute_path_digest (v\<lparr>pa_digest := d\<rparr>) = compute_path_digest v"
  "validate_path (v\<lparr>pa_epoch := e\<rparr>) = validate_path v"
  "validate_path (v\<lparr>pa_provenance := p\<rparr>) = validate_path v"
  "validate_path (v\<lparr>pa_digest := d\<rparr>) = validate_path v"
  by (simp_all add: compute_path_digest_def validate_path_def)

lemma capability_meta:
  "compute_capability_digest (v\<lparr>ca_epoch := e\<rparr>) = compute_capability_digest v"
  "compute_capability_digest (v\<lparr>ca_provenance := p\<rparr>) = compute_capability_digest v"
  "compute_capability_digest (v\<lparr>ca_digest := d\<rparr>) = compute_capability_digest v"
  "validate_capability (v\<lparr>ca_epoch := e\<rparr>) = validate_capability v"
  "validate_capability (v\<lparr>ca_provenance := p\<rparr>) = validate_capability v"
  "validate_capability (v\<lparr>ca_digest := d\<rparr>) = validate_capability v"
  by (simp_all add: compute_capability_digest_def validate_capability_def)

lemma capability_sorted:
  "validate_capability (v\<lparr>ca_predicates := sort (ca_predicates v)\<rparr>) = validate_capability v"
  "compute_capability_digest (v\<lparr>ca_predicates := sort (ca_predicates v)\<rparr>) = compute_capability_digest v"
  by (simp_all add: validate_capability_def compute_capability_digest_def encode_capability_def)

lemma reservation_meta:
  "compute_reservation_digest (v\<lparr>rs_epoch := e\<rparr>) = compute_reservation_digest v"
  "compute_reservation_digest (v\<lparr>rs_provenance := p\<rparr>) = compute_reservation_digest v"
  "compute_reservation_digest (v\<lparr>rs_digest := d\<rparr>) = compute_reservation_digest v"
  "validate_reservation (v\<lparr>rs_epoch := e\<rparr>) = validate_reservation v"
  "validate_reservation (v\<lparr>rs_provenance := p\<rparr>) = validate_reservation v"
  "validate_reservation (v\<lparr>rs_digest := d\<rparr>) = validate_reservation v"
  by (simp_all add: compute_reservation_digest_def validate_reservation_def)

lemma length_content_digest [simp]:
  "length (compute_class_digest c) = kDigestBytes" "length (compute_policy_digest p) = kDigestBytes"
  "length (compute_path_digest q) = kDigestBytes" "length (compute_capability_digest r) = kDigestBytes"
  "length (compute_reservation_digest s) = kDigestBytes" "length (compute_request_digest t) = kDigestBytes"
  by (simp_all add: compute_class_digest_def compute_policy_digest_def compute_path_digest_def
      compute_capability_digest_def compute_reservation_digest_def compute_request_digest_def)

interpretation pub_class: published class_entity lay_class class_ok canon_class any
proof (intro published.intro published_axioms.intro, goal_cases)
  case 1
  show ?case using class_codec.codec_axioms by (simp add: class_entity_def)
qed (simp_all add: class_entity_def class_meta class_sorted class_fits class_okD(1) canon_class_def class_ok_def any_def prune_fields)

interpretation pub_policy: published policy_entity lay_policy policy_ok canon_policy any
proof (intro published.intro published_axioms.intro, goal_cases)
  case 1
  show ?case using policy_codec.codec_axioms by (simp add: policy_entity_def)
qed (simp_all add: policy_entity_def policy_meta policy_sorted policy_fits policy_okD(1) canon_policy_def policy_ok_def any_def prune_fields)

interpretation pub_path: published path_entity lay_path path_ok canon_path any
proof (intro published.intro published_axioms.intro, goal_cases)
  case 1
  show ?case using path_codec.codec_axioms by (simp add: path_entity_def)
qed (simp_all add: path_entity_def path_meta path_fits path_okD(1) canon_path_def path_ok_def any_def prune_fields)

interpretation pub_capability: published capability_entity lay_capability capability_ok canon_capability
    "\<lambda>v. ca_diversity_domain v \<noteq> []"
proof (intro published.intro published_axioms.intro, goal_cases)
  case 1
  show ?case using capability_codec.codec_axioms by (simp add: capability_entity_def)
qed (simp_all add: capability_entity_def capability_meta capability_sorted capability_fits capability_okD(1)
  canon_capability_def capability_ok_def prune_fields)

interpretation pub_reservation: published reservation_entity lay_reservation reservation_ok canon_reservation any
proof (intro published.intro published_axioms.intro, goal_cases)
  case 1
  show ?case using reservation_codec.codec_axioms by (simp add: reservation_entity_def)
qed (simp_all add: reservation_entity_def reservation_meta reservation_fits reservation_okD(1)
  canon_reservation_def reservation_ok_def any_def prune_fields)

section \<open>The invariant of the registry\<close>

definition tables_ok :: "(resource_capability \<Rightarrow> bool) \<Rightarrow> registry \<Rightarrow> bool" where
  "tables_ok K rg \<longleftrightarrow>
     table_ok class_entity class_ok (keep rg) kMaxClassesRetained (rg_classes rg) \<and>
     table_ok policy_entity policy_ok (keep rg) kMaxPoliciesRetained (rg_policies rg) \<and>
     table_ok path_entity path_ok (keep rg) kMaxPathsRetained (rg_paths rg) \<and>
     table_ok capability_entity K (keep rg) kMaxCapabilitiesRetained (rg_capabilities rg) \<and>
     table_ok reservation_entity reservation_ok (keep rg) kMaxCapabilitiesRetained (rg_reservations rg)"

definition lease_ok ::
    "fabric_epoch \<Rightarrow> (string, publisher_incarnation) fmap \<Rightarrow> string \<Rightarrow> publisher_lease \<Rightarrow> bool" where
  "lease_ok epoch marks p l \<longleftrightarrow> ls_publisher l = p \<and> ls_epoch l = epoch \<and>
     fmlookup marks p = Some (ls_incarnation l) \<and>
     unat (ls_expires_at_ms l) \<le> unat (ls_granted_at_ms l) + unat kMaxLeaseMs"

definition mark_ok :: "string \<Rightarrow> publisher_incarnation \<Rightarrow> bool" where
  "mark_ok p i \<longleftrightarrow> is_valid p \<and> i \<noteq> 0"

definition fencing_ok :: "registry \<Rightarrow> bool" where
  "fencing_ok rg \<longleftrightarrow> rg_current_epoch rg = rg_durable_epoch rg \<and>
     fcard (fmdom (rg_watermark rg)) \<le> kMaxPublishersRetained \<and>
     (\<forall>p i. fmlookup (rg_watermark rg) p = Some i \<longrightarrow> mark_ok p i) \<and>
     (\<forall>p l. fmlookup (rg_leases rg) p = Some l \<longrightarrow> lease_ok (rg_durable_epoch rg) (rg_watermark rg) p l)"

definition audit_ok :: "registry \<Rightarrow> bool" where
  "audit_ok rg \<longleftrightarrow> length (rg_conflicts rg) \<le> kMaxStoredConflicts \<and>
     length (rg_decision_order rg) \<le> kMaxDecisionsRetained \<and>
     (\<forall>k v. fmlookup (rg_decisions rg) k = Some v \<longrightarrow> entry_ok (rg_decision_order rg) k v)"

definition registry_ok :: "(resource_capability \<Rightarrow> bool) \<Rightarrow> registry \<Rightarrow> bool" where
  "registry_ok K rg \<longleftrightarrow> 0 < keep rg \<and> tables_ok K rg \<and> fencing_ok rg \<and> audit_ok rg"

lemmas registry_ok_defs = registry_ok_def tables_ok_def fencing_ok_def audit_ok_def

lemma prune_ok:
  assumes "registry_ok K rg" shows "registry_ok K (prune rg)"
proof -
  have "\<forall>k v. fmlookup (rg_decisions (prune_decisions rg)) k = Some v \<longrightarrow>
      entry_ok (rg_decision_order (prune_decisions rg)) k v"
    by (rule prune_decisions_ok) (use assms in \<open>simp add: registry_ok_defs\<close>)
  moreover have "length (rg_decision_order (prune_decisions rg)) \<le> kMaxDecisionsRetained"
    using assms prune_decisions_small [of rg] by (simp add: registry_ok_defs)
  ultimately show ?thesis
    using assms by (simp add: registry_ok_defs prune_fields prune_audit table_ok_prune)
qed

lemma store_ok [simp]: "registry_ok K (rg\<lparr>rg_store := st\<rparr>) = registry_ok K rg"
  by (simp add: registry_ok_defs)

lemma moved_ok: "moved rg rg0 \<Longrightarrow> registry_ok K rg \<Longrightarrow> registry_ok K rg0"
  by (induction rule: moved.induct) (simp_all add: prune_ok)

section \<open>What a publication does\<close>

text \<open>The value a publication stores: the definition under the epoch, the digest and a provenance.\<close>

definition asserted :: "'a entity \<Rightarrow> fabric_epoch \<Rightarrow> provenance \<Rightarrow> 'a \<Rightarrow> 'a" where
  "asserted en epoch p v =
     en_set_digest en (en_compute_digest en v) (en_set_epoch en epoch (en_set_provenance en p v))"

definition stored_in :: "'a entity \<Rightarrow> 'a \<Rightarrow> registry \<Rightarrow> registry" where
  "stored_in en v rg = en_set_table en (push_to (en_id en v) v (en_table en rg)) rg"

lemma held_simps [simp]:
  "held (fmupd k vs t) k' = (if k' = k then vs else held t k')" "held fmempty k = []"
  "held (fmmap f t) k = (case fmlookup t k of None \<Rightarrow> [] | Some vs \<Rightarrow> f vs)"
  by (auto simp: held_def split: option.splits)

lemma fmap_restore:
  "fmlookup t k = Some vs \<Longrightarrow> fmupd k vs (fmupd k ws t) = t"
  "fmlookup t k = None \<Longrightarrow> fmdrop k (fmupd k ws t) = t"
  by (auto intro!: fmap_ext)

text \<open>An identifier keeps its newest value, and gains none.\<close>

definition newest_kept :: "'a table \<Rightarrow> 'a table \<Rightarrow> string \<Rightarrow> bool" where
  "newest_kept t t0 k \<longleftrightarrow> (held t0 k = [] \<longleftrightarrow> held t k = []) \<and> last (held t0 k) = last (held t k) \<and>
     set (held t0 k) \<subseteq> set (held t k) \<and> length (held t0 k) \<le> length (held t k)"

lemma newest_kept_trans: "newest_kept t t0 k \<Longrightarrow> newest_kept t0 t1 k \<Longrightarrow> newest_kept t t1 k"
  by (auto simp: newest_kept_def)

lemma newest_kept_refl [simp]: "newest_kept t t k"
  by (simp add: newest_kept_def)

lemma compact_store: "compact_locked rg = (r, rg') \<Longrightarrow> \<exists>st. rg' = (prune rg)\<lparr>rg_store := st\<rparr>"
  by (cases "encode_snapshot_state (prune rg)")
    (fastforce simp: compact_locked_def intro: exI [of _ "rg_store (prune rg)"],
      auto simp: compact_locked_def on_store_def Let_def split: prod.splits)

context published begin

lemma held_ok:
  assumes "table_ok en Q n m t" and "held t k \<noteq> []"
  shows "fmlookup t k = Some (held t k)" "consecutive (map (en_generation en) (held t k))"
    "length (held t k) \<le> Suc n" "v \<in> set (held t k) \<Longrightarrow> en_id en v = k \<and> Q v \<and> en_digest en v = en_compute_digest en v"
  using assms by (auto simp: table_ok_def held_def split: option.splits)

lemma held_empty: "table_ok en Q n m t \<Longrightarrow> held t k = [] \<longleftrightarrow> fmlookup t k = None"
  by (auto simp: table_ok_def held_def consecutive_def split: option.splits)

lemma moved_table:
  assumes "moved rg rg0" and "table_ok en Q (keep rg) m (en_table en rg)" and "0 < keep rg"
  shows "table_ok en Q (keep rg) m (en_table en rg0) \<and>
    fmdom (en_table en rg0) = fmdom (en_table en rg) \<and> newest_kept (en_table en rg) (en_table en rg0) k"
  using assms
proof (induction rule: moved.induct)
  case (moved_prune rg rg0)
  then have t: "table_ok en Q (keep rg) m (en_table en rg0)" and k: "keep rg0 = keep rg"
    using moved_fields by auto
  have "newest_kept (en_table en rg0) (en_table en (prune rg0)) k"
  proof (cases "fmlookup (en_table en rg0) k")
    case (Some vs)
    then have c: "consecutive (map (en_generation en) vs)" using t by (simp add: table_ok_def)
    note p = prune_list_ok [OF c moved_prune.prems(2)]
    from p(1) have "prune_list en (keep rg) vs \<noteq> []" by (auto simp: consecutive_def)
    moreover have "length (prune_list en (keep rg) vs) \<le> length vs" by (simp add: prune_list_consecutive [OF c])
    ultimately show ?thesis using Some p c k by (auto simp: held_def consecutive_def newest_kept_def)
  qed (simp add: held_def newest_kept_def)
  with moved_prune t k show ?case
    using newest_kept_trans [of "en_table en rg" "en_table en rg0" k] by (auto simp: table_ok_prune)
qed simp_all

lemma normalized_simps [simp]:
  "en_id en (normalized en v) = en_id en v" "en_generation en (normalized en v) = en_generation en v"
  "en_validate en (normalized en v) = en_validate en v"
  "en_compute_digest en (normalized en v) = en_compute_digest en v"
  by (simp_all add: normalized_def)

lemma asserted_simps [simp]:
  "en_id en (asserted en e p v) = en_id en v" "en_generation en (asserted en e p v) = en_generation en v"
  "en_validate en (asserted en e p v) = en_validate en v"
  "en_digest en (asserted en e p v) = en_compute_digest en v"
  "en_compute_digest en (asserted en e p v) = en_compute_digest en v"
  by (simp_all add: asserted_def)

lemma push_restore:
  assumes "table_ok en Q n m t"
  shows "(if held t k = [] then fmdrop k (fmupd k ws t) else fmupd k (held t k) (fmupd k ws t)) = t"
  using assms held_empty [OF assms, of k] fmap_restore(1) [of t k "held t k"] fmap_restore(2) [of t k]
  by (auto simp: held_def split: option.splits)

lemma room_made:
  assumes "make_room en k rg = (Inr (), rg1)" and "table_ok en Q (keep rg) m (en_table en rg)" and "0 < keep rg"
  shows "length (held (en_table en rg1) k) \<le> keep rg"
proof (cases "fmlookup (en_table en rg) k")
  case (Some vs)
  then have c: "consecutive (map (en_generation en) vs)" using assms(2) by (simp add: table_ok_def)
  show ?thesis
  proof (cases "keep rg \<le> length vs")
    case True
    then have "compact_locked rg = (Inr (), rg1)" using assms(1) Some by (simp add: make_room_def)
    then obtain st where "rg1 = (prune rg)\<lparr>rg_store := st\<rparr>" using compact_store by blast
    then show ?thesis using Some prune_list_ok(2) [OF c assms(3)] by simp
  next
    case False
    then show ?thesis using assms(1) Some by (simp add: make_room_def held_def)
  qed
qed (use assms(1) in \<open>simp add: make_room_def held_def\<close>)

text \<open>Storing a generation: refused without a trace in the table, or pushed and committed.\<close>

lemma store_generation_cases:
  assumes run: "store_generation en ty (normalized en v) (en_compute_digest en v) rg = (r, rg')"
    and t: "table_ok en Q (keep rg) m (en_table en rg)" "0 < keep rg"
  obtains e where "r = Inl e" "moved rg rg'"
  | rg0 st q where "moved rg rg0"
      "rg' = (stored_in en (asserted en (rg_current_epoch rg)
          (make_provenance ''registry'' (rg_current_epoch rg) (en_generation en v) q) v) rg0)\<lparr>rg_store := st\<rparr>"
      "r = Inr \<lparr>pr_generation = en_generation en v, pr_sequence = q, pr_digest = en_compute_digest en v\<rparr>"
proof -
  let ?v = "en_set_digest en (en_compute_digest en v) (en_set_epoch en (rg_current_epoch rg) (normalized en v))"
  let ?w = "en_encode en ?v (new_writer kMaxCanonicalRecordBytes)"
  have norm: "en_set_provenance en p ?v = asserted en (rg_current_epoch rg) p v" for p
    by (simp add: normalized_def asserted_def)
  obtain s rg0 where st: "stage_with_retry ty (w_buffer ?w) rg = (s, rg0)" by fastforce
  have mv: "moved rg rg0" by (rule stage_moved [OF st])
  have t0: "table_ok en Q (keep rg) m (en_table en rg0)" "rg_current_epoch rg0 = rg_current_epoch rg"
    using moved_table [OF mv t] moved_fields [OF mv] by auto
  show thesis
  proof (cases "w_failed ?w")
    case True
    then show thesis using run that(1) by (simp add: store_generation_def Let_def) (metis moved_refl)
  next
    case False
    show thesis
    proof (cases s)
      case (Inl e)
      with False show thesis using run st mv that(1) by (auto simp: store_generation_def Let_def)
    next
    case q: (Inr q)
    let ?a = "asserted en (rg_current_epoch rg)
      (make_provenance ''registry'' (rg_current_epoch rg) (en_generation en v) q) v"
    obtain c rg1 where cm: "on_store (Commit q (en_compute_digest en v)) (stored_in en ?a rg0) = (c, rg1)"
      by fastforce
    obtain st' where rg1: "rg1 = (stored_in en ?a rg0)\<lparr>rg_store := st'\<rparr>"
      using cm by (auto simp: on_store_def Let_def split: prod.splits)
    have step: "(r, rg') = (case c of
          Inl e \<Rightarrow> (Inl e, en_set_table en (if held (en_table en rg0) (en_id en v) = []
            then fmdrop (en_id en v) (en_table en rg1)
            else fmupd (en_id en v) (held (en_table en rg0) (en_id en v)) (en_table en rg1)) rg1)
        | Inr _ \<Rightarrow> (Inr \<lparr>pr_generation = en_generation en v, pr_sequence = q,
            pr_digest = en_compute_digest en v\<rparr>, rg1))"
      using run cm
      by (simp only: store_generation_def Let_def False if_False st q bindD_simps meta_generation
          normalized_simps norm t0(2) asserted_simps stored_in_def push_to_def prod.case)
    show thesis
    proof (cases c)
      case (Inl e)
      have "(if held (en_table en rg0) (en_id en v) = [] then fmdrop (en_id en v) (en_table en rg1)
          else fmupd (en_id en v) (held (en_table en rg0) (en_id en v)) (en_table en rg1)) = en_table en rg0"
        using push_restore [OF t0(1), of "en_id en v"]
        by (simp only: rg1 stored_in_def push_to_def lens asserted_simps)
      then have "rg' = rg0\<lparr>rg_store := st'\<rparr>"
        using step Inl by (simp only: prod.inject sum.case) (simp add: rg1 stored_in_def)
      then show thesis using that(1) [of e] step Inl moved_store [OF mv] by simp
    next
      case (Inr u)
      then show thesis using that(2) [OF mv] step rg1 by simp
    qed
    qed
  qed
qed

text \<open>
  A publication: refused, repeated, taken as a conflict, or stored. Only the last adds a value, and
  only as the successor of the newest one it found.
\<close>

lemma record_conflict_cases:
  assumes "record_conflict mk rg = (r, rg')"
  obtains e rg0 st where "r = Inl e" "moved rg rg0"
    "rg' = rg0 \<or> rg' = rg0\<lparr>rg_store := st, rg_conflicts := push_conflict mk (rg_conflicts rg0)\<rparr> \<or>
     rg' = rg0\<lparr>rg_store := st, rg_conflicts := butlast (push_conflict mk (rg_conflicts rg0))\<rparr>"
proof -
  obtain s rg0 where st: "stage_with_retry RT_ConflictRecord (w_buffer (write_marker mk (new_writer 512))) rg = (s, rg0)"
    by fastforce
  have mv: "moved rg rg0" by (rule stage_moved [OF st])
  show thesis
  proof (cases "w_failed (write_marker mk (new_writer 512))")
    case True
    then show thesis using assms that [OF _ moved_refl] by (auto simp: record_conflict_def Let_def)
  next
    case False
    show thesis
    proof (cases s)
      case (Inl e)
      with False st assms that [OF _ mv] show thesis by (auto simp: record_conflict_def Let_def)
    next
      case (Inr q)
      obtain c st' where c: "Commit q (sha256 (bytes_of_string (cm_detail mk))) (rg_store rg0) = (c, st')"
        by fastforce
      show thesis
      proof (cases c)
        case (Inl e)
        then show thesis using False st \<open>s = Inr q\<close> c assms that [OF _ mv, of e st']
          by (simp add: record_conflict_def on_store_def)
      next
        case (Inr u)
        then show thesis using False st \<open>s = Inr q\<close> c assms that [OF _ mv, of _ st']
          by (auto simp add: record_conflict_def on_store_def)
      qed
    qed
  qed
qed

lemma publish_cases:
  assumes run: "publish_entity en ty v m rg = (r, rg')"
    and t: "table_ok en Q (keep rg) m (en_table en rg)" "0 < keep rg"
  obtains (refused) e where "r = Inl e" "moved rg rg'"
  | (repeated) "moved rg rg'" "held (en_table en rg) (en_id en v) \<noteq> []"
      "en_generation en (last (held (en_table en rg) (en_id en v))) = en_generation en v"
      "en_digest en (last (held (en_table en rg) (en_id en v))) = en_compute_digest en v"
      "r = Inr \<lparr>pr_generation = en_generation en v, pr_sequence = 0, pr_digest = en_compute_digest en v\<rparr>"
  | (conflict) e rg0 st mk where "r = Inl e" "moved rg rg0" "held (en_table en rg) (en_id en v) \<noteq> []"
      "en_generation en (last (held (en_table en rg) (en_id en v))) = en_generation en v"
      "en_digest en (last (held (en_table en rg) (en_id en v))) \<noteq> en_compute_digest en v"
      "mk = \<lparr>cm_scope = scope_of ty, cm_id = en_id en v, cm_generation = en_generation en v,
         cm_incumbent_digest = en_digest en (last (held (en_table en rg) (en_id en v))),
         cm_challenger_digest = en_compute_digest en v, cm_epoch = rg_current_epoch rg,
         cm_detail = equivocation_detail\<rparr>"
      "rg' = rg0 \<or> rg' = rg0\<lparr>rg_store := st, rg_conflicts := push_conflict mk (rg_conflicts rg0)\<rparr> \<or>
       rg' = rg0\<lparr>rg_store := st, rg_conflicts := butlast (push_conflict mk (rg_conflicts rg0))\<rparr>"
  | (stored) rg0 st q where "moved rg rg0" "en_validate en v = Inr ()" "en_generation en v \<noteq> 0"
      "if held (en_table en rg) (en_id en v) = []
       then en_generation en v = 1 \<and> fcard (fmdom (en_table en rg0)) < m
       else try_increment (en_generation en (last (held (en_table en rg) (en_id en v)))) = Some (en_generation en v)"
      "length (held (en_table en rg0) (en_id en v)) \<le> keep rg"
      "rg' = (stored_in en (asserted en (rg_current_epoch rg)
          (make_provenance ''registry'' (rg_current_epoch rg) (en_generation en v) q) v) rg0)\<lparr>rg_store := st\<rparr>"
      "r = Inr \<lparr>pr_generation = en_generation en v, pr_sequence = q, pr_digest = en_compute_digest en v\<rparr>"
proof -
  let ?k = "en_id en v" and ?t = "en_table en rg" and ?d = "en_compute_digest en v"
  obtain u rg1 where mr: "make_room en ?k rg = (u, rg1)" by fastforce
  have mv1: "moved rg rg1" by (rule room_moved [OF mr])
  have t1: "table_ok en Q (keep rg) m (en_table en rg1)" "newest_kept ?t (en_table en rg1) ?k"
    using moved_table [OF mv1 t] by auto
  have fld: "keep rg1 = keep rg" "rg_current_epoch rg1 = rg_current_epoch rg" using moved_fields [OF mv1] by auto
  show thesis
  proof (cases "(\<exists>e. en_validate en v = Inl e) \<or> en_generation en v = 0 \<or> (\<exists>e. u = Inl e)")
    case True
    then show thesis
      using run mr mv1 refused moved_refl by (auto simp: publish_entity_def split: sum.splits if_splits)
  next
    case False
    then have ok: "en_validate en v = Inr ()" "en_generation en v \<noteq> 0" "u = Inr ()"
      by (metis sum.exhaust old.unit.exhaust)+
    have room: "length (held (en_table en rg1) ?k) \<le> keep rg" using room_made [OF _ t] mr ok(3) by simp
    have stored_case: thesis
      if sg: "store_generation en ty (normalized en v) ?d rg1 = (r, rg')"
        and g: "if held ?t ?k = [] then en_generation en v = 1 \<and> fcard (fmdom (en_table en rg1)) < m
          else try_increment (en_generation en (last (held ?t ?k))) = Some (en_generation en v)"
    proof (rule store_generation_cases [OF sg])
      show "table_ok en Q (keep rg1) m (en_table en rg1)" "0 < keep rg1" using t1 t(2) fld by auto
      fix e assume "r = Inl e" "moved rg1 rg'"
      then show thesis using refused moved_trans [OF _ mv1] by blast
    next
      fix rg0 st q
      assume s: "moved rg1 rg0"
        "rg' = (stored_in en (asserted en (rg_current_epoch rg1)
          (make_provenance ''registry'' (rg_current_epoch rg1) (en_generation en v) q) v) rg0)\<lparr>rg_store := st\<rparr>"
        "r = Inr \<lparr>pr_generation = en_generation en v, pr_sequence = q, pr_digest = ?d\<rparr>"
      have "fmdom (en_table en rg0) = fmdom (en_table en rg1)"
        "length (held (en_table en rg0) ?k) \<le> length (held (en_table en rg1) ?k)"
        using moved_table [OF s(1), of _ _ ?k] t1(1) t(2) fld by (auto simp: newest_kept_def)
      then show thesis
        using stored [OF moved_trans [OF s(1) mv1] ok(1,2) _ _ _ s(3)] s(2) g room fld by auto
    qed
    have held1: "held (en_table en rg1) ?k = [] \<longleftrightarrow> held ?t ?k = []"
      "last (held (en_table en rg1) ?k) = last (held ?t ?k)" using t1(2) by (auto simp: newest_kept_def)
    show thesis
    proof (cases "fmlookup (en_table en rg1) ?k")
      case None
      then have none: "held ?t ?k = []" using held1 by (simp add: held_def)
      show thesis
      proof (cases "m \<le> fcard (fmdom (en_table en rg1)) \<or> en_generation en v \<noteq> 1")
        case True
        then show thesis using run ok mr None refused mv1
          by (auto simp: publish_entity_def Let_def split: if_splits)
      next
        case False
        then show thesis using stored_case run ok mr None none by (simp add: publish_entity_def Let_def)
      qed
    next
      case (Some vs)
      let ?l = "last (held ?t ?k)"
      have some: "held ?t ?k \<noteq> []" "last vs = ?l"
        using held1 held_empty [OF t1(1), of ?k] Some by (auto simp: held_def)
      consider "en_generation en v < en_generation en ?l"
        | "en_generation en v = en_generation en ?l" "en_digest en ?l = ?d"
        | "en_generation en v = en_generation en ?l" "en_digest en ?l \<noteq> ?d"
        | "en_generation en ?l < en_generation en v" "try_increment (en_generation en ?l) \<noteq> Some (en_generation en v)"
        | "en_generation en ?l < en_generation en v" "try_increment (en_generation en ?l) = Some (en_generation en v)"
        by fastforce
      then show thesis
      proof cases
        case 1
        then show thesis using run ok mr Some some refused mv1 by (auto simp: publish_entity_def Let_def)
      next
        case 2
        then show thesis using run ok mr Some some repeated mv1 by (auto simp: publish_entity_def Let_def)
      next
        case 3
        let ?mk = "\<lparr>cm_scope = scope_of ty, cm_id = ?k, cm_generation = en_generation en v,
          cm_incumbent_digest = en_digest en ?l, cm_challenger_digest = ?d,
          cm_epoch = rg_current_epoch rg, cm_detail = equivocation_detail\<rparr>"
        have "record_conflict ?mk rg1 = (r, rg')"
          using 3 run ok mr Some some fld by (simp add: publish_entity_def Let_def)
        then show thesis
        proof (rule record_conflict_cases)
          fix e rg0 st assume "r = Inl e" "moved rg1 rg0"
            "rg' = rg0 \<or> rg' = rg0\<lparr>rg_store := st, rg_conflicts := push_conflict ?mk (rg_conflicts rg0)\<rparr> \<or>
             rg' = rg0\<lparr>rg_store := st, rg_conflicts := butlast (push_conflict ?mk (rg_conflicts rg0))\<rparr>"
          then show thesis
            using conflict [of e rg0 ?mk st] 3 some(1) moved_trans [OF _ mv1] by auto
        qed
      next
        case 4
        then have "\<not> en_generation en v < en_generation en ?l" "en_generation en v \<noteq> en_generation en ?l" by auto
        with 4 show thesis using run ok mr Some some refused mv1 by (auto simp: publish_entity_def Let_def)
      next
        case 5
        then have "\<not> en_generation en v < en_generation en ?l" "en_generation en v \<noteq> en_generation en ?l" by auto
        with 5 have "store_generation en ty (normalized en v) ?d rg1 = (r, rg')"
          using run ok mr Some some by (auto simp: publish_entity_def Let_def)
        then show thesis using stored_case 5 some by simp
      qed
    qed
  qed
qed

end

end
