(* ===== verification/Registry_Inv.thy ===== *)
theory Registry_Inv
  imports Registry_Laws Store_Props
begin

text \<open>
  The invariant of the registry: every operation keeps it, on every branch, whatever the disk does.
\<close>

section \<open>Publications\<close>

context published begin

lemma push_ok:
  assumes t: "table_ok en Q n m t" and v: "Q v" "en_generation en v \<noteq> 0" "en_digest en v = en_compute_digest en v"
    and next_gen: "if held t (en_id en v) = [] then fcard (fmdom t) < m
      else try_increment (en_generation en (last (held t (en_id en v)))) = Some (en_generation en v)"
    and room: "length (held t (en_id en v)) \<le> n"
  shows "table_ok en Q n m (push_to (en_id en v) v t)"
proof -
  let ?k = "en_id en v"
  have "consecutive (map (en_generation en) (held t ?k @ [v]))"
    using next_gen v(2) held_ok(2) [OF t, of ?k] by (auto simp: consecutive_snoc last_map split: if_splits)
  moreover have "fcard (finsert ?k (fmdom t)) \<le> m"
    using next_gen t held_empty [OF t, of ?k]
    by (auto simp: table_ok_def fcard_finsert_if fmdom_notI split: if_splits)
  moreover have "x \<in> set (held t ?k) \<Longrightarrow> en_id en x = ?k \<and> Q x \<and> en_digest en x = en_compute_digest en x" for x
    using held_ok(4) [OF t, of ?k x] by (cases "held t ?k = []") auto
  ultimately show ?thesis
    using t room v by (auto simp: table_ok_def push_to_def)
qed

lemma asserted_ok:
  "en_validate en v = Inr () \<Longrightarrow> complete v \<Longrightarrow> provenance_ok p \<Longrightarrow> ok (asserted en e p v)"
  using ok_set [of v p] by (simp add: asserted_def)

text \<open>A predicate that survives pruning and new tables of this type survives a publication.\<close>

lemma publish_keeps:
  assumes run: "publish_entity en ty v m rg = (r, rg')" and I: "I rg"
    and table: "\<And>rg. I rg \<Longrightarrow> table_ok en Q (keep rg) m (en_table en rg) \<and> 0 < keep rg"
    and moved: "\<And>rg rg0. I rg \<Longrightarrow> moved rg rg0 \<Longrightarrow> I rg0"
    and set_table: "\<And>rg t. I rg \<Longrightarrow> table_ok en Q (keep rg) m t \<Longrightarrow> I (en_set_table en t rg)"
    and set_conflicts: "\<And>rg c. I rg \<Longrightarrow> length c \<le> kMaxStoredConflicts \<Longrightarrow> I (rg\<lparr>rg_conflicts := c\<rparr>)"
    and small: "\<And>rg. I rg \<Longrightarrow> length (rg_conflicts rg) \<le> kMaxStoredConflicts"
    and Q: "\<And>e p. en_validate en v = Inr () \<Longrightarrow> provenance_ok p \<Longrightarrow> Q (asserted en e p v)"
  shows "I rg'"
proof (rule publish_cases [OF run, where Q = Q])
  show "table_ok en Q (keep rg) m (en_table en rg)" "0 < keep rg" using table [OF I] by auto
next
  fix e rg0 st mk
  assume c: "moved rg rg0"
    "rg' = rg0 \<or> rg' = rg0\<lparr>rg_store := st, rg_conflicts := push_conflict mk (rg_conflicts rg0)\<rparr> \<or>
     rg' = rg0\<lparr>rg_store := st, rg_conflicts := butlast (push_conflict mk (rg_conflicts rg0))\<rparr>"
  have I0: "I rg0" and s: "length (rg_conflicts rg0) \<le> kMaxStoredConflicts" using moved [OF I c(1)] small by auto
  have I1: "I (rg0\<lparr>rg_store := st\<rparr>)" by (rule moved [OF I0 moved_store [OF moved_refl]])
  have "length (push_conflict mk (rg_conflicts rg0)) \<le> kMaxStoredConflicts"
    using s by (simp add: push_conflict_def Let_def)
  with c(2) I0 show "I rg'" by (auto intro!: set_conflicts [OF I1])
next
  fix rg0 st q
  assume c: "moved rg rg0" "en_validate en v = Inr ()" "en_generation en v \<noteq> 0"
    "if held (en_table en rg) (en_id en v) = []
     then en_generation en v = 1 \<and> fcard (fmdom (en_table en rg0)) < m
     else try_increment (en_generation en (last (held (en_table en rg) (en_id en v)))) = Some (en_generation en v)"
    "length (held (en_table en rg0) (en_id en v)) \<le> keep rg"
    "rg' = (stored_in en (asserted en (rg_current_epoch rg)
          (make_provenance ''registry'' (rg_current_epoch rg) (en_generation en v) q) v) rg0)\<lparr>rg_store := st\<rparr>"
  let ?a = "asserted en (rg_current_epoch rg)
          (make_provenance ''registry'' (rg_current_epoch rg) (en_generation en v) q) v"
  have I0: "I rg0" by (rule moved [OF I c(1)])
  have k: "newest_kept (en_table en rg) (en_table en rg0) (en_id en v)" "keep rg0 = keep rg"
    using moved_table [OF c(1), of Q m "en_id en v"] table [OF I] moved_fields [OF c(1)] by auto
  have "table_ok en Q (keep rg0) m (push_to (en_id en ?a) ?a (en_table en rg0))"
    by (rule push_ok) (use table [OF I0] Q [OF c(2)] c k in \<open>auto simp: newest_kept_def split: if_splits\<close>)
  then have "I (stored_in en ?a rg0)" unfolding stored_in_def by (rule set_table [OF I0])
  from moved [OF this moved_store [OF moved_refl]] show "I rg'" by (simp add: c(6))
qed (use moved [OF I] in auto)

end

section \<open>Every operation keeps the invariant\<close>

text \<open>The weaker of the two conditions on stored capabilities: validated, with or without a failure domain.\<close>

definition capability_checked :: "resource_capability \<Rightarrow> bool" where
  "capability_checked v \<longleftrightarrow> validate_capability v = Inr () \<and> provenance_ok (ca_provenance v)"

lemma keeps_tables:
  assumes "registry_ok K rg"
  shows "table_ok class_entity class_ok (keep rg) kMaxClassesRetained t \<Longrightarrow>
      registry_ok K (rg\<lparr>rg_classes := t\<rparr>)"
    "table_ok policy_entity policy_ok (keep rg) kMaxPoliciesRetained u \<Longrightarrow>
      registry_ok K (rg\<lparr>rg_policies := u\<rparr>)"
    "table_ok path_entity path_ok (keep rg) kMaxPathsRetained x \<Longrightarrow> registry_ok K (rg\<lparr>rg_paths := x\<rparr>)"
    "table_ok capability_entity K (keep rg) kMaxCapabilitiesRetained y \<Longrightarrow>
      registry_ok K (rg\<lparr>rg_capabilities := y\<rparr>)"
    "table_ok reservation_entity reservation_ok (keep rg) kMaxCapabilitiesRetained z \<Longrightarrow>
      registry_ok K (rg\<lparr>rg_reservations := z\<rparr>)"
    "length c \<le> kMaxStoredConflicts \<Longrightarrow> registry_ok K (rg\<lparr>rg_conflicts := c\<rparr>)"
  using assms by (simp_all add: registry_ok_defs)

lemma registry_ok_tables:
  assumes "registry_ok K rg"
  shows "table_ok class_entity class_ok (keep rg) kMaxClassesRetained (rg_classes rg)"
    "table_ok policy_entity policy_ok (keep rg) kMaxPoliciesRetained (rg_policies rg)"
    "table_ok path_entity path_ok (keep rg) kMaxPathsRetained (rg_paths rg)"
    "table_ok capability_entity K (keep rg) kMaxCapabilitiesRetained (rg_capabilities rg)"
    "table_ok reservation_entity reservation_ok (keep rg) kMaxCapabilitiesRetained (rg_reservations rg)"
    "0 < keep rg" "length (rg_conflicts rg) \<le> kMaxStoredConflicts"
  using assms by (simp_all add: registry_ok_defs)

lemma en_table_simps [simp]:
  "en_table class_entity = rg_classes" "en_table policy_entity = rg_policies"
  "en_table path_entity = rg_paths" "en_table capability_entity = rg_capabilities"
  "en_table reservation_entity = rg_reservations"
  "en_set_table class_entity t rg = rg\<lparr>rg_classes := t\<rparr>"
  "en_set_table policy_entity u rg = rg\<lparr>rg_policies := u\<rparr>"
  "en_set_table path_entity x rg = rg\<lparr>rg_paths := x\<rparr>"
  "en_set_table capability_entity y rg = rg\<lparr>rg_capabilities := y\<rparr>"
  "en_set_table reservation_entity z rg = rg\<lparr>rg_reservations := z\<rparr>"
  by (simp_all add: entity_defs)

lemma en_validate_simps:
  "en_validate class_entity = validate_class" "en_validate policy_entity = validate_policy"
  "en_validate path_entity = validate_path" "en_validate capability_entity = validate_capability"
  "en_validate reservation_entity = validate_reservation"
  by (simp_all add: entity_defs)

lemma publish_keeps_ok:
  assumes "registry_ok K rg"
  shows "publish_entity class_entity ty c kMaxClassesRetained rg = (r, rg') \<Longrightarrow> registry_ok K rg'"
    "publish_entity policy_entity ty p kMaxPoliciesRetained rg = (r, rg') \<Longrightarrow> registry_ok K rg'"
    "publish_entity path_entity ty a kMaxPathsRetained rg = (r, rg') \<Longrightarrow> registry_ok K rg'"
    "publish_entity reservation_entity ty s kMaxCapabilitiesRetained rg = (r, rg') \<Longrightarrow> registry_ok K rg'"
    "(\<And>e q. validate_capability k = Inr () \<Longrightarrow> provenance_ok q \<Longrightarrow> K (asserted capability_entity e q k)) \<Longrightarrow>
     publish_entity capability_entity ty k kMaxCapabilitiesRetained rg = (r, rg') \<Longrightarrow> registry_ok K rg'"
proof -
  note rules = registry_ok_tables keeps_tables moved_ok assms
  show "publish_entity class_entity ty c kMaxClassesRetained rg = (r, rg') \<Longrightarrow> registry_ok K rg'"
    by (erule pub_class.publish_keeps [where I = "registry_ok K" and Q = class_ok])
      (auto intro: rules pub_class.asserted_ok simp: any_def)
  show "publish_entity policy_entity ty p kMaxPoliciesRetained rg = (r, rg') \<Longrightarrow> registry_ok K rg'"
    by (erule pub_policy.publish_keeps [where I = "registry_ok K" and Q = policy_ok])
      (auto intro: rules pub_policy.asserted_ok simp: any_def)
  show "publish_entity path_entity ty a kMaxPathsRetained rg = (r, rg') \<Longrightarrow> registry_ok K rg'"
    by (erule pub_path.publish_keeps [where I = "registry_ok K" and Q = path_ok])
      (auto intro: rules pub_path.asserted_ok simp: any_def)
  show "publish_entity reservation_entity ty s kMaxCapabilitiesRetained rg = (r, rg') \<Longrightarrow> registry_ok K rg'"
    by (erule pub_reservation.publish_keeps [where I = "registry_ok K" and Q = reservation_ok])
      (auto intro: rules pub_reservation.asserted_ok simp: any_def)
  show "publish_entity capability_entity ty k kMaxCapabilitiesRetained rg = (r, rg') \<Longrightarrow> registry_ok K rg'"
    if "\<And>e q. validate_capability k = Inr () \<Longrightarrow> provenance_ok q \<Longrightarrow> K (asserted capability_entity e q k)"
    by (erule pub_capability.publish_keeps [where I = "registry_ok K" and Q = K])
      (auto intro: rules that simp: en_validate_simps)
qed

lemma tick_simps [simp]:
  "registry_ok K (tick c rg) = registry_ok K rg" "rg_leases (tick c rg) = rg_leases rg"
  "rg_watermark (tick c rg) = rg_watermark rg" "rg_current_epoch (tick c rg) = rg_current_epoch rg"
  by (simp_all add: tick_def registry_ok_defs)

lemma authority_kept:
  assumes "registry_ok K rg"
  shows "registry_ok K (rg\<lparr>rg_durable_epoch := e, rg_current_epoch := e, rg_leases := fmempty\<rparr>)"
    "registry_ok K (rg\<lparr>rg_now_ms := t, rg_clock_pinned := b\<rparr>)"
  using assms by (simp_all add: registry_ok_defs)

lemma leases_kept:
  assumes "registry_ok K rg"
    and "\<And>p l. fmlookup ls p = Some l \<Longrightarrow> fmlookup (rg_leases rg) p = Some l"
  shows "registry_ok K (rg\<lparr>rg_leases := ls\<rparr>)"
  using assms(1) assms(2) by (auto simp: registry_ok_defs)

lemma on_store_ok: "registry_ok K rg \<Longrightarrow> on_store f rg = (r, rg') \<Longrightarrow> registry_ok K rg'"
  by (rule moved_ok [OF on_store_moved])

lemma advance_ok:
  assumes "registry_ok K rg" and "advance_epoch_locked reason rg = (r, rg')"
  shows "registry_ok K rg'"
proof (cases "try_increment (rg_durable_epoch rg)")
  case (Some e)
  let ?w = "w_seq [w_u64 e, w_str (take kMaxReasonLen reason) kMaxReasonLen] (new_writer 512)"
  obtain a rg0 where a: "on_store (Append RT_EpochAdvance (w_buffer ?w)) rg = (a, rg0)" by fastforce
  have ok: "registry_ok K rg0" by (rule on_store_ok [OF assms(1) a])
  show ?thesis
    using assms Some a ok authority_kept(1) [OF ok]
    by (auto simp: advance_epoch_locked_def Let_def bindD_def split: if_splits sum.splits)
qed (use assms in \<open>simp add: advance_epoch_locked_def\<close>)

lemma grant_ok:
  assumes ok: "registry_ok K rg" and run: "grant_lease l origin rg = (r, rg')"
    and l: "is_valid (ls_publisher l)" "ls_incarnation l \<noteq> 0" "ls_epoch l = rg_current_epoch rg"
      "unat (ls_expires_at_ms l) \<le> unat (ls_granted_at_ms l) + unat kMaxLeaseMs"
    and room: "fmlookup (rg_watermark rg) (ls_publisher l) \<noteq> None \<or>
      fcard (fmdom (rg_watermark rg)) < kMaxPublishersRetained"
  shows "registry_ok K rg'"
proof -
  let ?p = "ls_publisher l"
  let ?w = "w_seq [w_str ?p kMaxIdentifierLen, w_u64 (ls_incarnation l), w_raw (ls_boot l),
    w_u64 (ls_granted_at_ms l), w_u64 (ls_expires_at_ms l),
    w_str (take kMaxOriginLen origin) kMaxOriginLen] (new_writer 512)"
  obtain s rg0 where st: "stage_with_retry RT_RegisterPublisher (w_buffer ?w) rg = (s, rg0)" by fastforce
  have mv: "moved rg rg0" by (rule stage_moved [OF st])
  have ok0: "registry_ok K rg0" by (rule moved_ok [OF mv ok])
  have f: "rg_watermark rg0 = rg_watermark rg" "rg_current_epoch rg0 = rg_current_epoch rg"
    using moved_fields [OF mv] by auto
  have granted: "registry_ok K (rg0\<lparr>rg_watermark := fmupd ?p (ls_incarnation l) (rg_watermark rg0),
      rg_leases := fmupd ?p (l\<lparr>ls_lease := q\<rparr>) (rg_leases rg0)\<rparr>)" for q
    using ok0 l room f by (auto simp: registry_ok_defs fcard_finsert_if fmdom_notI lease_ok_def mark_ok_def)
  have put_back: "fmdrop k (fmupd k x m) = fmdrop k m" "fmlookup m k = Some y \<Longrightarrow> fmupd k y m = m"
    "fmlookup m k = None \<Longrightarrow> fmdrop k m = m" for k x y and m :: "(string, 'z) fmap"
    by (auto intro!: fmap_ext)
  have undone: "registry_ok K (rg0\<lparr>rg_leases := fmdrop ?p (fmupd ?p x (rg_leases rg0)), rg_watermark :=
      (case fmlookup (rg_watermark rg) ?p of None \<Rightarrow> fmdrop ?p (fmupd ?p i (rg_watermark rg0))
        | Some j \<Rightarrow> fmupd ?p j (fmupd ?p i (rg_watermark rg0)))\<rparr>)" for x i
    by (auto simp: put_back f(1) [symmetric] split: option.splits if_splits intro!: leases_kept [OF ok0])
  show ?thesis
  proof (cases "w_failed ?w")
    case True
    then show ?thesis using run ok by (simp add: grant_lease_def Let_def)
  next
    case False
    show ?thesis
    proof (cases s)
      case (Inl e)
      then show ?thesis using run st False ok0 by (simp add: grant_lease_def Let_def)
    next
      case (Inr q)
      let ?g = "rg0\<lparr>rg_watermark := fmupd ?p (ls_incarnation l) (rg_watermark rg0),
        rg_leases := fmupd ?p (l\<lparr>ls_lease := q\<rparr>) (rg_leases rg0)\<rparr>"
      obtain c st' where c: "Commit q (sha256 (bytes_of_string ?p)) (rg_store ?g) = (c, st')" by fastforce
      show ?thesis
      proof (cases c)
        case (Inl e)
        then have "rg' = (rg0\<lparr>rg_leases := fmdrop ?p (fmupd ?p (l\<lparr>ls_lease := q\<rparr>) (rg_leases rg0)), rg_watermark :=
          (case fmlookup (rg_watermark rg) ?p of None \<Rightarrow> fmdrop ?p (fmupd ?p (ls_incarnation l) (rg_watermark rg0))
            | Some j \<Rightarrow> fmupd ?p j (fmupd ?p (ls_incarnation l) (rg_watermark rg0)))\<rparr>)\<lparr>rg_store := st'\<rparr>"
          using run st False \<open>s = Inr q\<close> c
          by (auto simp: grant_lease_def Let_def on_store_def split: option.splits)
        then show ?thesis using undone by simp
      next
        case (Inr u)
        then have "rg' = ?g\<lparr>rg_store := st'\<rparr>"
          using run st False \<open>s = Inr q\<close> c by (simp add: grant_lease_def Let_def on_store_def)
        then show ?thesis using granted by simp
      qed
    qed
  qed
qed

lemma register_ok:
  assumes ok: "registry_ok K rg" and run: "RegisterPublisher clock p i boot ttl origin rg = (r, rg')"
  shows "registry_ok K rg'"
proof (cases "\<exists>e. r = Inl e \<and> rg' = tick clock rg")
  case True
  then show ?thesis using ok by auto
next
  case False
  let ?t = "tick clock rg"
  have okt: "registry_ok K ?t" using ok by simp
  obtain expires where x: "is_valid p" "i \<noteq> 0" "ttl \<le> kMaxLeaseMs" "checked_add (rg_now_ms ?t) ttl = Some expires"
    "\<not> (fmlookup (rg_watermark ?t) p = None \<and> fcard (fmdom (rg_watermark ?t)) \<ge> kMaxPublishersRetained)"
    and g: "grant_lease \<lparr>ls_publisher = p, ls_incarnation = i, ls_epoch = rg_current_epoch ?t, ls_lease = 0,
      ls_boot = boot, ls_granted_at_ms = rg_now_ms ?t, ls_expires_at_ms = expires\<rparr> origin ?t = (r, rg')"
    using run False by (auto simp: RegisterPublisher_def Let_def split: if_splits option.splits)
  have "unat expires = unat (rg_now_ms ?t) + unat ttl" by (rule checked_add_unat [OF x(4)])
  moreover have "unat ttl \<le> unat kMaxLeaseMs" using x(3) by (simp add: word_le_nat_alt)
  ultimately show ?thesis
    by (intro grant_ok [OF okt g]) (use x in auto)
qed

lemma revoke_ok:
  assumes ok: "registry_ok K rg" and run: "RevokePublisher clock p i rg = (r, rg')"
  shows "registry_ok K rg'"
proof (cases "\<exists>e. r = Inl e \<and> rg' = tick clock rg")
  case True
  then show ?thesis using ok by auto
next
  case False
  let ?t = "tick clock rg"
  let ?w = "w_seq [w_str p kMaxIdentifierLen, w_u64 i] (new_writer 256)"
  have okt: "registry_ok K ?t" using ok by simp
  obtain l where l: "fmlookup (rg_leases ?t) p = Some l" "\<not> w_failed ?w"
    and run': "bindD (stage_with_retry RT_RevokePublisher (w_buffer ?w) ?t) (\<lambda>staged rg.
                let rg = rg\<lparr>rg_leases := fmdrop p (rg_leases rg)\<rparr>;
                    (committed, rg) = on_store (Commit staged (sha256 (bytes_of_string p))) rg in
                case committed of
                  Inl e \<Rightarrow> (Inl e, rg\<lparr>rg_leases := fmupd p l (rg_leases rg)\<rparr>)
                | Inr _ \<Rightarrow> (Inr (), rg)) = (r, rg')"
    using run False by (auto simp: RevokePublisher_def Let_def split: if_splits option.splits)
  obtain s rg0 where st: "stage_with_retry RT_RevokePublisher (w_buffer ?w) ?t = (s, rg0)" by fastforce
  have mv: "moved ?t rg0" by (rule stage_moved [OF st])
  have ok0: "registry_ok K rg0" by (rule moved_ok [OF mv okt])
  have dropped: "registry_ok K (rg0\<lparr>rg_leases := fmdrop p (rg_leases rg0)\<rparr>)"
    by (rule leases_kept [OF ok0]) (auto split: if_splits)
  have restored: "fmupd p l (fmdrop p (rg_leases rg0)) = rg_leases rg0"
    using l(1) moved_fields [OF mv] by (auto intro!: fmap_ext)
  show ?thesis
  proof (cases s)
    case (Inl e)
    then show ?thesis using run' st ok0 by simp
  next
    case (Inr q)
    obtain c st' where c: "Commit q (sha256 (bytes_of_string p)) (rg_store rg0) = (c, st')" by fastforce
    have "rg' = (rg0\<lparr>rg_leases := (case c of Inl _ \<Rightarrow> fmupd p l (fmdrop p (rg_leases rg0))
        | Inr _ \<Rightarrow> fmdrop p (rg_leases rg0))\<rparr>)\<lparr>rg_store := st'\<rparr>"
      using run' st Inr c by (cases c) (auto simp: Let_def on_store_def)
    then show ?thesis using dropped ok0 by (cases c) (simp_all add: restored)
  qed
qed

lemma entry_ok_mono: "entry_ok order k v \<Longrightarrow> set order \<subseteq> set order' \<Longrightarrow> entry_ok order' k v"
  by (auto simp: entry_ok_def)

text \<open>The key of a decision names its contract: the last hash mark separates it from the generation.\<close>

lemma key_of_inject: "key_of a g = key_of b h \<longleftrightarrow> a = b \<and> g = h"
proof
  have digits: "CHR ''#'' \<notin> set (rev (u64_to_string x))" for x
    using dec_string_digits [of "CHR ''#''" "unat x"] by (auto simp: u64_to_string_def)
  assume "key_of a g = key_of b h"
  then have "rev (key_of a g) = rev (key_of b h)" by simp
  then have "rev (u64_to_string g) @ CHR ''#'' # rev a = rev (u64_to_string h) @ CHR ''#'' # rev b"
    by (simp add: key_of_def)
  moreover from this have "takeWhile (\<lambda>c. c \<noteq> CHR ''#'') (rev (u64_to_string g) @ CHR ''#'' # rev a) =
      takeWhile (\<lambda>c. c \<noteq> CHR ''#'') (rev (u64_to_string h) @ CHR ''#'' # rev b)" by simp
  then have "rev (u64_to_string g) = rev (u64_to_string h)"
    using digits by (subst (asm) (1 2) takeWhile_append2) auto
  ultimately have "u64_to_string g = u64_to_string h" "a = b" by simp_all
  then show "a = b \<and> g = h" by (metis digits_value_dec u64_to_string_def word_unat_eq_iff)
qed simp

lemma put_decision_ok:
  assumes "\<forall>k v. fmlookup (rg_decisions rg) k = Some v \<longrightarrow> entry_ok (rg_decision_order rg) k v"
  shows "\<forall>k v. fmlookup (rg_decisions (put_decision d rg)) k = Some v \<longrightarrow>
    entry_ok (rg_decision_order (put_decision d rg)) k v"
proof (intro allI impI)
  fix k v assume l: "fmlookup (rg_decisions (put_decision d rg)) k = Some v"
  let ?key = "key_of (cd_contract d) (cd_contract_generation d)"
  have sub: "set (rg_decision_order rg) \<subseteq> set (rg_decision_order (put_decision d rg))"
    by (auto simp: put_decision_def Let_def)
  show "entry_ok (rg_decision_order (put_decision d rg)) k v"
  proof (cases "k = ?key")
    case True
    then have v: "v = d" using l by (simp add: put_decision_def Let_def)
    have "cd_contract d \<in> set (rg_decision_order (put_decision d rg))"
    proof (cases "fmlookup (rg_decisions rg) ?key")
      case (Some u)
      then have "entry_ok (rg_decision_order rg) ?key u" using assms by blast
      then show ?thesis using sub by (auto simp: entry_ok_def key_of_inject)
    qed (simp add: put_decision_def Let_def)
    with True v show ?thesis by (simp add: entry_ok_def)
  next
    case False
    then have "fmlookup (rg_decisions rg) k = Some v" using l by (simp add: put_decision_def Let_def)
    with assms sub show ?thesis by (blast intro: entry_ok_mono)
  qed
qed

lemma put_decision_fields [simp]:
  "rg_options (put_decision d rg) = rg_options rg" "rg_store (put_decision d rg) = rg_store rg"
  "rg_watermark (put_decision d rg) = rg_watermark rg" "rg_leases (put_decision d rg) = rg_leases rg"
  "rg_conflicts (put_decision d rg) = rg_conflicts rg"
  "rg_durable_epoch (put_decision d rg) = rg_durable_epoch rg"
  "rg_current_epoch (put_decision d rg) = rg_current_epoch rg"
  "rg_classes (put_decision d rg) = rg_classes rg" "rg_policies (put_decision d rg) = rg_policies rg"
  "rg_paths (put_decision d rg) = rg_paths rg" "rg_capabilities (put_decision d rg) = rg_capabilities rg"
  "rg_reservations (put_decision d rg) = rg_reservations rg"
  "put_decision d (rg\<lparr>rg_store := st\<rparr>) = (put_decision d rg)\<lparr>rg_store := st\<rparr>"
  by (simp_all add: put_decision_def Let_def)

lemma prune_decisions_fields:
  "rg_options (prune_decisions rg) = rg_options rg" "rg_watermark (prune_decisions rg) = rg_watermark rg"
  "rg_leases (prune_decisions rg) = rg_leases rg" "rg_conflicts (prune_decisions rg) = rg_conflicts rg"
  "rg_durable_epoch (prune_decisions rg) = rg_durable_epoch rg"
  "rg_current_epoch (prune_decisions rg) = rg_current_epoch rg"
  "rg_classes (prune_decisions rg) = rg_classes rg" "rg_policies (prune_decisions rg) = rg_policies rg"
  "rg_paths (prune_decisions rg) = rg_paths rg" "rg_capabilities (prune_decisions rg) = rg_capabilities rg"
  "rg_reservations (prune_decisions rg) = rg_reservations rg" "rg_store (prune_decisions rg) = rg_store rg"
  "length (rg_decision_order (prune_decisions rg)) \<le> kMaxDecisionsRetained"
  using prune_decisions_frame [of rg] by auto

lemma record_ok:
  assumes ok: "registry_ok K rg" and run: "record_decision d rg = (r, rg')"
  shows "registry_ok K rg'"
proof (cases "w_failed (encode_decision d (new_writer kMaxCanonicalRecordBytes))")
  case True
  then show ?thesis using run ok by (simp add: record_decision_def Let_def)
next
  case False
  obtain s rg0 where st: "stage_with_retry RT_RecordDecision
    (w_buffer (encode_decision d (new_writer kMaxCanonicalRecordBytes))) rg = (s, rg0)" by fastforce
  have mv: "moved rg rg0" by (rule stage_moved [OF st])
  have ok0: "registry_ok K rg0" by (rule moved_ok [OF mv ok])
  let ?key = "key_of (cd_contract d) (cd_contract_generation d)" and ?p = "put_decision d rg0"
  have entries: "\<forall>k v. fmlookup (rg_decisions rg0) k = Some v \<longrightarrow> entry_ok (rg_decision_order rg0) k v"
    and rest: "0 < keep rg0" "tables_ok K rg0" "fencing_ok rg0"
      "length (rg_conflicts rg0) \<le> kMaxStoredConflicts" "length (rg_decision_order rg0) \<le> kMaxDecisionsRetained"
    using ok0 by (simp_all add: registry_ok_def audit_ok_def)
  show ?thesis
  proof (cases s)
    case (Inl e)
    then show ?thesis using run st False ok0 by (simp add: record_decision_def Let_def)
  next
    case (Inr q)
    obtain c st' where c: "Commit q (cd_decision_digest d) (rg_store rg0) = (c, st')" by fastforce
    show ?thesis
    proof (cases c)
      case (Inl e)
      let ?order = "if fmlookup (rg_decisions rg0) ?key = None then butlast (rg_decision_order ?p)
        else rg_decision_order ?p"
      have "rg' = ?p\<lparr>rg_store := st', rg_decisions := fmdrop ?key (rg_decisions ?p), rg_decision_order := ?order\<rparr>"
        using run st False \<open>s = Inr q\<close> c Inl by (auto simp: record_decision_def Let_def on_store_def)
      moreover have "?order = rg_decision_order rg0"
        by (simp add: put_decision_def Let_def)
      moreover have "fmlookup (fmdrop ?key (rg_decisions ?p)) k = Some v \<Longrightarrow> fmlookup (rg_decisions rg0) k = Some v" for k v
        by (auto simp: put_decision_def Let_def split: if_splits)
      ultimately show ?thesis
        using entries rest by (simp add: registry_ok_def tables_ok_def fencing_ok_def audit_ok_def)
    next
      case (Inr u)
      have e: "rg' = prune_decisions (?p\<lparr>rg_store := st'\<rparr>)"
        using run st False \<open>s = Inr q\<close> c Inr by (simp add: record_decision_def Let_def on_store_def)
      have "\<forall>k v. fmlookup (rg_decisions (?p\<lparr>rg_store := st'\<rparr>)) k = Some v \<longrightarrow>
          entry_ok (rg_decision_order (?p\<lparr>rg_store := st'\<rparr>)) k v"
        using put_decision_ok [OF entries, of d] by simp
      from prune_decisions_ok [OF this] show ?thesis
        unfolding e registry_ok_def audit_ok_def tables_ok_def fencing_ok_def
        using rest(1-4) unfolding tables_ok_def fencing_ok_def by (simp add: prune_decisions_fields)
    qed
  qed
qed

section \<open>Runs of the registry\<close>

text \<open>
  The calls that change the registry. A call of \<open>Evaluate\<close> has a successor unless the engine
  reaches undefined behaviour, which it never does.
\<close>

datatype registry_call =
    DoPublishClass qos_class string
  | DoPublishPolicy policy string
  | DoPublishPath path string
  | DoPublishCapability resource_capability
  | DoPublishReservation reservation
  | DoRegister u64 string publisher_incarnation bytes u64 string
  | DoRevoke u64 string publisher_incarnation
  | DoExpire u64
  | DoAdvance string
  | DoEvaluate u64 contract_request
  | DoCompact
  | DoVerify
  | DoSetClock u64
  | DoClose

fun after :: "registry_call \<Rightarrow> registry \<Rightarrow> registry option" where
  "after (DoPublishClass v origin) rg = Some (snd (PublishClass v origin rg))"
| "after (DoPublishPolicy v origin) rg = Some (snd (PublishPolicy v origin rg))"
| "after (DoPublishPath v origin) rg = Some (snd (PublishPath v origin rg))"
| "after (DoPublishCapability v) rg = Some (snd (PublishCapability v rg))"
| "after (DoPublishReservation v) rg = Some (snd (PublishReservation v rg))"
| "after (DoRegister clock p i boot ttl origin) rg = Some (snd (RegisterPublisher clock p i boot ttl origin rg))"
| "after (DoRevoke clock p i) rg = Some (snd (RevokePublisher clock p i rg))"
| "after (DoExpire clock) rg = Some (snd (ExpireLeases clock rg))"
| "after (DoAdvance reason) rg = Some (snd (AdvanceEpoch reason rg))"
| "after (DoEvaluate clock request) rg = map_option snd (RegistryEvaluate clock request rg)"
| "after DoCompact rg = Some (snd (Compact rg))"
| "after DoVerify rg = Some (snd (RegistryVerify rg))"
| "after (DoSetClock v) rg = Some (set_now_millis v rg)"
| "after DoClose rg = Some (snd (RegistryClose rg))"

inductive reaches :: "registry \<Rightarrow> registry \<Rightarrow> bool" where
  reaches_refl: "reaches rg rg"
| reaches_step: "reaches rg rg1 \<Longrightarrow> after c rg1 = Some rg2 \<Longrightarrow> reaches rg rg2"

text \<open>A condition on stored capabilities that the publication of a checked one establishes.\<close>

definition call_complete :: "(resource_capability \<Rightarrow> bool) \<Rightarrow> registry_call \<Rightarrow> bool" where
  "call_complete K c \<longleftrightarrow> (case c of
     DoPublishCapability v \<Rightarrow> \<forall>e p q. validate_capability v = Inr () \<longrightarrow> provenance_ok p \<longrightarrow>
       K (asserted capability_entity e p (en_set_provenance capability_entity q v))
   | _ \<Rightarrow> True)"

lemma set_provenance_validate: "validate_capability (en_set_provenance capability_entity q v) = validate_capability v"
  using pub_capability.meta_validate(2) by (simp add: en_validate_simps)

lemma expire_ok: "registry_ok K rg \<Longrightarrow> ExpireLeases clock rg = (r, rg') \<Longrightarrow> registry_ok K rg'"
  by (auto simp: ExpireLeases_def Let_def split: if_splits intro!: leases_kept [of K "tick clock rg"])

lemma evaluate_ok:
  assumes "registry_ok K rg" and "RegistryEvaluate clock request rg = Some (r, rg')"
  shows "registry_ok K rg'"
proof -
  have ok: "registry_ok K (tick clock rg)" using assms(1) by simp
  from assms(2) obtain d where "decide request (tick clock rg) = Some d"
    "(case d of Inl e \<Rightarrow> (Inl e, tick clock rg) | Inr decision \<Rightarrow> recorded decision (tick clock rg)) = (r, rg')"
    by (auto simp: RegistryEvaluate_def Let_def)
  then show ?thesis
    using ok record_ok [OF ok] by (cases d) (auto simp: recorded_def bindD_def split: prod.splits sum.splits)
qed

lemma after_ok:
  assumes "registry_ok K rg" and "after c rg = Some rg'" and "call_complete K c"
  shows "registry_ok K rg'"
proof -
  note ok = assms(1) and pair = prod.collapse [symmetric]
  note kept = publish_keeps_ok(1-3) [OF ok pair] register_ok [OF ok pair] revoke_ok [OF ok pair]
    expire_ok [OF ok pair] advance_ok [OF ok pair] moved_ok [OF compact_moved [OF pair] ok]
    on_store_ok [OF ok pair] authority_kept(2) [OF ok]
  show ?thesis
  proof (cases c)
    case (DoPublishCapability v)
    have K: "K (asserted capability_entity e p (stamped capability_entity o' rg v))"
      if "validate_capability (stamped capability_entity o' rg v) = Inr ()" "provenance_ok p" for e p o'
      using assms(3) that DoPublishCapability
      by (auto simp: call_complete_def stamped_def set_provenance_validate)
    show ?thesis
      using assms(1,2) DoPublishCapability publish_keeps_ok(5) [OF ok K pair]
      by (auto simp: PublishCapability_def split: sum.splits option.splits if_splits)
  next
    case (DoPublishReservation v)
    then show ?thesis
      using assms(1,2) publish_keeps_ok(4) [OF ok pair]
      by (auto simp: PublishReservation_def split: sum.splits option.splits if_splits)
  next
    case (DoEvaluate clock request)
    then show ?thesis using assms evaluate_ok by auto
  qed (use assms(2) in \<open>auto simp: PublishClass_def PublishPolicy_def PublishPath_def AdvanceEpoch_def
     Compact_def RegistryVerify_def RegistryClose_def set_now_millis_def intro: kept\<close>)
qed

lemma checked_complete: "call_complete capability_checked c"
proof -
  have "ca_provenance (asserted capability_entity e p v) = p" for e p v
    by (simp add: asserted_def capability_entity_def)
  then show ?thesis
    using pub_capability.asserted_simps(3)
    by (auto simp: call_complete_def capability_checked_def en_validate_simps set_provenance_validate
        split: registry_call.splits)
qed

lemma reaches_ok: "reaches rg rg' \<Longrightarrow> registry_ok capability_checked rg \<Longrightarrow> registry_ok capability_checked rg'"
  by (induction rule: reaches.induct) (blast intro: after_ok checked_complete)+

lemma reaches_call: "after c rg = Some rg' \<Longrightarrow> reaches rg rg'"
  using reaches_step [OF reaches_refl] .

lemma reaches_trans: "reaches b c \<Longrightarrow> reaches a b \<Longrightarrow> reaches a c"
  by (induction rule: reaches.induct) (auto intro: reaches_step)

end
