(* ===== verification/Registry_Runs.thy ===== *)
theory Registry_Runs
  imports Registry_Inv
begin

text \<open>
  What runs of the registry do to the parts its clients rely on. The catalogue is what a reader
  sees of the published generations, with the specification of an admissible publication; the
  authority (watermarks and epoch) only ever advances; conflict markers are kept; and on a store with
  room the publications and registrations that the specification admits do succeed.
\<close>

section \<open>The catalogue of published generations\<close>

text \<open>What a reader sees of a table: the newest generation of each identifier, with its digest.\<close>

definition catalogue :: "'a entity \<Rightarrow> 'a table \<Rightarrow> string \<rightharpoonup> generation \<times> digest256" where
  "catalogue en t = (\<lambda>k. case find_latest en t k of
     Inl _ \<Rightarrow> None | Inr v \<Rightarrow> Some (en_generation en v, en_digest en v))"

fun catalogues :: "registry \<Rightarrow> conflict_scope \<Rightarrow> string \<rightharpoonup> generation \<times> digest256" where
  "catalogues rg Scope_Class = catalogue class_entity (rg_classes rg)"
| "catalogues rg Scope_Policy = catalogue policy_entity (rg_policies rg)"
| "catalogues rg Scope_Path = catalogue path_entity (rg_paths rg)"
| "catalogues rg Scope_Capability = catalogue capability_entity (rg_capabilities rg)"
| "catalogues rg Scope_Reservation = catalogue reservation_entity (rg_reservations rg)"
| "catalogues rg Scope_Count = Map.empty"

text \<open>
  The specification of a publication. Generation one opens an identifier, the successor of the
  newest generation extends it, a repetition of the newest with the same content changes nothing,
  and there is no other admissible publication.
\<close>

definition admit ::
    "string \<Rightarrow> generation \<Rightarrow> digest256 \<Rightarrow> (string \<rightharpoonup> generation \<times> digest256) \<Rightarrow>
     (string \<rightharpoonup> generation \<times> digest256) option" where
  "admit k g d c = (case c k of
     None \<Rightarrow> if g = 1 then Some (c(k \<mapsto> (g, d))) else None
   | Some (h, e) \<Rightarrow>
       if g = h then (if d = e then Some c else None)
       else if try_increment h = Some g then Some (c(k \<mapsto> (g, d))) else None)"

text \<open>A publication does what the specification admits, or nothing.\<close>

definition publishes ::
    "conflict_scope \<Rightarrow> string \<Rightarrow> generation \<Rightarrow> digest256 \<Rightarrow> registry \<Rightarrow>
     publication_result result \<times> registry \<Rightarrow> bool" where
  "publishes s k g d rg out = (case out of
     (Inl _, rg') \<Rightarrow> catalogues rg' = catalogues rg
   | (Inr pr, rg') \<Rightarrow> pr_generation pr = g \<and> pr_digest pr = d \<and>
       (\<exists>c. admit k g d (catalogues rg s) = Some c \<and> catalogues rg' = (catalogues rg)(s := c)))"

lemma try_increment_irrefl [simp]: "try_increment g \<noteq> Some g"
  using try_increment_less [of g g] by auto

lemma newest_fold:
  "sorted_wrt (<) (map f (v # vs)) \<Longrightarrow>
   fold (\<lambda>item best. if f best < f item then item else best) vs v = last (v # vs)"
  for f :: "'a \<Rightarrow> 'b :: linorder"
proof (induction vs arbitrary: v)
  case (Cons x xs)
  have "sorted_wrt (<) (map f (x # xs))" "f v < f x" using Cons.prems by auto
  with Cons.IH [of x] show ?case by simp
qed simp

context published begin

lemma find_latest_held:
  assumes "table_ok en Q n m t"
  shows "find_latest en t k = (if held t k = [] then Inl (make_error EC_NotFound
      ''no definition is held for that identifier'') else Inr (last (held t k)))"
proof (cases "held t k")
  case (Cons v vs)
  have "consecutive (map (en_generation en) (v # vs))"
    using held_ok(2) [OF assms, of k] Cons by simp
  from newest_fold [OF consecutive_sorted [OF this]] show ?thesis
    unfolding find_latest_def Cons by simp
qed (simp add: find_latest_def)

lemma catalogue_held:
  assumes "table_ok en Q n m t"
  shows "catalogue en t k = (if held t k = [] then None
    else Some (en_generation en (last (held t k)), en_digest en (last (held t k))))"
  by (simp add: catalogue_def find_latest_held [OF assms])

lemma catalogue_moved:
  assumes "moved rg rg0" and "table_ok en Q (keep rg) m (en_table en rg)" and "0 < keep rg"
  shows "catalogue en (en_table en rg0) = catalogue en (en_table en rg)"
proof
  fix k
  have "table_ok en Q (keep rg) m (en_table en rg0)" "newest_kept (en_table en rg) (en_table en rg0) k"
    using moved_table [OF assms] by auto
  then show "catalogue en (en_table en rg0) k = catalogue en (en_table en rg) k"
    using assms(2) by (simp add: catalogue_held newest_kept_def)
qed

text \<open>The outcome of a publication in terms of its own table; the rest of the registry only moves.\<close>

lemma publish_admits:
  assumes run: "publish_entity en ty v m rg = (r, rg')"
    and t: "table_ok en Q (keep rg) m (en_table en rg)" "0 < keep rg"
    and others: "\<And>rg0. moved rg rg0 \<Longrightarrow> catalogues rg0 = catalogues rg"
    and mine: "\<And>rg0. catalogues rg0 s = catalogue en (en_table en rg0)"
    and apart: "\<And>rg0 t s'. s' \<noteq> s \<Longrightarrow> catalogues (en_set_table en t rg0) s' = catalogues rg0 s'"
    and meta: "\<And>rg0 st c. catalogues (rg0\<lparr>rg_store := st, rg_conflicts := c\<rparr>) = catalogues rg0"
      "\<And>rg0 st. catalogues (rg0\<lparr>rg_store := st\<rparr>) = catalogues rg0"
  shows "publishes s (en_id en v) (en_generation en v) (en_compute_digest en v) rg (r, rg')"
  using run t
proof (cases rule: publish_cases)
  case (refused e)
  then show ?thesis by (simp add: publishes_def others)
next
  case repeated
  then have "admit (en_id en v) (en_generation en v) (en_compute_digest en v) (catalogues rg s) = Some (catalogues rg s)"
    by (simp add: admit_def mine catalogue_held [OF t(1)])
  with repeated show ?thesis by (simp add: publishes_def others)
next
  case (conflict e rg0 st mk)
  then have "catalogues rg' = catalogues rg" using others meta by metis
  with conflict show ?thesis by (simp add: publishes_def)
next
  case (stored rg0 st q)
  let ?a = "asserted en (rg_current_epoch rg)
          (make_provenance ''registry'' (rg_current_epoch rg) (en_generation en v) q) v"
  let ?t = "push_to (en_id en v) ?a (en_table en rg0)"
  have t0: "table_ok en Q (keep rg) m (en_table en rg0)" using moved_table [OF stored(1) t] by blast
  have c0: "catalogue en (en_table en rg0) = catalogue en (en_table en rg)"
    by (rule catalogue_moved [OF stored(1) t])
  have new: "catalogue en ?t = (catalogue en (en_table en rg))(en_id en v \<mapsto> (en_generation en v, en_compute_digest en v))"
  proof
    fix k
    show "catalogue en ?t k = ((catalogue en (en_table en rg))(en_id en v \<mapsto> (en_generation en v, en_compute_digest en v))) k"
    proof (cases "k = en_id en v")
      case True
      have "consecutive (map (en_generation en) (held (en_table en rg0) (en_id en v) @ [?a]))"
        using stored(3,4) moved_table [OF stored(1) t, of "en_id en v"] held_ok(2) [OF t0, of "en_id en v"]
        by (auto simp: consecutive_snoc newest_kept_def last_map split: if_splits)
      then have s: "sorted_wrt (<) (map (en_generation en) (held (en_table en rg0) (en_id en v) @ [?a]))"
        by (rule consecutive_sorted)
      obtain w ws where w: "held (en_table en rg0) (en_id en v) @ [?a] = w # ws"
        by (cases "held (en_table en rg0) (en_id en v)") auto
      have "last (w # ws) = ?a" using w by (metis last_snoc)
      with newest_fold [OF s [unfolded w]] have "find_latest en ?t (en_id en v) = Inr ?a"
        unfolding find_latest_def push_to_def held_simps(1) if_P [OF refl] w by simp
      then show ?thesis by (simp add: True catalogue_def)
    next
      case False
      then have "find_latest en ?t k = find_latest en (en_table en rg0) k"
        by (simp add: find_latest_def push_to_def)
      then show ?thesis using False c0 by (simp add: catalogue_def fun_eq_iff)
    qed
  qed
  have rg': "rg' = (en_set_table en ?t rg0)\<lparr>rg_store := st\<rparr>"
    using stored(6) by (simp add: stored_in_def)
  have "catalogues rg' s = (catalogues rg s)(en_id en v \<mapsto> (en_generation en v, en_compute_digest en v))"
    using new by (simp add: rg' meta mine)
  moreover have "catalogues rg' s' = catalogues rg s'" if "s' \<noteq> s" for s'
    using apart [OF that] others [OF stored(1)] by (simp add: rg' meta)
  ultimately have "catalogues rg' = (catalogues rg)
      (s := (catalogues rg s)(en_id en v \<mapsto> (en_generation en v, en_compute_digest en v)))" by auto
  moreover have "admit (en_id en v) (en_generation en v) (en_compute_digest en v) (catalogues rg s) =
      Some ((catalogues rg s)(en_id en v \<mapsto> (en_generation en v, en_compute_digest en v)))"
    using stored(4)
    by (auto simp: admit_def mine catalogue_held [OF t(1)] split: if_splits)
  ultimately show ?thesis using stored(7) by (auto simp: publishes_def)
qed

end

lemma catalogues_moved:
  assumes "registry_ok K rg" and "moved rg rg0"
  shows "catalogues rg0 = catalogues rg"
proof
  fix s
  note r = registry_ok_tables [OF assms(1)]
  show "catalogues rg0 s = catalogues rg s"
    using pub_class.catalogue_moved [OF assms(2), unfolded en_table_simps, OF r(1,6)]
      pub_policy.catalogue_moved [OF assms(2), unfolded en_table_simps, OF r(2,6)]
      pub_path.catalogue_moved [OF assms(2), unfolded en_table_simps, OF r(3,6)]
      pub_capability.catalogue_moved [OF assms(2), unfolded en_table_simps, OF r(4,6)]
      pub_reservation.catalogue_moved [OF assms(2), unfolded en_table_simps, OF r(5,6)]
    by (cases s) simp_all
qed

lemma catalogues_meta [simp]:
  "catalogues (rg\<lparr>rg_store := st\<rparr>) = catalogues rg" "catalogues (rg\<lparr>rg_conflicts := c\<rparr>) = catalogues rg"
  by (rule ext, rename_tac s, case_tac s; simp)+

lemma en_field_simps [simp]:
  "en_id class_entity = qc_id" "en_generation class_entity = qc_generation"
  "en_digest class_entity = qc_digest" "en_compute_digest class_entity = compute_class_digest"
  "en_id policy_entity = po_id" "en_generation policy_entity = po_generation"
  "en_digest policy_entity = po_digest" "en_compute_digest policy_entity = compute_policy_digest"
  "en_id path_entity = pa_id" "en_generation path_entity = pa_generation"
  "en_digest path_entity = pa_digest" "en_compute_digest path_entity = compute_path_digest"
  "en_id capability_entity = ca_resource" "en_generation capability_entity = ca_generation"
  "en_digest capability_entity = ca_digest" "en_compute_digest capability_entity = compute_capability_digest"
  "en_id reservation_entity = rs_resource" "en_generation reservation_entity = rs_generation"
  "en_digest reservation_entity = rs_digest" "en_compute_digest reservation_entity = compute_reservation_digest"
  by (simp_all add: entity_defs)

lemma catalogues_apart [simp]:
  "s \<noteq> Scope_Class \<Longrightarrow> catalogues (rg\<lparr>rg_classes := c\<rparr>) s = catalogues rg s"
  "s \<noteq> Scope_Policy \<Longrightarrow> catalogues (rg\<lparr>rg_policies := p\<rparr>) s = catalogues rg s"
  "s \<noteq> Scope_Path \<Longrightarrow> catalogues (rg\<lparr>rg_paths := a\<rparr>) s = catalogues rg s"
  "s \<noteq> Scope_Capability \<Longrightarrow> catalogues (rg\<lparr>rg_capabilities := k\<rparr>) s = catalogues rg s"
  "s \<noteq> Scope_Reservation \<Longrightarrow> catalogues (rg\<lparr>rg_reservations := v\<rparr>) s = catalogues rg s"
  by (cases s; simp)+

lemma publish_publishes:
  assumes "registry_ok K rg"
  shows "publishes Scope_Class (qc_id c) (qc_generation c) (compute_class_digest c) rg
      (publish_entity class_entity ty c kMaxClassesRetained rg)"
    "publishes Scope_Policy (po_id p) (po_generation p) (compute_policy_digest p) rg
      (publish_entity policy_entity ty p kMaxPoliciesRetained rg)"
    "publishes Scope_Path (pa_id a) (pa_generation a) (compute_path_digest a) rg
      (publish_entity path_entity ty a kMaxPathsRetained rg)"
    "publishes Scope_Capability (ca_resource k) (ca_generation k) (compute_capability_digest k) rg
      (publish_entity capability_entity ty k kMaxCapabilitiesRetained rg)"
    "publishes Scope_Reservation (rs_resource v) (rs_generation v) (compute_reservation_digest v) rg
      (publish_entity reservation_entity ty v kMaxCapabilitiesRetained rg)"
proof -
  note r = registry_ok_tables [OF assms]
  note moved = catalogues_moved [OF assms]
  show "publishes Scope_Class (qc_id c) (qc_generation c) (compute_class_digest c) rg (publish_entity class_entity ty c kMaxClassesRetained rg)"
    using pub_class.publish_admits [where Q = class_ok and ty = ty and v = c and m = kMaxClassesRetained and rg = rg and s = Scope_Class, OF prod.collapse [symmetric], unfolded en_table_simps,
      OF r(1,6)]
    by (simp add: moved)
  show "publishes Scope_Policy (po_id p) (po_generation p) (compute_policy_digest p) rg (publish_entity policy_entity ty p kMaxPoliciesRetained rg)"
    using pub_policy.publish_admits [where Q = policy_ok and ty = ty and v = p and m = kMaxPoliciesRetained and rg = rg and s = Scope_Policy, OF prod.collapse [symmetric], unfolded en_table_simps,
      OF r(2,6)]
    by (simp add: moved)
  show "publishes Scope_Path (pa_id a) (pa_generation a) (compute_path_digest a) rg (publish_entity path_entity ty a kMaxPathsRetained rg)"
    using pub_path.publish_admits [where Q = path_ok and ty = ty and v = a and m = kMaxPathsRetained and rg = rg and s = Scope_Path, OF prod.collapse [symmetric], unfolded en_table_simps,
      OF r(3,6)]
    by (simp add: moved)
  show "publishes Scope_Capability (ca_resource k) (ca_generation k) (compute_capability_digest k) rg (publish_entity capability_entity ty k kMaxCapabilitiesRetained rg)"
    using pub_capability.publish_admits [where Q = K and ty = ty and v = k and m = kMaxCapabilitiesRetained and rg = rg and s = Scope_Capability, OF prod.collapse [symmetric], unfolded en_table_simps,
      OF r(4,6)]
    by (simp add: moved)
  show "publishes Scope_Reservation (rs_resource v) (rs_generation v) (compute_reservation_digest v) rg (publish_entity reservation_entity ty v kMaxCapabilitiesRetained rg)"
    using pub_reservation.publish_admits [where Q = reservation_ok and ty = ty and v = v and m = kMaxCapabilitiesRetained and rg = rg and s = Scope_Reservation, OF prod.collapse [symmetric], unfolded en_table_simps,
      OF r(5,6)]
    by (simp add: moved)
qed

section \<open>Authority only advances\<close>

text \<open>The parts of the registry that say who may publish.\<close>

definition authority :: "registry \<Rightarrow>
    (string, publisher_incarnation) fmap \<times> (string, publisher_lease) fmap \<times> fabric_epoch \<times> fabric_epoch" where
  "authority rg = (rg_watermark rg, rg_leases rg, rg_durable_epoch rg, rg_current_epoch rg)"

lemma authority_meta [simp]:
  "authority (rg\<lparr>rg_store := st\<rparr>) = authority rg" "authority (rg\<lparr>rg_conflicts := c\<rparr>) = authority rg"
  "authority (rg\<lparr>rg_classes := t1\<rparr>) = authority rg" "authority (rg\<lparr>rg_policies := t2\<rparr>) = authority rg"
  "authority (rg\<lparr>rg_paths := t3\<rparr>) = authority rg" "authority (rg\<lparr>rg_capabilities := t4\<rparr>) = authority rg"
  "authority (rg\<lparr>rg_reservations := t5\<rparr>) = authority rg" "authority (tick clock rg) = authority rg"
  "authority (put_decision d rg) = authority rg" "authority (prune_decisions rg) = authority rg"
  "authority (rg\<lparr>rg_decisions := ds\<rparr>) = authority rg" "authority (rg\<lparr>rg_decision_order := os\<rparr>) = authority rg"
  by (simp_all add: authority_def tick_def prune_decisions_fields)

lemma authority_moved: "moved rg rg0 \<Longrightarrow> authority rg0 = authority rg"
  using moved_fields by (auto simp: authority_def)

context published begin

lemma publish_authority:
  assumes run: "publish_entity en ty v m rg = (r, rg')"
    and t: "table_ok en Q (keep rg) m (en_table en rg)" "0 < keep rg"
    and set_table: "\<And>t rg0. authority (en_set_table en t rg0) = authority rg0"
  shows "authority rg' = authority rg"
  using run t
proof (cases rule: publish_cases)
  case (conflict e rg0 st mk)
  have "authority rg0 = authority rg" by (rule authority_moved [OF conflict(2)])
  with conflict(7) show ?thesis by auto
next
  case (stored rg0 st q)
  then show ?thesis by (simp add: stored_in_def set_table authority_moved)
qed (simp_all add: authority_moved)

end

lemma publishes_authority:
  assumes "registry_ok K rg"
  shows "authority (snd (PublishClass c o1 rg)) = authority rg"
    "authority (snd (PublishPolicy p o2 rg)) = authority rg"
    "authority (snd (PublishPath a o3 rg)) = authority rg"
    "authority (snd (PublishCapability k rg)) = authority rg"
    "authority (snd (PublishReservation v rg)) = authority rg"
proof -
  note r = registry_ok_tables [OF assms]
  show "authority (snd (PublishClass c o1 rg)) = authority rg"
    using pub_class.publish_authority [OF prod.collapse [symmetric], unfolded en_table_simps, OF r(1,6)]
    by (simp add: PublishClass_def)
  show "authority (snd (PublishPolicy p o2 rg)) = authority rg"
    using pub_policy.publish_authority [OF prod.collapse [symmetric], unfolded en_table_simps, OF r(2,6)]
    by (simp add: PublishPolicy_def)
  show "authority (snd (PublishPath a o3 rg)) = authority rg"
    using pub_path.publish_authority [OF prod.collapse [symmetric], unfolded en_table_simps, OF r(3,6)]
    by (simp add: PublishPath_def)
  show "authority (snd (PublishCapability k rg)) = authority rg"
    using pub_capability.publish_authority [OF prod.collapse [symmetric], unfolded en_table_simps, OF r(4,6)]
    by (simp add: PublishCapability_def split: sum.splits option.splits)
  show "authority (snd (PublishReservation v rg)) = authority rg"
    using pub_reservation.publish_authority [OF prod.collapse [symmetric], unfolded en_table_simps, OF r(5,6)]
    by (simp add: PublishReservation_def split: sum.splits option.splits)
qed

lemma on_store_authority: "authority (snd (on_store f rg)) = authority rg"
  by (rule authority_moved [OF on_store_moved [OF prod.collapse [symmetric]]])

lemma record_authority: "authority (snd (record_decision d rg)) = authority rg"
proof -
  let ?w = "encode_decision d (new_writer kMaxCanonicalRecordBytes)"
  obtain s rg0 where st: "stage_with_retry RT_RecordDecision (w_buffer ?w) rg = (s, rg0)" by fastforce
  have a: "authority rg0 = authority rg" by (rule authority_moved [OF stage_moved [OF st]])
  show ?thesis
    using a by (cases s)
      (auto simp: record_decision_def Let_def st on_store_def split: prod.splits sum.splits)
qed

lemma evaluate_authority:
  "RegistryEvaluate clock request rg = Some (r, rg') \<Longrightarrow> authority rg' = authority rg"
proof -
  assume "RegistryEvaluate clock request rg = Some (r, rg')"
  then obtain d where d: "decide request (tick clock rg) = Some d"
    "(case d of Inl e \<Rightarrow> (Inl e, tick clock rg) | Inr decision \<Rightarrow> recorded decision (tick clock rg)) = (r, rg')"
    by (auto simp: RegistryEvaluate_def Let_def)
  have rec: "authority (snd (recorded v (tick clock rg))) = authority rg" for v
    using record_authority [of v "tick clock rg"]
    by (cases "record_decision v (tick clock rg)") (auto simp: recorded_def bindD_def split: sum.splits)
  show ?thesis
  proof (cases d)
    case (Inl e)
    then have "rg' = tick clock rg" using d(2) by simp
    then show ?thesis by simp
  next
    case (Inr v)
    then have "snd (recorded v (tick clock rg)) = rg'" using d(2) by simp
    then show ?thesis using rec [of v] by simp
  qed
qed

definition advances :: "registry \<Rightarrow> registry \<Rightarrow> bool" where
  "advances rg rg' \<longleftrightarrow> rg_current_epoch rg \<le> rg_current_epoch rg' \<and>
     (\<forall>p. highest_incarnation p rg \<le> highest_incarnation p rg')"

lemma advances_refl [simp]: "advances rg rg" by (simp add: advances_def)

lemma advances_trans: "advances a b \<Longrightarrow> advances b c \<Longrightarrow> advances a c"
  by (auto simp: advances_def intro: order_trans)

lemma advances_same: "authority rg' = authority rg \<Longrightarrow> advances rg rg'"
  by (simp add: authority_def advances_def highest_incarnation_def)

text \<open>A registration that succeeds makes its incarnation the highest; one that fails changes nothing.\<close>

lemma grant_cases:
  assumes "grant_lease l origin rg = (r, rg')"
  obtains e where "r = Inl e" "rg_watermark rg' = rg_watermark rg" "rg_current_epoch rg' = rg_current_epoch rg"
  | q where "r = Inr (l\<lparr>ls_lease := q\<rparr>)"
      "rg_watermark rg' = fmupd (ls_publisher l) (ls_incarnation l) (rg_watermark rg)"
      "rg_leases rg' = fmupd (ls_publisher l) (l\<lparr>ls_lease := q\<rparr>) (rg_leases rg)"
      "rg_current_epoch rg' = rg_current_epoch rg" "rg_now_ms rg' = rg_now_ms rg"
proof -
  let ?p = "ls_publisher l"
  let ?w = "w_seq [w_str ?p kMaxIdentifierLen, w_u64 (ls_incarnation l), w_raw (ls_boot l),
    w_u64 (ls_granted_at_ms l), w_u64 (ls_expires_at_ms l),
    w_str (take kMaxOriginLen origin) kMaxOriginLen] (new_writer 512)"
  obtain s rg0 where st: "stage_with_retry RT_RegisterPublisher (w_buffer ?w) rg = (s, rg0)" by fastforce
  note f = moved_fields [OF stage_moved [OF st]]
  show thesis
  proof (cases "w_failed ?w")
    case True
    then show thesis using assms that(1) by (auto simp: grant_lease_def Let_def)
  next
    case False
    show thesis
    proof (cases s)
      case (Inl e)
      then show thesis using assms st False f that(1) by (auto simp: grant_lease_def Let_def)
    next
      case (Inr q)
      obtain c st' where c: "Commit q (sha256 (bytes_of_string ?p)) (rg_store rg0) = (c, st')" by fastforce
      show thesis
      proof (cases c)
        case (Inl e)
        have "rg_watermark rg' = rg_watermark rg"
          using assms st False \<open>s = Inr q\<close> c Inl f
          by (auto simp: grant_lease_def Let_def on_store_def split: option.splits intro!: fmap_ext)
        then show thesis using that(1) [of e] assms st False \<open>s = Inr q\<close> c Inl f
          by (auto simp: grant_lease_def Let_def on_store_def)
      next
        case (Inr u)
        then show thesis using that(2) [of q] assms st False \<open>s = Inr q\<close> c f
          by (auto simp: grant_lease_def Let_def on_store_def)
      qed
    qed
  qed
qed

lemma register_cases:
  assumes "RegisterPublisher clock p i boot ttl origin rg = (r, rg')"
  obtains e where "r = Inl e" "rg_watermark rg' = rg_watermark rg" "rg_current_epoch rg' = rg_current_epoch rg"
  | l where "r = Inr l" "highest_incarnation p rg < i" "ls_publisher l = p" "ls_incarnation l = i"
      "ls_epoch l = rg_current_epoch rg" "ls_granted_at_ms l = rg_now_ms rg'"
      "unat (ls_expires_at_ms l) = unat (rg_now_ms rg') + unat ttl" "0 < ttl" "ttl \<le> kMaxLeaseMs"
      "rg_watermark rg' = fmupd p i (rg_watermark rg)" "rg_leases rg' = fmupd p l (rg_leases rg)"
      "rg_current_epoch rg' = rg_current_epoch rg"
proof (cases "\<exists>e. r = Inl e \<and> rg' = tick clock rg")
  case True
  then show thesis using that(1) by auto
next
  case False
  let ?t = "tick clock rg"
  let ?l = "\<lambda>x. \<lparr>ls_publisher = p, ls_incarnation = i, ls_epoch = rg_current_epoch ?t, ls_lease = 0,
      ls_boot = boot, ls_granted_at_ms = rg_now_ms ?t, ls_expires_at_ms = x\<rparr>"
  have h: "highest_incarnation p ?t = highest_incarnation p rg" by (simp add: highest_incarnation_def)
  obtain expires where x: "ttl \<noteq> 0" "ttl \<le> kMaxLeaseMs" "checked_add (rg_now_ms ?t) ttl = Some expires"
    "highest_incarnation p rg < i"
    and g: "grant_lease (?l expires) origin ?t = (r, rg')"
    using assms False h by (auto simp: RegisterPublisher_def Let_def split: if_splits option.splits)
  have e: "unat expires = unat (rg_now_ms ?t) + unat ttl" by (rule checked_add_unat [OF x(3)])
  from g show thesis
    by (rule grant_cases) (use that x e in \<open>auto simp: word_neq_0_conv\<close>)
qed

lemma after_advances:
  assumes ok: "registry_ok K rg" and step: "after c rg = Some rg'"
  shows "advances rg rg'"
proof (cases c)
  case (DoRegister clock p i boot ttl origin)
  obtain r where "RegisterPublisher clock p i boot ttl origin rg = (r, rg')"
    using step DoRegister by (metis after.simps(6) option.inject prod.collapse)
  then show ?thesis
  proof (cases rule: register_cases)
    case (1 e)
    then show ?thesis by (simp add: advances_def highest_incarnation_def)
  next
    case (2 l)
    have "highest_incarnation q rg' = (if q = p then i else highest_incarnation q rg)" for q
      by (simp add: 2(10) highest_incarnation_def)
    with 2 show ?thesis by (simp add: advances_def)
  qed
next
  case (DoAdvance reason)
  have e: "rg_current_epoch rg = rg_durable_epoch rg" using ok by (simp add: registry_ok_defs)
  obtain r where r: "advance_epoch_locked reason rg = (r, rg')"
    using step DoAdvance by (metis AdvanceEpoch_def after.simps(9) option.inject prod.collapse)
  show ?thesis
  proof (cases "try_increment (rg_durable_epoch rg)")
    case (Some n)
    then have "rg_current_epoch rg \<le> n" using try_increment_less e by (simp add: less_imp_le)
    moreover have "advances rg (snd (on_store f rg))" for f
      by (rule advances_same [OF on_store_authority])
    ultimately show ?thesis
      using r Some
      by (auto simp: advance_epoch_locked_def Let_def bindD_def advances_def highest_incarnation_def
          on_store_def split: prod.splits sum.splits if_splits)
  qed (use r in \<open>simp add: advance_epoch_locked_def\<close>)
next
  case (DoRevoke clock p i)
  obtain r where r: "RevokePublisher clock p i rg = (r, rg')"
    using step DoRevoke by (metis after.simps(7) option.inject prod.collapse)
  let ?w = "w_seq [w_str p kMaxIdentifierLen, w_u64 i] (new_writer 256)"
  obtain s rg0 where st: "stage_with_retry RT_RevokePublisher (w_buffer ?w) (tick clock rg) = (s, rg0)" by fastforce
  have f: "rg_watermark rg0 = rg_watermark rg" "rg_current_epoch rg0 = rg_current_epoch rg"
    using moved_fields [OF stage_moved [OF st]] by auto
  have "rg_watermark rg' = rg_watermark rg \<and> rg_current_epoch rg' = rg_current_epoch rg"
    using r st f by (cases s)
      (auto simp: RevokePublisher_def Let_def on_store_def split: prod.splits sum.splits option.splits if_splits)
  then show ?thesis by (simp add: advances_def highest_incarnation_def)
next
  case (DoEvaluate clock request)
  then show ?thesis using step evaluate_authority by (auto intro!: advances_same)
next
  case DoCompact
  then show ?thesis using step authority_moved [OF compact_moved [OF prod.collapse [symmetric]]]
    by (auto simp: Compact_def intro!: advances_same)
next
  case (DoExpire clock)
  then show ?thesis using step by (auto simp: ExpireLeases_def Let_def advances_def highest_incarnation_def)
next
  case (DoSetClock v)
  then show ?thesis using step by (auto simp: set_now_millis_def advances_def highest_incarnation_def)
qed (use step publishes_authority [OF ok, THEN advances_same] on_store_authority [THEN advances_same] in
    \<open>auto simp: RegistryVerify_def RegistryClose_def\<close>)

lemma reaches_advances:
  "reaches rg rg' \<Longrightarrow> registry_ok capability_checked rg \<Longrightarrow> advances rg rg'"
  by (induction rule: reaches.induct) (auto intro: advances_trans after_advances reaches_ok)

section \<open>Conflict markers are kept\<close>

text \<open>As long as the window of 256 markers is not full, a call only ever adds to them.\<close>

definition keeps_markers :: "registry \<Rightarrow> registry \<Rightarrow> bool" where
  "keeps_markers rg rg' \<longleftrightarrow>
     (length (rg_conflicts rg) < kMaxStoredConflicts \<longrightarrow> (\<exists>ms. rg_conflicts rg' = rg_conflicts rg @ ms))"

lemma keeps_same: "rg_conflicts rg' = rg_conflicts rg \<Longrightarrow> keeps_markers rg rg'"
  by (simp add: keeps_markers_def)

lemma moved_conflicts:
  "moved rg rg0 \<Longrightarrow> length (rg_conflicts rg) \<le> kMaxStoredConflicts \<Longrightarrow> rg_conflicts rg0 = rg_conflicts rg"
  by (induction rule: moved.induct) (simp_all add: prune_fields)

context published begin

lemma publish_markers:
  assumes run: "publish_entity en ty v m rg = (r, rg')"
    and t: "table_ok en Q (keep rg) m (en_table en rg)" "0 < keep rg"
    and small: "length (rg_conflicts rg) \<le> kMaxStoredConflicts"
    and set_table: "\<And>t rg0. rg_conflicts (en_set_table en t rg0) = rg_conflicts rg0"
  shows "keeps_markers rg rg'"
  using run t
proof (cases rule: publish_cases)
  case (conflict e rg0 st mk)
  have "rg_conflicts rg0 = rg_conflicts rg" by (rule moved_conflicts [OF conflict(2) small])
  with conflict(7) show ?thesis by (auto simp: keeps_markers_def push_conflict_def Let_def)
next
  case (stored rg0 st q)
  then show ?thesis by (simp add: stored_in_def set_table moved_conflicts [OF _ small] keeps_same)
qed (simp_all add: moved_conflicts [OF _ small] keeps_same)

end

lemma publishes_markers:
  assumes "registry_ok K rg"
  shows "keeps_markers rg (snd (PublishClass c o1 rg))"
    "keeps_markers rg (snd (PublishPolicy p o2 rg))"
    "keeps_markers rg (snd (PublishPath a o3 rg))"
    "keeps_markers rg (snd (PublishCapability k rg))"
    "keeps_markers rg (snd (PublishReservation v rg))"
proof -
  note r = registry_ok_tables [OF assms] and pair = prod.collapse [symmetric]
  show "keeps_markers rg (snd (PublishClass c o1 rg))"
    using pub_class.publish_markers [OF pair, unfolded en_table_simps, OF r(1,6,7)]
    by (simp add: PublishClass_def)
  show "keeps_markers rg (snd (PublishPolicy p o2 rg))"
    using pub_policy.publish_markers [OF pair, unfolded en_table_simps, OF r(2,6,7)]
    by (simp add: PublishPolicy_def)
  show "keeps_markers rg (snd (PublishPath a o3 rg))"
    using pub_path.publish_markers [OF pair, unfolded en_table_simps, OF r(3,6,7)]
    by (simp add: PublishPath_def)
  show "keeps_markers rg (snd (PublishCapability k rg))"
    using pub_capability.publish_markers [OF pair, unfolded en_table_simps, OF r(4,6,7)]
    by (simp add: PublishCapability_def keeps_same split: sum.splits option.splits)
  show "keeps_markers rg (snd (PublishReservation v rg))"
    using pub_reservation.publish_markers [OF pair, unfolded en_table_simps, OF r(5,6,7)]
    by (simp add: PublishReservation_def keeps_same split: sum.splits option.splits)
qed

lemma record_conflicts:
  assumes "length (rg_conflicts rg) \<le> kMaxStoredConflicts"
  shows "rg_conflicts (snd (record_decision d rg)) = rg_conflicts rg"
proof -
  let ?w = "encode_decision d (new_writer kMaxCanonicalRecordBytes)"
  obtain s rg0 where st: "stage_with_retry RT_RecordDecision (w_buffer ?w) rg = (s, rg0)" by fastforce
  have a: "rg_conflicts rg0 = rg_conflicts rg" by (rule moved_conflicts [OF stage_moved [OF st] assms])
  show ?thesis
    using a by (cases s)
      (auto simp: record_decision_def Let_def st on_store_def prune_decisions_fields split: prod.splits sum.splits)
qed

lemma evaluate_conflicts:
  assumes "length (rg_conflicts rg) \<le> kMaxStoredConflicts" and "RegistryEvaluate clock request rg = Some (r, rg')"
  shows "rg_conflicts rg' = rg_conflicts rg"
proof -
  have t: "rg_conflicts (tick clock rg) = rg_conflicts rg" by (simp add: tick_def)
  obtain d where d: "decide request (tick clock rg) = Some d"
    "(case d of Inl e \<Rightarrow> (Inl e, tick clock rg) | Inr decision \<Rightarrow> recorded decision (tick clock rg)) = (r, rg')"
    using assms(2) by (auto simp: RegistryEvaluate_def Let_def)
  have "rg_conflicts (snd (recorded v (tick clock rg))) = rg_conflicts rg" for v
    using record_conflicts [of "tick clock rg" v] assms(1) t
    by (cases "record_decision v (tick clock rg)") (auto simp: recorded_def bindD_def split: sum.splits)
  with d(2) t show ?thesis by (cases d) (auto, metis snd_conv)
qed

lemma register_conflicts:
  assumes "length (rg_conflicts rg) \<le> kMaxStoredConflicts"
  shows "rg_conflicts (snd (RegisterPublisher clock p i boot ttl origin rg)) = rg_conflicts rg"
proof -
  have t: "rg_conflicts (tick clock rg) = rg_conflicts rg" by (simp add: tick_def)
  have "rg_conflicts (snd (grant_lease l origin (tick clock rg))) = rg_conflicts rg" for l
    using t moved_conflicts [OF stage_moved] assms
    by (auto simp: grant_lease_def Let_def bindD_def on_store_def split: prod.splits sum.splits option.splits)
  with t show ?thesis by (auto simp: RegisterPublisher_def Let_def split: option.splits)
qed

lemma revoke_conflicts:
  assumes "length (rg_conflicts rg) \<le> kMaxStoredConflicts"
  shows "rg_conflicts (snd (RevokePublisher clock p i rg)) = rg_conflicts rg"
proof -
  have t: "rg_conflicts (tick clock rg) = rg_conflicts rg" by (simp add: tick_def)
  with moved_conflicts [OF stage_moved] assms show ?thesis
    by (auto simp: RevokePublisher_def Let_def bindD_def on_store_def split: prod.splits sum.splits option.splits)
qed

lemma on_store_conflicts: "rg_conflicts (snd (on_store f rg)) = rg_conflicts rg"
  by (simp add: on_store_def split: prod.split)

lemma after_markers:
  assumes ok: "registry_ok K rg" and step: "after c rg = Some rg'"
  shows "keeps_markers rg rg'"
proof -
  note small = registry_ok_tables(7) [OF ok]
  show ?thesis
  proof (cases c)
    case (DoAdvance reason)
    then have "rg' = snd (advance_epoch_locked reason rg)" using step by (simp add: AdvanceEpoch_def)
    then show ?thesis
      by (auto simp: advance_epoch_locked_def Let_def bindD_def on_store_def intro!: keeps_same
          split: prod.splits sum.splits option.splits)
  next
    case (DoEvaluate clock request)
    then show ?thesis using step evaluate_conflicts registry_ok_tables(7) [OF ok] by (auto intro!: keeps_same)
  next
    case DoCompact
    then show ?thesis
      using step moved_conflicts [OF compact_moved [OF prod.collapse [symmetric]] registry_ok_tables(7) [OF ok]]
      by (auto simp: Compact_def intro!: keeps_same)
  next
    case (DoExpire clock)
    then show ?thesis using step by (auto simp: ExpireLeases_def Let_def tick_def intro!: keeps_same)
  next
    case (DoSetClock v)
    then show ?thesis using step by (auto simp: set_now_millis_def intro!: keeps_same)
  qed (use step publishes_markers [OF ok] register_conflicts [OF small, THEN keeps_same]
      revoke_conflicts [OF small, THEN keeps_same] on_store_conflicts [THEN keeps_same] in
      \<open>auto simp: RegistryVerify_def RegistryClose_def\<close>)
qed

section \<open>A store with room\<close>

text \<open>
  Room for one more transaction of a payload of \<open>n\<close> bytes: the frame of the intent and that of the
  commit, 47 bytes more than the payload and 73 bytes.
\<close>

definition has_room :: "nat \<Rightarrow> store \<Rightarrow> bool" where
  "has_room n s \<longleftrightarrow> \<not> s_read_only s \<and> s_wal_open s \<and> unat (s_last_sequence s) + 2 < 2 ^ 64 \<and>
     unat (s_staged_count s) < kMaxJournalIntentsInFlight \<and>
     n + 39 \<le> so_max_record_bytes (s_options s) \<and> 65 \<le> so_max_record_bytes (s_options s) \<and>
     unat (s_wal_bytes s) + n + 120 \<le> unat (so_max_wal_bytes (s_options s))"

lemma can_append_room:
  assumes "\<not> s_read_only s" and "s_wal_open s" and "unat (s_last_sequence s) + 1 < 2 ^ 64"
    and "le_sequence e = s_last_sequence s + 1"
    and "kRecordHeaderBytes + length (le_body e) \<le> so_max_record_bytes (s_options s)"
    and "kLogHeaderBytes + kRecordHeaderBytes + length (le_body e) + unat (s_wal_bytes s) \<le> unat (so_max_wal_bytes (s_options s))"
  shows "can_append e s"
proof -
  let ?n = "length (lay_entry e)"
  have n: "?n + unat (s_wal_bytes s) \<le> unat (so_max_wal_bytes (s_options s))" using assms(6) by simp
  have lt: "?n + unat (s_wal_bytes s) < 2 ^ 64" using n unsigned_less [of "so_max_wal_bytes (s_options s)", where ?'a = nat] by (simp del: length_lay_entry)
  then have u: "unat (word_of_nat ?n :: u64) = ?n"
    by (simp add: unsigned_of_nat take_bit_nat_eq_self del: length_lay_entry)
  have "s_last_sequence s \<noteq> - 1" using assms(3) by (auto simp: unat_minus_one_eq)
  moreover have "checked_add (word_of_nat ?n) (s_wal_bytes s) = Some (word_of_nat ?n + s_wal_bytes s)"
    using lt u by (simp add: checked_add_iff del: length_lay_entry)
  moreover have "unat (word_of_nat ?n + s_wal_bytes s) = ?n + unat (s_wal_bytes s)"
    using lt u by (simp add: unat_word_ariths del: length_lay_entry)
  ultimately show ?thesis
    using assms n by (simp add: can_append_def entry_fits_def word_le_nat_alt del: length_lay_entry)
qed

lemma represents_fresh:
  assumes "represents s j" and "unat (s_last_sequence s) + 1 < 2 ^ 64"
  shows "jn_pending j (s_last_sequence s + 1) = None"
proof -
  obtain es where es: "s_snapshot_sequence s \<le> s_last_sequence s"
    "\<And>rp. rp_replayed rp = [] \<Longrightarrow> rp_staged rp = [] \<Longrightarrow> s_snapshot_sequence s \<le> rp_last_sequence rp \<Longrightarrow>
      \<exists>rp'. replay_entries (s_snapshot_sequence s) 0 es rp = Some rp' \<and> tracks (s_last_sequence s) j rp'"
    using assms(1) by (auto simp: represents_def) blast
  obtain rp where t: "tracks (s_last_sequence s) j rp"
    using es(2) [of "start_replay (s\<lparr>s_replayed := []\<rparr>)"] es(1) by (auto simp: start_replay_def)
  have "s_last_sequence s + 1 \<notin> fst ` set (rp_staged rp)"
    using t assms(2) by (fastforce simp: tracks_def word_le_nat_alt unat_word_ariths)
  then show ?thesis using t by (simp add: tracks_def map_of_eq_None_iff)
qed

text \<open>A staged and committed transaction on a store with room.\<close>

lemma transaction:
  assumes D: "durable s j" and room: "has_room (length p) s" and d: "length d = kDigestBytes"
  obtains s1 s2 where "Stage t p s = (Inr (s_last_sequence s + 1), s1)"
    "Commit (s_last_sequence s + 1) d s1 = (Inr (), s2)"
    "durable s2 (add_committed t (s_last_sequence s + 2) p j)" "s_options s2 = s_options s"
proof -
  let ?a = "s_last_sequence s + 1" and ?m = "so_max_record_bytes (s_options s)"
  let ?w = "w_seq [w_u16 (rt_rank t), w_u64 ?a, w_u32 (word_of_nat (length p)), w_raw p] (new_writer ?m)"
  let ?e = "new_entry RT_MutationIntent kFlagHasAttempt ?a (lay_intent t ?a p) s"
  let ?v = "w_seq [w_u64 ?a, w_raw d] (new_writer 256)"
  have calm: "calm s" and r: "represents s j" using D by (simp_all add: durable_def)
  note room' = room [unfolded has_room_def]
  have l: "length (lay_intent t ?a p) = 14 + length p" by (simp add: lay_intent_def)
  have w: "\<not> w_failed ?w" "w_buffer ?w = lay_intent t ?a p"
    using emits_encode [OF emits_intent, of t ?a p ?m] room' l by auto
  have v: "\<not> w_failed ?v" "w_buffer ?v = lay_u64 ?a @ d"
    using emits_encode [OF emits_commit, of ?a d 256] d by (auto simp: kDigestBytes_def)
  have c: "can_append ?e s"
    by (rule can_append_room) (use room' l in \<open>simp_all add: new_entry_def kRecordHeaderBytes_def kLogHeaderBytes_def\<close>)
  have f: "append_frame RT_MutationIntent kFlagHasAttempt ?a (lay_intent t ?a p) s = (Inr ?a, appended ?e s)"
    using append_frame_calm [OF calm, of RT_MutationIntent kFlagHasAttempt ?a "lay_intent t ?a p"] c by simp
  define s1 where "s1 = (appended ?e s)\<lparr>s_staged_count := s_staged_count s + 1\<rparr>"
  have stage: "Stage t p s = (Inr ?a, s1)"
    using room' w f by (simp add: Stage_def Let_def s1_def appended_def)
  have D1: "durable s1 (journal_step (Staged ?a t p) j)"
    using durable_appended [OF D c _ stage_step [OF r refl c] journal_step_snapshot] by (simp add: s1_def)
  have q1: "s_last_sequence s1 = ?a" "s_options s1 = s_options s"
    by (simp_all add: s1_def appended_def new_entry_def)
  have u: "unat ?a = unat (s_last_sequence s) + 1" using room' by (simp add: unat_word_ariths)
  have m: "?m \<le> kMaxWalRecordBytes" using D by (simp add: durable_def paths_of_def)
  have b: "unat (s_wal_bytes s1) = 47 + length p + unat (s_wal_bytes s)"
    using appended_bytes [OF c m] l by (simp add: s1_def new_entry_def kRecordHeaderBytes_def kLogHeaderBytes_def)
  let ?f = "new_entry RT_MutationCommit kFlagHasAttempt ?a (lay_u64 ?a @ d) s1"
  have c1: "can_append ?f s1"
    by (rule can_append_room)
      (use room' u b d q1 in \<open>simp_all add: new_entry_def kRecordHeaderBytes_def kLogHeaderBytes_def kDigestBytes_def
        s1_def appended_def\<close>)
  have calm1: "calm s1" and r1: "represents s1 (journal_step (Staged ?a t p) j)" using D1 by (simp_all add: durable_def)
  have g: "append_frame RT_MutationCommit kFlagHasAttempt ?a (lay_u64 ?a @ d) s1 = (Inr (?a + 1), appended ?f s1)"
    using append_frame_calm [OF calm1, of RT_MutationCommit kFlagHasAttempt ?a "lay_u64 ?a @ d"] c1 q1 by simp
  have commit: "Commit ?a d s1 = (Inr (), unstage (appended ?f s1))"
    using v g by (simp add: Commit_def Let_def)
  have D2: "durable (appended ?f s1) (journal_step (Committed ?a (?a + 1)) (journal_step (Staged ?a t p) j))"
    using durable_appended [OF D1 c1 _ commit_step [OF r1 c1] journal_step_snapshot] q1 by simp
  have "jn_pending j ?a = None" by (rule represents_fresh [OF r]) (use room' in simp)
  then have "journal_step (Committed ?a (?a + 1)) (journal_step (Staged ?a t p) j) = add_committed t (?a + 1) p j"
    by (simp add: add_committed_def fun_upd_idem)
  then show thesis using that [OF stage commit] D2 q1 by (simp add: add.assoc)
qed

lemma has_room_mono: "has_room n s \<Longrightarrow> m \<le> n \<Longrightarrow> has_room m s"
  by (simp add: has_room_def)

lemma on_store_Pair: "f (rg_store rg) = (r, st) \<Longrightarrow> on_store f rg = (r, rg\<lparr>rg_store := st\<rparr>)"
  by (simp add: on_store_def)

text \<open>A journalled mutation on a store with room: the record is staged, and the commit succeeds.\<close>

lemma journalled:
  assumes "durable (rg_store rg) j" and "has_room (length p) (rg_store rg)" and "length d = kDigestBytes"
  obtains q s1 s2 where "q = s_last_sequence (rg_store rg) + 1"
    "stage_with_retry t p rg = (Inr q, rg\<lparr>rg_store := s1\<rparr>)"
    "\<And>rg'. rg_store rg' = s1 \<Longrightarrow> on_store (Commit q d) rg' = (Inr (), rg'\<lparr>rg_store := s2\<rparr>)"
    "durable s2 (add_committed t (q + 1) p j)" "s_options s2 = s_options (rg_store rg)"
proof -
  obtain s1 s2 where s: "Stage t p (rg_store rg) = (Inr (s_last_sequence (rg_store rg) + 1), s1)"
    "Commit (s_last_sequence (rg_store rg) + 1) d s1 = (Inr (), s2)"
    "durable s2 (add_committed t (s_last_sequence (rg_store rg) + 2) p j)"
    "s_options s2 = s_options (rg_store rg)"
    by (rule transaction [OF assms])
  show thesis
    by (rule that [OF refl, of s1 s2])
      (use s in \<open>simp_all add: stage_with_retry_def on_store_Pair add.assoc\<close>)
qed

context published begin

text \<open>A publication that the catalogue admits succeeds on a store with room for a largest record.\<close>

lemma publish_accepted:
  assumes t: "table_ok en Q (keep rg) m (en_table en rg)"
    and D: "durable (rg_store rg) j" and room: "has_room kMaxCanonicalRecordBytes (rg_store rg)"
    and v: "en_validate en v = Inr ()" "complete v"
    and window: "length (held (en_table en rg) (en_id en v)) < keep rg"
    and gen: "if held (en_table en rg) (en_id en v) = []
      then en_generation en v = 1 \<and> fcard (fmdom (en_table en rg)) < m
      else try_increment (en_generation en (last (held (en_table en rg) (en_id en v)))) = Some (en_generation en v)"
  shows "\<exists>q st. publish_entity en ty v m rg =
      (Inr \<lparr>pr_generation = en_generation en v, pr_sequence = q, pr_digest = en_compute_digest en v\<rparr>,
       (stored_in en (asserted en (rg_current_epoch rg)
          (make_provenance ''registry'' (rg_current_epoch rg) (en_generation en v) q) v) rg)\<lparr>rg_store := st\<rparr>) \<and>
      durable st (add_committed ty (q + 1) (lay (asserted en (rg_current_epoch rg) empty_provenance v)) j)"
proof -
  let ?k = "en_id en v" and ?d = "en_compute_digest en v" and ?E = "rg_current_epoch rg"
  let ?v = "en_set_digest en ?d (en_set_epoch en ?E (normalized en v))"
  let ?w = "en_encode en ?v (new_writer kMaxCanonicalRecordBytes)"
  have norm: "en_set_provenance en p ?v = asserted en ?E p v" for p
    by (simp add: normalized_def asserted_def)
  have v0: "?v = asserted en ?E empty_provenance v" by (simp add: normalized_def asserted_def)
  have ok: "ok ?v" unfolding v0
    by (rule asserted_ok [OF v]) (simp add: provenance_ok_def empty_provenance_def)
  have len: "length (lay ?v) \<le> kMaxCanonicalRecordBytes" by (rule fits [OF ok])
  have w: "\<not> w_failed ?w" "w_buffer ?w = lay ?v"
    using encodes_iff [OF ok] len emits_encode(2) [OF enc_emits [OF ok]] by auto
  obtain q s1 s2 where q: "stage_with_retry ty (lay ?v) rg = (Inr q, rg\<lparr>rg_store := s1\<rparr>)"
    "\<And>rg'. rg_store rg' = s1 \<Longrightarrow> on_store (Commit q ?d) rg' = (Inr (), rg'\<lparr>rg_store := s2\<rparr>)"
    "durable s2 (add_committed ty (q + 1) (lay ?v) j)"
    by (rule journalled [OF D has_room_mono [OF room len], of ?d ty]) (use that in auto)
  let ?a = "asserted en ?E (make_provenance ''registry'' ?E (en_generation en v) q) v"
  have g0: "en_generation en v \<noteq> 0"
    using gen try_increment_less [of "en_generation en (last (held (en_table en rg) ?k))" "en_generation en v"]
    by (auto split: if_splits)
  have store: "store_generation en ty (normalized en v) ?d rg =
      (Inr \<lparr>pr_generation = en_generation en v, pr_sequence = q, pr_digest = ?d\<rparr>,
       (stored_in en ?a rg)\<lparr>rg_store := s2\<rparr>)"
    unfolding store_generation_def
    by (simp add: Let_def w q(1,2) norm stored_in_def push_to_def del: set_set)
  have room_made: "make_room en ?k rg = (Inr (), rg)"
    using window by (auto simp: make_room_def held_def split: option.splits)
  have "publish_entity en ty v m rg = store_generation en ty (normalized en v) ?d rg"
  proof (cases "fmlookup (en_table en rg) ?k")
    case None
    then have "held (en_table en rg) ?k = []" by (simp add: held_def)
    with None gen v(1) g0 room_made show ?thesis by (simp add: publish_entity_def Let_def)
  next
    case (Some vs)
    then have "held (en_table en rg) ?k = vs" "vs \<noteq> []"
      using held_empty [OF t, of ?k] by (auto simp: held_def)
    with gen have "try_increment (en_generation en (last vs)) = Some (en_generation en v)" by simp
    moreover from this have "en_generation en (last vs) < en_generation en v" by (rule try_increment_less)
    ultimately show ?thesis using Some v(1) g0 room_made by (auto simp: publish_entity_def Let_def)
  qed
  then show ?thesis using store q(3) by (auto simp: v0)
qed

end

text \<open>A registration on a store with room.\<close>

definition lay_lease :: "publisher_lease \<Rightarrow> string \<Rightarrow> bytes" where
  "lay_lease l origin = lay_str (ls_publisher l) @ lay_u64 (ls_incarnation l) @ ls_boot l @
     lay_u64 (ls_granted_at_ms l) @ lay_u64 (ls_expires_at_ms l) @ lay_str (take kMaxOriginLen origin)"

lemma emits_lease:
  assumes "is_valid (ls_publisher l)"
  shows "emits (w_seq [w_str (ls_publisher l) kMaxIdentifierLen, w_u64 (ls_incarnation l), w_raw (ls_boot l),
    w_u64 (ls_granted_at_ms l), w_u64 (ls_expires_at_ms l),
    w_str (take kMaxOriginLen origin) kMaxOriginLen]) (lay_lease l origin)"
proof -
  have "lay_lease l origin = concat [lay_str (ls_publisher l), lay_u64 (ls_incarnation l), ls_boot l,
     lay_u64 (ls_granted_at_ms l), lay_u64 (ls_expires_at_ms l), lay_str (take kMaxOriginLen origin)]"
    by (simp add: lay_lease_def)
  moreover have "length (ls_publisher l) \<le> kMaxIdentifierLen"
    using is_valid_identifier_length [OF assms] by simp
  ultimately show ?thesis
    by (auto intro!: emits_fields intro: writes_intros simp del: concat.simps)
qed

lemma grant_accepted:
  assumes D: "durable (rg_store rg) j" and room: "has_room 512 (rg_store rg)"
    and l: "is_valid (ls_publisher l)" "length (ls_boot l) = 16"
  obtains st q where "grant_lease l origin rg = (Inr (l\<lparr>ls_lease := q\<rparr>), rg\<lparr>rg_store := st,
      rg_watermark := fmupd (ls_publisher l) (ls_incarnation l) (rg_watermark rg),
      rg_leases := fmupd (ls_publisher l) (l\<lparr>ls_lease := q\<rparr>) (rg_leases rg)\<rparr>)"
    "durable st (add_committed RT_RegisterPublisher (q + 1) (lay_lease l origin) j)"
    "q = s_last_sequence (rg_store rg) + 1" "s_options st = s_options (rg_store rg)"
proof -
  let ?p = "ls_publisher l"
  let ?w = "w_seq [w_str ?p kMaxIdentifierLen, w_u64 (ls_incarnation l), w_raw (ls_boot l),
    w_u64 (ls_granted_at_ms l), w_u64 (ls_expires_at_ms l),
    w_str (take kMaxOriginLen origin) kMaxOriginLen] (new_writer 512)"
  have len: "length (lay_lease l origin) \<le> 512"
    using is_valid_identifier_length [OF l(1)] l(2) by (auto simp: lay_lease_def limit_defs)
  have w: "\<not> w_failed ?w" "w_buffer ?w = lay_lease l origin"
    using emits_encode [OF emits_lease [OF l(1), of origin], of 512] len by auto
  obtain q s1 s2 where q: "q = s_last_sequence (rg_store rg) + 1"
    "stage_with_retry RT_RegisterPublisher (lay_lease l origin) rg = (Inr q, rg\<lparr>rg_store := s1\<rparr>)"
    "\<And>rg'. rg_store rg' = s1 \<Longrightarrow> on_store (Commit q (sha256 (bytes_of_string ?p))) rg' = (Inr (), rg'\<lparr>rg_store := s2\<rparr>)"
    "durable s2 (add_committed RT_RegisterPublisher (q + 1) (lay_lease l origin) j)"
    "s_options s2 = s_options (rg_store rg)"
    by (rule journalled [OF D has_room_mono [OF room len], of "sha256 (bytes_of_string ?p)" RT_RegisterPublisher])
      (use that length_sha256 in auto)
  show thesis
    by (rule that [OF _ q(4,1,5)]) (simp add: grant_lease_def Let_def w q(2,3))
qed

lemma register_accepted:
  assumes D: "durable (rg_store rg) j" and room: "has_room 512 (rg_store rg)"
    and p: "is_valid p" and i: "highest_incarnation p rg < i"
    and ttl: "0 < ttl" "ttl \<le> kMaxLeaseMs" "unat (rg_now_ms (tick clock rg)) + unat ttl < 2 ^ 64"
    and boot: "\<not> boot_is_zero boot" "length boot = 16"
    and space: "fcard (fmdom (rg_watermark rg)) < kMaxPublishersRetained"
  obtains l st q b where "RegisterPublisher clock p i boot ttl origin rg =
      (Inr l, (tick clock rg)\<lparr>rg_store := st, rg_watermark := fmupd p i (rg_watermark rg),
      rg_leases := fmupd p l (rg_leases rg)\<rparr>)"
    "l = \<lparr>ls_publisher = p, ls_incarnation = i, ls_epoch = rg_current_epoch rg, ls_lease = q,
      ls_boot = boot, ls_granted_at_ms = rg_now_ms (tick clock rg),
      ls_expires_at_ms = rg_now_ms (tick clock rg) + ttl\<rparr>"
    "durable st (add_committed RT_RegisterPublisher (q + 1) (lay_lease l origin) j)"
    "q = s_last_sequence (rg_store rg) + 1" "s_options st = s_options (rg_store rg)"
proof -
  let ?t = "tick clock rg"
  let ?l = "\<lparr>ls_publisher = p, ls_incarnation = i, ls_epoch = rg_current_epoch rg, ls_lease = 0,
      ls_boot = boot, ls_granted_at_ms = rg_now_ms ?t, ls_expires_at_ms = rg_now_ms ?t + ttl\<rparr>"
  have st: "rg_store ?t = rg_store rg" by (simp add: tick_def)
  have h: "highest_incarnation p ?t = highest_incarnation p rg" by (simp add: highest_incarnation_def)
  have i0: "i \<noteq> 0" using i by auto
  have x: "checked_add (rg_now_ms ?t) ttl = Some (rg_now_ms ?t + ttl)" using ttl(3) by (simp add: checked_add_iff)
  have run: "RegisterPublisher clock p i boot ttl origin rg = grant_lease ?l origin ?t"
    using p i0 i ttl(1,2) boot(1) space x h
    by (simp add: RegisterPublisher_def Let_def not_le [symmetric])
  obtain s q where g: "grant_lease ?l origin ?t = (Inr (?l\<lparr>ls_lease := q\<rparr>), ?t\<lparr>rg_store := s,
      rg_watermark := fmupd p i (rg_watermark ?t), rg_leases := fmupd p (?l\<lparr>ls_lease := q\<rparr>) (rg_leases ?t)\<rparr>)"
    "durable s (add_committed RT_RegisterPublisher (q + 1) (lay_lease ?l origin) j)"
    "q = s_last_sequence (rg_store rg) + 1" "s_options s = s_options (rg_store rg)"
    by (rule grant_accepted [of ?t j ?l origin]) (use D room p boot st in auto)
  show thesis
    by (rule that [OF _ refl _ g(3,4)]) (use run g(1,2) in \<open>simp_all add: lay_lease_def\<close>)
qed

end
