(* ===== verification/Registry_Progress.thy ===== *)
theory Registry_Progress
  imports Registry_Runs Engine_Props
begin

text \<open>
  The calls of the registry one by one, for the properties that span them: epoch advances, the
  audit of decisions with its pruning, equivocation, the five publications against the catalogue,
  and the conditions under which calls succeed.
\<close>

section \<open>Epochs\<close>

text \<open>An epoch advance: refused without an effect on the authority, or the next epoch without leases.\<close>

lemma advance_cases:
  assumes "advance_epoch_locked reason rg = (r, rg')"
  obtains e where "r = Inl e" "authority rg' = authority rg"
  | n where "r = Inr n" "try_increment (rg_durable_epoch rg) = Some n" "rg_durable_epoch rg' = n"
      "rg_current_epoch rg' = n" "rg_leases rg' = fmempty" "rg_watermark rg' = rg_watermark rg"
proof (cases "try_increment (rg_durable_epoch rg)")
  case (Some n)
  let ?w = "w_seq [w_u64 n, w_str (take kMaxReasonLen reason) kMaxReasonLen] (new_writer 512)"
  obtain a rg0 where a: "on_store (Append RT_EpochAdvance (w_buffer ?w)) rg = (a, rg0)" by fastforce
  have same: "authority rg0 = authority rg" using on_store_authority [of _ rg] a by (metis snd_conv)
  show thesis
  proof (cases "w_failed ?w")
    case True
    then show thesis using assms Some that(1) by (auto simp: advance_epoch_locked_def Let_def)
  next
    case False
    then show thesis using assms Some a same that
      by (cases a) (auto simp: advance_epoch_locked_def Let_def authority_def)
  qed
qed (use assms that(1) in \<open>auto simp: advance_epoch_locked_def\<close>)

definition lay_epoch :: "fabric_epoch \<Rightarrow> string \<Rightarrow> bytes" where
  "lay_epoch e reason = lay_u64 e @ lay_str (take kMaxReasonLen reason)"

lemma emits_epoch:
  "emits (w_seq [w_u64 e, w_str (take kMaxReasonLen reason) kMaxReasonLen]) (lay_epoch e reason)"
  using emits_fields [of "[w_u64 e, w_str (take kMaxReasonLen reason) kMaxReasonLen]"
      "[lay_u64 e, lay_str (take kMaxReasonLen reason)]"] emits_u64 [of e]
    emits_str [of "take kMaxReasonLen reason" kMaxReasonLen] by (simp add: lay_epoch_def)

lemma advance_accepted:
  assumes D: "durable (rg_store rg) j" and room: "has_room 512 (rg_store rg)"
    and e: "try_increment (rg_durable_epoch rg) = Some n"
  obtains st where "advance_epoch_locked reason rg = (Inr n, rg\<lparr>rg_store := st, rg_durable_epoch := n,
      rg_current_epoch := n, rg_leases := fmempty\<rparr>)"
    "durable st (add_committed RT_EpochAdvance (s_last_sequence (rg_store rg) + 1) (lay_epoch n reason) j)"
    "s_options st = s_options (rg_store rg)"
proof -
  let ?s = "rg_store rg" and ?p = "lay_epoch n reason"
  let ?w = "w_seq [w_u64 n, w_str (take kMaxReasonLen reason) kMaxReasonLen] (new_writer 512)"
  let ?e = "new_entry RT_EpochAdvance kFlagNone 0 ?p ?s"
  have len: "length ?p \<le> 268" by (simp add: lay_epoch_def limit_defs)
  have w: "\<not> w_failed ?w" "w_buffer ?w = ?p" using emits_encode [OF emits_epoch, of n reason 512] len by auto
  note room' = room [unfolded has_room_def]
  have c: "can_append ?e ?s"
    by (rule can_append_room) (use room' len in \<open>simp_all add: new_entry_def kRecordHeaderBytes_def kLogHeaderBytes_def\<close>)
  have calm: "calm ?s" and r: "represents ?s j" using D by (simp_all add: durable_def)
  have "plain_record RT_EpochAdvance ?p" using len by (simp add: plain_record_def lay_epoch_def)
  from durable_appended [OF D c _ plain_step [OF r c this] journal_step_snapshot]
  have D': "durable (appended ?e ?s) (add_committed RT_EpochAdvance (s_last_sequence ?s + 1) ?p j)" by simp
  have a: "append_frame RT_EpochAdvance kFlagNone 0 ?p ?s = (Inr (s_last_sequence ?s + 1), appended ?e ?s)"
    using append_frame_calm [OF calm, of RT_EpochAdvance kFlagNone 0 ?p] c by simp
  show thesis
    by (rule that [OF _ D']) (use e w a in \<open>simp_all add: advance_epoch_locked_def Let_def Append_def on_store_def\<close>)
qed

section \<open>The audit of decisions\<close>

lemma moved_audit:
  "moved rg rg0 \<Longrightarrow> length (rg_decision_order rg) \<le> kMaxDecisionsRetained \<Longrightarrow>
   rg_decisions rg0 = rg_decisions rg \<and> rg_decision_order rg0 = rg_decision_order rg"
  by (induction rule: moved.induct) (simp_all add: prune_audit prune_decisions_small)

text \<open>A decision just recorded survives the pruning that follows.\<close>

lemma prune_keeps_last:
  assumes "rg_decision_order rg = pre @ order" and "cd_contract d \<in> set order"
    and "length order \<le> kMaxDecisionsRetained"
    and "fmlookup (rg_decisions rg) k = Some d"
  shows "fmlookup (rg_decisions (prune_decisions rg)) k = Some d"
  using assms
proof (induction rg arbitrary: pre rule: prune_decisions.induct)
  case (1 rg)
  show ?case
  proof (cases pre)
    case Nil
    then show ?thesis using 1 by (simp add: prune_decisions_small)
  next
    case (Cons oldest pre')
    then have o: "rg_decision_order rg = oldest # pre' @ order" using "1.prems"(1) by simp
    show ?thesis
    proof (cases "length (rg_decision_order rg) \<le> kMaxDecisionsRetained")
      case True
      then show ?thesis using "1.prems"(4) by (simp add: prune_decisions_small)
    next
      case False
      let ?rg = "rg\<lparr>rg_decision_order := pre' @ order,
            rg_decisions := (if oldest \<in> set (pre' @ order) then rg_decisions rg
              else fmfilter (\<lambda>k. case fmlookup (rg_decisions rg) k of
                  None \<Rightarrow> False | Some v \<Rightarrow> cd_contract v \<noteq> oldest) (rg_decisions rg))\<rparr>"
      have "fmlookup (rg_decisions ?rg) k = Some d" using "1.prems"(2,4) by auto
      from "1.IH" [OF o False _ "1.prems"(2,3) this, of pre'] show ?thesis
        using False o by (simp add: prune_decisions.simps [of rg])
    qed
  qed
qed

text \<open>A record of a decision: refused, failed at its commit, or filed.\<close>

lemma record_cases:
  assumes ok: "registry_ok K rg" and run: "record_decision d rg = (r, rg')"
  defines "key \<equiv> key_of (cd_contract d) (cd_contract_generation d)"
  obtains e where "r = Inl e" "rg_decisions rg' = rg_decisions rg"
  | e where "r = Inl e" "rg_decisions rg' = fmdrop key (rg_decisions rg)"
  | "r = Inr ()" "fmlookup (rg_decisions rg') key = Some d"
proof -
  let ?w = "encode_decision d (new_writer kMaxCanonicalRecordBytes)"
  obtain s rg0 where st: "stage_with_retry RT_RecordDecision (w_buffer ?w) rg = (s, rg0)" by fastforce
  have small: "length (rg_decision_order rg) \<le> kMaxDecisionsRetained" using ok by (simp add: registry_ok_defs)
  have a: "rg_decisions rg0 = rg_decisions rg" "rg_decision_order rg0 = rg_decision_order rg"
    using moved_audit [OF stage_moved [OF st] small] by auto
  show thesis
  proof (cases "w_failed ?w \<or> (\<exists>e. s = Inl e)")
    case True
    then show thesis using run st a that(1) by (auto simp: record_decision_def Let_def split: if_splits)
  next
    case False
    then obtain q where s: "s = Inr q" by (cases s) auto
    obtain c rg1 where c: "on_store (Commit q (cd_decision_digest d)) (put_decision d rg0) = (c, rg1)" by fastforce
    have rg1: "rg_decisions rg1 = fmupd key d (rg_decisions rg)"
      "rg_decision_order rg1 = (if fmlookup (rg_decisions rg) key = None
        then rg_decision_order rg @ [cd_contract d] else rg_decision_order rg)"
      using c a by (auto simp: on_store_def put_decision_def Let_def key_def split: prod.splits)
    show thesis
    proof (cases c)
      case (Inl e)
      then have "rg_decisions rg' = fmdrop key (fmupd key d (rg_decisions rg))" "r = Inl e"
        using run st False s c rg1(1) by (auto simp: record_decision_def Let_def key_def)
      moreover have "fmdrop key (fmupd key d (rg_decisions rg)) = fmdrop key (rg_decisions rg)"
        by (rule fmap_ext) simp
      ultimately show thesis using that(2) by simp
    next
      case (Inr u)
      then have r: "rg' = prune_decisions rg1" "r = Inr ()"
        using run st False s c by (auto simp: record_decision_def Let_def)
      have l: "fmlookup (rg_decisions rg1) key = Some d" by (simp add: rg1)
      have "fmlookup (rg_decisions rg') key = Some d"
      proof (cases "fmlookup (rg_decisions rg) key")
        case (Some v)
        then show ?thesis using r l rg1(2) small by (simp add: prune_decisions_small)
      next
        case None
        show ?thesis unfolding r
          by (rule prune_keeps_last [OF _ _ _ l, of "rg_decision_order rg" "[cd_contract d]"])
            (use None rg1(2) in \<open>auto simp: limit_defs\<close>)
      qed
      then show thesis using that(3) r by simp
    qed
  qed
qed

text \<open>A decision names the contract that was asked about.\<close>

lemma fold_roll_up_contract:
  "fold roll_up as (d, out) = (d', out') \<Longrightarrow>
   cd_contract d' = cd_contract d \<and> cd_contract_generation d' = cd_contract_generation d"
proof (induction as arbitrary: d out)
  case (Cons a as)
  obtain d1 out1 where "roll_up a (d, out) = (d1, out1)" by fastforce
  moreover from this have "cd_contract d1 = cd_contract d \<and> cd_contract_generation d1 = cd_contract_generation d"
    by (auto simp: roll_up_def split: obligation_status.splits)
  ultimately show ?case using Cons.IH [of d1 out1] Cons.prems by simp
qed simp

lemma assess_loop_contract:
  "assess_loop ctx items d v = Some (d', v') \<Longrightarrow>
   cd_contract d' = cd_contract d \<and> cd_contract_generation d' = cd_contract_generation d"
  by (induction items arbitrary: d v) (auto split: option.splits prod.splits dest!: meta_spec)

lemma evaluate_contract:
  assumes "evaluate inp = Some (Inr d)"
  shows "cd_contract d = rq_contract (in_request inp) \<and>
    cd_contract_generation d = rq_contract_generation (in_request inp)"
proof (cases "intake_ok inp")
  case False
  then show ?thesis
    using assms by (simp add: evaluate_rejected rejected_decision_def seal_decision_def initial_decision_def Let_def)
      (metis contract_decision.select_convs)
next
  case True
  then obtain rs d0 v where e: "assess_loop (make_ctx inp rs) (build_plan (in_klass inp) (in_policy inp))
      (initial_decision inp) (entry_verdict inp rs) = Some (d0, v)"
    "evaluate inp = Some (Inr (conclude inp rs d0 v))" by (rule evaluate_accepted)
  obtain d1 o1 where f: "fold roll_up (cd_obligations d0) (d0\<lparr>cd_resources := map resource_of rs\<rparr>, fst v) = (d1, o1)"
    by fastforce
  have "d = conclude inp rs d0 v" using assms e(2) by simp
  moreover have "cd_contract (conclude inp rs d0 v) = cd_contract d1 \<and>
      cd_contract_generation (conclude inp rs d0 v) = cd_contract_generation d1"
    using f by (cases v) (simp add: conclude_def seal_decision_def Let_def split: option.splits)
  ultimately show ?thesis
    using fold_roll_up_contract [OF f] assess_loop_contract [OF e(1)]
    by (simp add: initial_decision_def Let_def)
qed

lemma decide_total:
  "\<exists>d. decide request rg = Some (Inr d) \<and> cd_contract d = rq_contract request \<and>
    cd_contract_generation d = rq_contract_generation request"
proof -
  have "\<exists>d. evaluate (bound_inputs request k p a rg) = Some (Inr d) \<and> cd_contract d = rq_contract request \<and>
      cd_contract_generation d = rq_contract_generation request" for k p a
    using evaluate_always_returns [of "bound_inputs request k p a rg"] evaluate_contract
    by (fastforce simp: bound_inputs_def)
  moreover have "cd_contract (rejection request x rg) = rq_contract request"
    "cd_contract_generation (rejection request x rg) = rq_contract_generation request" for x
    by (simp_all add: rejection_def seal_decision_def)
  ultimately show ?thesis
    by (auto simp: decide_def split: sum.splits)
qed

section \<open>Equivocation\<close>

definition lay_marker :: "conflict_marker \<Rightarrow> bytes" where
  "lay_marker m = lay_u8 (scope_rank (cm_scope m)) @ lay_str (cm_id m) @ lay_u64 (cm_generation m) @
     cm_incumbent_digest m @ cm_challenger_digest m @ lay_u64 (cm_epoch m) @ lay_str (cm_detail m)"

definition marker_ok :: "conflict_marker \<Rightarrow> bool" where
  "marker_ok m \<longleftrightarrow> length (cm_id m) \<le> kMaxIdentifierLen \<and> length (cm_detail m) \<le> kMaxReasonLen \<and>
     length (cm_incumbent_digest m) = kDigestBytes \<and> length (cm_challenger_digest m) = kDigestBytes"

lemma emits_marker:
  assumes "marker_ok m" shows "emits (write_marker m) (lay_marker m)"
proof -
  have "lay_marker m = concat [lay_u8 (scope_rank (cm_scope m)), lay_str (cm_id m), lay_u64 (cm_generation m),
     cm_incumbent_digest m, cm_challenger_digest m, lay_u64 (cm_epoch m), lay_str (cm_detail m)]"
    by (simp add: lay_marker_def)
  then show ?thesis unfolding write_marker_def [abs_def]
    using assms by (auto intro!: emits_fields intro: writes_intros simp: marker_ok_def simp del: concat.simps)
qed

lemma conflict_accepted:
  assumes D: "durable (rg_store rg) j" and room: "has_room 512 (rg_store rg)" and m: "marker_ok m"
  obtains st q where "record_conflict m rg = (Inl (make_error EC_Conflict
      ''equivocated definition: the identifier and generation already carry different content''),
      rg\<lparr>rg_store := st, rg_conflicts := push_conflict m (rg_conflicts rg)\<rparr>)"
    "durable st (add_committed RT_ConflictRecord q (lay_marker m) j)" "s_options st = s_options (rg_store rg)"
proof -
  have len: "length (lay_marker m) \<le> 512"
    using m by (simp add: marker_ok_def lay_marker_def limit_defs kDigestBytes_def)
  have w: "\<not> w_failed (write_marker m (new_writer 512))" "w_buffer (write_marker m (new_writer 512)) = lay_marker m"
    using emits_encode [OF emits_marker [OF m], of 512] len by auto
  let ?d = "sha256 (bytes_of_string (cm_detail m))"
  obtain q s1 s2 where q:
    "stage_with_retry RT_ConflictRecord (lay_marker m) rg = (Inr q, rg\<lparr>rg_store := s1\<rparr>)"
    "\<And>rg'. rg_store rg' = s1 \<Longrightarrow> on_store (Commit q ?d) rg' = (Inr (), rg'\<lparr>rg_store := s2\<rparr>)"
    "durable s2 (add_committed RT_ConflictRecord (q + 1) (lay_marker m) j)"
    "s_options s2 = s_options (rg_store rg)"
    by (rule journalled [OF D has_room_mono [OF room len], of ?d RT_ConflictRecord])
      (use that length_sha256 in auto)
  show thesis
    by (rule that [OF _ q(3,4)]) (simp add: record_conflict_def Let_def w q(1,2))
qed

context published begin

lemma publish_equivocates:
  fixes ty :: record_type
  assumes t: "table_ok en Q (keep rg) m (en_table en rg)"
    and D: "durable (rg_store rg) j" and room: "has_room 512 (rg_store rg)"
    and v: "en_validate en v = Inr ()" "complete v"
    and window: "length (held (en_table en rg) (en_id en v)) < keep rg"
    and held: "catalogue en (en_table en rg) (en_id en v) = Some (en_generation en v, d)"
    and other: "d \<noteq> en_compute_digest en v"
  defines "mk \<equiv> \<lparr>cm_scope = scope_of ty, cm_id = en_id en v, cm_generation = en_generation en v,
       cm_incumbent_digest = d, cm_challenger_digest = en_compute_digest en v,
       cm_epoch = rg_current_epoch rg, cm_detail = equivocation_detail\<rparr>"
  shows "\<exists>st q. publish_entity en ty v m rg = (Inl (make_error EC_Conflict
      ''equivocated definition: the identifier and generation already carry different content''),
      rg\<lparr>rg_store := st, rg_conflicts := push_conflict mk (rg_conflicts rg)\<rparr>) \<and>
    durable st (add_committed RT_ConflictRecord q (lay_marker mk) j)"
proof -
  let ?k = "en_id en v" and ?vs = "held (en_table en rg) (en_id en v)"
  have vs: "?vs \<noteq> []" "en_generation en (last ?vs) = en_generation en v" "en_digest en (last ?vs) = d"
    using held by (auto simp: catalogue_held [OF t] split: if_splits)
  note h = held_ok [OF t vs(1)]
  have last: "last ?vs \<in> set ?vs" using vs(1) by simp
  have g: "en_generation en v \<noteq> 0"
    using consecutive_nonzero [OF h(2), of "en_generation en (last ?vs)"] vs by auto
  have dl: "length d = kDigestBytes" using h(4) [OF last] vs(3) digest_length by metis
  have "ok (asserted en 0 empty_provenance v)"
    by (rule asserted_ok [OF v]) (simp add: provenance_ok_def empty_provenance_def)
  from valid_id [OF this] have "length ?k \<le> kMaxIdentifierLen"
    using is_valid_identifier_length by simp
  then have mk: "marker_ok mk"
    using dl by (simp add: marker_ok_def mk_def equivocation_detail_def limit_defs)
  obtain st q where c: "record_conflict mk rg = (Inl (make_error EC_Conflict
      ''equivocated definition: the identifier and generation already carry different content''),
      rg\<lparr>rg_store := st, rg_conflicts := push_conflict mk (rg_conflicts rg)\<rparr>)"
    "durable st (add_committed RT_ConflictRecord q (lay_marker mk) j)"
    by (rule conflict_accepted [OF D room mk])
  have room_made: "make_room en ?k rg = (Inr (), rg)"
    using window by (auto simp: make_room_def held_def split: option.splits)
  have "publish_entity en ty v m rg = record_conflict mk rg"
    using v(1) g room_made h(1) vs other by (simp add: publish_entity_def Let_def mk_def)
  then show ?thesis using c by auto
qed

end

text \<open>The outcome of a contract whose class, policy or path is equivocated.\<close>

lemma newest_id:
  assumes "table_ok en Q n m t" and "entity_for en t k g = Inr v"
  shows "en_id en v = k"
proof -
  have "v \<in> set (held t k)"
  proof (cases "g = 0")
    case True
    have pick: "fold (\<lambda>item best. if en_generation en best < en_generation en item then item else best) xs x
        \<in> insert x (set xs)" for x xs
      by (induction xs arbitrary: x) fastforce+
    show ?thesis
    proof (cases "held t k")
      case (Cons x xs)
      then show ?thesis using True assms(2) pick [of "x # xs" x]
        by (simp add: entity_for_def find_latest_def del: fold.simps)
    qed (use True assms(2) in \<open>simp add: entity_for_def find_latest_def\<close>)
  next
    case False
    with assms(2) show ?thesis
      by (auto simp: entity_for_def find_entity_def held_def Let_def find_Some_iff split: option.splits)
  qed
  then show ?thesis using assms(1)
    by (cases "fmlookup t k") (auto simp: held_def table_ok_def)
qed

lemma equivocated_class_denied:
  assumes "registry_ok K rg" and "m \<in> set (rg_conflicts rg)" and "cm_scope m = Scope_Class"
    and "cm_id m = rq_class_id request" and "decide request rg = Some (Inr d)"
  shows "O_Conflict \<le> cd_outcome d"
proof -
  have r: "O_Conflict \<le> cd_outcome (rejection request x rg)" for x
    by (simp add: rejection_def seal_decision_def)
  have "O_Conflict \<le> cd_outcome d"
    if "class_for (rq_class_id request) (rq_class_generation request) rg = Inr k"
      "evaluate (bound_inputs request k p a rg) = Some (Inr d)" for k p a
  proof (rule outcome_ge_conflict [OF that(2)])
    have "qc_id k = rq_class_id request"
      using newest_id [OF registry_ok_tables(1) [OF assms(1)]] that(1) by (simp add: class_for_def)
    then show "\<not> conflict_free (bound_inputs request k p a rg)"
      using assms(2-4) by (auto simp: conflict_free_def bound_inputs_def marker_applies_def intro!: bexI [of _ m])
  qed
  then show ?thesis using assms(5) r by (auto simp: decide_def split: sum.splits)
qed

text \<open>A marker denies its class in every later registry that still holds it, and it is kept while there is room.\<close>

lemma equivocation_remembered:
  assumes ok: "registry_ok capability_checked rg" and r: "reaches rg rg1" and m: "mk \<in> set (rg_conflicts rg1)"
    and s: "cm_scope mk = Scope_Class"
  shows "rq_class_id request = cm_id mk \<Longrightarrow> decide request rg1 = Some (Inr d) \<Longrightarrow> O_Conflict \<le> cd_outcome d"
    "length (rg_conflicts rg1) < kMaxStoredConflicts \<Longrightarrow> after c rg1 = Some rg2 \<Longrightarrow> mk \<in> set (rg_conflicts rg2)"
proof -
  have ok1: "registry_ok capability_checked rg1" by (rule reaches_ok [OF r ok])
  show "rq_class_id request = cm_id mk \<Longrightarrow> decide request rg1 = Some (Inr d) \<Longrightarrow> O_Conflict \<le> cd_outcome d"
    using equivocated_class_denied [OF ok1 m s, of request d] by auto
  show "length (rg_conflicts rg1) < kMaxStoredConflicts \<Longrightarrow> after c rg1 = Some rg2 \<Longrightarrow> mk \<in> set (rg_conflicts rg2)"
    using after_markers [OF ok1, of c rg2] m by (auto simp: keeps_markers_def)
qed

section \<open>Publications against the catalogue\<close>

lemma publications_publish:
  assumes "registry_ok K rg"
  shows "publishes Scope_Class (qc_id c) (qc_generation c) (compute_class_digest c) rg (PublishClass c o1 rg)"
    "publishes Scope_Policy (po_id p) (po_generation p) (compute_policy_digest p) rg (PublishPolicy p o2 rg)"
    "publishes Scope_Path (pa_id a) (pa_generation a) (compute_path_digest a) rg (PublishPath a o3 rg)"
    "publishes Scope_Capability (ca_resource k) (ca_generation k) (compute_capability_digest k) rg
      (PublishCapability k rg)"
    "publishes Scope_Reservation (rs_resource v) (rs_generation v) (compute_reservation_digest v) rg
      (PublishReservation v rg)"
proof -
  note p = publish_publishes [OF assms]
  have same: "publishes s x g d rg (Inl e, rg)" for s x g d and e :: error by (simp add: publishes_def)
  have stamp: "qc_id (stamped class_entity o1 rg c) = qc_id c"
    "qc_generation (stamped class_entity o1 rg c) = qc_generation c"
    "compute_class_digest (stamped class_entity o1 rg c) = compute_class_digest c"
    "po_id (stamped policy_entity o2 rg p) = po_id p"
    "po_generation (stamped policy_entity o2 rg p) = po_generation p"
    "compute_policy_digest (stamped policy_entity o2 rg p) = compute_policy_digest p"
    "pa_id (stamped path_entity o3 rg a) = pa_id a"
    "pa_generation (stamped path_entity o3 rg a) = pa_generation a"
    "compute_path_digest (stamped path_entity o3 rg a) = compute_path_digest a"
    "ca_resource (stamped capability_entity x rg k) = ca_resource k"
    "ca_generation (stamped capability_entity x rg k) = ca_generation k"
    "compute_capability_digest (stamped capability_entity x rg k) = compute_capability_digest k"
    "rs_resource (stamped reservation_entity x rg v) = rs_resource v"
    "rs_generation (stamped reservation_entity x rg v) = rs_generation v"
    "compute_reservation_digest (stamped reservation_entity x rg v) = compute_reservation_digest v" for o1 o2 o3 x
    by (simp_all add: stamped_def entity_defs class_meta policy_meta path_meta capability_meta reservation_meta)
  show "publishes Scope_Class (qc_id c) (qc_generation c) (compute_class_digest c) rg (PublishClass c o1 rg)"
    using p(1) [of "stamped class_entity (take kMaxOriginLen o1) rg c"] by (simp add: PublishClass_def stamp)
  show "publishes Scope_Policy (po_id p) (po_generation p) (compute_policy_digest p) rg (PublishPolicy p o2 rg)"
    using p(2) [of "stamped policy_entity (take kMaxOriginLen o2) rg p"] by (simp add: PublishPolicy_def stamp)
  show "publishes Scope_Path (pa_id a) (pa_generation a) (compute_path_digest a) rg (PublishPath a o3 rg)"
    using p(3) [of "stamped path_entity (take kMaxOriginLen o3) rg a"] by (simp add: PublishPath_def stamp)
  show "publishes Scope_Capability (ca_resource k) (ca_generation k) (compute_capability_digest k) rg
      (PublishCapability k rg)"
    using p(4) [of "stamped capability_entity (ca_publisher k) rg k"]
    by (simp add: PublishCapability_def stamp same split: sum.splits option.splits)
  show "publishes Scope_Reservation (rs_resource v) (rs_generation v) (compute_reservation_digest v) rg
      (PublishReservation v rg)"
    using p(5) [of "stamped reservation_entity (rs_publisher v) rg v"]
    by (simp add: PublishReservation_def stamp same split: sum.splits option.splits)
qed

lemma class_stamp:
  "validate_class (stamped class_entity o1 rg v) = validate_class v"
  "qc_id (stamped class_entity o1 rg v) = qc_id v"
  "qc_generation (stamped class_entity o1 rg v) = qc_generation v"
  "compute_class_digest (stamped class_entity o1 rg v) = compute_class_digest v"
  by (simp_all add: stamped_def class_entity_def class_meta)

lemma capability_stamp:
  "validate_capability (stamped capability_entity o1 rg v) = validate_capability v"
  "ca_resource (stamped capability_entity o1 rg v) = ca_resource v"
  "ca_generation (stamped capability_entity o1 rg v) = ca_generation v"
  "ca_diversity_domain (stamped capability_entity o1 rg v) = ca_diversity_domain v"
  "compute_capability_digest (stamped capability_entity o1 rg v) = compute_capability_digest v"
  by (simp_all add: stamped_def capability_entity_def capability_meta)

section \<open>Progress\<close>

lemma publishes_newest: "publishes s k g d rg (Inr pr, rg') \<Longrightarrow> catalogues rg' s k = Some (g, d)"
  by (auto simp: publishes_def admit_def split: option.splits if_splits)

text \<open>What the rules ask of a registration, and of a publication that extends the catalogue.\<close>

definition may_register :: "u64 \<Rightarrow> string \<Rightarrow> publisher_incarnation \<Rightarrow> bytes \<Rightarrow> u64 \<Rightarrow> registry \<Rightarrow> bool" where
  "may_register clock p i boot ttl rg \<longleftrightarrow> is_valid p \<and> highest_incarnation p rg < i \<and> 0 < ttl \<and>
     ttl \<le> kMaxLeaseMs \<and> unat (rg_now_ms (tick clock rg)) + unat ttl < 2 ^ 64 \<and>
     \<not> boot_is_zero boot \<and> length boot = 16 \<and> fcard (fmdom (rg_watermark rg)) < kMaxPublishersRetained"

definition may_extend :: "'a entity \<Rightarrow> nat \<Rightarrow> string \<Rightarrow> generation \<Rightarrow> registry \<Rightarrow> bool" where
  "may_extend en max_ids k g rg \<longleftrightarrow>
     length (held (en_table en rg) k) < ro_max_generations_per_id (rg_options rg) \<and>
     (case catalogue en (en_table en rg) k of
        None \<Rightarrow> g = 1 \<and> fcard (fmdom (en_table en rg)) < max_ids
      | Some (h, d) \<Rightarrow> try_increment h = Some g)"

definition may_assert :: "resource_capability \<Rightarrow> registry \<Rightarrow> bool" where
  "may_assert v rg \<longleftrightarrow> validate_capability v = Inr () \<and> ca_diversity_domain v \<noteq> [] \<and>
     (case FindLease (ca_publisher v) rg of None \<Rightarrow> False
      | Some l \<Rightarrow> ls_incarnation l = ca_incarnation v \<and> ca_epoch v = rg_current_epoch rg)"

context published begin

lemma extend_accepted:
  assumes t: "table_ok en Q (keep rg) m (en_table en rg)"
    and D: "durable (rg_store rg) j" and room: "has_room kMaxCanonicalRecordBytes (rg_store rg)"
    and v: "en_validate en v = Inr ()" "complete v" and may: "may_extend en m (en_id en v) (en_generation en v) rg"
  shows "\<exists>pr rg'. publish_entity en ty v m rg = (Inr pr, rg')"
proof -
  have "length (held (en_table en rg) (en_id en v)) < keep rg"
    "if held (en_table en rg) (en_id en v) = []
      then en_generation en v = 1 \<and> fcard (fmdom (en_table en rg)) < m
      else try_increment (en_generation en (last (held (en_table en rg) (en_id en v)))) = Some (en_generation en v)"
    using may catalogue_held [OF t, of "en_id en v"] by (auto simp: may_extend_def split: if_splits)
  from publish_accepted [OF t D room v this, of ty] show ?thesis by blast
qed

end

lemma register_succeeds:
  assumes "durable (rg_store rg) j" and "has_room 512 (rg_store rg)" and "may_register clock p i boot ttl rg"
  shows "\<exists>l rg'. RegisterPublisher clock p i boot ttl origin rg = (Inr l, rg') \<and>
    FindLease p rg' = Some l \<and> ls_incarnation l = i"
proof -
  have "rg_now_ms (tick clock rg) < rg_now_ms (tick clock rg) + ttl"
    using assms(3) by (auto simp: may_register_def word_less_nat_alt unat_word_ariths)
  then show ?thesis
    using assms(3) by (auto elim!: register_accepted [OF assms(1,2), of p i ttl clock boot origin]
        simp: may_register_def FindLease_def find_lease_def not_le)
qed

lemma class_succeeds:
  assumes "registry_ok K rg" and "durable (rg_store rg) j" and "has_room kMaxCanonicalRecordBytes (rg_store rg)"
    and "validate_class c = Inr ()" and "may_extend class_entity kMaxClassesRetained (qc_id c) (qc_generation c) rg"
  shows "\<exists>pr rg'. PublishClass c origin rg = (Inr pr, rg') \<and>
    catalogues rg' Scope_Class (qc_id c) = Some (qc_generation c, compute_class_digest c)"
proof -
  let ?c = "stamped class_entity (take kMaxOriginLen origin) rg c"
  obtain pr rg' where p: "PublishClass c origin rg = (Inr pr, rg')"
    using pub_class.extend_accepted [of class_ok rg kMaxClassesRetained j ?c RT_PublishClass]
      registry_ok_tables(1) [OF assms(1)] assms
    by (auto simp: PublishClass_def class_stamp en_validate_simps any_def)
  then have "catalogues rg' Scope_Class (qc_id c) = Some (qc_generation c, compute_class_digest c)"
    using publications_publish(1) [OF assms(1), of c origin] by (auto intro: publishes_newest simp del: catalogues.simps)
  with p show ?thesis by blast
qed

lemma capability_succeeds:
  assumes "registry_ok K rg" and "durable (rg_store rg) j" and "has_room kMaxCanonicalRecordBytes (rg_store rg)"
    and "may_assert v rg"
    and "may_extend capability_entity kMaxCapabilitiesRetained (ca_resource v) (ca_generation v) rg"
  shows "\<exists>pr rg'. PublishCapability v rg = (Inr pr, rg') \<and>
    catalogues rg' Scope_Capability (ca_resource v) = Some (ca_generation v, compute_capability_digest v)"
proof -
  let ?v = "stamped capability_entity (ca_publisher v) rg v"
  have "PublishCapability v rg = publish_entity capability_entity RT_PublishCapability ?v kMaxCapabilitiesRetained rg"
    using assms(4) by (auto simp: PublishCapability_def may_assert_def FindLease_def find_lease_def
        split: option.splits if_splits)
  then obtain pr rg' where p: "PublishCapability v rg = (Inr pr, rg')"
    using pub_capability.extend_accepted [of K rg kMaxCapabilitiesRetained j ?v RT_PublishCapability]
      registry_ok_tables(4) [OF assms(1)] assms
    by (auto simp: may_assert_def capability_stamp en_validate_simps)
  then have "catalogues rg' Scope_Capability (ca_resource v) = Some (ca_generation v, compute_capability_digest v)"
    using publications_publish(4) [OF assms(1), of v] by (auto intro: publishes_newest simp del: catalogues.simps)
  with p show ?thesis by blast
qed

end
