(* ===== verification/Registry_Claims.thy ===== *)
theory Registry_Claims
  imports Registry_Progress Samples Store_Claims
begin

text \<open>
  The promises of the registry, each for every run of its operations and whatever the disk does:
  the invariant, refinement of the catalogue, authority of evidence, permanence of fencing and
  epochs, equivocation, evaluation, progress on a store with room, and one place where a failed
  commit loses an older decision.
\<close>

section \<open>A concrete registry\<close>

text \<open>
  A registry on the empty sample store, in epoch one with the clock at one second: a publisher
  holds a lease, and one class is published.
\<close>

definition sample_registry_options :: registry_options where
  "sample_registry_options = default_registry_options\<lparr>ro_directory := ''d''\<rparr>"

definition sample_registry :: registry where
  "sample_registry = (new_registry sample_registry_options sample_store)
     \<lparr>rg_durable_epoch := 1, rg_current_epoch := 1, rg_now_ms := 1000, rg_clock_pinned := True\<rparr>"

lemma new_registry_ok: "0 < ro_max_generations_per_id options \<Longrightarrow> registry_ok K (new_registry options st)"
  by (simp add: registry_ok_defs new_registry_def table_ok_empty fcard_def)

lemma sample_registry_ok: "registry_ok K sample_registry"
proof -
  have "registry_ok K (new_registry sample_registry_options sample_store)"
    by (rule new_registry_ok) (simp add: sample_registry_options_def default_registry_options_def limit_defs)
  then show ?thesis by (simp add: sample_registry_def registry_ok_defs new_registry_def)
qed

lemma sample_registry_fields:
  "rg_store sample_registry = sample_store" "rg_classes sample_registry = fmempty"
  "rg_policies sample_registry = fmempty" "rg_paths sample_registry = fmempty"
  "rg_capabilities sample_registry = fmempty" "rg_reservations sample_registry = fmempty"
  "rg_watermark sample_registry = fmempty" "rg_leases sample_registry = fmempty"
  "rg_conflicts sample_registry = []" "rg_decisions sample_registry = fmempty"
  "rg_decision_order sample_registry = []" "rg_current_epoch sample_registry = 1"
  "rg_durable_epoch sample_registry = 1" "rg_now_ms sample_registry = 1000"
  "tick c sample_registry = sample_registry" "keep sample_registry = kMaxGenerationsPerId"
  by (simp_all add: sample_registry_def new_registry_def sample_registry_options_def
      default_registry_options_def tick_def)

lemma sample_room: "n \<le> kMaxCanonicalRecordBytes \<Longrightarrow> has_room n sample_store"
  by (simp add: has_room_def sample_store_def sample_base_def sample_options_def
      default_store_options_def new_store_def limit_defs)

section \<open>Properties\<close>

text \<open>
  C1: every operation keeps the registry well formed, on every branch and whatever the disk does.
  The generations of every identifier are consecutive, validated and carry the digest of their
  content, within the retention window and the identifier budgets; the fabric epoch in memory is
  the durable one; a lease belongs to the current epoch and to the highest incarnation ever
  registered for its publisher; conflicts and decisions stay within their budgets, and every
  recorded decision is filed under its own contract and generation.
\<close>

theorem registry_invariant:
  assumes "registry_ok capability_checked rg" and "reaches rg rg'"
  shows "registry_ok capability_checked rg'"
  by (rule reaches_ok [OF assms(2,1)])

lemma sample_registration:
  obtains l st q b where "RegisterPublisher 0 ''agent'' 3 (replicate 16 1) 60000 [] sample_registry =
      (Inr l, sample_registry\<lparr>rg_store := st, rg_watermark := fmupd ''agent'' 3 fmempty,
      rg_leases := fmupd ''agent'' l fmempty\<rparr>)"
    "l = \<lparr>ls_publisher = ''agent'', ls_incarnation = 3, ls_epoch = 1, ls_lease = q,
      ls_boot = replicate 16 1, ls_granted_at_ms = 1000, ls_expires_at_ms = 61000\<rparr>"
proof -
  have v: "is_valid ''agent''" "\<not> boot_is_zero (replicate 16 1)" by code_simp+
  show thesis
    by (rule register_accepted [of sample_registry empty_journal "''agent''" 3 60000 0 "replicate 16 1" "[]"])
      (use that sample_durable sample_room v in
        \<open>auto simp: sample_registry_fields highest_incarnation_def limit_defs kMaxLeaseMs_def fcard_def\<close>)
qed

theorem registry_invariant_witness:
  "\<exists>rg. reaches sample_registry rg \<and> highest_incarnation ''agent'' rg = 3 \<and> registry_ok capability_checked rg"
proof -
  obtain l st where r: "RegisterPublisher 0 ''agent'' 3 (replicate 16 1) 60000 [] sample_registry =
      (Inr l, sample_registry\<lparr>rg_store := st, rg_watermark := fmupd ''agent'' 3 fmempty,
      rg_leases := fmupd ''agent'' l fmempty\<rparr>)" by (rule sample_registration)
  let ?rg = "sample_registry\<lparr>rg_store := st, rg_watermark := fmupd ''agent'' 3 fmempty,
      rg_leases := fmupd ''agent'' l fmempty\<rparr>"
  have s: "reaches sample_registry ?rg"
    by (rule reaches_step [OF reaches_refl, where c = "DoRegister 0 ''agent'' 3 (replicate 16 1) 60000 []"])
      (simp add: r)
  show ?thesis
    using registry_invariant [OF sample_registry_ok s] s by (intro exI [of _ ?rg]) (simp add: highest_incarnation_def)
qed

text \<open>
  C2: publication refines the catalogue. For each of the five entity types, a publication either
  fails and leaves the newest generation and digest of every identifier of every type as they
  were, or reports the generation and the content digest of what it was given and changes the
  catalogue exactly as the specification of an admissible publication says: generation one opens
  an identifier, the successor of the newest extends it, the newest repeated with the same
  content changes nothing, and there is no other success.
\<close>

theorem publications_refine_catalogue:
  assumes "registry_ok K rg"
  shows "publishes Scope_Class (qc_id c) (qc_generation c) (compute_class_digest c) rg (PublishClass c o1 rg) \<and>
    publishes Scope_Policy (po_id p) (po_generation p) (compute_policy_digest p) rg (PublishPolicy p o2 rg) \<and>
    publishes Scope_Path (pa_id a) (pa_generation a) (compute_path_digest a) rg (PublishPath a o3 rg) \<and>
    publishes Scope_Capability (ca_resource k) (ca_generation k) (compute_capability_digest k) rg
      (PublishCapability k rg) \<and>
    publishes Scope_Reservation (rs_resource v) (rs_generation v) (compute_reservation_digest v) rg
      (PublishReservation v rg)"
  using publications_publish [OF assms] by blast

theorem publications_refine_catalogue_witness:
  "publishes Scope_Class ''gold'' 1 (compute_class_digest sample_class) sample_registry
     (PublishClass sample_class [] sample_registry) \<and>
   publishes Scope_Policy ''default'' 1 (compute_policy_digest sample_policy) sample_registry
     (PublishPolicy sample_policy [] sample_registry)"
  using publications_refine_catalogue [OF sample_registry_ok, of sample_class "[]" sample_policy "[]"]
  by (simp add: sample_class_def sample_policy_def)

text \<open>
  C17: evidence needs authority. A capability or a reservation is taken only from a publisher whose
  lease is of the current epoch and has not expired, and whose incarnation is the lease's and the
  highest ever registered; the evidence names the current epoch, and the lease was granted for at
  most the longest duration a lease may have.
\<close>

theorem evidence_needs_live_lease:
  assumes "registry_ok K rg"
    and "PublishCapability v rg = (Inr pr, rg') \<and> p = ca_publisher v \<and> i = ca_incarnation v \<and> e = ca_epoch v \<or>
      PublishReservation w rg = (Inr pr, rg') \<and> p = rs_publisher w \<and> i = rs_incarnation w \<and> e = rs_epoch w"
  shows "\<exists>l. FindLease p rg = Some l \<and> ls_publisher l = p \<and> ls_incarnation l = i \<and>
    highest_incarnation p rg = i \<and> e = rg_current_epoch rg \<and> ls_epoch l = rg_current_epoch rg \<and>
    rg_now_ms rg < ls_expires_at_ms l \<and>
    unat (ls_expires_at_ms l) \<le> unat (ls_granted_at_ms l) + unat kMaxLeaseMs"
proof -
  obtain l where l: "find_lease p rg = Some l" "ls_incarnation l = i" "e = rg_current_epoch rg"
    using assms(2) by (auto simp: PublishCapability_def PublishReservation_def split: sum.splits option.splits if_splits)
  have h: "fmlookup (rg_leases rg) p = Some l" "ls_epoch l = rg_current_epoch rg" "rg_now_ms rg < ls_expires_at_ms l"
    using l(1) by (auto simp: find_lease_def split: option.splits if_splits)
  have "lease_ok (rg_durable_epoch rg) (rg_watermark rg) p l"
    using assms(1) h(1) by (auto simp: registry_ok_def fencing_ok_def)
  with l h show ?thesis by (simp add: FindLease_def lease_ok_def highest_incarnation_def)
qed

text \<open>
  C15: fencing is permanent. Once an incarnation of a publisher is registered, then after any
  further calls, and whatever fails among them, no registration of that or an earlier incarnation
  succeeds, and no capability or reservation asserted by an earlier one is taken.
\<close>

theorem fencing_is_permanent:
  assumes "registry_ok capability_checked rg" and "RegisterPublisher clock p i boot ttl origin rg = (Inr l, rg1)"
    and "reaches rg1 rg2"
  shows "(\<forall>j clock' boot' ttl' origin'. j \<le> i \<longrightarrow>
      (\<exists>e. fst (RegisterPublisher clock' p j boot' ttl' origin' rg2) = Inl e)) \<and>
    (\<forall>v. ca_publisher v = p \<longrightarrow> ca_incarnation v < i \<longrightarrow> (\<exists>e. fst (PublishCapability v rg2) = Inl e)) \<and>
    (\<forall>w. rs_publisher w = p \<longrightarrow> rs_incarnation w < i \<longrightarrow> (\<exists>e. fst (PublishReservation w rg2) = Inl e))"
proof -
  have ok1: "registry_ok capability_checked rg1" by (rule register_ok [OF assms(1,2)])
  have ok2: "registry_ok capability_checked rg2" by (rule reaches_ok [OF assms(3) ok1])
  have "highest_incarnation p rg1 = i"
    using assms(2) by (cases rule: register_cases) (auto simp: highest_incarnation_def)
  then have h: "i \<le> highest_incarnation p rg2"
    using reaches_advances [OF assms(3) ok1] by (auto simp: advances_def)
  have "\<exists>e. fst (RegisterPublisher clock' p j boot' ttl' origin' rg2) = Inl e" if "j \<le> i" for j clock' boot' ttl' origin'
  proof -
    obtain r rg3 where r: "RegisterPublisher clock' p j boot' ttl' origin' rg2 = (r, rg3)" by fastforce
    then show ?thesis
    proof (cases rule: register_cases)
      case (1 e)
      with r show ?thesis by auto
    next
      case (2 x)
      with that h show ?thesis by simp
    qed
  qed
  moreover have lease: "ls_incarnation x = highest_incarnation p rg2" if "find_lease p rg2 = Some x" for x
    using that ok2 by (auto simp: registry_ok_def fencing_ok_def lease_ok_def find_lease_def
        highest_incarnation_def split: option.splits if_splits)
  have "\<exists>e. fst (PublishCapability v rg2) = Inl e" if "ca_publisher v = p" "ca_incarnation v < i" for v
    using that h lease by (auto simp: PublishCapability_def split: sum.splits option.splits)
  moreover have "\<exists>e. fst (PublishReservation w rg2) = Inl e" if "rs_publisher w = p" "rs_incarnation w < i" for w
    using that h lease by (auto simp: PublishReservation_def split: sum.splits option.splits)
  ultimately show ?thesis by blast
qed

theorem fencing_is_permanent_witness:
  "\<exists>l rg1 e. RegisterPublisher 0 ''agent'' 3 (replicate 16 1) 60000 [] sample_registry = (Inr l, rg1) \<and>
     fst (RegisterPublisher 5 ''agent'' 2 (replicate 16 7) 60000 [] (set_now_millis 9000 rg1)) = Inl e"
proof -
  obtain l st where r: "RegisterPublisher 0 ''agent'' 3 (replicate 16 1) 60000 [] sample_registry =
      (Inr l, sample_registry\<lparr>rg_store := st, rg_watermark := fmupd ''agent'' 3 fmempty,
      rg_leases := fmupd ''agent'' l fmempty\<rparr>)" by (rule sample_registration)
  let ?rg = "sample_registry\<lparr>rg_store := st, rg_watermark := fmupd ''agent'' 3 fmempty,
      rg_leases := fmupd ''agent'' l fmempty\<rparr>"
  have "reaches ?rg (set_now_millis 9000 ?rg)"
    by (rule reaches_step [OF reaches_refl, where c = "DoSetClock 9000"]) simp
  from fencing_is_permanent [OF sample_registry_ok r this, THEN conjunct1, rule_format, of 2 5 "replicate 16 7" 60000 "[]"]
  obtain e where "fst (RegisterPublisher 5 ''agent'' 2 (replicate 16 7) 60000 [] (set_now_millis 9000 ?rg)) = Inl e"
    by (auto simp: word_le_nat_alt)
  with r show ?thesis by blast
qed

text \<open>
  C16: an epoch advance is one step and ends every lease. The new epoch is the successor of the old,
  without wrapping; from then on, after any further calls, the epoch is at least the new one, no
  lease granted before speaks for its publisher, and no capability or reservation that asserts an
  earlier epoch is taken.
\<close>

theorem epoch_advance_ends_leases:
  assumes "registry_ok capability_checked rg" and "AdvanceEpoch reason rg = (Inr e, rg1)" and "reaches rg1 rg2"
  shows "unat e = unat (rg_current_epoch rg) + 1 \<and> rg_current_epoch rg1 = e \<and> e \<le> rg_current_epoch rg2 \<and>
    (\<forall>p l. fmlookup (rg_leases rg) p = Some l \<longrightarrow> FindLease p rg2 \<noteq> Some l) \<and>
    (\<forall>v. ca_epoch v < e \<longrightarrow> (\<exists>err. fst (PublishCapability v rg2) = Inl err)) \<and>
    (\<forall>w. rs_epoch w < e \<longrightarrow> (\<exists>err. fst (PublishReservation w rg2) = Inl err))"
proof -
  have run: "advance_epoch_locked reason rg = (Inr e, rg1)" using assms(2) by (simp add: AdvanceEpoch_def)
  have ok1: "registry_ok capability_checked rg1" by (rule advance_ok [OF assms(1) run])
  have ok2: "registry_ok capability_checked rg2" by (rule reaches_ok [OF assms(3) ok1])
  have eq: "rg_current_epoch rg = rg_durable_epoch rg" using assms(1) by (simp add: registry_ok_defs)
  have n: "try_increment (rg_current_epoch rg) = Some e" "rg_current_epoch rg1 = e"
    using run eq by (auto elim: advance_cases)
  have le: "e \<le> rg_current_epoch rg2"
    using reaches_advances [OF assms(3) ok1] n(2) by (simp add: advances_def)
  have lt: "rg_current_epoch rg < e" by (rule try_increment_less [OF n(1)])
  have "FindLease p rg2 \<noteq> Some l" if "fmlookup (rg_leases rg) p = Some l" for p l
  proof -
    have "ls_epoch l = rg_current_epoch rg"
      using assms(1) that eq by (auto simp: registry_ok_def fencing_ok_def lease_ok_def)
    with lt le show ?thesis by (auto simp: FindLease_def find_lease_def split: option.splits if_splits)
  qed
  moreover have "\<exists>err. fst (PublishCapability v rg2) = Inl err" if "ca_epoch v < e" for v
    using that le by (auto simp: PublishCapability_def split: sum.splits option.splits)
  moreover have "\<exists>err. fst (PublishReservation w rg2) = Inl err" if "rs_epoch w < e" for w
    using that le by (auto simp: PublishReservation_def split: sum.splits option.splits)
  moreover have "unat e = unat (rg_current_epoch rg) + 1"
    using try_increment_unat [OF n(1)] by simp
  ultimately show ?thesis using n(2) le by blast
qed

theorem epoch_advance_ends_leases_witness:
  "\<exists>rg1. AdvanceEpoch ''drill'' sample_registry = (Inr 2, rg1) \<and> rg_current_epoch rg1 = 2 \<and>
     (\<exists>err. fst (PublishCapability ((sample_capability ''edge'' ''east'' 150)\<lparr>ca_epoch := 1\<rparr>) rg1) = Inl err)"
proof -
  have "try_increment (rg_durable_epoch sample_registry) = Some 2"
    by (simp add: sample_registry_fields try_increment_def)
  then obtain rg1 where r: "AdvanceEpoch ''drill'' sample_registry = (Inr 2, rg1)"
    using advance_accepted [of sample_registry empty_journal 2 "''drill''"] sample_durable sample_room [of 512]
    by (auto simp: AdvanceEpoch_def sample_registry_fields(1) limit_defs)
  from epoch_advance_ends_leases [OF sample_registry_ok r reaches_refl] r show ?thesis
    by (intro exI [of _ rg1]) (simp add: word_less_nat_alt)
qed

text \<open>
  C19: an evaluation always returns. The decision is about the contract that was asked for; when
  the call reports it, it is retrievable under the contract and generation from then on, whatever
  had to be pruned; when the call fails instead, every other recorded decision is still there.
\<close>

theorem evaluation_returns_and_is_recorded:
  assumes "registry_ok K rg"
  shows "\<exists>d r rg'. decide request (tick clock rg) = Some (Inr d) \<and> cd_contract d = rq_contract request \<and>
    cd_contract_generation d = rq_contract_generation request \<and>
    RegistryEvaluate clock request rg = Some (r, rg') \<and>
    (case r of
       Inr d' \<Rightarrow> d' = d \<and> GetDecision (rq_contract request) (rq_contract_generation request) rg' = Inr d
     | Inl e \<Rightarrow> (\<forall>c g. (c, g) \<noteq> (rq_contract request, rq_contract_generation request) \<longrightarrow>
         GetDecision c g rg' = GetDecision c g rg))"
proof -
  let ?t = "tick clock rg"
  obtain d where d: "decide request ?t = Some (Inr d)" "cd_contract d = rq_contract request"
    "cd_contract_generation d = rq_contract_generation request" using decide_total by blast
  have ok: "registry_ok K ?t" using assms by simp
  have same: "rg_decisions ?t = rg_decisions rg" by (simp add: tick_def)
  obtain r0 rg' where r: "record_decision d ?t = (r0, rg')" by fastforce
  let ?r = "case r0 of Inl e \<Rightarrow> Inl e | Inr _ \<Rightarrow> Inr d"
  have "RegistryEvaluate clock request rg = Some (?r, rg')"
    using d(1) r by (cases r0) (simp_all add: RegistryEvaluate_def Let_def recorded_def)
  moreover have "case ?r of
       Inr d' \<Rightarrow> d' = d \<and> GetDecision (rq_contract request) (rq_contract_generation request) rg' = Inr d
     | Inl e \<Rightarrow> (\<forall>c g. (c, g) \<noteq> (rq_contract request, rq_contract_generation request) \<longrightarrow>
         GetDecision c g rg' = GetDecision c g rg)"
    by (rule record_cases [OF ok r]) (use d same in \<open>auto simp: GetDecision_def key_of_inject\<close>)
  ultimately show ?thesis using d by blast
qed

lemma sample_request_fields:
  "rq_contract sample_request = ''c1''" "rq_contract_generation sample_request = 1"
  by (simp_all add: sample_request_def)

theorem evaluation_returns_and_is_recorded_witness:
  "\<exists>d r rg'. RegistryEvaluate 0 sample_request sample_registry = Some (r, rg') \<and> cd_contract d = ''c1'' \<and>
     (\<forall>d'. r = Inr d' \<longrightarrow> GetDecision ''c1'' 1 rg' = Inr d)"
  using evaluation_returns_and_is_recorded [OF sample_registry_ok, of sample_request 0]
  by (fastforce simp: sample_request_fields)

text \<open>
  C18: a second definition of the newest generation never replaces the first. When a class is
  published again under its newest generation, the same content is acknowledged without a record.
  Different content is refused as a conflict: the marker with both digests is committed to the
  journal as one record and kept in memory, the catalogue stays as it was, and from then on, in every
  registry later calls reach, no contract on that class is decided better than CONFLICT while the
  marker is among the at most 256 the registry keeps; no call loses the marker while fewer than 256
  are kept.
\<close>

theorem equivocation_is_recorded:
  assumes "registry_ok capability_checked rg" and "durable (rg_store rg) j" and "has_room 512 (rg_store rg)"
    and "validate_class v = Inr ()"
    and "length (held (rg_classes rg) (qc_id v)) < ro_max_generations_per_id (rg_options rg)"
    and "catalogues rg Scope_Class (qc_id v) = Some (qc_generation v, d)"
  shows "if d = compute_class_digest v
    then PublishClass v origin rg =
      (Inr \<lparr>pr_generation = qc_generation v, pr_sequence = 0, pr_digest = d\<rparr>, rg)
    else \<exists>e rg' mk q. PublishClass v origin rg = (Inl e, rg') \<and> err_code e = EC_Conflict \<and>
      catalogues rg' = catalogues rg \<and>
      cm_scope mk = Scope_Class \<and> cm_id mk = qc_id v \<and> cm_generation mk = qc_generation v \<and>
      cm_incumbent_digest mk = d \<and> cm_challenger_digest mk = compute_class_digest v \<and>
      durable (rg_store rg') (add_committed RT_ConflictRecord q (lay_marker mk) j) \<and>
      mk \<in> set (rg_conflicts rg') \<and>
      (\<forall>rg1. reaches rg' rg1 \<longrightarrow> mk \<in> set (rg_conflicts rg1) \<longrightarrow>
        (\<forall>request decision. rq_class_id request = qc_id v \<longrightarrow>
          decide request rg1 = Some (Inr decision) \<longrightarrow> O_Conflict \<le> cd_outcome decision) \<and>
        (\<forall>c rg2. length (rg_conflicts rg1) < kMaxStoredConflicts \<longrightarrow>
          after c rg1 = Some rg2 \<longrightarrow> mk \<in> set (rg_conflicts rg2)))"
proof -
  let ?v = "stamped class_entity (take kMaxOriginLen origin) rg v"
  let ?vs = "held (rg_classes rg) (qc_id v)"
  note t = registry_ok_tables(1) [OF assms(1)]
  have vs: "?vs \<noteq> []" "qc_generation (last ?vs) = qc_generation v" "qc_digest (last ?vs) = d"
    using assms(6) pub_class.catalogue_held [OF t [folded en_table_simps]] by (auto split: if_splits)
  have h: "fmlookup (rg_classes rg) (qc_id v) = Some ?vs"
    using pub_class.held_ok(1) [OF t vs(1)] .
  have g: "qc_generation v \<noteq> 0"
    using consecutive_nonzero [of "map qc_generation ?vs" "qc_generation (last ?vs)"] vs
      pub_class.held_ok(2) [OF t vs(1)] imageI [OF last_in_set [OF vs(1)], of qc_generation] by simp
  show ?thesis
  proof (cases "d = compute_class_digest v")
    case True
    have "make_room class_entity (qc_id v) rg = (Inr (), rg)" using assms(5) h by (simp add: make_room_def)
    then have "PublishClass v origin rg =
        (Inr \<lparr>pr_generation = qc_generation v, pr_sequence = 0, pr_digest = d\<rparr>, rg)"
      using assms(4) g h vs True pub_class.normalized_simps [of ?v]
      by (simp add: PublishClass_def publish_entity_def Let_def class_stamp en_validate_simps)
    with True show ?thesis by simp
  next
    case False
    let ?mk = "\<lparr>cm_scope = scope_of RT_PublishClass, cm_id = qc_id v, cm_generation = qc_generation v,
       cm_incumbent_digest = d, cm_challenger_digest = compute_class_digest v,
       cm_epoch = rg_current_epoch rg, cm_detail = equivocation_detail\<rparr>"
    obtain st q where p: "PublishClass v origin rg = (Inl (make_error EC_Conflict
      ''equivocated definition: the identifier and generation already carry different content''),
      rg\<lparr>rg_store := st, rg_conflicts := push_conflict ?mk (rg_conflicts rg)\<rparr>)"
      and D: "durable st (add_committed RT_ConflictRecord q (lay_marker ?mk) j)"
      using pub_class.publish_equivocates [of class_ok rg kMaxClassesRetained j ?v d RT_PublishClass] t assms False
      by (auto simp: PublishClass_def class_stamp en_validate_simps any_def)
    let ?rg = "rg\<lparr>rg_store := st, rg_conflicts := push_conflict ?mk (rg_conflicts rg)\<rparr>"
    have ok: "registry_ok capability_checked ?rg"
      using publish_keeps_ok(1) [OF assms(1), of RT_PublishClass ?v] p by (auto simp: PublishClass_def)
    have mem: "?mk \<in> set (push_conflict ?mk (rg_conflicts rg))"
      by (cases "rg_conflicts rg") (simp_all add: push_conflict_def Let_def limit_defs kMaxStoredConflicts_def)
    have "\<forall>rg1. reaches ?rg rg1 \<longrightarrow> ?mk \<in> set (rg_conflicts rg1) \<longrightarrow>
        (\<forall>request decision. rq_class_id request = qc_id v \<longrightarrow>
          decide request rg1 = Some (Inr decision) \<longrightarrow> O_Conflict \<le> cd_outcome decision) \<and>
        (\<forall>c rg2. length (rg_conflicts rg1) < kMaxStoredConflicts \<longrightarrow>
          after c rg1 = Some rg2 \<longrightarrow> ?mk \<in> set (rg_conflicts rg2))"
      using equivocation_remembered [OF ok, of _ ?mk] by (simp add: scope_of_def)
    moreover have "catalogues ?rg = catalogues rg" by simp
    ultimately show ?thesis
      using False p mem D
      by (auto simp: scope_of_def make_error_def intro!: exI [of _ ?mk] exI [of _ q])
  qed
qed

definition published_registry :: registry where
  "published_registry = sample_registry\<lparr>rg_classes := fmupd ''gold''
     [asserted class_entity 1 empty_provenance sample_class] fmempty\<rparr>"

lemma published_registry_ok: "registry_ok K published_registry"
proof -
  have "class_ok (asserted class_entity 1 empty_provenance sample_class)"
    by (rule pub_class.asserted_ok)
      (simp_all add: en_validate_simps sample_class_valid any_def provenance_ok_def empty_provenance_def)
  then have "table_ok class_entity class_ok (keep sample_registry) kMaxClassesRetained
      (rg_classes published_registry)"
    using pub_class.asserted_simps [of 1 empty_provenance sample_class]
    by (simp add: table_ok_def published_registry_def consecutive_def fcard_def limit_defs sample_class_def
        sample_registry_fields)
  from keeps_tables(1) [OF sample_registry_ok this] show ?thesis by (simp add: published_registry_def)
qed

theorem equivocation_is_recorded_witness:
  "if compute_class_digest sample_class = compute_class_digest (sample_class\<lparr>qc_label := ''x''\<rparr>)
   then fst (PublishClass (sample_class\<lparr>qc_label := ''x''\<rparr>) [] published_registry) =
     Inr \<lparr>pr_generation = 1, pr_sequence = 0, pr_digest = compute_class_digest sample_class\<rparr>
   else \<exists>e rg' mk q. PublishClass (sample_class\<lparr>qc_label := ''x''\<rparr>) [] published_registry = (Inl e, rg') \<and>
     err_code e = EC_Conflict \<and> mk \<in> set (rg_conflicts rg') \<and> cm_generation mk = 1 \<and>
     durable (rg_store rg') (add_committed RT_ConflictRecord q (lay_marker mk) empty_journal)"
proof -
  let ?v = "sample_class\<lparr>qc_label := ''x''\<rparr>"
  have v: "validate_class ?v = Inr ()" by code_simp
  have f: "qc_id ?v = ''gold''" "qc_generation ?v = 1" "qc_id sample_class = ''gold''" "qc_generation sample_class = 1"
    by (simp_all add: sample_class_def)
  have c: "catalogues published_registry Scope_Class (qc_id ?v) = Some (qc_generation ?v, compute_class_digest sample_class)"
    using pub_class.asserted_simps [of 1 empty_provenance sample_class]
    by (simp add: published_registry_def catalogue_def find_latest_def f del: fold_simps)
  from equivocation_is_recorded [OF published_registry_ok _ _ v _ c, of empty_journal "[]"] show ?thesis
    using sample_durable sample_room [of 512]
    by (fastforce simp: published_registry_def sample_registry_fields f limit_defs split: if_splits)
qed

text \<open>A registry in which the agent holds a lease for its first incarnation.\<close>

definition leased_registry :: registry where
  "leased_registry = sample_registry\<lparr>rg_watermark := fmupd ''agent'' 1 fmempty,
     rg_leases := fmupd ''agent'' \<lparr>ls_publisher = ''agent'', ls_incarnation = 1, ls_epoch = 1,
       ls_lease = 0, ls_boot = replicate 16 1, ls_granted_at_ms = 1000, ls_expires_at_ms = 61000\<rparr> fmempty\<rparr>"

definition sample_evidence :: resource_capability where
  "sample_evidence = (sample_capability ''edge'' ''east'' 150)\<lparr>ca_epoch := 1\<rparr>"

lemma leased_registry_ok: "registry_ok K leased_registry"
proof -
  have v: "is_valid ''agent''" by code_simp
  show ?thesis
    using sample_registry_ok [of K] v
    by (simp add: leased_registry_def registry_ok_defs lease_ok_def mark_ok_def fcard_def kMaxLeaseMs_def
        limit_defs sample_registry_fields)
qed

lemma leased_store: "rg_store leased_registry = sample_store"
  by (simp add: leased_registry_def sample_registry_fields)

lemma sample_may:
  "may_register 0 ''agent'' 2 (replicate 16 1) 60000 leased_registry"
  "may_assert sample_evidence leased_registry"
  "may_extend capability_entity kMaxCapabilitiesRetained (ca_resource sample_evidence) (ca_generation sample_evidence) leased_registry"
  "may_extend class_entity kMaxClassesRetained (qc_id sample_class) (qc_generation sample_class) leased_registry"
proof -
  have v: "is_valid ''agent''" "\<not> boot_is_zero (replicate 16 1)" by code_simp+
  have c: "validate_capability sample_evidence = Inr ()" by code_simp
  have t: "tick 0 leased_registry = leased_registry"
    by (simp add: leased_registry_def tick_def sample_registry_def)
  show "may_register 0 ''agent'' 2 (replicate 16 1) 60000 leased_registry"
    using v by (simp add: may_register_def t)
      (simp add: leased_registry_def sample_registry_fields highest_incarnation_def kMaxLeaseMs_def fcard_def limit_defs)
  show "may_assert sample_evidence leased_registry"
    using c by (simp add: may_assert_def)
      (simp add: sample_evidence_def sample_capability_def FindLease_def find_lease_def leased_registry_def sample_registry_fields)
  show "may_extend capability_entity kMaxCapabilitiesRetained (ca_resource sample_evidence) (ca_generation sample_evidence) leased_registry"
    "may_extend class_entity kMaxClassesRetained (qc_id sample_class) (qc_generation sample_class) leased_registry"
    by (simp_all add: may_extend_def leased_registry_def sample_registry_fields catalogue_def find_latest_def
        sample_evidence_def sample_capability_def sample_class_def fcard_def limit_defs)
qed

text \<open>
  C20: on a store with room, what the rules admit succeeds. A newer incarnation of a valid publisher
  obtains a lease, which speaks for it at once; the next generation of a valid class is stored;
  and so is the next generation of a valid capability of a publisher with a live lease that names
  a failure domain. Room means the frames of one transaction of the largest record (47 and 73 bytes
  beside it), sequence numbers, and a retention window that is not full.
\<close>

theorem admitted_calls_succeed:
  assumes "registry_ok K rg" and "durable (rg_store rg) j" and "has_room kMaxCanonicalRecordBytes (rg_store rg)"
    and "may_register clock p i boot ttl rg"
    and "validate_class c = Inr ()" and "may_extend class_entity kMaxClassesRetained (qc_id c) (qc_generation c) rg"
    and "may_assert v rg"
    and "may_extend capability_entity kMaxCapabilitiesRetained (ca_resource v) (ca_generation v) rg"
  shows "(\<exists>l rg'. RegisterPublisher clock p i boot ttl origin rg = (Inr l, rg') \<and>
      FindLease p rg' = Some l \<and> ls_incarnation l = i) \<and>
    (\<exists>pr rg'. PublishClass c origin rg = (Inr pr, rg') \<and>
      catalogues rg' Scope_Class (qc_id c) = Some (qc_generation c, compute_class_digest c)) \<and>
    (\<exists>pr rg'. PublishCapability v rg = (Inr pr, rg') \<and>
      catalogues rg' Scope_Capability (ca_resource v) = Some (ca_generation v, compute_capability_digest v))"
  by (intro conjI register_succeeds [OF assms(2) has_room_mono [OF assms(3)] assms(4)]
      class_succeeds [OF assms(1-3,5,6)] capability_succeeds [OF assms(1-3,7,8)]) (simp add: limit_defs)

theorem admitted_calls_succeed_witness:
  "(\<exists>l rg. RegisterPublisher 0 ''agent'' 2 (replicate 16 1) 60000 [] leased_registry = (Inr l, rg)) \<and>
   (\<exists>pr rg. PublishCapability sample_evidence leased_registry = (Inr pr, rg))"
  using admitted_calls_succeed [OF leased_registry_ok _ _ sample_may(1) sample_class_valid sample_may(4,2,3), of empty_journal "[]"]
    sample_durable sample_room [of kMaxCanonicalRecordBytes] by (auto simp: leased_store)

theorem evidence_needs_live_lease_witness:
  "\<exists>pr rg l. PublishCapability sample_evidence leased_registry = (Inr pr, rg) \<and>
     FindLease ''agent'' leased_registry = Some l \<and> ls_incarnation l = 1"
proof -
  obtain pr rg where p: "PublishCapability sample_evidence leased_registry = (Inr pr, rg)"
    using capability_succeeds [OF leased_registry_ok _ _ sample_may(2,3), of empty_journal]
      sample_durable sample_room [of kMaxCanonicalRecordBytes] by (auto simp: leased_store)
  have e: "ca_publisher sample_evidence = ''agent''" "ca_incarnation sample_evidence = 1"
    by (simp_all add: sample_evidence_def sample_capability_def)
  from evidence_needs_live_lease [OF leased_registry_ok, where v = sample_evidence and pr = pr and rg' = rg
      and p = "''agent''" and i = 1 and e = "ca_epoch sample_evidence"] p e
  show ?thesis by auto
qed

text \<open>
  C21: a failed commit loses an older decision. When a contract generation that was decided before
  is evaluated again and the commit of the new decision fails, the call reports the failure, and
  the earlier decision, which is still in the log, can no longer be retrieved, although its
  contract is still listed: the entry is erased instead of restored.
\<close>

theorem failed_commit_loses_decision:
  assumes "registry_ok K rg" and "GetDecision (rq_contract request) (rq_contract_generation request) rg = Inr old"
    and "decide request (tick clock rg) = Some (Inr d)"
    and "\<not> w_failed (encode_decision d (new_writer kMaxCanonicalRecordBytes))"
    and "stage_with_retry RT_RecordDecision
      (w_buffer (encode_decision d (new_writer kMaxCanonicalRecordBytes))) (tick clock rg) = (Inr q, rg0)"
    and "fst (Commit q (cd_decision_digest d) (rg_store rg0)) = Inl e"
  shows "\<exists>rg' missing. RegistryEvaluate clock request rg = Some (Inl e, rg') \<and>
    GetDecision (rq_contract request) (rq_contract_generation request) rg' = Inl missing \<and>
    err_code missing = EC_NotFound \<and> rq_contract request \<in> set (list_contracts rg')"
proof -
  let ?t = "tick clock rg" and ?key = "key_of (rq_contract request) (rq_contract_generation request)"
  have c: "cd_contract d = rq_contract request" "cd_contract_generation d = rq_contract_generation request"
    using decide_total [of request ?t] assms(3) by auto
  have ok: "registry_ok K ?t" using assms(1) by simp
  have old: "fmlookup (rg_decisions ?t) ?key = Some old"
    using assms(2) by (auto simp: GetDecision_def tick_def split: option.splits)
  have small: "length (rg_decision_order ?t) \<le> kMaxDecisionsRetained" using ok by (simp add: registry_ok_defs)
  have a: "rg_decisions rg0 = rg_decisions ?t" "rg_decision_order rg0 = rg_decision_order ?t"
    using moved_audit [OF stage_moved [OF assms(5)] small] by auto
  have "entry_ok (rg_decision_order ?t) ?key old"
    using ok old by (auto simp: registry_ok_def audit_ok_def)
  then have m: "rq_contract request \<in> set (rg_decision_order ?t)" by (simp add: entry_ok_def key_of_inject)
  obtain st where st: "Commit q (cd_decision_digest d) (rg_store rg0) = (Inl e, st)"
    using assms(6) by (metis prod.collapse)
  obtain rg' where r: "record_decision d ?t = (Inl e, rg')" "rg_decisions rg' = fmdrop ?key (fmupd ?key d (rg_decisions ?t))"
    "rg_decision_order rg' = rg_decision_order ?t"
    using assms(4,5) st a old c
    by (simp add: record_decision_def Let_def on_store_def put_decision_def)
  then have "RegistryEvaluate clock request rg = Some (Inl e, rg')"
    using assms(3) by (simp add: RegistryEvaluate_def Let_def recorded_def)
  then show ?thesis using r m by (simp add: GetDecision_def list_contracts_def make_error_def)
qed

definition full_registry :: registry where
  "full_registry = sample_registry\<lparr>rg_store := sample_store\<lparr>s_last_sequence := - 2\<rparr>,
     rg_decisions := fmupd (key_of ''c1'' 1) (rejection sample_request [] sample_registry) fmempty,
     rg_decision_order := [''c1'']\<rparr>"

theorem failed_commit_loses_decision_witness:
  "\<exists>e rg missing. RegistryEvaluate 0 sample_request full_registry = Some (Inl e, rg) \<and>
     GetDecision ''c1'' 1 full_registry = Inr (rejection sample_request [] sample_registry) \<and>
     GetDecision ''c1'' 1 rg = Inl missing \<and> err_code missing = EC_NotFound"
proof -
  let ?s = "sample_store\<lparr>s_last_sequence := - 2\<rparr>"
  let ?d = "rejection sample_request ''policy definition is absent from the registry'' full_registry"
  let ?w = "encode_decision ?d (new_writer kMaxCanonicalRecordBytes)"
  have f: "rg_store full_registry = ?s" "rg_policies full_registry = fmempty" "tick 0 full_registry = full_registry"
    "rg_decisions full_registry = fmupd (key_of ''c1'' 1) (rejection sample_request [] sample_registry) fmempty"
    "rg_decision_order full_registry = [''c1'']"
    by (simp_all add: full_registry_def sample_registry_fields tick_def) (simp_all add: sample_registry_def)
  have ok: "registry_ok K full_registry" for K
    using sample_registry_ok [of K]
    by (simp add: full_registry_def registry_ok_defs entry_ok_def rejection_def seal_decision_def
        sample_request_fields limit_defs)
  have dec: "decide sample_request (tick 0 full_registry) = Some (Inr ?d)"
    by (simp add: decide_def sample_request_valid f policy_for_def entity_for_def find_latest_def)
      (simp add: sample_request_def find_latest_def)
  have dok: "decision_ok ?d"
    by (simp add: decision_ok_def rejection_def seal_decision_def sample_request_def authority_ok_def
        opt_fits_def ident_fits_def zero_digest_def limit_defs)
  have small: "length (lay_decision ?d) \<le> 4096"
    by (simp add: lay_decision_def rejection_def seal_decision_def sample_request_def lay_table_def lay_authority_def
        lay_opt_def zero_digest_def kDigestBytes_def make_provenance_def lay_bool_def)
  have w: "\<not> w_failed ?w" "w_buffer ?w = lay_decision ?d"
    using emits_encode [OF decision_emits [OF dok], of kMaxCanonicalRecordBytes] small by (auto simp: limit_defs)
  let ?a = "- 1 :: u64" and ?p = "lay_decision ?d"
  let ?v = "w_seq [w_u16 (rt_rank RT_RecordDecision), w_u64 ?a, w_u32 (word_of_nat (length ?p)), w_raw ?p]
      (new_writer kMaxWalRecordBytes)"
  let ?e = "new_entry RT_MutationIntent kFlagHasAttempt ?a (lay_intent RT_RecordDecision ?a ?p) ?s"
  have v: "\<not> w_failed ?v" "w_buffer ?v = lay_intent RT_RecordDecision ?a ?p"
    using emits_encode [OF emits_intent, of RT_RecordDecision ?a ?p kMaxWalRecordBytes] small
    by (auto simp: lay_intent_def limit_defs)
  note defs = sample_store_def sample_base_def sample_options_def default_store_options_def new_store_def
  have sf: "\<not> s_read_only ?s" "s_wal_open ?s" "s_last_sequence ?s = - 2" "s_staged_count ?s = 0"
    "so_max_record_bytes (s_options ?s) = kMaxWalRecordBytes" "s_wal_bytes ?s = 0"
    "so_max_wal_bytes (s_options ?s) = word_of_nat kMaxSnapshotBytes"
    "so_max_record_bytes (s_options sample_store) = kMaxWalRecordBytes"
    "so_max_wal_bytes (s_options sample_store) = word_of_nat kMaxSnapshotBytes" "s_wal_bytes sample_store = 0"
    by (simp_all add: defs)
  have calm: "calm ?s" using sample_durable by (simp add: durable_def)
  have can: "can_append ?e ?s"
    by (rule can_append_room) (use small in \<open>simp_all add: sf new_entry_def lay_intent_def
        kRecordHeaderBytes_def kLogHeaderBytes_def limit_defs\<close>)
  have a: "append_frame RT_MutationIntent kFlagHasAttempt ?a (lay_intent RT_RecordDecision ?a ?p) ?s = (Inr ?a, appended ?e ?s)"
    using append_frame_calm [OF calm, of RT_MutationIntent kFlagHasAttempt ?a "lay_intent RT_RecordDecision ?a ?p"] can
    by (simp add: sf(3))
  define s1 where "s1 = (appended ?e ?s)\<lparr>s_staged_count := 1\<rparr>"
  have s1: "s_last_sequence s1 = - 1" "calm s1"
    using calm by (simp_all add: s1_def appended_def new_entry_def append_file_def)
  have stage: "Stage RT_RecordDecision ?p ?s = (Inr ?a, s1)"
    using v a sf(4) unfolding Stage_def sf(3,5)
    by (simp add: Let_def s1_def appended_def limit_defs)
  have "\<not> can_append e s1" for e using s1 by (simp add: can_append_def)
  then obtain e where e: "append_frame RT_MutationCommit kFlagHasAttempt ?a (lay_u64 ?a @ cd_decision_digest ?d) s1 = (Inl e, s1)"
    using append_frame_cases [OF s1(2), of RT_MutationCommit kFlagHasAttempt ?a "lay_u64 ?a @ cd_decision_digest ?d"] by metis
  have "length (cd_decision_digest ?d) = kDigestBytes"
    by (simp add: rejection_def seal_decision_def compute_decision_digest_def)
  then have commit: "fst (Commit ?a (cd_decision_digest ?d) s1) = Inl e"
    using emits_encode [OF emits_commit, of ?a "cd_decision_digest ?d" 256] e
    by (auto simp: Commit_def Let_def kDigestBytes_def)
  have st: "stage_with_retry RT_RecordDecision (w_buffer ?w) (tick 0 full_registry) =
      (Inr ?a, full_registry\<lparr>rg_store := s1\<rparr>)"
    using stage by (simp add: stage_with_retry_def on_store_def f w)
  have g: "GetDecision (rq_contract sample_request) (rq_contract_generation sample_request) full_registry =
      Inr (rejection sample_request [] sample_registry)"
    by (simp add: GetDecision_def f sample_request_fields)
  show ?thesis
    using failed_commit_loses_decision [OF ok g dec w(1) st] commit g by (simp add: sample_request_fields) blast
qed

end
