(* ===== verification/Net.thy ===== *)
theory Net
  imports Wire
begin

text \<open>
  A connected socket of \<open>src/net.cpp\<close>: sending and receiving exactly the bytes asked for, and
  reading a frame straight off the stream. The peer and the kernel are the fields of a
  \<open>connection\<close>: the bytes still to come, and for every \<open>recv\<close> and \<open>send\<close> call to come how many
  bytes it may move, where zero, or the end of the list, is a call that fails or finds the stream
  at its end. The signal SIGPIPE, which a POSIX system raises with such a failure of \<open>send\<close> and the
  code does not block, is not part of the model.
\<close>

section \<open>A connection\<close>

record connection =
  cn_open :: bool
  cn_incoming :: bytes
  cn_recvs :: "nat list"
  cn_sends :: "nat list"
  cn_sent :: bytes
  cn_failure :: string

text \<open>The largest piece one call moves; the text of \<open>last_socket_error\<close> is the platform's.\<close>

definition kChunk :: nat where "kChunk = 2 ^ 20"

definition socket_closed :: error where
  "socket_closed = make_error EC_InvalidArgument ''socket is not open''"

definition cn_close :: "connection \<Rightarrow> connection" where "cn_close cn = cn\<lparr>cn_open := False\<rparr>"

definition recv_call :: "nat \<Rightarrow> connection \<Rightarrow> bytes \<times> connection" where
  "recv_call chunk cn =
     (case cn_recvs cn of
        [] \<Rightarrow> ([], cn)
      | k # ks \<Rightarrow>
          let n = min k chunk
          in (take n (cn_incoming cn), cn\<lparr>cn_incoming := drop n (cn_incoming cn), cn_recvs := ks\<rparr>))"

definition send_call :: "bytes \<Rightarrow> connection \<Rightarrow> nat \<times> connection" where
  "send_call bs cn =
     (case cn_sends cn of
        [] \<Rightarrow> (0, cn)
      | k # ks \<Rightarrow>
          let n = min k (length bs) in (n, cn\<lparr>cn_sent := cn_sent cn @ take n bs, cn_sends := ks\<rparr>))"

section \<open>Exact transfers\<close>

text \<open>The loop of \<open>send_all\<close>, over the bytes that remain.\<close>

function send_loop :: "bytes \<Rightarrow> connection \<Rightarrow> unit result \<times> connection" where
  "send_loop bs cn =
     (if bs = [] then (Inr (), cn)
      else let (written, cn) = send_call (take kChunk bs) cn
        in if written = 0 then (Inl (make_error EC_IoError (cn_failure cn)), cn)
           else send_loop (drop written bs) cn)"
  by auto

termination by (relation "measure (\<lambda>(bs, cn). length bs)") auto

definition send_all :: "bytes \<Rightarrow> connection \<Rightarrow> unit result \<times> connection" where
  "send_all bs cn = (if \<not> cn_open cn then (Inl socket_closed, cn) else send_loop bs cn)"

text \<open>The loop of \<open>recv_exact\<close>, over the number of bytes still missing.\<close>

function recv_loop :: "nat \<Rightarrow> connection \<Rightarrow> bytes result \<times> connection" where
  "recv_loop missing cn =
     (if missing = 0 then (Inr [], cn)
      else let (got, cn) = recv_call (min missing kChunk) cn
        in if got = [] then (Inl (make_error EC_IoError (cn_failure cn)), cn)
           else bindD (recv_loop (missing - length got) cn) (\<lambda>rest cn. (Inr (got @ rest), cn)))"
  by auto

termination by (relation "measure fst") auto

definition recv_exact :: "nat \<Rightarrow> connection \<Rightarrow> bytes result \<times> connection" where
  "recv_exact count cn = (if \<not> cn_open cn then (Inl socket_closed, cn) else recv_loop count cn)"

declare send_loop.simps [simp del] recv_loop.simps [simp del]

lemma send_loop_simps:
  "send_loop [] cn = (Inr (), cn)"
  "bs \<noteq> [] \<Longrightarrow> send_call (take kChunk bs) cn = (n, cn1) \<Longrightarrow> send_loop bs cn =
     (if n = 0 then (Inl (make_error EC_IoError (cn_failure cn1)), cn1) else send_loop (drop n bs) cn1)"
  by (simp_all add: send_loop.simps)

lemma recv_loop_simps:
  "recv_loop 0 cn = (Inr [], cn)"
  "0 < n \<Longrightarrow> recv_call (min n kChunk) cn = (got, cn1) \<Longrightarrow> recv_loop n cn =
     (if got = [] then (Inl (make_error EC_IoError (cn_failure cn1)), cn1)
      else bindD (recv_loop (n - length got) cn1) (\<lambda>rest cn. (Inr (got @ rest), cn)))"
  by (simp_all add: recv_loop.simps)

definition recv_frame :: "connection \<Rightarrow> bytes result \<times> connection" where
  "recv_frame cn =
     bindD (recv_exact kFrameHeaderBytes cn) (\<lambda>header cn.
       let len = load_le (take 4 header) in
       if unat len > kMaxWireFrameBytes
       then (Inl (make_error EC_TooLarge ''peer declared a frame beyond the wire budget''), cn)
       else if 2 ^ 64 \<le> kFrameHeaderBytes + unat len
       then (Inl (make_error EC_Overflow ''frame length arithmetic overflowed''), cn)
       else if unat len > 0
       then bindD (recv_exact (unat len) cn) (\<lambda>body cn. (Inr (header @ body), cn))
       else (Inr header, cn))"

section \<open>What a transfer leaves\<close>

text \<open>Receiving only consumes the stream, sending only extends what was sent.\<close>

lemma recv_call_keeps:
  "recv_call n cn = (bs, cn') \<Longrightarrow> cn_incoming cn = bs @ cn_incoming cn' \<and> length bs \<le> n \<and>
   cn_open cn' = cn_open cn \<and> cn_sends cn' = cn_sends cn \<and> cn_sent cn' = cn_sent cn \<and>
   cn_failure cn' = cn_failure cn"
  by (auto simp: recv_call_def Let_def split: list.splits)

lemma recv_loop_keeps:
  "recv_loop n cn = (r, cn') \<Longrightarrow>
   (\<exists>bs. cn_incoming cn = bs @ cn_incoming cn' \<and> (\<forall>v. r = Inr v \<longrightarrow> v = bs \<and> length bs = n)) \<and>
   cn_open cn' = cn_open cn \<and> cn_sends cn' = cn_sends cn \<and> cn_sent cn' = cn_sent cn \<and>
   cn_failure cn' = cn_failure cn"
proof (induction n cn arbitrary: r cn' rule: recv_loop.induct)
  case (1 n cn)
  obtain got cn1 where g: "recv_call (min n kChunk) cn = (got, cn1)" by fastforce
  note k = recv_call_keeps [OF g]
  show ?case
  proof (cases "n = 0 \<or> got = []")
    case True
    then show ?thesis using "1.prems" g k by (cases "n = 0") (auto simp: recv_loop_simps)
  next
    case False
    obtain r1 cn2 where l: "recv_loop (n - length got) cn1 = (r1, cn2)" by fastforce
    have step: "bindD (r1, cn2) (\<lambda>rest cn. (Inr (got @ rest), cn)) = (r, cn')"
      using "1.prems" False g l by (simp add: recv_loop_simps)
    have cn2: "cn2 = cn'" using step by (cases r1) auto
    from "1.IH" [OF _ g [symmetric] refl _ l] False obtain bs where
      bs: "cn_incoming cn1 = bs @ cn_incoming cn2" "\<forall>v. r1 = Inr v \<longrightarrow> v = bs \<and> length bs = n - length got"
      and keep: "cn_open cn2 = cn_open cn1" "cn_sends cn2 = cn_sends cn1" "cn_sent cn2 = cn_sent cn1"
        "cn_failure cn2 = cn_failure cn1" by auto
    have "\<forall>v. r = Inr v \<longrightarrow> v = got @ bs \<and> length (got @ bs) = n"
      using step bs(2) k by (cases r1) auto
    moreover have "cn_incoming cn = (got @ bs) @ cn_incoming cn'" using k bs(1) cn2 by simp
    ultimately show ?thesis using k keep cn2 by metis
  qed
qed

lemma recv_exact_keeps:
  "recv_exact n cn = (r, cn') \<Longrightarrow>
   (\<exists>bs. cn_incoming cn = bs @ cn_incoming cn' \<and> (\<forall>v. r = Inr v \<longrightarrow> v = bs \<and> length bs = n)) \<and>
   cn_open cn' = cn_open cn \<and> cn_sends cn' = cn_sends cn \<and> cn_sent cn' = cn_sent cn \<and>
   cn_failure cn' = cn_failure cn"
  using recv_loop_keeps [of n cn r cn'] by (auto simp: recv_exact_def split: if_splits)

lemma recv_frame_keeps:
  assumes "recv_frame cn = (r, cn')"
  shows "\<exists>bs. cn_incoming cn = bs @ cn_incoming cn' \<and> (\<forall>v. r = Inr v \<longrightarrow> v = bs \<and> kFrameHeaderBytes \<le> length bs)"
    "cn_open cn' = cn_open cn" "cn_sends cn' = cn_sends cn" "cn_sent cn' = cn_sent cn"
    "cn_failure cn' = cn_failure cn"
proof -
  obtain h cn1 where h: "recv_exact kFrameHeaderBytes cn = (h, cn1)" by fastforce
  note k1 = recv_exact_keeps [OF h]
  obtain b cn2 where b: "recv_exact (unat (load_le (take 4 (projr h)))) cn1 = (b, cn2)" by fastforce
  note k2 = recv_exact_keeps [OF b]
  note step = assms [unfolded recv_frame_def h]
  have s: "(h = Inl e \<longrightarrow> r = Inl e \<and> cn' = cn1)" for e using step by auto
  have c: "cn' = cn1 \<and> ((\<exists>e. r = Inl e) \<or> r = h) \<or>
      cn' = cn2 \<and> (case (h, b) of (Inr x, Inr y) \<Rightarrow> r = Inr (x @ y) | _ \<Rightarrow> \<exists>e. r = Inl e)"
    using step b by (cases h; cases b) (auto simp: Let_def split: if_splits)
  show "\<exists>bs. cn_incoming cn = bs @ cn_incoming cn' \<and> (\<forall>v. r = Inr v \<longrightarrow> v = bs \<and> kFrameHeaderBytes \<le> length bs)"
    using c k1 k2 by (cases h; cases b) (fastforce split: sum.splits)+
  show "cn_open cn' = cn_open cn" "cn_sends cn' = cn_sends cn" "cn_sent cn' = cn_sent cn"
    "cn_failure cn' = cn_failure cn" using c k1 k2 by auto
qed

lemma recv_frame_consumes:
  "recv_frame cn = (Inr bs, cn') \<Longrightarrow> length (cn_incoming cn') < length (cn_incoming cn)"
  using recv_frame_keeps(1) [of cn "Inr bs" cn'] by (auto simp: kFrameHeaderBytes_def)

lemma send_loop_keeps:
  "send_loop bs cn = (r, cn') \<Longrightarrow>
   cn_incoming cn' = cn_incoming cn \<and> cn_recvs cn' = cn_recvs cn \<and> cn_open cn' = cn_open cn \<and>
   cn_failure cn' = cn_failure cn \<and>
   (\<exists>n. cn_sent cn' = cn_sent cn @ take n bs \<and> (r = Inr () \<longrightarrow> length bs \<le> n))"
proof (induction bs cn arbitrary: r cn' rule: send_loop.induct)
  case (1 bs cn)
  obtain n cn1 where c: "send_call (take kChunk bs) cn = (n, cn1)" by fastforce
  have k: "cn_sent cn1 = cn_sent cn @ take n bs" "cn_incoming cn1 = cn_incoming cn"
    "cn_recvs cn1 = cn_recvs cn" "cn_open cn1 = cn_open cn" "cn_failure cn1 = cn_failure cn"
    using c by (auto simp: send_call_def Let_def min_def split: list.splits if_splits)
  show ?case
  proof (cases "bs = [] \<or> n = 0")
    case True
    then show ?thesis using "1.prems" c k by (cases "bs = []") (auto simp: send_loop_simps intro: exI [of _ 0])
  next
    case False
    then have l: "send_loop (drop n bs) cn1 = (r, cn')" using "1.prems" c by (simp add: send_loop_simps)
    from "1.IH" [OF _ c [symmetric] refl _ l] False obtain m where
      "cn_sent cn' = cn_sent cn1 @ take m (drop n bs)" "r = Inr () \<longrightarrow> length (drop n bs) \<le> m"
      and "cn_incoming cn' = cn_incoming cn1" "cn_recvs cn' = cn_recvs cn1" "cn_open cn' = cn_open cn1"
        "cn_failure cn' = cn_failure cn1" by auto
    then show ?thesis using k by (auto intro!: exI [of _ "n + m"] simp: take_add)
  qed
qed

lemma send_all_keeps:
  assumes "send_all bs cn = (r, cn')"
  shows "cn_incoming cn' = cn_incoming cn" "cn_recvs cn' = cn_recvs cn" "cn_open cn' = cn_open cn"
    "cn_failure cn' = cn_failure cn" "r = Inr () \<Longrightarrow> cn_sent cn' = cn_sent cn @ bs"
    "\<exists>n. cn_sent cn' = cn_sent cn @ take n bs"
  using assms send_loop_keeps [of bs cn r cn'] by (auto simp: send_all_def split: if_splits intro: exI [of _ 0])

section \<open>Segmentation\<close>

text \<open>
  A steady connection keeps delivering: every call moves at least a byte until the stream is
  empty. How the bytes are cut into pieces is free.
\<close>

definition steady :: "connection \<Rightarrow> bool" where
  "steady cn \<longleftrightarrow> cn_open cn \<and> 0 \<notin> set (cn_recvs cn) \<and> length (cn_incoming cn) \<le> length (cn_recvs cn)"

lemma cut_again:
  assumes "0 < m" and "m \<le> n"
  shows "drop (n - length (take m xs)) (drop m xs) = drop n xs"
    "take m xs @ take (n - length (take m xs)) (drop m xs) = take n xs"
    "n - length (take m xs) \<le> length (drop m xs) \<longleftrightarrow> n \<le> length xs"
proof -
  show "drop (n - length (take m xs)) (drop m xs) = drop n xs"
    using assms by (cases "m \<le> length xs") auto
  show "take m xs @ take (n - length (take m xs)) (drop m xs) = take n xs"
    using assms by (cases "m \<le> length xs") (simp_all flip: take_add)
  show "n - length (take m xs) \<le> length (drop m xs) \<longleftrightarrow> n \<le> length xs"
    using assms by (cases "m \<le> length xs") auto
qed

lemma recv_loop_run:
  assumes "steady cn"
  shows "\<exists>ks. recv_loop n cn = (if n \<le> length (cn_incoming cn) then Inr (take n (cn_incoming cn))
      else Inl (make_error EC_IoError (cn_failure cn)), cn\<lparr>cn_incoming := drop n (cn_incoming cn), cn_recvs := ks\<rparr>) \<and>
    steady (cn\<lparr>cn_incoming := drop n (cn_incoming cn), cn_recvs := ks\<rparr>)"
  using assms
proof (induction n cn rule: recv_loop.induct)
  case (1 n cn)
  show ?case
  proof (cases "n = 0 \<or> cn_recvs cn = []")
    case True
    then show ?thesis using "1.prems" by (cases "n = 0") (auto simp: recv_loop_simps recv_call_def steady_def intro!: exI [of _ "cn_recvs cn"])
  next
    case False
    then obtain k ks where ks: "cn_recvs cn = k # ks" by (cases "cn_recvs cn") auto
    let ?m = "min k (min n kChunk)"
    let ?bs = "take ?m (cn_incoming cn)"
    let ?cn = "cn\<lparr>cn_incoming := drop ?m (cn_incoming cn), cn_recvs := ks\<rparr>"
    have m: "0 < ?m" "?m \<le> n" using False "1.prems" ks by (auto simp: steady_def kChunk_def)
    have g: "recv_call (min n kChunk) cn = (?bs, ?cn)" by (simp add: recv_call_def ks Let_def)
    have st: "steady ?cn" using "1.prems" ks m by (auto simp: steady_def)
    show ?thesis
    proof (cases "?bs = []")
      case True
      then have "cn_incoming cn = []" using m by simp
      then show ?thesis using g True False st by (auto simp: recv_loop_simps intro!: exI [of _ ks])
    next
      case ne: False
      have n0: "n \<noteq> 0" using False by simp
      note c = cut_again [OF m, of "cn_incoming cn"]
      obtain js where r: "recv_loop (n - length ?bs) ?cn = (if n - length ?bs \<le> length (cn_incoming ?cn)
          then Inr (take (n - length ?bs) (cn_incoming ?cn)) else Inl (make_error EC_IoError (cn_failure ?cn)),
          ?cn\<lparr>cn_incoming := drop (n - length ?bs) (cn_incoming ?cn), cn_recvs := js\<rparr>)"
        "steady (?cn\<lparr>cn_incoming := drop (n - length ?bs) (cn_incoming ?cn), cn_recvs := js\<rparr>)"
        using "1.IH" [OF n0 g [symmetric] refl ne st] by (elim exE conjE) (rule that)
      have "recv_loop n cn = bindD (recv_loop (n - length ?bs) ?cn) (\<lambda>rest cn. (Inr (?bs @ rest), cn))"
        using recv_loop_simps(2) [OF _ g] n0 unfolding if_not_P [OF ne] by blast
      then show ?thesis using r c by (intro exI [of _ js]) (auto split: if_splits)
    qed
  qed
qed

lemma recv_exact_run:
  assumes "steady cn"
  shows "\<exists>ks. recv_exact n cn = (if n \<le> length (cn_incoming cn) then Inr (take n (cn_incoming cn))
      else Inl (make_error EC_IoError (cn_failure cn)), cn\<lparr>cn_incoming := drop n (cn_incoming cn), cn_recvs := ks\<rparr>) \<and>
    steady (cn\<lparr>cn_incoming := drop n (cn_incoming cn), cn_recvs := ks\<rparr>)"
  using recv_loop_run [OF assms, of n] assms by (simp add: recv_exact_def steady_def)

lemma recv_exact_steady:
  assumes "steady cn" and "n \<le> length (cn_incoming cn)"
  shows "\<exists>cn'. recv_exact n cn = (Inr (take n (cn_incoming cn)), cn') \<and>
    cn_incoming cn' = drop n (cn_incoming cn) \<and> steady cn'"
  using recv_exact_run [OF assms(1), of n] assms(2) by auto

lemma recv_frame_steady:
  assumes "steady cn" and "cn_incoming cn = encode_frame type body @ rest"
    and "kEnvelopeBytes + length body \<le> kMaxWireFrameBytes"
  shows "\<exists>cn'. recv_frame cn = (Inr (encode_frame type body), cn') \<and> cn_incoming cn' = rest \<and> steady cn'"
proof -
  let ?p = "lay_payload type body"
  have e: "encode_frame type body = lay_u32 (word_of_nat (length ?p)) @ lay_u32 (crc32c ?p) @ ?p"
    using assms(3) by (simp add: encode_frame_eq lay_frame_def)
  have n: "unat (word_of_nat (length ?p) :: u32) = length ?p"
    using assms(3) by (simp add: unat_of_nat_u32 kMaxWireFrameBytes_def del: of_nat_add)
  let ?h = "lay_u32 (word_of_nat (length ?p)) @ lay_u32 (crc32c ?p)"
  have h: "length ?h = kFrameHeaderBytes" by (simp add: kFrameHeaderBytes_def)
  have l: "unat (load_le (take 4 (lay_u32 v @ w))) = unat v" for v w
  proof -
    have "unat v < 2 ^ 32" using unsigned_less [of v, where 'a = nat] by simp
    then show ?thesis
      by (simp add: lay_u32_def load_store_le unsigned_take_bit_eq unsigned_ucast_eq take_bit_nat_eq_self_iff)
  qed
  obtain cn1 where h1: "recv_exact kFrameHeaderBytes cn = (Inr ?h, cn1)" "cn_incoming cn1 = ?p @ rest" "steady cn1"
    using recv_exact_steady [OF assms(1), of kFrameHeaderBytes] h e assms(2) by auto
  obtain cn2 where h2: "recv_exact (length ?p) cn1 = (Inr ?p, cn2)" "cn_incoming cn2 = rest" "steady cn2"
    using recv_exact_steady [OF h1(3), of "length ?p"] h1(2) by auto
  have p: "0 < length ?p" "length ?p \<le> kMaxWireFrameBytes" using assms(3) by (simp_all add: kEnvelopeBytes_def)
  then show ?thesis
    using h2 e unfolding recv_frame_def h1(1) bindD_simps l n Let_def
    by (simp add: kMaxWireFrameBytes_def kFrameHeaderBytes_def del: length_lay_payload)
qed

end
