(* ===== verification/Texts.thy ===== *)
theory Texts
  imports Store
begin

text \<open>
  The text the command-line tools read and print: \<open>src/tools/qosfabric_cli.cpp\<close> and
  \<open>src/tools/qosfabric_publisher.cpp\<close> split lines and flags into tokens and numbers, and report
  errors under the names of \<open>src/src/version.cpp\<close>. The C library's number parsers are written out
  for an unsigned long of 64 bits.
\<close>

section \<open>Errors and versions\<close>

primrec error_code_to_string :: "error_code \<Rightarrow> string" where
  "error_code_to_string EC_Ok = ''ok''"
| "error_code_to_string EC_InvalidArgument = ''invalid-argument''"
| "error_code_to_string EC_Malformed = ''malformed''"
| "error_code_to_string EC_TooLarge = ''too-large''"
| "error_code_to_string EC_NotFound = ''not-found''"
| "error_code_to_string EC_Duplicate = ''duplicate''"
| "error_code_to_string EC_Conflict = ''conflict''"
| "error_code_to_string EC_Stale = ''stale''"
| "error_code_to_string EC_Fenced = ''fenced''"
| "error_code_to_string EC_Unauthorized = ''unauthorized''"
| "error_code_to_string EC_Corrupt = ''corrupt''"
| "error_code_to_string EC_IoError = ''io-error''"
| "error_code_to_string EC_VersionMismatch = ''version-mismatch''"
| "error_code_to_string EC_Overflow = ''overflow''"
| "error_code_to_string EC_NotSupported = ''not-supported''"
| "error_code_to_string EC_CapacityExhausted = ''capacity-exhausted''"
| "error_code_to_string EC_ShuttingDown = ''shutting-down''"
| "error_code_to_string EC_Cancelled = ''cancelled''"
| "error_code_to_string EC_Internal = ''internal''"

definition version_string :: string where "version_string = ''1.0.0''"

definition error_message :: "error \<Rightarrow> string" where
  "error_message e = error_code_to_string (err_code e) @
     (if err_detail e \<noteq> [] then '': '' @ err_detail e else [])"

section \<open>Numbers\<close>

definition is_digit :: "char \<Rightarrow> bool" where
  "is_digit c \<longleftrightarrow> CHR ''0'' \<le> c \<and> c \<le> CHR ''9''"

definition is_space :: "char \<Rightarrow> bool" where
  "is_space c \<longleftrightarrow> c = CHR '' '' \<or> (CHR 0x09 \<le> c \<and> c \<le> CHR 0x0D)"

text \<open>
  \<open>strtoull\<close> in base ten: white space, a sign, and the longest run of digits. A value out of range
  saturates, a negative one is negated modulo \<open>2 ^ 64\<close>, and text that holds no number is zero.
\<close>

definition strtoull :: "string \<Rightarrow> u64" where
  "strtoull text =
     (let text = dropWhile is_space text;
          (negative, text) = (case text of
              [] \<Rightarrow> (False, [])
            | c # rest \<Rightarrow> if c = CHR ''-'' then (True, rest) else if c = CHR ''+'' then (False, rest)
                else (False, text));
          n = digits_value (takeWhile is_digit text)
      in if n \<ge> 2 ^ 64 then - 1 else if negative then - word_of_nat n else word_of_nat n)"

definition to_u64 :: "string \<Rightarrow> string \<Rightarrow> u64 result" where
  "to_u64 text what =
     (if text = [] \<or> \<not> list_all is_digit text
      then Inl (make_error EC_InvalidArgument (what @ '' must be a decimal integer''))
      else Inr (strtoull text))"

definition to_bool :: "string \<Rightarrow> string \<Rightarrow> bool result" where
  "to_bool text what =
     (if text = ''yes'' \<or> text = ''true'' \<or> text = ''1'' then Inr True
      else if text = ''no'' \<or> text = ''false'' \<or> text = ''0'' then Inr False
      else Inl (make_error EC_InvalidArgument (what @ '' must be yes or no'')))"

definition to_predicate :: "string \<Rightarrow> string result" where
  "to_predicate text = parse_string_id text kMaxPredicateKeyLen"

section \<open>Tokens\<close>

text \<open>The loop of \<open>tokenize\<close>: the token being built is the second argument.\<close>

fun tokenize_loop :: "string \<Rightarrow> string \<Rightarrow> string list" where
  "tokenize_loop [] token = (if token \<noteq> [] then [token] else [])"
| "tokenize_loop (c # cs) token =
     (if c = CHR '' '' \<or> c = CHR 0x09 \<or> c = CHR 0x0D
      then (if token \<noteq> [] then [token] else []) @ tokenize_loop cs []
      else tokenize_loop cs (token @ [c]))"

definition tokenize :: "string \<Rightarrow> string list" where "tokenize line = tokenize_loop line []"

fun split_loop :: "char \<Rightarrow> string \<Rightarrow> string \<Rightarrow> string list" where
  "split_loop separator [] token = [token]"
| "split_loop separator (c # cs) token =
     (if c = separator then token # split_loop separator cs [] else split_loop separator cs (token @ [c]))"

definition split_text :: "string \<Rightarrow> char \<Rightarrow> string list" where
  "split_text text separator = split_loop separator text []"

section \<open>Laws\<close>

lemma tokenize_loop_spec:
  "set (concat (tokenize_loop cs token)) \<subseteq> set token \<union> (set cs - {CHR '' '', CHR 0x09, CHR 0x0D})"
  "[] \<notin> set (tokenize_loop cs token)"
  by (induction cs token rule: tokenize_loop.induct) auto

lemma split_loop_join:
  "separator \<notin> set token \<Longrightarrow>
   concat (map (\<lambda>t. t @ [separator]) (split_loop separator cs token)) = token @ cs @ [separator]"
  by (induction separator cs token rule: split_loop.induct) auto

lemma split_loop_clean:
  "separator \<notin> set token \<Longrightarrow> t \<in> set (split_loop separator cs token) \<Longrightarrow> separator \<notin> set t"
  by (induction separator cs token rule: split_loop.induct) (auto split: if_splits)

lemma split_loop_pieces:
  "separator \<notin> set token \<Longrightarrow> separator \<notin> set x \<Longrightarrow>
   split_loop separator (x @ separator # cs) token = (token @ x) # split_loop separator cs []"
  by (induction x arbitrary: token) auto

lemma split_loop_last: "separator \<notin> set x \<Longrightarrow> split_loop separator x token = [token @ x]"
  by (induction x arbitrary: token) auto

text \<open>Splitting undoes joining.\<close>

fun join_text :: "char \<Rightarrow> string list \<Rightarrow> string" where
  "join_text separator [] = []"
| "join_text separator [t] = t"
| "join_text separator (t # u # ts) = t @ separator # join_text separator (u # ts)"

lemma split_join:
  "ts \<noteq> [] \<Longrightarrow> \<forall>t \<in> set ts. separator \<notin> set t \<Longrightarrow> split_text (join_text separator ts) separator = ts"
  unfolding split_text_def
  by (induction separator ts rule: join_text.induct) (auto simp: split_loop_last split_loop_pieces)

text \<open>Tokens survive the blanks between them.\<close>

lemma tokenize_loop_token:
  "\<forall>c \<in> set x. c \<noteq> CHR '' '' \<and> c \<noteq> CHR 0x09 \<and> c \<noteq> CHR 0x0D \<Longrightarrow>
   tokenize_loop (x @ cs) token = tokenize_loop cs (token @ x)"
  by (induction x arbitrary: token) auto

lemma tokenize_join:
  "\<forall>t \<in> set ts. t \<noteq> [] \<and> (\<forall>c \<in> set t. c \<noteq> CHR '' '' \<and> c \<noteq> CHR 0x09 \<and> c \<noteq> CHR 0x0D) \<Longrightarrow>
   tokenize (join_text (CHR '' '') ts) = ts"
  unfolding tokenize_def
proof (induction "CHR '' ''" ts rule: join_text.induct)
  case (2 t)
  then show ?case using tokenize_loop_token [of t "[]" "[]"] by auto
next
  case (3 t u ts)
  then show ?case using tokenize_loop_token [of t "CHR '' '' # join_text (CHR '' '') (u # ts)" "[]"] by auto
qed simp

end
