(* ===== verification/Agent.thy ===== *)
theory Agent
  imports Net Texts
begin

text \<open>
  The publisher agent of \<open>src/tools/qosfabric_publisher.cpp\<close>: it claims an incarnation from a counter
  in a file, asks a server for a lease, and publishes declarations of a capability under
  generations the server assigns. The connection, the boot identity and the readings of the clock,
  one for each declaration, are arguments.
\<close>

section \<open>Options\<close>

record agent_options =
  ag_host :: string
  ag_port :: u16
  ag_publisher_id :: string
  ag_boot_file :: string
  ag_ttl_ms :: u32
  ag_resource :: string
  ag_domain :: string
  ag_state :: string
  ag_rate_bps :: u64
  ag_latency_us :: u64
  ag_jitter_us :: u64
  ag_loss_ppm :: u32
  ag_isolation :: string
  ag_treatment :: string
  ag_priority_rank :: u32
  ag_predicates :: "string list"
  ag_publishes :: u32
  ag_interval_ms :: u32
  ag_timeout_ms :: u32
  ag_quiet :: bool

definition default_agent_options :: agent_options where
  "default_agent_options = \<lparr>ag_host = ''127.0.0.1'', ag_port = 0, ag_publisher_id = ''publisher'',
     ag_boot_file = [], ag_ttl_ms = 60000, ag_resource = ''resource'', ag_domain = ''domain-0'',
     ag_state = ''available'', ag_rate_bps = 10000000, ag_latency_us = 100, ag_jitter_us = 10,
     ag_loss_ppm = 0, ag_isolation = ''queue-isolated'', ag_treatment = ''rate-limited'',
     ag_priority_rank = 4, ag_predicates = [], ag_publishes = 1, ag_interval_ms = 0,
     ag_timeout_ms = 10000, ag_quiet = False\<rparr>"

definition agent_usage :: "string list" where
  "agent_usage =
     [''usage: qosfabric_publisher --port N [options]'',
      ''  --host H            server host (loopback only)'',
      ''  --port N            server port (required)'',
      ''  --publisher-id ID   publisher identity (default: publisher)'',
      ''  --boot-file PATH    durable incarnation counter file'',
      ''  --ttl-ms N          requested lease duration'',
      ''  --resource ID       resource identity to publish for'',
      ''  --domain ID         failure domain the resource claims'',
      ''  --state S           available|degraded|unavailable|unknown'',
      ''  --rate N            supported rate in bits per second'',
      ''  --latency N         worst-case added latency in microseconds'',
      ''  --jitter N          worst-case added jitter in microseconds'',
      ''  --loss N            loss bound in parts per million'',
      ''  --isolation S       isolation ladder position'',
      ''  --treatment S       service treatment ladder position'',
      ''  --priority N        highest priority rank honoured'',
      ''  --predicates a,b    declared capability predicates'',
      ''  --publishes N       number of declarations to publish'',
      ''  --interval-ms N     delay between declarations'',
      ''  --timeout-ms N      receive timeout'',
      ''  --quiet             suppress progress lines'']"

definition short_number :: "string \<Rightarrow> u32" where "short_number text = ucast (strtoull text)"

text \<open>A flag with a value; \<^term>\<open>None\<close> when the flag is not recognised.\<close>

definition agent_flag :: "string \<Rightarrow> string \<Rightarrow> agent_options \<Rightarrow> agent_options option" where
  "agent_flag flag value op =
     (if flag = ''--host'' then Some (op\<lparr>ag_host := value\<rparr>)
      else if flag = ''--port'' then Some (op\<lparr>ag_port := ucast (strtoull value)\<rparr>)
      else if flag = ''--publisher-id'' then Some (op\<lparr>ag_publisher_id := value\<rparr>)
      else if flag = ''--boot-file'' then Some (op\<lparr>ag_boot_file := value\<rparr>)
      else if flag = ''--ttl-ms'' then Some (op\<lparr>ag_ttl_ms := short_number value\<rparr>)
      else if flag = ''--resource'' then Some (op\<lparr>ag_resource := value\<rparr>)
      else if flag = ''--domain'' then Some (op\<lparr>ag_domain := value\<rparr>)
      else if flag = ''--state'' then Some (op\<lparr>ag_state := value\<rparr>)
      else if flag = ''--rate'' then Some (op\<lparr>ag_rate_bps := strtoull value\<rparr>)
      else if flag = ''--latency'' then Some (op\<lparr>ag_latency_us := strtoull value\<rparr>)
      else if flag = ''--jitter'' then Some (op\<lparr>ag_jitter_us := strtoull value\<rparr>)
      else if flag = ''--loss'' then Some (op\<lparr>ag_loss_ppm := short_number value\<rparr>)
      else if flag = ''--isolation'' then Some (op\<lparr>ag_isolation := value\<rparr>)
      else if flag = ''--treatment'' then Some (op\<lparr>ag_treatment := value\<rparr>)
      else if flag = ''--priority'' then Some (op\<lparr>ag_priority_rank := short_number value\<rparr>)
      else if flag = ''--predicates'' then Some (op\<lparr>ag_predicates := ag_predicates op @
        filter (\<lambda>t. t \<noteq> []) (split_text value (CHR '',''))\<rparr>)
      else if flag = ''--publishes'' then Some (op\<lparr>ag_publishes := short_number value\<rparr>)
      else if flag = ''--interval-ms'' then Some (op\<lparr>ag_interval_ms := short_number value\<rparr>)
      else if flag = ''--timeout-ms'' then Some (op\<lparr>ag_timeout_ms := short_number value\<rparr>)
      else None)"

text \<open>The left value is what goes to the error stream before the process ends with status 1.\<close>

fun parse_agent_flags :: "string list \<Rightarrow> agent_options \<Rightarrow> string list + agent_options" where
  "parse_agent_flags [] op = Inr op"
| "parse_agent_flags (flag # rest) op =
     (let unknown = Inl ((''unrecognised argument: '' @ flag) # agent_usage) in
      if flag = ''--help'' \<or> flag = ''-h'' then Inl agent_usage
      else if flag = ''--quiet'' then parse_agent_flags rest (op\<lparr>ag_quiet := True\<rparr>)
      else
        case rest of
          [] \<Rightarrow> unknown
        | value # others \<Rightarrow>
            (case agent_flag flag value op of
               None \<Rightarrow> unknown
             | Some op \<Rightarrow> parse_agent_flags others op))"

definition parse_agent_options :: "string list \<Rightarrow> string list + agent_options" where
  "parse_agent_options args =
     (case parse_agent_flags args default_agent_options of
        Inl err \<Rightarrow> Inl err
      | Inr op \<Rightarrow> if ag_port op = 0 then Inl [''--port is required''] else Inr op)"

section \<open>The boot counter\<close>

definition strip_end :: "string \<Rightarrow> string" where
  "strip_end text = rev (dropWhile (\<lambda>c. c = CHR 0x0A \<or> c = CHR 0x0D \<or> c = CHR '' '') (rev text))"

text \<open>A file that cannot be opened counts as one that was never written.\<close>

definition read_incarnation :: "string \<Rightarrow> disk \<Rightarrow> u64 result \<times> disk" where
  "read_incarnation path d =
     (if path = [] then (Inr 0, d)
      else
        let (held, d) = read_file path 64 d in
        case held of
          Inl e \<Rightarrow> if err_code e = EC_NotFound then (Inr 0, d) else (Inl e, d)
        | Inr bs \<Rightarrow>
            let text = strip_end (string_of_bytes bs) in
            if text = [] \<or> \<not> list_all is_digit text
            then (Inl (make_error EC_Corrupt ''boot file does not hold a decimal counter''), d)
            else (Inr (strtoull text), d))"

definition write_incarnation :: "string \<Rightarrow> u64 \<Rightarrow> disk \<Rightarrow> unit result \<times> disk" where
  "write_incarnation path value d =
     (if path = [] then (Inr (), d)
      else write_file_atomic path (bytes_of_string (u64_to_string value @ [CHR 0x0A])) d)"

text \<open>The next incarnation; the left value is the line the process fails with.\<close>

definition claim_incarnation :: "string \<Rightarrow> disk \<Rightarrow> (string + u64) \<times> disk" where
  "claim_incarnation path d =
     (let (previous, d) = read_incarnation path d in
      case previous of
        Inl e \<Rightarrow> (Inl (''boot counter read failed: '' @ error_message e), d)
      | Inr n \<Rightarrow>
          let incarnation = n + 1; (persisted, d) = write_incarnation path incarnation d in
          case persisted of
            Inl e \<Rightarrow> (Inl (''boot counter write failed: '' @ error_message e), d)
          | Inr _ \<Rightarrow> (Inr incarnation, d))"

section \<open>The session\<close>

record agent_end =
  ae_code :: nat
  ae_out :: "string list"
  ae_err :: "string list"
  ae_connection :: connection

definition agent_stop :: "nat \<Rightarrow> string list \<Rightarrow> string \<Rightarrow> connection \<Rightarrow> agent_end" where
  "agent_stop code out line cn =
     \<lparr>ae_code = code, ae_out = out, ae_err = [line], ae_connection = cn_close cn\<rparr>"

text \<open>Send a frame and decode the frame that comes back.\<close>

definition exchange ::
    "bytes \<Rightarrow> message_type \<Rightarrow> (bytes \<Rightarrow> 'a result) \<Rightarrow> string \<Rightarrow> string \<Rightarrow> string \<Rightarrow> string \<Rightarrow>
     connection \<Rightarrow> (string + 'a) \<times> connection" where
  "exchange message type decode not_sent no_reply unexpected malformed cn =
     (let (sent, cn) = send_all message cn in
      case sent of
        Inl e \<Rightarrow> (Inl (not_sent @ error_message e), cn)
      | Inr _ \<Rightarrow>
          let (raw, cn) = recv_frame cn in
          case raw of
            Inl e \<Rightarrow> (Inl (no_reply @ error_message e), cn)
          | Inr bs \<Rightarrow>
              (case decode_frame bs of
                 Inl _ \<Rightarrow> (Inl unexpected, cn)
               | Inr fr \<Rightarrow>
                   if fr_type fr \<noteq> type then (Inl unexpected, cn)
                   else
                     case decode (fr_body fr) of
                       Inl e \<Rightarrow> (Inl (malformed @ error_message e), cn)
                     | Inr reply \<Rightarrow> (Inr reply, cn)))"

definition agent_hello :: "agent_options \<Rightarrow> string \<Rightarrow> publisher_incarnation \<Rightarrow> bytes \<Rightarrow> hello_message" where
  "agent_hello op publisher incarnation boot =
     \<lparr>he_publisher = publisher, he_incarnation = incarnation, he_boot = boot, he_ttl_ms = ag_ttl_ms op,
      he_origin = ''qosfabric_publisher/1.0.0''\<rparr>"

fun parse_predicates :: "string list \<Rightarrow> string list option" where
  "parse_predicates [] = Some []"
| "parse_predicates (key # keys) =
     (case parse_string_id key kMaxPredicateKeyLen of
        Inl _ \<Rightarrow> None
      | Inr p \<Rightarrow> map_option ((#) p) (parse_predicates keys))"

text \<open>The declaration; its generation is a placeholder the server replaces.\<close>

definition declared_capability ::
    "agent_options \<Rightarrow> string \<Rightarrow> publisher_incarnation \<Rightarrow> fabric_epoch \<Rightarrow> u64 \<Rightarrow> string + resource_capability" where
  "declared_capability op publisher incarnation epoch now_ms =
     (case parse_capability_state (ag_state op) of
        None \<Rightarrow> Inl ''invalid capability state''
      | Some state \<Rightarrow>
      case parse_isolation_level (ag_isolation op) of
        None \<Rightarrow> Inl ''invalid isolation level''
      | Some isolation \<Rightarrow>
      case parse_treatment_mode (ag_treatment op) of
        None \<Rightarrow> Inl ''invalid treatment mode''
      | Some treatment \<Rightarrow>
      case parse_predicates (ag_predicates op) of
        None \<Rightarrow> Inl ''invalid predicate key''
      | Some predicates \<Rightarrow> Inr
          \<lparr>ca_resource = ag_resource op, ca_generation = 1, ca_epoch = epoch, ca_publisher = publisher,
           ca_incarnation = incarnation, ca_published_at_ms = now_ms,
           ca_expires_at_ms = now_ms + ucast (ag_ttl_ms op), ca_state = state,
           ca_supported_rate_bps = Some (ag_rate_bps op), ca_latency_bound_us = Some (ag_latency_us op),
           ca_jitter_bound_us = Some (ag_jitter_us op), ca_loss_ppm = Some (ag_loss_ppm op),
           ca_max_burst_bytes = Some 65536, ca_burst_window_us = Some 1000, ca_mtu_bytes = Some 9000,
           ca_max_isolation = isolation, ca_max_treatment = treatment,
           ca_max_priority_rank = ag_priority_rank op, ca_predicates = predicates,
           ca_diversity_domain = ag_domain op, ca_digest = zero_digest,
           ca_provenance = empty_provenance\<rparr>)"

text \<open>The body: a flag that asks the server for the generation, and the canonical encoding.\<close>

definition declared_frame :: "resource_capability \<Rightarrow> string + bytes" where
  "declared_frame v =
     (let w = encode_capability v (new_writer kMaxCanonicalRecordBytes) in
      if w_failed w then Inl ''capability encoding failed''
      else let message = encode_frame MT_PublishCapability (1 # w_buffer w)
        in if message = [] then Inl ''frame encoding failed'' else Inr message)"

definition agent_publish_line :: "string \<Rightarrow> publish_ack_message \<Rightarrow> string" where
  "agent_publish_line resource reply =
     ''PUBLISH '' @ resource @ '' generation='' @ u64_to_string (pk_generation reply) @ '' sequence='' @
     u64_to_string (pk_sequence reply) @ '' status='' @ ws_to_string (pk_status reply) @ '' digest='' @
     digest_hex (pk_digest reply)"

text \<open>The loop over the declarations: how many are left, and the index of the next.\<close>

fun publish_loop ::
    "nat \<Rightarrow> nat \<Rightarrow> agent_options \<Rightarrow> string \<Rightarrow> publisher_incarnation \<Rightarrow> fabric_epoch \<Rightarrow> (nat \<Rightarrow> u64) \<Rightarrow>
     string list \<Rightarrow> connection \<Rightarrow> agent_end" where
  "publish_loop 0 index op publisher incarnation epoch clock out cn =
     \<lparr>ae_code = 0, ae_out = out @ (if ag_quiet op then [] else [''DONE'']), ae_err = [],
      ae_connection = cn_close (snd (send_all (encode_frame MT_Bye []) cn))\<rparr>"
| "publish_loop (Suc left) index op publisher incarnation epoch clock out cn =
     (case declared_capability op publisher incarnation epoch (clock index) of
        Inl line \<Rightarrow> agent_stop 1 out line cn
      | Inr v \<Rightarrow>
      case declared_frame v of
        Inl line \<Rightarrow> agent_stop 1 out line cn
      | Inr message \<Rightarrow>
          let (answer, cn) = exchange message MT_PublishAck decode_publish_ack ''publish failed: ''
                ''publish reply failed: '' ''unexpected reply to publish'' ''publish reply malformed: '' cn in
          case answer of
            Inl line \<Rightarrow> agent_stop 1 out line cn
          | Inr reply \<Rightarrow>
              let out = out @ [agent_publish_line (ag_resource op) reply] in
              if pk_status reply \<noteq> WS_Ok
              then agent_stop 2 out (''declaration refused: '' @ pk_detail reply) cn
              else publish_loop left (Suc index) op publisher incarnation epoch clock out cn)"

definition agent_session ::
    "agent_options \<Rightarrow> publisher_incarnation \<Rightarrow> bytes \<Rightarrow> (nat \<Rightarrow> u64) \<Rightarrow> connection \<Rightarrow> agent_end" where
  "agent_session op incarnation boot clock cn =
     (case parse_string_id (ag_publisher_id op) kMaxIdentifierLen of
        Inl _ \<Rightarrow> agent_stop 1 [] ''invalid publisher id'' cn
      | Inr publisher \<Rightarrow>
          let message = encode_frame MT_Hello (encode_hello (agent_hello op publisher incarnation boot)) in
          if message = [] then agent_stop 1 [] ''hello encoding failed'' cn
          else
            let (answer, cn) = exchange message MT_HelloAck decode_hello_ack ''hello send failed: ''
                  ''hello acknowledgement failed: '' ''unexpected reply to hello''
                  ''hello acknowledgement malformed: '' cn in
            case answer of
              Inl line \<Rightarrow> agent_stop 1 [] line cn
            | Inr ack \<Rightarrow>
                let out = [''HELLO '' @ ag_publisher_id op @ '' incarnation='' @ u64_to_string incarnation @
                      '' epoch='' @ u64_to_string (ha_epoch ack) @ '' status='' @
                      ws_to_string (ha_status ack) @ '' lease='' @ u64_to_string (ha_lease ack)] in
                if ha_status ack \<noteq> WS_Ok then agent_stop 2 out (''lease refused: '' @ ha_detail ack) cn
                else publish_loop (unat (ag_publishes op)) 0 op publisher incarnation (ha_epoch ack) clock out cn)"

text \<open>
  The process: the counter is written before the connection is opened. \<open>connected\<close> is what
  \<open>connect_loopback\<close> reports.
\<close>

definition agent_main ::
    "string list \<Rightarrow> bytes \<Rightarrow> (nat \<Rightarrow> u64) \<Rightarrow> (u16 \<Rightarrow> connection result) \<Rightarrow> disk \<Rightarrow> agent_end option \<times> string list \<times> disk" where
  "agent_main args boot clock connected d =
     (case parse_agent_options args of
        Inl err \<Rightarrow> (None, err, d)
      | Inr op \<Rightarrow>
          let (claimed, d) = claim_incarnation (ag_boot_file op) d in
          case claimed of
            Inl line \<Rightarrow> (None, [line], d)
          | Inr incarnation \<Rightarrow>
              (case connected (ag_port op) of
                 Inl e \<Rightarrow> (None, [''connect failed: '' @ error_message e], d)
               | Inr cn \<Rightarrow> (Some (agent_session op incarnation boot clock cn), [], d)))"

end
