(* ===== verification/Server.thy ===== *)
theory Server
  imports Net Texts Registry_Inv
begin

text \<open>
  The registry server of \<open>src/tools/qosfabric_cli.cpp\<close> (\<open>run_server\<close>): one client at a time, one
  frame at a time, each answered from the registry it owns. A \<open>server\<close> is what the loop works on:
  the registry, the client's connection, the lines printed, and the readings the system clock will
  give, one for each registration.
\<close>

section \<open>The server\<close>

record server =
  sv_registry :: registry
  sv_connection :: connection
  sv_out :: "string list"
  sv_err :: "string list"
  sv_clock :: "nat \<Rightarrow> u64"
  sv_reads :: nat

definition say :: "string \<Rightarrow> server \<Rightarrow> server" where "say line sv = sv\<lparr>sv_out := sv_out sv @ [line]\<rparr>"

text \<open>A reply that cannot be encoded or sent ends the connection.\<close>

definition reply_with :: "message_type \<Rightarrow> bytes \<Rightarrow> server \<Rightarrow> bool \<times> server" where
  "reply_with type body sv =
     (let reply = encode_frame type body in
      if reply = [] then (False, sv)
      else let (sent, cn) = send_all reply (sv_connection sv); sv = sv\<lparr>sv_connection := cn\<rparr>
        in case sent of Inl _ \<Rightarrow> (False, sv) | Inr _ \<Rightarrow> (True, sv))"

section \<open>Registration\<close>

definition hello_ack_of :: "publisher_lease result \<Rightarrow> registry \<Rightarrow> hello_ack_message" where
  "hello_ack_of granted rg =
     (let ack = \<lparr>ha_status = WS_Internal, ha_epoch = rg_current_epoch rg, ha_lease = 0,
            ha_expires_at_ms = 0, ha_detail = []\<rparr> in
      case granted of
        Inl e \<Rightarrow> ack\<lparr>ha_status := status_from_error (err_code e), ha_detail := err_detail e\<rparr>
      | Inr lease \<Rightarrow> ack\<lparr>ha_status := WS_Ok, ha_lease := ls_lease lease, ha_epoch := ls_epoch lease,
          ha_expires_at_ms := ls_expires_at_ms lease\<rparr>)"

definition hello_line :: "hello_message \<Rightarrow> hello_ack_message \<Rightarrow> string" where
  "hello_line hello ack =
     ''HELLO '' @ he_publisher hello @ '' incarnation='' @ u64_to_string (he_incarnation hello) @
     '' epoch='' @ u64_to_string (ha_epoch ack) @ '' status='' @ ws_to_string (ha_status ack)"

definition handle_hello :: "bytes \<Rightarrow> server \<Rightarrow> bool \<times> server" where
  "handle_hello body sv =
     (case decode_hello body of
        Inl e \<Rightarrow> (False, say (''HELLO-ERROR '' @ error_message e) sv)
      | Inr hello \<Rightarrow>
          let (granted, rg) = RegisterPublisher (sv_clock sv (sv_reads sv)) (he_publisher hello)
                (he_incarnation hello) (he_boot hello) (ucast (he_ttl_ms hello)) (he_origin hello)
                (sv_registry sv);
              ack = hello_ack_of granted rg;
              (sent, sv) = reply_with MT_HelloAck (encode_hello_ack ack)
                (sv\<lparr>sv_registry := rg, sv_reads := Suc (sv_reads sv)\<rparr>)
          in if \<not> sent then (False, sv) else (ha_status ack = WS_Ok, say (hello_line hello ack) sv))"

section \<open>Publication\<close>

definition fresh_ack :: publish_ack_message where
  "fresh_ack = \<lparr>pk_status = WS_Internal, pk_generation = 0, pk_sequence = 0,
     pk_digest = zero_digest, pk_detail = []\<rparr>"

definition ack_error :: "error \<Rightarrow> publish_ack_message \<Rightarrow> publish_ack_message" where
  "ack_error e ack = ack\<lparr>pk_status := status_from_error (err_code e), pk_detail := err_detail e\<rparr>"

definition ack_publication :: "publication_result result \<Rightarrow> publish_ack_message \<Rightarrow> publish_ack_message" where
  "ack_publication answer ack =
     (case answer of
        Inl e \<Rightarrow> ack_error e ack
      | Inr p \<Rightarrow> ack\<lparr>pk_status := WS_Ok, pk_generation := pr_generation p,
          pk_sequence := pr_sequence p, pk_digest := pr_digest p\<rparr>)"

text \<open>The generation after the one found; one when there is none.\<close>

definition assign_next :: "generation result \<Rightarrow> publish_ack_message \<Rightarrow> generation \<times> publish_ack_message" where
  "assign_next latest ack =
     (case latest of
        Inl _ \<Rightarrow> (1, ack)
      | Inr g \<Rightarrow>
          case try_increment g of
            None \<Rightarrow> (g, ack\<lparr>pk_status := WS_Internal, pk_detail := ''generation space exhausted''\<rparr>)
          | Some next_g \<Rightarrow> (next_g, ack))"

definition accept_capability :: "u8 \<Rightarrow> bytes \<Rightarrow> registry \<Rightarrow> publish_ack_message \<times> registry" where
  "accept_capability flags payload rg =
     (case fst (decode_capability (new_reader payload)) of
        Inl e \<Rightarrow> (ack_error e fresh_ack, rg)
      | Inr v \<Rightarrow>
          let (g, ack) = (if bit flags 0
                then assign_next (map_sum id ca_generation (LatestCapability (ca_resource v) rg)) fresh_ack
                else (ca_generation v, fresh_ack));
              (answer, rg) = PublishCapability (v\<lparr>ca_generation := g\<rparr>) rg
          in (ack_publication answer ack, rg))"

text \<open>The newest reservation is looked up under the generation the sender filled in.\<close>

definition accept_reservation :: "u8 \<Rightarrow> bytes \<Rightarrow> registry \<Rightarrow> publish_ack_message \<times> registry" where
  "accept_reservation flags payload rg =
     (case fst (decode_reservation (new_reader payload)) of
        Inl e \<Rightarrow> (ack_error e fresh_ack, rg)
      | Inr v \<Rightarrow>
          let (g, ack) = (if bit flags 0
                then assign_next (map_sum id rs_generation
                  (GetReservation (rs_resource v) (rs_generation v) rg)) fresh_ack
                else (rs_generation v, fresh_ack));
              (answer, rg) = PublishReservation (v\<lparr>rs_generation := g\<rparr>) rg
          in (ack_publication answer ack, rg))"

definition publish_line :: "publish_ack_message \<Rightarrow> string" where
  "publish_line ack =
     ''PUBLISH status='' @ ws_to_string (pk_status ack) @ '' generation='' @
     u64_to_string (pk_generation ack) @ '' sequence='' @ u64_to_string (pk_sequence ack)"

definition handle_publication ::
    "(u8 \<Rightarrow> bytes \<Rightarrow> registry \<Rightarrow> publish_ack_message \<times> registry) \<Rightarrow> bytes \<Rightarrow> server \<Rightarrow> bool \<times> server" where
  "handle_publication accept body sv =
     (case body of
        [] \<Rightarrow> (False, sv)
      | flags # payload \<Rightarrow>
          let (ack, rg) = accept flags payload (sv_registry sv);
              (sent, sv) = reply_with MT_PublishAck (encode_publish_ack ack) (sv\<lparr>sv_registry := rg\<rparr>)
          in if \<not> sent then (False, sv) else (True, say (publish_line ack) sv))"

section \<open>Status\<close>

definition status_of :: "registry \<Rightarrow> registry_status_message" where
  "status_of rg =
     (let c = counts rg in
      \<lparr>st_epoch = rg_current_epoch rg, st_classes = word_of_nat (rc_classes c),
       st_policies = word_of_nat (rc_policies c), st_paths = word_of_nat (rc_paths c),
       st_capabilities = word_of_nat (rc_capabilities c), st_decisions = word_of_nat (rc_decisions c),
       st_publishers = word_of_nat (rc_publishers c), st_conflicts = word_of_nat (rc_conflicts c)\<rparr>)"

section \<open>A frame\<close>

text \<open>The first component tells whether the connection stays up.\<close>

definition handle_frame :: "bytes \<Rightarrow> server \<Rightarrow> bool \<times> server" where
  "handle_frame raw sv =
     (case decode_frame raw of
        Inl e \<Rightarrow> (False, say (''FRAME-ERROR '' @ error_message e) sv)
      | Inr fr \<Rightarrow>
          (case fr_type fr of
             MT_Bye \<Rightarrow> (False, sv)
           | MT_Ping \<Rightarrow>
               let (_, cn) = send_all (encode_frame MT_Pong []) (sv_connection sv)
               in (True, sv\<lparr>sv_connection := cn\<rparr>)
           | MT_Hello \<Rightarrow> handle_hello (fr_body fr) sv
           | MT_PublishCapability \<Rightarrow> handle_publication accept_capability (fr_body fr) sv
           | MT_PublishReservation \<Rightarrow> handle_publication accept_reservation (fr_body fr) sv
           | MT_RegistryStatus \<Rightarrow>
               reply_with MT_RegistryStatus (encode_registry_status (status_of (sv_registry sv))) sv
           | _ \<Rightarrow> (False, sv)))"

text \<open>A handler only writes to the connection.\<close>

lemma reply_with_keeps:
  "reply_with type body sv = (k, sv') \<Longrightarrow>
   cn_incoming (sv_connection sv') = cn_incoming (sv_connection sv) \<and>
   cn_recvs (sv_connection sv') = cn_recvs (sv_connection sv) \<and>
   cn_open (sv_connection sv') = cn_open (sv_connection sv) \<and>
   sv_registry sv' = sv_registry sv \<and> sv_clock sv' = sv_clock sv \<and> sv_reads sv' = sv_reads sv"
  by (auto simp: reply_with_def Let_def send_all_keeps split: if_splits prod.splits sum.splits)

lemma say_fields [simp]:
  "sv_connection (say l sv) = sv_connection sv" "sv_registry (say l sv) = sv_registry sv"
  by (simp_all add: say_def)

lemma handle_frame_incoming:
  assumes "handle_frame raw sv = (k, sv')"
  shows "cn_incoming (sv_connection sv') = cn_incoming (sv_connection sv)"
    "cn_recvs (sv_connection sv') = cn_recvs (sv_connection sv)"
    "cn_open (sv_connection sv') = cn_open (sv_connection sv)"
  using assms
  by (auto simp: handle_frame_def handle_hello_def handle_publication_def Let_def send_all_keeps
      split: sum.splits message_type.splits prod.splits if_splits list.splits dest!: reply_with_keeps)

section \<open>A connection\<close>

function serve_frames :: "server \<Rightarrow> server" where
  "serve_frames sv =
     (let (raw, cn) = recv_frame (sv_connection sv); sv = sv\<lparr>sv_connection := cn\<rparr> in
      case raw of
        Inl _ \<Rightarrow> sv
      | Inr bs \<Rightarrow> let (keep_going, sv) = handle_frame bs sv in if keep_going then serve_frames sv else sv)"
  by auto

termination
proof (relation "measure (\<lambda>sv. length (cn_incoming (sv_connection sv)))", simp, goal_cases)
  case (1 sv x raw cn sv1 bs y k sv2)
  then show ?case using handle_frame_incoming(1) [of bs sv1 k sv2] recv_frame_consumes [of "sv_connection sv" bs cn]
    by auto
qed

declare serve_frames.simps [simp del]

definition serve_connection :: "connection \<Rightarrow> server \<Rightarrow> server" where
  "serve_connection cn sv =
     (let sv = serve_frames (sv\<lparr>sv_connection := cn\<rparr>)
      in sv\<lparr>sv_connection := cn_close (sv_connection sv)\<rparr>)"

text \<open>
  The clients in the order they connect. When \<open>accept\<close> fails, after the last of them, the process
  ends on the spot; the argument \<open>failure\<close> is its error. With \<open>--once\<close> it leaves the loop after one.
\<close>

fun serve_clients :: "bool \<Rightarrow> error \<Rightarrow> connection list \<Rightarrow> u32 \<Rightarrow> server \<Rightarrow> u32 option \<times> server" where
  "serve_clients once failure [] served sv =
     (None, sv\<lparr>sv_err := sv_err sv @ [''accept failed: '' @ error_message failure]\<rparr>)"
| "serve_clients once failure (cn # cns) served sv =
     (let sv = serve_connection cn sv; served = served + 1 in
      if once \<and> served \<ge> 1 then (Some served, sv) else serve_clients once failure cns served sv)"

section \<open>Runs\<close>

lemma reply_with_registry: "sv_registry (snd (reply_with type body sv)) = sv_registry sv"
  using reply_with_keeps [OF prod.collapse [symmetric]] by simp

lemma accept_reaches:
  "reaches rg (snd (accept_capability flags payload rg))"
  "reaches rg (snd (accept_reservation flags payload rg))"
proof -
  have "reaches rg (snd (PublishCapability v rg))" "reaches rg (snd (PublishReservation w rg))" for v w
    using reaches_call [of "DoPublishCapability v"] reaches_call [of "DoPublishReservation w"] by auto
  then show "reaches rg (snd (accept_capability flags payload rg))"
    "reaches rg (snd (accept_reservation flags payload rg))"
    by (auto simp: accept_capability_def accept_reservation_def Let_def reaches_refl
        split: sum.splits prod.splits) (metis snd_conv)+
qed

lemma handle_publication_registry:
  "sv_registry (snd (handle_publication accept body sv)) =
   (case body of [] \<Rightarrow> sv_registry sv | flags # payload \<Rightarrow> snd (accept flags payload (sv_registry sv)))"
  by (auto simp: handle_publication_def Let_def split: list.splits prod.splits dest!: reply_with_keeps)

lemma handle_hello_reaches: "reaches (sv_registry sv) (sv_registry (snd (handle_hello body sv)))"
proof (cases "decode_hello body")
  case (Inr hello)
  let ?c = "DoRegister (sv_clock sv (sv_reads sv)) (he_publisher hello) (he_incarnation hello) (he_boot hello)
    (ucast (he_ttl_ms hello)) (he_origin hello)"
  have "sv_registry (snd (handle_hello body sv)) = the (after ?c (sv_registry sv))"
    using Inr by (auto simp: handle_hello_def Let_def split: prod.splits dest!: reply_with_keeps)
  then show ?thesis using reaches_call [of ?c "sv_registry sv"] by simp
qed (simp add: handle_hello_def reaches_refl)

lemma handle_publication_reaches:
  assumes "\<And>flags payload rg. reaches rg (snd (accept flags payload rg))"
  shows "reaches (sv_registry sv) (sv_registry (snd (handle_publication accept body sv)))"
  unfolding handle_publication_registry by (cases body) (simp_all add: assms reaches_refl)

lemma handle_frame_reaches: "reaches (sv_registry sv) (sv_registry (snd (handle_frame raw sv)))"
proof (cases "decode_frame raw")
  case (Inr fr)
  show ?thesis
    by (cases "fr_type fr")
      (simp_all add: handle_frame_def Inr handle_hello_reaches handle_publication_reaches accept_reaches
        reply_with_registry reaches_refl split: prod.split)
qed (simp add: handle_frame_def reaches_refl)

lemma serve_frames_reaches: "reaches (sv_registry sv) (sv_registry (serve_frames sv))"
proof (induction sv rule: serve_frames.induct)
  case (1 sv)
  obtain raw cn where r: "recv_frame (sv_connection sv) = (raw, cn)" by fastforce
  let ?sv = "sv\<lparr>sv_connection := cn\<rparr>"
  show ?case
  proof (cases raw)
    case (Inl e)
    then show ?thesis by (subst serve_frames.simps) (simp add: r reaches_refl)
  next
    case (Inr bs)
    obtain k sv1 where h: "handle_frame bs ?sv = (k, sv1)" by fastforce
    have a: "reaches (sv_registry sv) (sv_registry sv1)" using handle_frame_reaches [of ?sv bs] h by simp
    show ?thesis
    proof (cases k)
      case True
      from "1.IH" [OF r [symmetric] refl refl Inr h [symmetric] refl True]
      have "reaches (sv_registry sv1) (sv_registry (serve_frames sv1))" .
      then show ?thesis using True reaches_trans [OF _ a]
        by (subst serve_frames.simps) (simp add: r Inr h)
    qed (subst serve_frames.simps, simp add: r Inr h a)
  qed
qed

lemma serve_clients_reaches: "reaches (sv_registry sv) (sv_registry (snd (serve_clients once failure cns served sv)))"
proof (induction cns arbitrary: served sv)
  case (Cons cn cns)
  have a: "reaches (sv_registry sv) (sv_registry (serve_connection cn sv))"
    using serve_frames_reaches [of "sv\<lparr>sv_connection := cn\<rparr>"] by (simp add: serve_connection_def Let_def)
  then show ?case using Cons.IH reaches_trans [OF _ a] by (simp add: Let_def)
qed (simp add: reaches_refl)

end
