(* ===== verification/Scenario.thy ===== *)
theory Scenario
  imports Texts Registry_Inv
begin

text \<open>
  The scenario engine of \<open>src/tools/qosfabric_cli.cpp\<close> (class \<open>Scenario\<close>): a line names a verb and
  arguments, positional or \<open>key=value\<close>, which become one call of the registry under the scenario's
  own clock. A \<open>scenario\<close> holds the registry, the clock and the lines printed.
\<close>

section \<open>Arguments of a line\<close>

record arguments =
  ar_named :: "(string \<times> string) list"
  ar_positional :: "string list"

text \<open>A later value of a key replaces an earlier one.\<close>

fun sort_tokens :: "string list \<Rightarrow> arguments \<Rightarrow> arguments" where
  "sort_tokens [] a = a"
| "sort_tokens (token # tokens) a = sort_tokens tokens
     (if CHR ''='' \<notin> set token then a\<lparr>ar_positional := ar_positional a @ [token]\<rparr>
      else a\<lparr>ar_named := AList.update (takeWhile (\<lambda>c. c \<noteq> CHR ''='') token)
        (tl (dropWhile (\<lambda>c. c \<noteq> CHR ''='') token)) (ar_named a)\<rparr>)"

definition arguments_of :: "string list \<Rightarrow> arguments" where
  "arguments_of tokens = sort_tokens (tl tokens) \<lparr>ar_named = [], ar_positional = []\<rparr>"

definition arg_has :: "arguments \<Rightarrow> string \<Rightarrow> bool" where
  "arg_has a key \<longleftrightarrow> map_of (ar_named a) key \<noteq> None"

definition arg_get :: "arguments \<Rightarrow> string \<Rightarrow> string" where
  "arg_get a key = (case map_of (ar_named a) key of None \<Rightarrow> [] | Some v \<Rightarrow> v)"

definition bad_argument :: "string \<Rightarrow> error" where
  "bad_argument detail = make_error EC_InvalidArgument detail"

definition parse_id :: "string \<Rightarrow> string result" where
  "parse_id text = parse_string_id text kMaxIdentifierLen"

section \<open>Fields\<close>

text \<open>A step of a verb that fills in one field of the value it builds when its key is given.\<close>

type_synonym 'v step = "'v \<Rightarrow> 'v result"

fun steps :: "'v step list \<Rightarrow> 'v step" where
  "steps [] v = Inr v"
| "steps (s # ss) v = bindR (s v) (steps ss)"

definition if_given :: "arguments \<Rightarrow> string \<Rightarrow> 'v step \<Rightarrow> 'v step" where
  "if_given a key s v = (if arg_has a key then s v else Inr v)"

definition number_field :: "arguments \<Rightarrow> string \<Rightarrow> (u64 \<Rightarrow> 'v \<Rightarrow> 'v) \<Rightarrow> 'v step" where
  "number_field a key put = if_given a key (\<lambda>v. bindR (to_u64 (arg_get a key) key) (\<lambda>n. Inr (put n v)))"

definition bool_field :: "arguments \<Rightarrow> string \<Rightarrow> (bool \<Rightarrow> 'v \<Rightarrow> 'v) \<Rightarrow> 'v step" where
  "bool_field a key put = if_given a key (\<lambda>v. bindR (to_bool (arg_get a key) key) (\<lambda>b. Inr (put b v)))"

definition enum_field ::
    "arguments \<Rightarrow> string \<Rightarrow> (string \<Rightarrow> 'e option) \<Rightarrow> string \<Rightarrow> ('e \<Rightarrow> 'v \<Rightarrow> 'v) \<Rightarrow> 'v step" where
  "enum_field a key parse detail put = if_given a key (\<lambda>v. case parse (arg_get a key) of
     None \<Rightarrow> Inl (bad_argument detail) | Some e \<Rightarrow> Inr (put e v))"

text \<open>A list of names between commas; empty names are skipped.\<close>

fun parse_each :: "(string \<Rightarrow> 'b result) \<Rightarrow> string list \<Rightarrow> 'b list result" where
  "parse_each parse [] = Inr []"
| "parse_each parse (t # ts) =
     (if t = [] then parse_each parse ts
      else bindR (parse t) (\<lambda>x. bindR (parse_each parse ts) (\<lambda>xs. Inr (x # xs))))"

definition list_field ::
    "arguments \<Rightarrow> string \<Rightarrow> (string \<Rightarrow> string result) \<Rightarrow> (string list \<Rightarrow> 'v \<Rightarrow> 'v) \<Rightarrow> 'v step" where
  "list_field a key parse put = if_given a key (\<lambda>v.
     bindR (parse_each parse (split_text (arg_get a key) (CHR '',''))) (\<lambda>xs. Inr (put xs v)))"

definition named_generation :: "arguments \<Rightarrow> string \<Rightarrow> (string \<times> u64) result" where
  "named_generation a detail =
     (case ar_positional a of
        [ident, generation] \<Rightarrow>
          bindR (parse_id ident) (\<lambda>i. bindR (to_u64 generation ''generation'') (\<lambda>g. Inr (i, g)))
      | _ \<Rightarrow> Inl (bad_argument detail))"

section \<open>Definitions\<close>

definition fresh_class :: "string \<Rightarrow> u64 \<Rightarrow> string \<Rightarrow> qos_class" where
  "fresh_class ident generation label = \<lparr>qc_id = ident, qc_generation = generation, qc_label = label,
     qc_min_rate_bps = None, qc_max_rate_bps = None, qc_peak_rate_bps = None,
     qc_max_latency_us = None, qc_max_jitter_us = None, qc_max_loss_ppm = None,
     qc_burst_bytes = None, qc_burst_interval_us = None, qc_min_mtu_bytes = None,
     qc_isolation = Iso_None, qc_treatment = TM_BestEffort, qc_min_priority_rank = 0,
     qc_min_disjoint_paths = 1, qc_requires_reservation = False, qc_required_predicates = [],
     qc_allow_degrade = False, qc_degrade_max_relaxation_ppm = 0,
     qc_violation_policy = VP_DegradeThenReject, qc_published_epoch = 0, qc_digest = zero_digest,
     qc_provenance = empty_provenance\<rparr>"

definition scenario_class :: "arguments \<Rightarrow> qos_class result" where
  "scenario_class a =
     bindR (named_generation a ''class requires <id> <generation>'') (\<lambda>(i, g). steps
       [number_field a ''min_rate'' (\<lambda>n. qc_min_rate_bps_update (\<lambda>_. Some n)),
        number_field a ''max_rate'' (\<lambda>n. qc_max_rate_bps_update (\<lambda>_. Some n)),
        number_field a ''peak_rate'' (\<lambda>n. qc_peak_rate_bps_update (\<lambda>_. Some n)),
        number_field a ''latency'' (\<lambda>n. qc_max_latency_us_update (\<lambda>_. Some n)),
        number_field a ''jitter'' (\<lambda>n. qc_max_jitter_us_update (\<lambda>_. Some n)),
        number_field a ''burst'' (\<lambda>n. qc_burst_bytes_update (\<lambda>_. Some n)),
        number_field a ''burst_interval'' (\<lambda>n. qc_burst_interval_us_update (\<lambda>_. Some n)),
        number_field a ''mtu'' (\<lambda>n. qc_min_mtu_bytes_update (\<lambda>_. Some n)),
        number_field a ''loss'' (\<lambda>n. qc_max_loss_ppm_update (\<lambda>_. Some (ucast n))),
        enum_field a ''isolation'' parse_isolation_level ''invalid isolation level''
          (\<lambda>e. qc_isolation_update (\<lambda>_. e)),
        enum_field a ''treatment'' parse_treatment_mode ''invalid treatment mode''
          (\<lambda>e. qc_treatment_update (\<lambda>_. e)),
        number_field a ''priority'' (\<lambda>n. qc_min_priority_rank_update (\<lambda>_. ucast n)),
        number_field a ''disjoint'' (\<lambda>n. qc_min_disjoint_paths_update (\<lambda>_. ucast n)),
        bool_field a ''reservation'' (\<lambda>b. qc_requires_reservation_update (\<lambda>_. b)),
        list_field a ''predicates'' to_predicate (\<lambda>xs. qc_required_predicates_update (\<lambda>ps. ps @ xs)),
        bool_field a ''degrade'' (\<lambda>b. qc_allow_degrade_update (\<lambda>_. b)),
        number_field a ''relax_ppm'' (\<lambda>n. qc_degrade_max_relaxation_ppm_update (\<lambda>_. ucast n)),
        enum_field a ''violation'' parse_violation_policy ''invalid violation policy''
          (\<lambda>e. qc_violation_policy_update (\<lambda>_. e))]
       (fresh_class i g (arg_get a ''label'')))"

definition fresh_policy :: "string \<Rightarrow> u64 \<Rightarrow> string \<Rightarrow> u64 \<Rightarrow> policy" where
  "fresh_policy ident generation label max_age = \<lparr>po_id = ident, po_generation = generation,
     po_label = label, po_degrade_permitted = False, po_max_relaxation_ppm = 0,
     po_max_stale_epochs = 0, po_capability_max_age_ms = max_age, po_max_unknown_components = 0,
     po_required_predicates = [], po_denied_classes = [], po_published_epoch = 0,
     po_digest = zero_digest, po_provenance = empty_provenance\<rparr>"

definition scenario_policy :: "arguments \<Rightarrow> policy result" where
  "scenario_policy a =
     bindR (named_generation a ''policy requires <id> <generation>'') (\<lambda>(i, g). steps
       [bool_field a ''degrade'' (\<lambda>b. po_degrade_permitted_update (\<lambda>_. b)),
        number_field a ''relax_ppm'' (\<lambda>n. po_max_relaxation_ppm_update (\<lambda>_. ucast n)),
        number_field a ''stale_epochs'' (\<lambda>n. po_max_stale_epochs_update (\<lambda>_. ucast n)),
        number_field a ''max_age_ms'' (\<lambda>n. po_capability_max_age_ms_update (\<lambda>_. n)),
        number_field a ''unknown'' (\<lambda>n. po_max_unknown_components_update (\<lambda>_. ucast n)),
        list_field a ''predicates'' to_predicate (\<lambda>xs. po_required_predicates_update (\<lambda>ps. ps @ xs)),
        list_field a ''denied'' parse_id (\<lambda>xs. po_denied_classes_update (\<lambda>ps. ps @ xs))]
       (fresh_policy i g (arg_get a ''label'') 600000))"

definition parse_component :: "string \<Rightarrow> path_component result" where
  "parse_component item =
     (case split_text item (CHR '':'') of
        [resource, generation, domain, role] \<Rightarrow>
          bindR (parse_id resource) (\<lambda>r.
          bindR (to_u64 generation ''component generation'') (\<lambda>g.
          bindR (parse_id domain) (\<lambda>d.
          case parse_path_role role of
            None \<Rightarrow> Inl (bad_argument ''invalid path component role'')
          | Some role \<Rightarrow> Inr \<lparr>pc_resource = r, pc_capability_generation = g,
              pc_diversity_domain = d, pc_role = role\<rparr>)))
      | _ \<Rightarrow> Inl (bad_argument ''path component must be resource:generation:domain:role''))"

fun parse_components :: "string list \<Rightarrow> path_component list result" where
  "parse_components [] = Inr []"
| "parse_components (t # ts) =
     bindR (parse_component t) (\<lambda>x. bindR (parse_components ts) (\<lambda>xs. Inr (x # xs)))"

definition fresh_path :: "string \<Rightarrow> u64 \<Rightarrow> path" where
  "fresh_path ident generation = \<lparr>pa_id = ident, pa_generation = generation, pa_components = [],
     pa_fixed_latency_us = 0, pa_fixed_jitter_us = 0, pa_epoch = 0, pa_digest = zero_digest,
     pa_provenance = empty_provenance\<rparr>"

definition scenario_path :: "arguments \<Rightarrow> path result" where
  "scenario_path a =
     bindR (named_generation a ''path requires <id> <generation>'') (\<lambda>(i, g). steps
       [number_field a ''fixed_latency'' (\<lambda>n. pa_fixed_latency_us_update (\<lambda>_. n)),
        number_field a ''fixed_jitter'' (\<lambda>n. pa_fixed_jitter_us_update (\<lambda>_. n)),
        (\<lambda>v. if \<not> arg_has a ''components''
           then Inl (bad_argument ''path requires components=r:gen:domain:role,...'')
           else bindR (parse_components (split_text (arg_get a ''components'') (CHR '','')))
             (\<lambda>cs. Inr (v\<lparr>pa_components := pa_components v @ cs\<rparr>)))]
       (fresh_path i g))"

section \<open>Evidence\<close>

definition fresh_capability :: "string \<Rightarrow> u64 \<Rightarrow> resource_capability" where
  "fresh_capability resource generation = \<lparr>ca_resource = resource, ca_generation = generation,
     ca_epoch = 0, ca_publisher = [], ca_incarnation = 0, ca_published_at_ms = 0,
     ca_expires_at_ms = 0, ca_state = Cap_Unknown, ca_supported_rate_bps = None,
     ca_latency_bound_us = None, ca_jitter_bound_us = None, ca_loss_ppm = None,
     ca_max_burst_bytes = None, ca_burst_window_us = None, ca_mtu_bytes = None,
     ca_max_isolation = Iso_None, ca_max_treatment = TM_BestEffort, ca_max_priority_rank = 0,
     ca_predicates = [], ca_diversity_domain = [], ca_digest = zero_digest,
     ca_provenance = empty_provenance\<rparr>"

text \<open>A number read without a check: what \<open>strtoull\<close> makes of the text, or a default.\<close>

definition loose_number :: "arguments \<Rightarrow> string \<Rightarrow> u64 \<Rightarrow> u64" where
  "loose_number a key fallback = (if arg_has a key then strtoull (arg_get a key) else fallback)"

definition publisher_argument :: "arguments \<Rightarrow> string \<Rightarrow> (string \<times> u64) result" where
  "publisher_argument a detail =
     (case parse_id (arg_get a ''publisher'') of
        Inl _ \<Rightarrow> Inl (bad_argument detail)
      | Inr p \<Rightarrow> bindR (to_u64 (arg_get a ''incarnation'') ''incarnation'') (\<lambda>i. Inr (p, i)))"

definition scenario_capability :: "arguments \<Rightarrow> fabric_epoch \<Rightarrow> u64 \<Rightarrow> resource_capability result" where
  "scenario_capability a current_epoch now_ms =
     bindR (named_generation a ''capability requires <resource> <generation>'') (\<lambda>(r, g).
     bindR (publisher_argument a ''capability requires publisher=<id>'') (\<lambda>(p, i).
     let published = loose_number a ''published'' now_ms;
         v = (fresh_capability r g)\<lparr>ca_publisher := p, ca_incarnation := i,
           ca_epoch := loose_number a ''epoch'' current_epoch, ca_published_at_ms := published,
           ca_expires_at_ms := loose_number a ''expires'' (published + 600000)\<rparr>
     in steps
       [enum_field a ''state'' parse_capability_state ''invalid capability state''
          (\<lambda>e. ca_state_update (\<lambda>_. e)),
        number_field a ''rate'' (\<lambda>n. ca_supported_rate_bps_update (\<lambda>_. Some n)),
        number_field a ''latency'' (\<lambda>n. ca_latency_bound_us_update (\<lambda>_. Some n)),
        number_field a ''jitter'' (\<lambda>n. ca_jitter_bound_us_update (\<lambda>_. Some n)),
        number_field a ''burst'' (\<lambda>n. ca_max_burst_bytes_update (\<lambda>_. Some n)),
        number_field a ''burst_window'' (\<lambda>n. ca_burst_window_us_update (\<lambda>_. Some n)),
        number_field a ''mtu'' (\<lambda>n. ca_mtu_bytes_update (\<lambda>_. Some n)),
        number_field a ''loss'' (\<lambda>n. ca_loss_ppm_update (\<lambda>_. Some (ucast n))),
        enum_field a ''isolation'' parse_isolation_level ''invalid isolation level''
          (\<lambda>e. ca_max_isolation_update (\<lambda>_. e)),
        enum_field a ''treatment'' parse_treatment_mode ''invalid treatment mode''
          (\<lambda>e. ca_max_treatment_update (\<lambda>_. e)),
        number_field a ''priority'' (\<lambda>n. ca_max_priority_rank_update (\<lambda>_. ucast n)),
        if_given a ''domain'' (\<lambda>v. bindR (parse_id (arg_get a ''domain''))
          (\<lambda>d. Inr (v\<lparr>ca_diversity_domain := d\<rparr>))),
        list_field a ''predicates'' to_predicate (\<lambda>xs. ca_predicates_update (\<lambda>ps. ps @ xs))]
       v))"

text \<open>A reference to a definition: an identifier, a colon and a generation.\<close>

definition reference :: "arguments \<Rightarrow> string \<Rightarrow> string \<Rightarrow> string \<Rightarrow> (string \<times> u64) result" where
  "reference a key detail what =
     (case split_text (arg_get a key) (CHR '':'') of
        [ident, generation] \<Rightarrow>
          bindR (parse_id ident) (\<lambda>i. bindR (to_u64 generation what) (\<lambda>g. Inr (i, g)))
      | _ \<Rightarrow> Inl (bad_argument detail))"

definition scenario_reservation :: "arguments \<Rightarrow> fabric_epoch \<Rightarrow> u64 \<Rightarrow> reservation result" where
  "scenario_reservation a current_epoch now_ms =
     bindR (named_generation a ''reservation requires <resource> <generation>'') (\<lambda>(r, g).
     bindR (reference a ''class'' ''reservation requires class=<id>:<generation>'' ''class generation'')
       (\<lambda>(c, cg).
     bindR (to_u64 (arg_get a ''rate'') ''rate'') (\<lambda>rate.
     bindR (if arg_has a ''burst'' then to_u64 (arg_get a ''burst'') ''burst'' else Inr 0) (\<lambda>burst.
     bindR (publisher_argument a ''reservation requires publisher=<id>'') (\<lambda>(p, i).
     Inr \<lparr>rs_resource = r, rs_generation = g, rs_class_id = c, rs_class_generation = cg,
       rs_reserved_min_rate_bps = rate, rs_reserved_burst_bytes = burst,
       rs_epoch = loose_number a ''epoch'' current_epoch, rs_publisher = p, rs_incarnation = i,
       rs_expires_at_ms = loose_number a ''expires'' (now_ms + 600000), rs_digest = zero_digest,
       rs_provenance = empty_provenance\<rparr>)))))"

section \<open>Requests\<close>

definition request_reference :: "arguments \<Rightarrow> string \<Rightarrow> (string \<times> u64) result" where
  "request_reference a key = reference a key (key @ ''=<id>:<generation>'') key"

definition scenario_request :: "arguments \<Rightarrow> u64 \<Rightarrow> contract_request result" where
  "scenario_request a now_ms =
     bindR (named_generation a ''request requires <contract> <generation>'') (\<lambda>(c, g).
     bindR (request_reference a ''subject'') (\<lambda>(s, sg).
     bindR (request_reference a ''class'') (\<lambda>(k, kg).
     bindR (request_reference a ''path'') (\<lambda>(p, pg).
     bindR (request_reference a ''policy'') (\<lambda>(o', og).
     bindR (request_reference a ''priority'') (\<lambda>(r, rg).
     bindR (if arg_has a ''epoch'' then to_u64 (arg_get a ''epoch'') ''epoch'' else Inr 0) (\<lambda>e.
     Inr \<lparr>rq_contract = c, rq_contract_generation = g, rq_subject = s, rq_subject_generation = sg,
       rq_class_id = k, rq_class_generation = kg, rq_path = p, rq_path_generation = pg,
       rq_policy = o', rq_policy_generation = og, rq_priority = r, rq_priority_generation = rg,
       rq_observed_epoch = e, rq_request_ms = now_ms, rq_provenance = empty_provenance\<rparr>)))))))"

section \<open>Execution\<close>

text \<open>
  The boot identities the entropy source will give are a field, one for each registration. The
  clock of the registry is pinned before every call that reads it, so no reading of the system
  clock matters after the start.
\<close>

record scenario =
  sc_registry :: registry
  sc_now_ms :: u64
  sc_out :: "string list"
  sc_boots :: "nat \<Rightarrow> bytes"
  sc_boot_count :: nat

definition print_lines :: "string list \<Rightarrow> scenario \<Rightarrow> scenario" where
  "print_lines ls sc = sc\<lparr>sc_out := sc_out sc @ ls\<rparr>"

definition pinned :: "scenario \<Rightarrow> registry" where
  "pinned sc = set_now_millis (sc_now_ms sc) (sc_registry sc)"

definition run_now :: "arguments \<Rightarrow> scenario \<Rightarrow> unit result \<times> scenario" where
  "run_now a sc =
     (case ar_positional a of
        [value] \<Rightarrow>
          (case to_u64 value ''now'' of
             Inl e \<Rightarrow> (Inl e, sc)
           | Inr n \<Rightarrow> (Inr (), print_lines [''NOW '' @ u64_to_string n]
               (sc\<lparr>sc_now_ms := n, sc_registry := set_now_millis n (sc_registry sc)\<rparr>)))
      | _ \<Rightarrow> (Inl (bad_argument ''now requires one argument''), sc))"

definition run_advance :: "scenario \<Rightarrow> unit result \<times> scenario" where
  "run_advance sc =
     (let (advanced, rg) = AdvanceEpoch ''scenario'' (pinned sc); sc = sc\<lparr>sc_registry := rg\<rparr> in
      case advanced of
        Inl e \<Rightarrow> (Inl e, sc)
      | Inr epoch \<Rightarrow> (Inr (), print_lines [''EPOCH '' @ u64_to_string epoch] sc))"

definition run_compact :: "scenario \<Rightarrow> unit result \<times> scenario" where
  "run_compact sc = (let (done, rg) = Compact (sc_registry sc) in (done, sc\<lparr>sc_registry := rg\<rparr>))"

definition run_publisher :: "arguments \<Rightarrow> scenario \<Rightarrow> unit result \<times> scenario" where
  "run_publisher a sc =
     (case ar_positional a of
        [ident, incarnation] \<Rightarrow>
          (case bindR (parse_id ident) (\<lambda>p. bindR (to_u64 incarnation ''incarnation'') (\<lambda>i.
                bindR (if arg_has a ''ttl_ms'' then to_u64 (arg_get a ''ttl_ms'') ''ttl_ms'' else Inr 60000)
                  (\<lambda>ttl. Inr (p, i, ttl)))) of
             Inl e \<Rightarrow> (Inl e, sc)
           | Inr (p, i, ttl) \<Rightarrow>
               let (granted, rg) = RegisterPublisher (sc_now_ms sc) p i (sc_boots sc (sc_boot_count sc))
                     ttl ''scenario'' (pinned sc);
                   sc = sc\<lparr>sc_registry := rg, sc_boot_count := Suc (sc_boot_count sc)\<rparr> in
               case granted of
                 Inl e \<Rightarrow> (Inl e, sc)
               | Inr lease \<Rightarrow> (Inr (), print_lines
                   [''PUBLISHER '' @ p @ '' incarnation='' @ u64_to_string i @ '' lease='' @
                    u64_to_string (ls_lease lease) @ '' epoch='' @ u64_to_string (ls_epoch lease)] sc))
      | _ \<Rightarrow> (Inl (bad_argument ''publisher requires <id> <incarnation>''), sc))"

text \<open>The common tail of the five verbs that publish.\<close>

definition run_publish ::
    "string \<Rightarrow> 'a result \<Rightarrow> ('a \<Rightarrow> string) \<Rightarrow>
     ('a \<Rightarrow> registry \<Rightarrow> publication_result result \<times> registry) \<Rightarrow> scenario \<Rightarrow> unit result \<times> scenario" where
  "run_publish word parsed ident publish sc =
     (case parsed of
        Inl e \<Rightarrow> (Inl e, sc)
      | Inr v \<Rightarrow>
          let (answer, rg) = publish v (pinned sc); sc = sc\<lparr>sc_registry := rg\<rparr> in
          case answer of
            Inl e \<Rightarrow> (Inl e, sc)
          | Inr p \<Rightarrow> (Inr (), print_lines [word @ '' '' @ ident v @ ''@'' @
              u64_to_string (pr_generation p) @ '' digest='' @ digest_hex (pr_digest p)] sc))"

definition print_obligation :: "obligation_assessment \<Rightarrow> string" where
  "print_obligation item =
     ''OBLIGATION '' @ oa_id item @ '' '' @ status_to_string (oa_status item) @ '' required='' @
     u64_to_string (oa_required_value item) @ '' composed='' @
     (case oa_composed_value item of None \<Rightarrow> ''UNKNOWN'' | Some v \<Rightarrow> u64_to_string v) @
     '' relax='' @ u32_to_string (oa_relaxation_applied_ppm item) @ '' headroom='' @
     u32_to_string (oa_headroom_ppm item)"

definition print_resource :: "resource_assessment \<Rightarrow> string" where
  "print_resource item =
     ''RESOURCE '' @ ra_resource item @ '' '' @ cstat_to_string (ra_status item) @ '' domain='' @
     ra_diversity_domain item"

definition print_degradation :: "degradation_reason \<Rightarrow> string" where
  "print_degradation item =
     ''DEGRADATION '' @ dr_id item @ '' '' @ u32_to_string (dr_relaxation_ppm item) @ '' '' @
     (if dr_reported_only item then ''reported'' else ''applied'')"

definition decision_lines :: "contract_request \<Rightarrow> contract_decision \<Rightarrow> string list" where
  "decision_lines request d =
     [''REQUEST '' @ rq_contract request @ ''@'' @ u64_to_string (rq_contract_generation request),
      ''OUTCOME '' @ outcome_to_string (cd_outcome d),
      ''REASON '' @ cd_primary_reason d,
      ''DECISION-DIGEST '' @ digest_hex (cd_decision_digest d)] @
     (case cd_binding_obligation d of
        None \<Rightarrow> []
      | Some kind \<Rightarrow> [''BINDING '' @ kind_to_string kind @ '' '' @
          (case cd_binding_resource d of None \<Rightarrow> ''-'' | Some r \<Rightarrow> r)]) @
     map print_obligation (cd_obligations d) @ map print_resource (cd_resources d) @
     map print_degradation (cd_degradations d)"

definition run_request :: "arguments \<Rightarrow> scenario \<Rightarrow> (unit result \<times> scenario) option" where
  "run_request a sc =
     (case scenario_request a (sc_now_ms sc) of
        Inl e \<Rightarrow> Some (Inl e, sc)
      | Inr request \<Rightarrow>
          map_option (\<lambda>(decided, rg).
            let sc = sc\<lparr>sc_registry := rg\<rparr> in
            case decided of
              Inl e \<Rightarrow> (Inl e, sc)
            | Inr d \<Rightarrow> (Inr (), print_lines (decision_lines request d) sc))
          (RegistryEvaluate (sc_now_ms sc) request (pinned sc)))"

text \<open>\<^term>\<open>None\<close> is undefined behaviour in the engine.\<close>

definition execute :: "string \<Rightarrow> string list \<Rightarrow> scenario \<Rightarrow> (unit result \<times> scenario) option" where
  "execute verb tokens sc =
     (let a = arguments_of tokens in
      if verb = ''now'' then Some (run_now a sc)
      else if verb = ''advance-epoch'' then Some (run_advance sc)
      else if verb = ''compact'' then Some (run_compact sc)
      else if verb = ''publisher'' then Some (run_publisher a sc)
      else if verb = ''class''
      then Some (run_publish ''CLASS'' (scenario_class a) qc_id (\<lambda>v. PublishClass v ''scenario'') sc)
      else if verb = ''policy''
      then Some (run_publish ''POLICY'' (scenario_policy a) po_id (\<lambda>v. PublishPolicy v ''scenario'') sc)
      else if verb = ''path''
      then Some (run_publish ''PATH'' (scenario_path a) pa_id (\<lambda>v. PublishPath v ''scenario'') sc)
      else if verb = ''capability''
      then Some (run_publish ''CAPABILITY''
        (scenario_capability a (rg_current_epoch (sc_registry sc)) (sc_now_ms sc)) ca_resource PublishCapability sc)
      else if verb = ''reservation''
      then Some (run_publish ''RESERVATION''
        (scenario_reservation a (rg_current_epoch (sc_registry sc)) (sc_now_ms sc)) rs_resource PublishReservation sc)
      else if verb = ''request'' then run_request a sc
      else Some (Inl (bad_argument (''unrecognised scenario verb: '' @ verb)), sc))"

text \<open>
  The lines of the file, numbered from one. A line is cut at its comment; an empty one is skipped;
  the first that fails ends the run, and its number goes into the error.
\<close>

fun run_lines :: "nat \<Rightarrow> string list \<Rightarrow> scenario \<Rightarrow> (unit result \<times> scenario) option" where
  "run_lines n [] sc = Some (Inr (), sc)"
| "run_lines n (line # lines) sc =
     (case tokenize (takeWhile (\<lambda>c. c \<noteq> CHR ''#'') line) of
        [] \<Rightarrow> run_lines (Suc n) lines sc
      | verb # rest \<Rightarrow>
          (case execute verb (verb # rest) sc of
             None \<Rightarrow> None
           | Some (Inl e, sc) \<Rightarrow> Some (Inl (make_error (err_code e)
               (''line '' @ dec_string (Suc n) @ '': '' @ err_detail e)), sc)
           | Some (Inr _, sc) \<Rightarrow> run_lines (Suc n) lines sc))"

definition scenario_run :: "string \<Rightarrow> scenario \<Rightarrow> (unit result \<times> scenario) option" where
  "scenario_run path sc =
     (let (held, rg) = on_store (on_disk (read_file path (2 ^ 20))) (sc_registry sc);
          sc = sc\<lparr>sc_registry := rg\<rparr> in
      case held of
        Inl e \<Rightarrow> Some (Inl e, sc)
      | Inr bs \<Rightarrow> run_lines 0 (split_text (string_of_bytes bs) (CHR 0x0A)) sc)"

section \<open>A line is a call\<close>

lemma reaches_pinned: "reaches (sc_registry sc) (pinned sc)"
  by (rule reaches_call [of "DoSetClock (sc_now_ms sc)"]) (simp add: pinned_def)

lemma reaches_then: "after c (pinned sc) = Some rg \<Longrightarrow> reaches (sc_registry sc) rg"
  by (rule reaches_trans [OF reaches_call reaches_pinned])

lemma print_lines_registry [simp]: "sc_registry (print_lines ls sc) = sc_registry sc"
  by (simp add: print_lines_def)

lemma run_publish_reaches:
  assumes "\<And>v rg. \<exists>c. after c rg = Some (snd (publish v rg))"
  shows "reaches (sc_registry sc) (sc_registry (snd (run_publish word parsed ident publish sc)))"
proof (cases parsed)
  case (Inr v)
  obtain c where c: "after c (pinned sc) = Some (snd (publish v (pinned sc)))" using assms by blast
  then show ?thesis
    using Inr reaches_then [OF c] by (auto simp: run_publish_def Let_def split: prod.splits sum.splits)
qed (simp add: run_publish_def reaches_refl)

lemma run_publisher_reaches: "reaches (sc_registry sc) (sc_registry (snd (run_publisher a sc)))"
proof -
  have "reaches (sc_registry sc) rg'" if "RegisterPublisher c p i b ttl o' (pinned sc) = (r, rg')" for c p i b ttl o' r rg'
    using reaches_then [of "DoRegister c p i b ttl o'" sc rg'] that by simp
  then show ?thesis
    by (auto simp: run_publisher_def Let_def reaches_refl split: list.splits sum.splits prod.splits)
qed

lemma run_request_reaches:
  assumes "run_request a sc = Some p"
  shows "reaches (sc_registry sc) (sc_registry (snd p))"
proof (cases "scenario_request a (sc_now_ms sc)")
  case (Inr request)
  then obtain d rg where e: "RegistryEvaluate (sc_now_ms sc) request (pinned sc) = Some (d, rg)"
    using assms by (auto simp: run_request_def)
  then have "sc_registry (snd p) = rg"
    using assms Inr by (cases d) (auto simp: run_request_def Let_def)
  then show ?thesis using reaches_then [of "DoEvaluate (sc_now_ms sc) request" sc rg] e by simp
qed (use assms in \<open>auto simp: run_request_def reaches_refl\<close>)

lemma run_publish_reaches_all:
  "reaches (sc_registry sc) (sc_registry (snd (run_publish w c qc_id (\<lambda>v. PublishClass v o') sc)))"
  "reaches (sc_registry sc) (sc_registry (snd (run_publish w po po_id (\<lambda>v. PublishPolicy v o') sc)))"
  "reaches (sc_registry sc) (sc_registry (snd (run_publish w pa pa_id (\<lambda>v. PublishPath v o') sc)))"
  "reaches (sc_registry sc) (sc_registry (snd (run_publish w ca ca_resource PublishCapability sc)))"
  "reaches (sc_registry sc) (sc_registry (snd (run_publish w rs rs_resource PublishReservation sc)))"
  by (rule run_publish_reaches,
      rule exI [of _ "DoPublishClass v o'" for v] exI [of _ "DoPublishPolicy v o'" for v]
        exI [of _ "DoPublishPath v o'" for v] exI [of _ "DoPublishCapability v" for v]
        exI [of _ "DoPublishReservation v" for v], simp)+

lemma execute_reaches:
  assumes "execute verb tokens sc = Some p"
  shows "reaches (sc_registry sc) (sc_registry (snd p))"
proof -
  have n: "reaches (sc_registry sc) (sc_registry (snd (run_now a sc)))" for a
    using reaches_call [of "DoSetClock v" "sc_registry sc" for v]
    by (auto simp: run_now_def reaches_refl split: list.splits sum.splits)
  have v: "reaches (sc_registry sc) (sc_registry (snd (run_advance sc)))"
    using reaches_then [of "DoAdvance ''scenario''" sc]
    by (auto simp: run_advance_def Let_def split: prod.splits sum.splits)
  have k: "reaches (sc_registry sc) (sc_registry (snd (run_compact sc)))"
    using reaches_call [of DoCompact "sc_registry sc"] by (auto simp: run_compact_def Let_def split: prod.splits)
  note facts = n v k run_publisher_reaches run_publish_reaches_all reaches_refl
  show ?thesis
    using assms unfolding execute_def Let_def
    by (simp split: if_split_asm add: run_request_reaches)
       (auto simp only: facts option.inject snd_conv)
qed

lemma run_lines_reaches: "run_lines n lines sc = Some (r, sc') \<Longrightarrow> reaches (sc_registry sc) (sc_registry sc')"
proof (induction lines arbitrary: n sc)
  case (Cons line lines)
  show ?case
  proof (cases "tokenize (takeWhile (\<lambda>c. c \<noteq> CHR ''#'') line)")
    case Nil
    then show ?thesis using Cons by simp
  next
    case (Cons verb rest)
    obtain r1 sc1 where e: "execute verb (verb # rest) sc = Some (r1, sc1)"
      using Cons Cons.prems by (auto split: option.splits)
    show ?thesis
      using Cons.prems Cons.IH [of "Suc n" sc1] execute_reaches [OF e] reaches_trans local.Cons e
      by (cases r1) (auto intro: reaches_trans)
  qed
qed (simp add: reaches_refl)

end
