(* ===== verification/Cli.thy ===== *)
theory Cli
  imports Server Scenario
begin

text \<open>
  The operator tool of \<open>src/tools/qosfabric_cli.cpp\<close>: its options, the registry it opens, and its
  commands, each with the lines it prints, its exit code and the disk it leaves. What the process
  takes from its surroundings is a \<open>world\<close>: the disk, the clock, boot identities, the socket it
  listens on and the clients that will connect.
\<close>

section \<open>Options\<close>

record cli_options =
  op_store :: string
  op_file :: string
  op_port_file :: string
  op_port :: u16
  op_once :: bool
  op_observational :: bool

definition default_cli_options :: cli_options where
  "default_cli_options = \<lparr>op_store = [], op_file = [], op_port_file = [], op_port = 0,
     op_once = False, op_observational = False\<rparr>"

text \<open>The left value is the argument that is not recognised; a flag without its value is none.\<close>

fun parse_cli_options :: "string list \<Rightarrow> cli_options \<Rightarrow> string + cli_options" where
  "parse_cli_options [] op = Inr op"
| "parse_cli_options (flag # rest) op =
     (if flag = ''--once'' then parse_cli_options rest (op\<lparr>op_once := True\<rparr>)
      else if flag = ''--quiet'' then parse_cli_options rest op
      else
        case rest of
          [] \<Rightarrow> Inl flag
        | value # others \<Rightarrow>
            if flag = ''--store'' then parse_cli_options others (op\<lparr>op_store := value\<rparr>)
            else if flag = ''--file'' then parse_cli_options others (op\<lparr>op_file := value\<rparr>)
            else if flag = ''--port'' then parse_cli_options others (op\<lparr>op_port := ucast (strtoull value)\<rparr>)
            else if flag = ''--port-file'' then parse_cli_options others (op\<lparr>op_port_file := value\<rparr>)
            else Inl flag)"

section \<open>The surroundings and the end of a process\<close>

text \<open>
  \<open>wd_listen\<close> is what \<open>listen_loopback\<close> and \<open>local_port\<close> report for a requested port, and
  \<open>wd_accept_failure\<close> the error of the \<open>accept\<close> after the last client; both are system calls.
\<close>

record world =
  wd_disk :: disk
  wd_clock :: "nat \<Rightarrow> u64"
  wd_boots :: "nat \<Rightarrow> bytes"
  wd_listen :: "u16 \<Rightarrow> u16 result"
  wd_clients :: "connection list"
  wd_accept_failure :: error
  wd_build :: string

record tool_end =
  te_code :: nat
  te_out :: "string list"
  te_err :: "string list"
  te_disk :: disk

definition error_line :: "error \<Rightarrow> string" where "error_line e = ''error: '' @ error_message e"

text \<open>A process that gives up drops the registry: the log is closed without a shutdown record.\<close>

definition registry_disk :: "registry \<Rightarrow> disk" where "registry_disk rg = s_disk (rg_store rg)"

definition give_up :: "string list \<Rightarrow> error \<Rightarrow> disk \<Rightarrow> tool_end" where
  "give_up out e d = \<lparr>te_code = 1, te_out = out, te_err = [error_line e], te_disk = d\<rparr>"

text \<open>The common end of the commands: close, report an error, print the last lines.\<close>

definition close_and_end :: "string list \<Rightarrow> string list \<Rightarrow> registry \<Rightarrow> tool_end" where
  "close_and_end out last_lines rg =
     (let (closed, rg) = RegistryClose rg in
      case closed of
        Inl e \<Rightarrow> give_up out e (registry_disk rg)
      | Inr _ \<Rightarrow> \<lparr>te_code = 0, te_out = out @ last_lines, te_err = [], te_disk = registry_disk rg\<rparr>)"

definition open_registry :: "cli_options \<Rightarrow> world \<Rightarrow> registry result \<times> disk" where
  "open_registry op w =
     (if op_store op = []
      then (Inl (make_error EC_InvalidArgument ''--store DIR is required''), wd_disk w)
      else RegistryOpen (default_registry_options\<lparr>ro_directory := op_store op,
             ro_create_if_missing := True, ro_claim_authority := \<not> op_observational op\<rparr>)
           (wd_boots w 0) (wd_clock w 0) (wd_disk w))"

definition with_registry :: "cli_options \<Rightarrow> world \<Rightarrow> (registry \<Rightarrow> tool_end) \<Rightarrow> tool_end" where
  "with_registry op w body =
     (case open_registry op w of (Inl e, d) \<Rightarrow> give_up [] e d | (Inr rg, d) \<Rightarrow> body rg)"

section \<open>Commands\<close>

definition run_init :: "cli_options \<Rightarrow> world \<Rightarrow> tool_end" where
  "run_init op w = with_registry op w (\<lambda>rg. close_and_end []
     [''INIT '' @ op_store op @ '' store='' @ s_store_id (rg_store rg) @ '' epoch='' @
      u64_to_string (rg_current_epoch rg)] rg)"

definition flag_text :: "bool \<Rightarrow> string" where "flag_text b = (if b then ''1'' else ''0'')"

definition status_lines :: "registry \<Rightarrow> string list" where
  "status_lines rg =
     (let c = counts rg; rr = s_recovery (rg_store rg) in
      [''STORE '' @ s_store_id (rg_store rg),
       ''EPOCH current='' @ u64_to_string (rg_current_epoch rg) @ '' durable='' @
         u64_to_string (rg_durable_epoch rg),
       ''COUNTS classes='' @ dec_string (rc_classes c) @ '' policies='' @ dec_string (rc_policies c) @
         '' paths='' @ dec_string (rc_paths c) @ '' capabilities='' @ dec_string (rc_capabilities c) @
         '' reservations='' @ dec_string (rc_reservations c),
       ''COUNTS publishers='' @ dec_string (rc_publishers c) @ '' decisions='' @
         dec_string (rc_decisions c) @ '' conflicts='' @ dec_string (rc_conflicts c) @ '' leases='' @
         dec_string (rc_live_leases c),
       ''RECOVERY clean='' @ flag_text (rr_opened_clean rr) @ '' manifest_rebuilt='' @
         flag_text (rr_manifest_rebuilt rr) @ '' snapshot_loaded='' @ flag_text (rr_snapshot_loaded rr) @
         '' replayed='' @ u64_to_string (rr_replayed_records rr) @ '' truncated='' @
         u64_to_string (rr_truncated_tail_bytes rr) @ '' unfinished='' @
         u64_to_string (rr_unfinished_intents rr) @ '' discarded='' @
         u64_to_string (rr_discarded_intents rr)])"

definition run_status :: "cli_options \<Rightarrow> world \<Rightarrow> tool_end" where
  "run_status op w = with_registry (op\<lparr>op_observational := True\<rparr>) w
     (\<lambda>rg. close_and_end (status_lines rg) [] rg)"

definition run_verify :: "cli_options \<Rightarrow> world \<Rightarrow> tool_end" where
  "run_verify op w = with_registry (op\<lparr>op_observational := True\<rparr>) w (\<lambda>rg.
     let (verified, rg) = RegistryVerify rg in
     case verified of
       Inl e \<Rightarrow> give_up [] e (registry_disk rg)
     | Inr _ \<Rightarrow> close_and_end [''VERIFY OK store='' @ s_store_id (rg_store rg)] [] rg)"

definition run_compact_command :: "cli_options \<Rightarrow> world \<Rightarrow> tool_end" where
  "run_compact_command op w = with_registry op w (\<lambda>rg.
     let (compacted, rg) = Compact rg in
     case compacted of
       Inl e \<Rightarrow> give_up [] e (registry_disk rg)
     | Inr _ \<Rightarrow> close_and_end [''COMPACT OK epoch='' @ u64_to_string (rg_current_epoch rg)] [] rg)"

text \<open>\<^term>\<open>None\<close> is undefined behaviour in the engine.\<close>

definition run_scenario :: "cli_options \<Rightarrow> world \<Rightarrow> tool_end option" where
  "run_scenario op w =
     (if op_file op = []
      then Some \<lparr>te_code = 1, te_out = [], te_err = [''scenario requires --file FILE''], te_disk = wd_disk w\<rparr>
      else
        case open_registry op w of
          (Inl e, d) \<Rightarrow> Some (give_up [] e d)
        | (Inr rg, d) \<Rightarrow>
            map_option (\<lambda>(executed, sc).
              case executed of
                Inr _ \<Rightarrow> close_and_end (sc_out sc) [''SCENARIO OK''] (sc_registry sc)
              | Inl e \<Rightarrow>
                  let (closed, rg) = RegistryClose (sc_registry sc) in
                  \<lparr>te_code = 1, te_out = sc_out sc, te_err = error_line e #
                     (case closed of Inl e' \<Rightarrow> [error_line e'] | Inr _ \<Rightarrow> []), te_disk = registry_disk rg\<rparr>)
              (scenario_run (op_file op) \<lparr>sc_registry = rg, sc_now_ms = wd_clock w 1, sc_out = [],
                 sc_boots = (\<lambda>n. wd_boots w (Suc n)), sc_boot_count = 0\<rparr>))"

section \<open>The server process\<close>

definition no_connection :: connection where
  "no_connection = \<lparr>cn_open = False, cn_incoming = [], cn_recvs = [], cn_sends = [], cn_sent = [],
     cn_failure = []\<rparr>"

definition write_port_file :: "string \<Rightarrow> u16 \<Rightarrow> registry \<Rightarrow> unit result \<times> registry" where
  "write_port_file path port rg =
     (if path = [] then (Inr (), rg)
      else on_store (on_disk (write_file_atomic path
        (bytes_of_string (dec_string (unat port) @ [CHR 0x0A])))) rg)"

definition run_server :: "cli_options \<Rightarrow> world \<Rightarrow> tool_end" where
  "run_server op w = with_registry op w (\<lambda>rg.
     case wd_listen w (op_port op) of
       Inl e \<Rightarrow> give_up [] e (registry_disk rg)
     | Inr port \<Rightarrow>
         let out = [''LISTEN '' @ dec_string (unat port), ''STORE '' @ s_store_id (rg_store rg)];
             (written, rg) = write_port_file (op_port_file op) port rg in
         case written of
           Inl e \<Rightarrow> give_up out e (registry_disk rg)
         | Inr _ \<Rightarrow>
             let (left, sv) = serve_clients (op_once op) (wd_accept_failure w) (wd_clients w) 0
                   \<lparr>sv_registry = rg, sv_connection = no_connection, sv_out = out, sv_err = [],
                    sv_clock = (\<lambda>n. wd_clock w (Suc n)), sv_reads = 0\<rparr> in
             case left of
               None \<Rightarrow> \<lparr>te_code = 1, te_out = sv_out sv, te_err = sv_err sv,
                 te_disk = registry_disk (sv_registry sv)\<rparr>
             | Some served \<Rightarrow> close_and_end (sv_out sv)
                 [''SERVER-EXIT served='' @ u32_to_string served] (sv_registry sv))"

section \<open>The self test\<close>

definition selftest_checks :: "(bool \<times> string) list" where
  "selftest_checks =
     (let digest = sha256 (bytes_of_string ''abc''); parsed = digest_parse_hex (digest_hex digest) in
      [(parsed \<noteq> None, ''sha256 hex round trip''),
       ((case parsed of None \<Rightarrow> zero_digest | Some d \<Rightarrow> d) = digest, ''sha256 hex round trip is lossless''),
       (crc32c [1, 2, 3] \<noteq> 0, ''crc32c is defined''),
       (\<not> isl (parse_id ''voice.toll''), ''identifier accepted''),
       (isl (parse_id ''bad id''), ''identifier with a space refused''),
       (isl (parse_id []), ''empty identifier refused''),
       (version_string = ''1.0.0'', ''version string'')])"

definition run_selftest :: "disk \<Rightarrow> tool_end" where
  "run_selftest d =
     (let failed = map snd (filter (\<lambda>c. \<not> fst c) selftest_checks) in
      \<lparr>te_code = (if failed = [] then 0 else 1),
       te_out = map (\<lambda>what. ''SELFTEST-FAIL '' @ what) failed @
         [''SELFTEST '' @ (if failed = [] then ''OK'' else ''FAILED'') @ '' failures='' @
          dec_string (length failed)],
       te_err = [], te_disk = d\<rparr>)"

section \<open>The process\<close>

definition usage_lines :: "string list" where
  "usage_lines =
     [''usage: qosfabric_cli <command> [options]'',
      ''  init     --store DIR [--quiet]'',
      ''  status   --store DIR'',
      ''  verify   --store DIR'',
      ''  compact  --store DIR'',
      ''  scenario --store DIR --file FILE'',
      ''  serve    --store DIR [--port N] [--port-file PATH] [--once] [--quiet]'',
      ''  selftest'',
      ''  version'']"

definition usage_end :: "string list \<Rightarrow> disk \<Rightarrow> tool_end" where
  "usage_end err d = \<lparr>te_code = 1, te_out = [], te_err = err @ usage_lines, te_disk = d\<rparr>"

text \<open>The arguments after the name of the program.\<close>

definition cli_main :: "string list \<Rightarrow> world \<Rightarrow> tool_end option" where
  "cli_main args w =
     (case args of
        [] \<Rightarrow> Some (usage_end [] (wd_disk w))
      | command # flags \<Rightarrow>
          (case parse_cli_options flags default_cli_options of
             Inl flag \<Rightarrow> Some (usage_end [''unrecognised argument: '' @ flag] (wd_disk w))
           | Inr op \<Rightarrow>
               if command = ''version''
               then Some \<lparr>te_code = 0,
                 te_out = [''qosfabric '' @ version_string @ '' ('' @ wd_build w @ '')''],
                 te_err = [], te_disk = wd_disk w\<rparr>
               else if command = ''selftest'' then Some (run_selftest (wd_disk w))
               else if command = ''serve'' then Some (run_server op w)
               else if command = ''init'' then Some (run_init op w)
               else if command = ''status'' then Some (run_status op w)
               else if command = ''verify'' then Some (run_verify op w)
               else if command = ''compact'' then Some (run_compact_command op w)
               else if command = ''scenario'' then run_scenario op w
               else Some (usage_end [] (wd_disk w))))"

end
