(* ===== verification/Tool_Laws.thy ===== *)
theory Tool_Laws
  imports Agent Cli Registry_Progress
begin

text \<open>
  What the properties of the command-line tools share: numbers and references survive printing and
  parsing, the boot counter file, the way a request is written as a line, the generations the server
  assigns, and a connection cut into other pieces.
\<close>

section \<open>Numbers\<close>

lemma digit_chars: "c \<in> set ''0123456789'' \<Longrightarrow> is_digit c \<and> \<not> is_space c \<and> c \<notin> set ''+-=: #'' \<and> c \<noteq> CHR 0x0A \<and> c \<noteq> CHR 0x0D \<and> c \<noteq> CHR 0x09"
  by (auto simp: is_digit_def is_space_def less_eq_char_def)

lemma dec_chars: "c \<in> set (dec_string n) \<Longrightarrow> is_digit c \<and> \<not> is_space c \<and> c \<notin> set ''+-=: #'' \<and> c \<noteq> CHR 0x0A \<and> c \<noteq> CHR 0x0D \<and> c \<noteq> CHR 0x09"
  by (rule digit_chars [OF dec_string_digits])

lemma dec_string_nonempty [simp]: "dec_string n \<noteq> []"
  by (subst dec_string.simps) simp

lemma strtoull_dec: "strtoull (u64_to_string n) = n"
proof -
  let ?t = "dec_string (unat n)"
  obtain c cs where t: "?t = c # cs" by (cases ?t) auto
  have c: "\<not> is_space c" "c \<noteq> CHR ''-''" "c \<noteq> CHR ''+''" using dec_chars [of c "unat n"] t by auto
  have all: "takeWhile is_digit ?t = ?t" using dec_chars by (simp add: takeWhile_eq_all_conv)
  have "unat n < 2 ^ 64" using unsigned_less [of n, where 'a = nat] by simp
  then show ?thesis
    using c all t digits_value_dec [of "unat n"] by (simp add: strtoull_def u64_to_string_def Let_def)
qed

lemma to_u64_dec: "to_u64 (u64_to_string n) what = Inr n"
  using dec_chars strtoull_dec by (auto simp: to_u64_def u64_to_string_def list_all_iff)

section \<open>The boot counter\<close>

definition counter_text :: "u64 \<Rightarrow> string" where "counter_text n = u64_to_string n @ [CHR 0x0A]"

lemma atomic_write_result:
  assumes "write_file_atomic p bs d = (Inr u, d')"
  shows "file_at d' p = Some bs"
  using assms
  by (auto simp: write_file_atomic_def atomic_replace_def sync_handle_def sys_def io_step_def Let_def bindD_def
      split: prod.splits sum.splits option.splits list.splits if_splits)

lemma strip_counter: "strip_end (counter_text n) = u64_to_string n"
proof -
  obtain c cs where r: "rev (dec_string (unat n)) = c # cs" by (cases "rev (dec_string (unat n))") auto
  then have "c \<in> set (dec_string (unat n))" by (metis list.set_intros(1) set_rev)
  then have c: "c \<noteq> CHR 0x0A" "c \<noteq> CHR 0x0D" "c \<noteq> CHR '' ''" using dec_chars [of c "unat n"] by auto
  then have "dropWhile (\<lambda>c. c = CHR 0x0A \<or> c = CHR 0x0D \<or> c = CHR '' '') (rev (dec_string (unat n))) = rev (dec_string (unat n))"
    using r by simp
  then show ?thesis by (simp add: strip_end_def counter_text_def u64_to_string_def)
qed

lemma length_counter: "length (counter_text n) \<le> 64"
proof -
  have "unat n < 10 ^ 20" using unsigned_less [of n, where 'a = nat] by simp
  then show ?thesis using length_dec_string [of "unat n" 20] by (simp add: counter_text_def u64_to_string_def)
qed

lemma read_counter:
  assumes "path \<noteq> []" and "file_at d path = Some (bytes_of_string (counter_text n))"
    and "read_incarnation path d = (Inr m, d')"
  shows "m = n \<or> m = 0 \<and> (\<exists>k. fst (io_step d) = Some k)"
proof -
  have ne: "bytes_of_string (counter_text n) \<noteq> []" by (simp add: bytes_of_string_def counter_text_def)
  have t: "u64_to_string n \<noteq> [] \<and> list_all is_digit (u64_to_string n)"
    using dec_chars by (auto simp: u64_to_string_def list_all_iff)
  obtain f d1 where f: "io_step d = (f, d1)" by fastforce
  obtain r d2 where r: "read_file path 64 d = (r, d2)" by fastforce
  have held: "r = Inr bs \<Longrightarrow> bs = bytes_of_string (counter_text n)" for bs
    using r f assms(2) ne by (auto simp: read_file_def bind_iff split: option.splits if_splits)
  have missing: "r = Inl e \<Longrightarrow> err_code e = EC_NotFound \<Longrightarrow> f \<noteq> None" for e
    using r f assms(2) ne length_counter [of n]
    by (auto simp: read_file_def sys_def bindD_def split: option.splits prod.splits)
  show ?thesis
  proof (cases r)
    case (Inl e)
    then show ?thesis using assms(1,3) r f missing [OF Inl] by (auto simp: read_incarnation_def split: if_splits)
  next
    case (Inr bs)
    then show ?thesis
      using assms(1,3) r t held [OF Inr] strtoull_dec [of n] strip_counter [of n]
      by (simp add: read_incarnation_def Let_def)
  qed
qed

lemma read_counter_calm:
  assumes "path \<noteq> []" and "file_at d path = Some (bytes_of_string (counter_text n))" and "d_faults d = []"
  shows "read_incarnation path d = (Inr n, d)"
proof -
  have ne: "bytes_of_string (counter_text n) \<noteq> []" by (simp add: bytes_of_string_def counter_text_def)
  have t: "u64_to_string n \<noteq> [] \<and> list_all is_digit (u64_to_string n)"
    using dec_chars by (auto simp: u64_to_string_def list_all_iff)
  show ?thesis
    using assms ne t length_counter [of n] strtoull_dec [of n] strip_counter [of n]
    by (simp add: read_incarnation_def read_file_def sys_def io_step_def Let_def)
qed

lemma claim_reads:
  "claim_incarnation path d = (Inr j, d') \<Longrightarrow> \<exists>n d1. read_incarnation path d = (Inr n, d1) \<and> j = n + 1 \<and>
   write_incarnation path j d1 = (Inr (), d')"
  by (auto simp: claim_incarnation_def Let_def split: prod.splits sum.splits)

lemma claim_holds:
  assumes "path \<noteq> []" and "claim_incarnation path d = (Inr i, d')"
  shows "file_at d' path = Some (bytes_of_string (counter_text i))"
proof -
  obtain n d1 where r: "read_incarnation path d = (Inr n, d1)" "i = n + 1"
    "write_incarnation path (n + 1) d1 = (Inr (), d')"
    using claim_reads [OF assms(2)] by blast
  then show ?thesis
    using assms(1) atomic_write_result by (simp add: write_incarnation_def counter_text_def)
qed

section \<open>Requests as lines\<close>

lemma id_chars:
  assumes "is_valid x" and "c \<in> set x"
  shows "c \<noteq> CHR ''='' \<and> c \<noteq> CHR '' '' \<and> c \<noteq> CHR 0x09 \<and> c \<noteq> CHR 0x0D \<and> c \<noteq> CHR ''#'' \<and> c \<noteq> CHR '',''"
proof -
  have "is_valid_identifier_char c" using assms by (auto simp: is_valid_identifier_def list_all_iff split: if_splits)
  then show ?thesis by (auto simp: is_valid_identifier_char_def is_ascii_alnum_def less_eq_char_def)
qed

lemma parse_id_valid: "is_valid x \<Longrightarrow> parse_id x = Inr x"
  by (simp add: parse_id_def parse_string_id_def)

definition reference_text :: "string \<Rightarrow> generation \<Rightarrow> string" where
  "reference_text ident g = ident @ CHR '':'' # u64_to_string g"

lemma reference_value:
  assumes "is_valid ident" and "arg_get a key = reference_text ident g"
  shows "reference a key detail what = (if CHR '':'' \<in> set ident then Inl (bad_argument detail) else Inr (ident, g))"
proof (cases "CHR '':'' \<in> set ident")
  case False
  have "CHR '':'' \<notin> set (dec_string (unat g))" using dec_chars by fastforce
  then have "split_text (arg_get a key) (CHR '':'') = [ident, u64_to_string g]"
    using False
    by (simp add: assms(2) reference_text_def split_text_def split_loop_pieces split_loop_last u64_to_string_def)
  then show ?thesis using False assms(1) by (simp add: reference_def parse_id_valid to_u64_dec)
next
  case True
  have n: "length (split_loop separator cs token) = Suc (length (filter (\<lambda>c. c = separator) cs))" for separator cs token
    by (induction separator cs token rule: split_loop.induct) auto
  have "filter (\<lambda>c. c = CHR '':'') ident \<noteq> []" using True by (simp add: filter_empty_conv)
  then have "length (split_text (arg_get a key) (CHR '':'')) \<noteq> 2"
    by (simp add: split_text_def n assms(2) reference_text_def)
  then show ?thesis using True by (auto simp: reference_def split: list.splits)
qed

definition request_references :: "contract_request \<Rightarrow> (string \<times> string \<times> generation) list" where
  "request_references rq =
     [(''subject'', rq_subject rq, rq_subject_generation rq), (''class'', rq_class_id rq, rq_class_generation rq),
      (''path'', rq_path rq, rq_path_generation rq), (''policy'', rq_policy rq, rq_policy_generation rq),
      (''priority'', rq_priority rq, rq_priority_generation rq)]"

definition request_tokens :: "contract_request \<Rightarrow> string list" where
  "request_tokens rq =
     [''request'', rq_contract rq, u64_to_string (rq_contract_generation rq)] @
     map (\<lambda>(key, ident, g). key @ CHR ''='' # reference_text ident g) (request_references rq) @
     [''epoch='' @ u64_to_string (rq_observed_epoch rq)]"

text \<open>The arguments of a rendered request are its references.\<close>

lemma sort_named:
  "CHR ''='' \<notin> set key \<Longrightarrow> sort_tokens ((key @ CHR ''='' # v) # ts) a =
   sort_tokens ts (a\<lparr>ar_named := AList.update key v (ar_named a)\<rparr>)"
proof -
  assume k: "CHR ''='' \<notin> set key"
  have "takeWhile (\<lambda>c. c \<noteq> CHR ''='') (key @ CHR ''='' # v) = key"
    "dropWhile (\<lambda>c. c \<noteq> CHR ''='') (key @ CHR ''='' # v) = CHR ''='' # v"
    using k by (induction key) auto
  then show ?thesis by simp
qed

lemma sort_positional:
  "CHR ''='' \<notin> set t \<Longrightarrow> sort_tokens (t # ts) a = sort_tokens ts (a\<lparr>ar_positional := ar_positional a @ [t]\<rparr>)"
  by simp

lemma request_arguments:
  assumes "is_valid (rq_contract rq)"
  shows "ar_positional (arguments_of (request_tokens rq)) = [rq_contract rq, u64_to_string (rq_contract_generation rq)]"
    "(key, ident, g) \<in> set (request_references rq) \<Longrightarrow> arg_get (arguments_of (request_tokens rq)) key = reference_text ident g"
    "arg_has (arguments_of (request_tokens rq)) ''epoch''"
    "arg_get (arguments_of (request_tokens rq)) ''epoch'' = u64_to_string (rq_observed_epoch rq)"
proof -
  let ?a = "arguments_of (request_tokens rq)"
  have e: "CHR ''='' \<notin> set (rq_contract rq)" "CHR ''='' \<notin> set (u64_to_string n)" for n
    using id_chars [OF assms] dec_chars by (auto simp: u64_to_string_def)
  have ep: "''epoch='' @ v = ''epoch'' @ CHR ''='' # v" for v by simp
  have a: "?a = \<lparr>ar_named = [(''subject'', reference_text (rq_subject rq) (rq_subject_generation rq)),
       (''class'', reference_text (rq_class_id rq) (rq_class_generation rq)),
       (''path'', reference_text (rq_path rq) (rq_path_generation rq)),
       (''policy'', reference_text (rq_policy rq) (rq_policy_generation rq)),
       (''priority'', reference_text (rq_priority rq) (rq_priority_generation rq)),
       (''epoch'', u64_to_string (rq_observed_epoch rq))],
     ar_positional = [rq_contract rq, u64_to_string (rq_contract_generation rq)]\<rparr>"
    unfolding arguments_of_def request_tokens_def request_references_def ep
    by (simp add: sort_named sort_positional e del: append.simps sort_tokens.simps(2))
       (simp add: sort_named sort_positional e)
  show "ar_positional ?a = [rq_contract rq, u64_to_string (rq_contract_generation rq)]" by (simp add: a)
  show "arg_has ?a ''epoch''" "arg_get ?a ''epoch'' = u64_to_string (rq_observed_epoch rq)"
    by (simp_all add: a arg_has_def arg_get_def)
  show "(key, ident, g) \<in> set (request_references rq) \<Longrightarrow> arg_get ?a key = reference_text ident g"
    by (auto simp: request_references_def a arg_get_def)
qed

lemma token_chars:
  assumes "is_valid (rq_contract rq)" and "\<forall>(key, ident, g) \<in> set (request_references rq). is_valid ident"
    and "t \<in> set (request_tokens rq)"
  shows "t \<noteq> [] \<and> (\<forall>c \<in> set t. c \<noteq> CHR '' '' \<and> c \<noteq> CHR 0x09 \<and> c \<noteq> CHR 0x0D \<and> c \<noteq> CHR ''#'')"
proof -
  have i: "\<forall>c \<in> set x. c \<noteq> CHR '' '' \<and> c \<noteq> CHR 0x09 \<and> c \<noteq> CHR 0x0D \<and> c \<noteq> CHR ''#''" if "is_valid x" for x
    using id_chars [OF that] by blast
  have d: "\<forall>c \<in> set (u64_to_string n). c \<noteq> CHR '' '' \<and> c \<noteq> CHR 0x09 \<and> c \<noteq> CHR 0x0D \<and> c \<noteq> CHR ''#''" for n
    using dec_chars by (fastforce simp: u64_to_string_def)
  have ne: "rq_contract rq \<noteq> []" "u64_to_string n \<noteq> []" for n
    using is_valid_identifier_length [OF assms(1)] by (simp_all add: u64_to_string_def)
  have r: "\<forall>c \<in> set (key @ CHR ''='' # reference_text ident g). c \<noteq> CHR '' '' \<and> c \<noteq> CHR 0x09 \<and> c \<noteq> CHR 0x0D \<and> c \<noteq> CHR ''#''"
    if "(key, ident, g) \<in> set (request_references rq)" for key ident g
  proof -
    have "is_valid ident" using assms(2) that by blast
    moreover have "\<forall>c \<in> set key. c \<noteq> CHR '' '' \<and> c \<noteq> CHR 0x09 \<and> c \<noteq> CHR 0x0D \<and> c \<noteq> CHR ''#''"
      using that by (auto simp: request_references_def)
    ultimately show ?thesis using i [of ident] d [of g] by (simp add: reference_text_def ball_Un)
  qed
  from assms(3) consider "t = ''request''" | "t = rq_contract rq" | n where "t = u64_to_string n"
    | key ident g where "(key, ident, g) \<in> set (request_references rq)" "t = key @ CHR ''='' # reference_text ident g"
    | n where "t = ''epoch='' @ u64_to_string n"
    by (auto simp: request_tokens_def)
  then show ?thesis
  proof cases
    case 1
    then show ?thesis by simp
  next
    case 2
    then show ?thesis using i [OF assms(1)] ne(1) by simp
  next
    case 3
    then show ?thesis using d ne(2) by simp
  next
    case 4
    then show ?thesis using r by simp
  next
    case 5
    then show ?thesis using d by simp
  qed
qed

section \<open>Assigned generations\<close>

lemma latest_capability:
  "map_sum id ca_generation (LatestCapability k rg) =
   (case catalogues rg Scope_Capability k of
      None \<Rightarrow> Inl (projl (LatestCapability k rg)) | Some (h, d) \<Rightarrow> Inr h)"
  by (auto simp: LatestCapability_def catalogue_def capability_entity_def split: sum.splits)

lemma published_newest:
  assumes "publishes s k g d rg (Inr pr, rg')"
  shows "pr_generation pr = g" "pr_digest pr = d"
  using assms by (auto simp: publishes_def)

lemma get_reservation_generation:
  assumes "registry_ok K rg" and "catalogues rg Scope_Reservation k = Some (n, d)"
  shows "n \<noteq> 0" "GetReservation k g rg = Inr x \<Longrightarrow> rs_generation x = g \<and> g \<le> n"
proof -
  note t = registry_ok_tables(5) [OF assms(1)]
  let ?vs = "held (rg_reservations rg) k"
  have vs: "?vs \<noteq> []" "rs_generation (last ?vs) = n"
    using assms(2) pub_reservation.catalogue_held [OF t [folded en_table_simps]] by (auto split: if_splits)
  have c: "consecutive (map rs_generation ?vs)" using pub_reservation.held_ok(2) [OF t vs(1)] by simp
  have m: "\<forall>x \<in> set ?vs. rs_generation x \<le> n \<and> rs_generation x \<noteq> 0"
    using consecutive_last [OF c] consecutive_nonzero [OF c] vs by (auto simp: last_map)
  then show "n \<noteq> 0" using vs by (metis last_in_set)
  assume "GetReservation k g rg = Inr x"
  then have "x \<in> set ?vs \<and> rs_generation x = g"
    by (auto simp: GetReservation_def find_entity_def Let_def held_def reservation_entity_def
        find_Some_iff split: option.splits)
  with m show "rs_generation x = g \<and> g \<le> n" by auto
qed

section \<open>Request and reply\<close>

lemma decode_encoded_frame:
  "kEnvelopeBytes + length body \<le> kMaxWireFrameBytes \<Longrightarrow>
   decode_frame (encode_frame type body) = Inr \<lparr>fr_type = type, fr_body = body\<rparr>"
  using decode_frame_prefix_lay [of body type "[]"] by (simp add: decode_frame_def encode_frame_eq)

section \<open>Pieces\<close>

text \<open>The pieces in which a connection delivers do not show: \<open>recut\<close> changes only them.\<close>

definition recut :: "nat list \<Rightarrow> server \<Rightarrow> server" where
  "recut ks sv = sv\<lparr>sv_connection := (sv_connection sv)\<lparr>cn_recvs := ks\<rparr>\<rparr>"

lemma send_loop_recut:
  "send_loop bs (cn\<lparr>cn_recvs := ks\<rparr>) = apsnd (\<lambda>c. c\<lparr>cn_recvs := ks\<rparr>) (send_loop bs cn)"
proof (induction bs cn rule: send_loop.induct)
  case (1 bs cn)
  obtain n cn1 where c: "send_call (take kChunk bs) cn = (n, cn1)" by fastforce
  then have c2: "send_call (take kChunk bs) (cn\<lparr>cn_recvs := ks\<rparr>) = (n, cn1\<lparr>cn_recvs := ks\<rparr>)"
    by (auto simp: send_call_def Let_def split: list.splits)
  show ?case
    using "1.IH" [OF _ c [symmetric] refl] by (cases "bs = []") (simp_all add: send_loop_simps(1) send_loop_simps(2) [OF _ c] send_loop_simps(2) [OF _ c2])
qed

lemma send_all_recut: "send_all bs (cn\<lparr>cn_recvs := ks\<rparr>) = apsnd (\<lambda>c. c\<lparr>cn_recvs := ks\<rparr>) (send_all bs cn)"
  by (simp add: send_all_def send_loop_recut)

lemma reply_with_recut: "reply_with type body (recut ks sv) = apsnd (recut ks) (reply_with type body sv)"
  by (simp add: reply_with_def recut_def Let_def send_all_recut split: prod.split sum.split)

lemma handle_frame_recut: "handle_frame raw (recut ks sv) = apsnd (recut ks) (handle_frame raw sv)"
proof -
  have f: "sv_registry (recut ks sv) = sv_registry sv" "sv_clock (recut ks sv) = sv_clock sv" "sv_reads (recut ks sv) = sv_reads sv"
    "sv_connection (recut ks sv) = (sv_connection sv)\<lparr>cn_recvs := ks\<rparr>" for sv
    by (simp_all add: recut_def)
  have s: "say l (recut ks sv) = recut ks (say l sv)" for l sv by (simp add: recut_def say_def)
  have u: "recut ks sv\<lparr>sv_registry := rg\<rparr> = recut ks (sv\<lparr>sv_registry := rg\<rparr>)"
    "recut ks sv\<lparr>sv_reads := n\<rparr> = recut ks (sv\<lparr>sv_reads := n\<rparr>)" for sv rg n
    by (simp_all add: recut_def)
  have h: "handle_hello body (recut ks sv) = apsnd (recut ks) (handle_hello body sv)" for body
    by (auto simp: handle_hello_def Let_def f s u reply_with_recut split: sum.split prod.split)
  have p: "handle_publication accept body (recut ks sv) = apsnd (recut ks) (handle_publication accept body sv)" for accept body
    by (auto simp: handle_publication_def Let_def f s u reply_with_recut split: list.split prod.split)
  have g: "(case send_all bs (sv_connection (recut ks sv)) of (_, cn) \<Rightarrow> (True, recut ks sv\<lparr>sv_connection := cn\<rparr>)) =
      apsnd (recut ks) (case send_all bs (sv_connection sv) of (_, cn) \<Rightarrow> (True, sv\<lparr>sv_connection := cn\<rparr>))" for bs
    by (simp add: f send_all_recut recut_def split: prod.split)
  show ?thesis
  proof (cases "decode_frame raw")
    case (Inr fr)
    show ?thesis
      by (cases "fr_type fr") (simp_all only: handle_frame_def Inr sum.case message_type.case h p g reply_with_recut f(1) Let_def apsnd_conv)
  qed (simp add: handle_frame_def s)
qed

lemma recv_exact_recut:
  assumes "steady cn" and "steady (cn\<lparr>cn_recvs := ks\<rparr>)"
  shows "\<exists>js. recv_exact n (cn\<lparr>cn_recvs := ks\<rparr>) = apsnd (\<lambda>c. c\<lparr>cn_recvs := js\<rparr>) (recv_exact n cn) \<and>
    steady (snd (recv_exact n cn)) \<and> steady ((snd (recv_exact n cn))\<lparr>cn_recvs := js\<rparr>)"
proof -
  obtain is1 where a: "recv_exact n cn = (if n \<le> length (cn_incoming cn) then Inr (take n (cn_incoming cn))
      else Inl (make_error EC_IoError (cn_failure cn)), cn\<lparr>cn_incoming := drop n (cn_incoming cn), cn_recvs := is1\<rparr>)"
    "steady (cn\<lparr>cn_incoming := drop n (cn_incoming cn), cn_recvs := is1\<rparr>)"
    using recv_exact_run [OF assms(1), of n] by blast
  obtain js where b: "recv_exact n (cn\<lparr>cn_recvs := ks\<rparr>) = (if n \<le> length (cn_incoming cn) then Inr (take n (cn_incoming cn))
      else Inl (make_error EC_IoError (cn_failure cn)), cn\<lparr>cn_incoming := drop n (cn_incoming cn), cn_recvs := js\<rparr>)"
    "steady (cn\<lparr>cn_incoming := drop n (cn_incoming cn), cn_recvs := js\<rparr>)"
    using recv_exact_run [OF assms(2), of n] by (elim exE conjE, intro that) simp_all
  show ?thesis using a b by (intro exI [of _ js]) simp
qed

lemma recv_frame_recut:
  assumes "steady cn" and "steady (cn\<lparr>cn_recvs := ks\<rparr>)"
  shows "\<exists>js. recv_frame (cn\<lparr>cn_recvs := ks\<rparr>) = apsnd (\<lambda>c. c\<lparr>cn_recvs := js\<rparr>) (recv_frame cn) \<and>
    steady (snd (recv_frame cn)) \<and> steady ((snd (recv_frame cn))\<lparr>cn_recvs := js\<rparr>)"
proof -
  obtain h c1 where h: "recv_exact kFrameHeaderBytes cn = (h, c1)" by fastforce
  obtain k1 where h2: "recv_exact kFrameHeaderBytes (cn\<lparr>cn_recvs := ks\<rparr>) = (h, c1\<lparr>cn_recvs := k1\<rparr>)"
    "steady c1" "steady (c1\<lparr>cn_recvs := k1\<rparr>)"
    using recv_exact_recut [OF assms, of kFrameHeaderBytes] h by auto
  show ?thesis
  proof (cases h)
    case (Inl e)
    then show ?thesis using h h2 by (intro exI [of _ k1]) (simp add: recv_frame_def)
  next
    case (Inr header)
    let ?n = "unat (load_le (take 4 header))"
    obtain b c2 where b: "recv_exact ?n c1 = (b, c2)" by fastforce
    obtain k2 where b2: "recv_exact ?n (c1\<lparr>cn_recvs := k1\<rparr>) = (b, c2\<lparr>cn_recvs := k2\<rparr>)"
      "steady c2" "steady (c2\<lparr>cn_recvs := k2\<rparr>)"
      using recv_exact_recut [OF h2(2,3), of ?n] b by auto
    show ?thesis
    proof (cases "?n \<le> kMaxWireFrameBytes \<and> 0 < ?n")
      case True
      then have "\<not> 2 ^ 64 \<le> kFrameHeaderBytes + ?n"
        by (auto simp: kMaxWireFrameBytes_def kFrameHeaderBytes_def)
      with True show ?thesis using h h2 b b2 Inr
        by (intro exI [of _ k2], cases b) (simp_all add: recv_frame_def Let_def)
    next
      case False
      then show ?thesis using h h2 Inr
        by (intro exI [of _ k1], cases "?n = 0")
          (auto simp: recv_frame_def Let_def kMaxWireFrameBytes_def kFrameHeaderBytes_def not_le)
    qed
  qed
qed

lemma serve_frames_recut:
  "steady (sv_connection sv) \<Longrightarrow> steady ((sv_connection sv)\<lparr>cn_recvs := ks\<rparr>) \<Longrightarrow>
   \<exists>js. serve_frames (recut ks sv) = recut js (serve_frames sv)"
proof (induction sv arbitrary: ks rule: serve_frames.induct)
  case (1 sv)
  obtain raw cn where r: "recv_frame (sv_connection sv) = (raw, cn)" by fastforce
  obtain k1 where r2: "recv_frame ((sv_connection sv)\<lparr>cn_recvs := ks\<rparr>) = (raw, cn\<lparr>cn_recvs := k1\<rparr>)"
    "steady cn" "steady (cn\<lparr>cn_recvs := k1\<rparr>)"
    using recv_frame_recut [OF "1.prems"] r by auto
  let ?sv = "sv\<lparr>sv_connection := cn\<rparr>"
  have e: "(recut ks sv)\<lparr>sv_connection := cn\<lparr>cn_recvs := k1\<rparr>\<rparr> = recut k1 ?sv"
    "sv_connection (recut ks sv) = (sv_connection sv)\<lparr>cn_recvs := ks\<rparr>" by (simp_all add: recut_def)
  show ?case
  proof (cases raw)
    case (Inl err)
    then show ?thesis
      by (intro exI [of _ k1]) (simp add: serve_frames.simps [of sv] serve_frames.simps [of "recut ks sv"] e r r2 Let_def)
  next
    case (Inr bs)
    obtain k sv1 where h: "handle_frame bs ?sv = (k, sv1)" by fastforce
    have h2: "handle_frame bs (recut k1 ?sv) = (k, recut k1 sv1)" by (simp add: handle_frame_recut h)
    note keep = handle_frame_incoming [OF h]
    have st: "steady (sv_connection sv1)" "steady ((sv_connection sv1)\<lparr>cn_recvs := k1\<rparr>)"
      using r2(2,3) keep by (simp_all add: steady_def)
    have eq: "serve_frames sv = (if k then serve_frames sv1 else sv1)"
      "serve_frames (recut ks sv) = (if k then serve_frames (recut k1 sv1) else recut k1 sv1)"
      by (simp_all add: serve_frames.simps [of sv] serve_frames.simps [of "recut ks sv"] e r r2 Inr h h2 Let_def)
    show ?thesis
      using "1.IH" [OF r [symmetric] refl refl Inr h [symmetric] refl _ st] eq by (cases k) auto
  qed
qed

end
