(* ===== verification/Sessions.thy ===== *)
theory Sessions
  imports Tool_Laws
begin

text \<open>
  What a client session means, without bytes: the messages a client can send, the answer of the
  registry to each of them, and the session as a fold over the messages. The server of
  \<open>Server\<close> implements it: see the refinement at the end.
\<close>

section \<open>Messages\<close>

datatype client_message =
    Hello hello_message
  | Capability bool resource_capability
  | Reservation bool reservation
  | StatusRequest
  | Ping
  | Bye

datatype server_message =
    HelloReply hello_ack_message
  | PublishReply publish_ack_message
  | StatusReply registry_status_message
  | Pong

text \<open>The first byte of a publication asks the server for the generation.\<close>

definition assign_flag :: "bool \<Rightarrow> u8" where "assign_flag assigned = (if assigned then 1 else 0)"

fun client_frame :: "client_message \<Rightarrow> bytes" where
  "client_frame (Hello h) = encode_frame MT_Hello (encode_hello h)"
| "client_frame (Capability assigned v) = encode_frame MT_PublishCapability
     (assign_flag assigned # encode_canonical (encode_capability v) kMaxCanonicalRecordBytes)"
| "client_frame (Reservation assigned v) = encode_frame MT_PublishReservation
     (assign_flag assigned # encode_canonical (encode_reservation v) kMaxCanonicalRecordBytes)"
| "client_frame StatusRequest = encode_frame MT_RegistryStatus []"
| "client_frame Ping = encode_frame MT_Ping []"
| "client_frame Bye = encode_frame MT_Bye []"

fun server_frame :: "server_message \<Rightarrow> bytes" where
  "server_frame (HelloReply a) = encode_frame MT_HelloAck (encode_hello_ack a)"
| "server_frame (PublishReply a) = encode_frame MT_PublishAck (encode_publish_ack a)"
| "server_frame (StatusReply s) = encode_frame MT_RegistryStatus (encode_registry_status s)"
| "server_frame Pong = encode_frame MT_Pong []"

abbreviation client_bytes :: "client_message list \<Rightarrow> bytes" where
  "client_bytes ms \<equiv> concat (map client_frame ms)"

abbreviation server_bytes :: "server_message list \<Rightarrow> bytes" where
  "server_bytes rs \<equiv> concat (map server_frame rs)"

text \<open>The messages a client that keeps the format sends.\<close>

fun well_formed :: "client_message \<Rightarrow> bool" where
  "well_formed (Hello h) \<longleftrightarrow> is_valid (he_publisher h) \<and> he_incarnation h \<noteq> 0 \<and> length (he_boot h) = kBootBytes"
| "well_formed (Capability assigned v) \<longleftrightarrow> capability_ok v"
| "well_formed (Reservation assigned v) \<longleftrightarrow> reservation_ok v"
| "well_formed m \<longleftrightarrow> True"

section \<open>Answers\<close>

text \<open>The generation assigned after the newest one, and what the reply then says in its detail.\<close>

fun following :: "generation option \<Rightarrow> generation \<times> string" where
  "following None = (1, [])"
| "following (Some g) = (if g = - 1 then (g, ''generation space exhausted'') else (g + 1, []))"

fun publication_reply :: "string \<Rightarrow> publication_result result \<Rightarrow> publish_ack_message" where
  "publication_reply note (Inr p) = \<lparr>pk_status = WS_Ok, pk_generation = pr_generation p,
     pk_sequence = pr_sequence p, pk_digest = pr_digest p, pk_detail = note\<rparr>"
| "publication_reply note (Inl e) = \<lparr>pk_status = status_from_error (err_code e), pk_generation = 0,
     pk_sequence = 0, pk_digest = zero_digest, pk_detail = err_detail e\<rparr>"

text \<open>
  The replies to a message, whether the session goes on, and the registry afterwards. Only a hello
  reads the clock.
\<close>

fun respond :: "u64 \<Rightarrow> client_message \<Rightarrow> registry \<Rightarrow> server_message list \<times> bool \<times> registry" where
  "respond clock (Hello h) rg =
     (case RegisterPublisher clock (he_publisher h) (he_incarnation h) (he_boot h) (ucast (he_ttl_ms h))
         (take kMaxOriginLen (he_origin h)) rg of
        (Inr l, rg) \<Rightarrow> ([HelloReply \<lparr>ha_status = WS_Ok, ha_epoch = ls_epoch l, ha_lease = ls_lease l,
          ha_expires_at_ms = ls_expires_at_ms l, ha_detail = []\<rparr>], True, rg)
      | (Inl e, rg) \<Rightarrow> ([HelloReply \<lparr>ha_status = status_from_error (err_code e),
          ha_epoch = rg_current_epoch rg, ha_lease = 0, ha_expires_at_ms = 0,
          ha_detail = err_detail e\<rparr>], status_from_error (err_code e) = WS_Ok, rg))"
| "respond clock (Capability assigned v) rg =
     (let (g, note) = (if assigned
            then following (map_option fst (catalogues rg Scope_Capability (ca_resource v)))
            else (ca_generation v, []));
          (answer, rg) = PublishCapability ((canon_capability v)\<lparr>ca_generation := g\<rparr>) rg
      in ([PublishReply (publication_reply note answer)], True, rg))"
| "respond clock (Reservation assigned v) rg =
     (let (g, note) = (if assigned
            then following (case GetReservation (rs_resource v) (rs_generation v) rg of
              Inl _ \<Rightarrow> None | Inr x \<Rightarrow> Some (rs_generation x))
            else (rs_generation v, []));
          (answer, rg) = PublishReservation ((canon_reservation v)\<lparr>rs_generation := g\<rparr>) rg
      in ([PublishReply (publication_reply note answer)], True, rg))"
| "respond clock StatusRequest rg =
     ([StatusReply \<lparr>st_epoch = rg_current_epoch rg, st_classes = word_of_nat (rc_classes (counts rg)),
         st_policies = word_of_nat (rc_policies (counts rg)), st_paths = word_of_nat (rc_paths (counts rg)),
         st_capabilities = word_of_nat (rc_capabilities (counts rg)),
         st_decisions = word_of_nat (rc_decisions (counts rg)),
         st_publishers = word_of_nat (rc_publishers (counts rg)),
         st_conflicts = word_of_nat (rc_conflicts (counts rg))\<rparr>], True, rg)"
| "respond clock Ping rg = ([Pong], True, rg)"
| "respond clock Bye rg = ([], False, rg)"

fun readings :: "client_message \<Rightarrow> nat" where
  "readings (Hello h) = 1"
| "readings m = 0"

text \<open>A session: the replies, the messages never looked at, and the registry it leaves.\<close>

fun session :: "(nat \<Rightarrow> u64) \<Rightarrow> nat \<Rightarrow> client_message list \<Rightarrow> registry \<Rightarrow>
    server_message list \<times> client_message list \<times> registry" where
  "session clock n [] rg = ([], [], rg)"
| "session clock n (m # ms) rg =
     (let (replies, goes_on, rg) = respond (clock n) m rg in
      if \<not> goes_on then (replies, ms, rg)
      else let (more, unread, rg) = session clock (n + readings m) ms rg in (replies @ more, unread, rg))"

section \<open>Frames within the budget\<close>

lemma capability_fits_frame: "capability_ok v \<Longrightarrow> length (lay_capability v) \<le> 8192"
  using capability_okD [of v] length_lay_keys [of "ca_predicates v"] length_valid [of "ca_resource v"]
    length_valid [of "ca_publisher v"] length_valid [of "ca_diversity_domain v"]
    length_lay_prov [of "ca_provenance v"] length_lay_opt_word(2) [of "ca_loss_ppm v"]
    length_lay_opt_word(1) [of "ca_supported_rate_bps v"] length_lay_opt_word(1) [of "ca_latency_bound_us v"]
    length_lay_opt_word(1) [of "ca_jitter_bound_us v"] length_lay_opt_word(1) [of "ca_max_burst_bytes v"]
    length_lay_opt_word(1) [of "ca_burst_window_us v"] length_lay_opt_word(1) [of "ca_mtu_bytes v"]
  by (simp add: lay_capability_def kMaxCapabilityPredicates_def)

lemma reservation_fits_frame: "reservation_ok v \<Longrightarrow> length (lay_reservation v) \<le> 8192"
  using reservation_okD [of v] length_valid [of "rs_resource v"] length_valid [of "rs_class_id v"]
    length_valid [of "rs_publisher v"] length_lay_prov [of "rs_provenance v"]
  by (simp add: lay_reservation_def)

fun client_type :: "client_message \<Rightarrow> message_type" where
  "client_type (Hello h) = MT_Hello"
| "client_type (Capability assigned v) = MT_PublishCapability"
| "client_type (Reservation assigned v) = MT_PublishReservation"
| "client_type StatusRequest = MT_RegistryStatus"
| "client_type Ping = MT_Ping"
| "client_type Bye = MT_Bye"

fun client_body :: "client_message \<Rightarrow> bytes" where
  "client_body (Hello h) = encode_hello h"
| "client_body (Capability assigned v) = assign_flag assigned # lay_capability v"
| "client_body (Reservation assigned v) = assign_flag assigned # lay_reservation v"
| "client_body m = []"

lemma client_frame_fits:
  assumes "well_formed m"
  shows "client_frame m = encode_frame (client_type m) (client_body m)"
    "kEnvelopeBytes + length (client_body m) \<le> kMaxWireFrameBytes"
proof -
  show "client_frame m = encode_frame (client_type m) (client_body m)"
    using assms capability_codec.encode_canonical_lay capability_fits
      reservation_codec.encode_canonical_lay reservation_fits by (cases m) simp_all
  show "kEnvelopeBytes + length (client_body m) \<le> kMaxWireFrameBytes"
    using assms encode_hello_lay(2) capability_fits_frame reservation_fits_frame
    by (cases m) (fastforce simp: kEnvelopeBytes_def kMaxWireFrameBytes_def)+
qed

lemma publish_ack_fits:
  assumes "length (pk_digest a) = kDigestBytes"
  shows "kEnvelopeBytes + length (encode_publish_ack a) \<le> 497"
proof -
  let ?fs = "[w_u8 (ws_rank (pk_status a)), w_u64 (pk_generation a), w_u64 (pk_sequence a), w_raw (pk_digest a),
      write_text (pk_detail a) kMaxReasonLen]"
  let ?ls = "[lay_u8 (ws_rank (pk_status a)), lay_u64 (pk_generation a), lay_u64 (pk_sequence a), pk_digest a,
      lay_str (take kMaxReasonLen (pk_detail a))]"
  have "emits (w_seq ?fs) (concat ?ls)"
    by (rule emits_fields) (simp add: writes_intros emits_raw)
  moreover have l: "kEnvelopeBytes + length (concat ?ls) \<le> 497"
    using assms by (simp add: kMaxReasonLen_def kDigestBytes_def kEnvelopeBytes_def)
  moreover from l have "length (concat ?ls) \<le> kMaxWireFrameBytes" by (simp add: kMaxWireFrameBytes_def)
  ultimately have "encode_publish_ack a = concat ?ls" by (simp only: encode_publish_ack_def encode_body_lay)
  with l show ?thesis by simp
qed

lemma status_fits: "kEnvelopeBytes + length (encode_registry_status s) \<le> 497"
proof -
  let ?f = "[st_epoch s, st_classes s, st_policies s, st_paths s, st_capabilities s, st_decisions s, st_publishers s, st_conflicts s]"
  have "emits (w_seq (map w_u64 ?f)) (concat (map lay_u64 ?f))"
    by (rule emits_fields) (simp add: writes_intros)
  moreover have l: "kEnvelopeBytes + length (concat (map lay_u64 ?f)) \<le> 497" by (simp add: kEnvelopeBytes_def)
  moreover from l have "length (concat (map lay_u64 ?f)) \<le> kMaxWireFrameBytes" by (simp add: kMaxWireFrameBytes_def)
  ultimately have "encode_registry_status s = concat (map lay_u64 ?f)"
    by (simp only: encode_registry_status_def list.map encode_body_lay)
  with l show ?thesis by simp
qed

lemma hello_ack_fits: "kEnvelopeBytes + length (encode_hello_ack a) \<le> 497"
  by (simp add: encode_hello_ack_lay(1) kMaxReasonLen_def kEnvelopeBytes_def)

text \<open>A reply: its body is small, so its frame is.\<close>

fun reply_ok :: "server_message \<Rightarrow> bool" where
  "reply_ok (PublishReply a) \<longleftrightarrow> length (pk_digest a) = kDigestBytes"
| "reply_ok r \<longleftrightarrow> True"

lemma small_frame:
  assumes "kEnvelopeBytes + length body \<le> 497"
  shows "kEnvelopeBytes + length body \<le> kMaxWireFrameBytes" "length (encode_frame type body) \<le> 512"
  using assms by (simp_all add: encode_frame_eq kMaxWireFrameBytes_def kFrameHeaderBytes_def)

lemma server_frame_small: "reply_ok r \<Longrightarrow> length (server_frame r) \<le> 512"
  using small_frame(2) publish_ack_fits status_fits hello_ack_fits by (cases r) (auto simp: kEnvelopeBytes_def)

section \<open>A connection that accepts what is sent\<close>

definition accepts :: "nat \<Rightarrow> connection \<Rightarrow> bool" where
  "accepts n cn \<longleftrightarrow> cn_open cn \<and> 0 \<notin> set (cn_sends cn) \<and> n \<le> length (cn_sends cn)"

lemma send_loop_accepts:
  "0 \<notin> set (cn_sends cn) \<Longrightarrow> length bs + n \<le> length (cn_sends cn) \<Longrightarrow>
   \<exists>ks. send_loop bs cn = (Inr (), cn\<lparr>cn_sent := cn_sent cn @ bs, cn_sends := ks\<rparr>) \<and> 0 \<notin> set ks \<and> n \<le> length ks"
proof (induction "length bs" arbitrary: bs cn rule: less_induct)
  case less
  show ?case
  proof (cases "bs = []")
    case True
    then show ?thesis using less.prems by (auto simp: send_loop_simps intro!: exI [of _ "cn_sends cn"])
  next
    case False
    then obtain k ks where ks: "cn_sends cn = k # ks" using less.prems by (cases "cn_sends cn") auto
    let ?n = "min k (length (take kChunk bs))"
    let ?cn = "cn\<lparr>cn_sent := cn_sent cn @ take ?n bs, cn_sends := ks\<rparr>"
    have n: "0 < ?n" "?n \<le> length bs" using False ks less.prems(1) by (auto simp: kChunk_def)
    have c: "send_call (take kChunk bs) cn = (?n, ?cn)"
      by (simp add: send_call_def ks Let_def)
    have "length (drop ?n bs) < length bs" using n by simp
    moreover have "length bs - ?n + n \<le> length ks" using n less.prems(2) unfolding ks list.size by linarith
    then have "0 \<notin> set (cn_sends ?cn)" "length (drop ?n bs) + n \<le> length (cn_sends ?cn)"
      using less.prems(1) ks by simp_all
    ultimately obtain js where "send_loop (drop ?n bs) ?cn =
        (Inr (), ?cn\<lparr>cn_sent := cn_sent ?cn @ drop ?n bs, cn_sends := js\<rparr>) \<and> 0 \<notin> set js \<and> n \<le> length js"
      using less.hyps by blast
    then show ?thesis using False n(1) by (intro exI [of _ js]) (simp add: send_loop_simps(2) [OF _ c])
  qed
qed

lemma send_all_accepts:
  assumes "accepts (length bs + n) cn"
  shows "\<exists>ks. send_all bs cn = (Inr (), cn\<lparr>cn_sent := cn_sent cn @ bs, cn_sends := ks\<rparr>) \<and>
    accepts n (cn\<lparr>cn_sent := cn_sent cn @ bs, cn_sends := ks\<rparr>)"
  using send_loop_accepts [of cn bs n] assms by (auto simp: accepts_def send_all_def)

lemma reply_with_accepts:
  assumes "accepts (length (encode_frame type body) + n) (sv_connection sv)"
    and "kEnvelopeBytes + length body \<le> kMaxWireFrameBytes"
  shows "\<exists>ks. reply_with type body sv = (True, sv\<lparr>sv_connection := (sv_connection sv)\<lparr>cn_sent :=
      cn_sent (sv_connection sv) @ encode_frame type body, cn_sends := ks\<rparr>\<rparr>) \<and>
    accepts n ((sv_connection sv)\<lparr>cn_sent := cn_sent (sv_connection sv) @ encode_frame type body, cn_sends := ks\<rparr>)"
proof -
  have "length (encode_frame type body) \<noteq> 0"
    using assms(2) by (simp add: encode_frame_eq kFrameHeaderBytes_def del: length_0_conv)
  then have "encode_frame type body \<noteq> []" by simp
  then show ?thesis using send_all_accepts [OF assms(1)] by (auto simp: reply_with_def Let_def)
qed

section \<open>The server implements the session\<close>

text \<open>What the server has done after answering: the registry, the clock readings used, the bytes sent.\<close>

definition answered :: "server \<Rightarrow> registry \<Rightarrow> nat \<Rightarrow> server_message list \<Rightarrow> nat \<Rightarrow> server \<Rightarrow> bool" where
  "answered sv rg k replies n sv' \<longleftrightarrow> sv_registry sv' = rg \<and> sv_clock sv' = sv_clock sv \<and>
     sv_reads sv' = sv_reads sv + k \<and>
     cn_sent (sv_connection sv') = cn_sent (sv_connection sv) @ server_bytes replies \<and>
     accepts n (sv_connection sv')"

lemma answered_say [simp]: "answered sv rg k replies n (say line sv') = answered sv rg k replies n sv'"
  by (simp add: answered_def say_def)

text \<open>One reply that fits in a frame, from whatever registry and number of readings.\<close>

lemma one_reply:
  assumes "accepts (length (server_frame reply) + n) (sv_connection sv)"
    and "server_frame reply = encode_frame type body" and "kEnvelopeBytes + length body \<le> 497"
  shows "\<exists>sv'. reply_with type body (sv\<lparr>sv_registry := rg, sv_reads := sv_reads sv + k\<rparr>) = (True, sv') \<and>
    answered sv rg k [reply] n sv'"
  using reply_with_accepts [of type body n "sv\<lparr>sv_registry := rg, sv_reads := sv_reads sv + k\<rparr>"] assms
    small_frame(1) [OF assms(3)] by (auto simp: answered_def)

lemma hello_answered:
  assumes "well_formed (Hello h)" and "respond (sv_clock sv (sv_reads sv)) (Hello h) (sv_registry sv) = (replies, goes_on, rg)"
    and "accepts (length (server_bytes replies) + n) (sv_connection sv)"
  shows "\<exists>sv'. handle_hello (encode_hello h) sv = (goes_on, sv') \<and> answered sv rg 1 replies n sv'"
proof -
  obtain granted rg1 where g: "RegisterPublisher (sv_clock sv (sv_reads sv)) (he_publisher h) (he_incarnation h)
      (he_boot h) (ucast (he_ttl_ms h)) (take kMaxOriginLen (he_origin h)) (sv_registry sv) = (granted, rg1)"
    by fastforce
  let ?ack = "hello_ack_of granted rg1"
  have r: "replies = [HelloReply ?ack]" "goes_on \<longleftrightarrow> ha_status ?ack = WS_Ok" "rg = rg1"
    using assms(2) g by (auto simp: hello_ack_of_def Let_def split: sum.splits)
  have d: "decode_hello (encode_hello h) = Inr (h\<lparr>he_origin := take kMaxOriginLen (he_origin h)\<rparr>)"
    using hello_roundtrip assms(1) by simp
  obtain sv' where "reply_with MT_HelloAck (encode_hello_ack ?ack) (sv\<lparr>sv_registry := rg, sv_reads := sv_reads sv + 1\<rparr>) =
      (True, sv')" "answered sv rg 1 replies n sv'"
    using one_reply [of "HelloReply ?ack" n sv MT_HelloAck "encode_hello_ack ?ack" 1 rg] assms(3)
      hello_ack_fits r(1) by auto
  then show ?thesis using d g r by (simp add: handle_hello_def Let_def)
qed

lemma assigned_generation:
  "assign_next latest fresh_ack = (let (g, note) = following (case latest of Inl _ \<Rightarrow> None | Inr g \<Rightarrow> Some g)
     in (g, fresh_ack\<lparr>pk_detail := note\<rparr>))"
  by (auto simp: assign_next_def try_increment_def fresh_ack_def split: sum.splits)

lemma publication_reply_ack:
  "ack_publication answer (fresh_ack\<lparr>pk_detail := note\<rparr>) = publication_reply note answer"
  "ack_publication answer fresh_ack = publication_reply [] answer"
  by (cases answer; simp add: ack_publication_def ack_error_def fresh_ack_def)+

lemma accept_capability_responds:
  assumes "capability_ok v"
    and "respond clock (Capability assigned v) rg = (replies, goes_on, rg')"
  shows "\<exists>note answer. accept_capability (assign_flag assigned) (lay_capability v) rg = (publication_reply note answer, rg') \<and>
    replies = [PublishReply (publication_reply note answer)] \<and> goes_on \<and>
    (\<exists>w. PublishCapability w rg = (answer, rg'))"
proof -
  have d: "fst (decode_capability (new_reader (lay_capability v))) = Inr (canon_capability v)"
    using capability_codec.dec_lay [OF assms(1), of "[]" "[]"] by (simp add: new_reader_rd)
  have l: "(case map_sum id ca_generation (LatestCapability k rg) of Inl _ \<Rightarrow> None | Inr g \<Rightarrow> Some g) =
      map_option fst (catalogues rg Scope_Capability k)" for k
    unfolding latest_capability by (simp split: option.split)
  have c: "ca_resource (canon_capability v) = ca_resource v" "ca_generation (canon_capability v) = ca_generation v"
    by (simp_all add: canon_capability_def)
  have n: "(if b then (let (g, note) = f in (g, fresh_ack\<lparr>pk_detail := note\<rparr>)) else (g0, fresh_ack)) =
      (let (g, note) = (if b then f else (g0, [])) in (g, fresh_ack\<lparr>pk_detail := note\<rparr>))" for b f g0
    by (simp add: fresh_ack_def)
  have f: "bit (assign_flag assigned) 0 = assigned" by (simp add: assign_flag_def)
  obtain g remark where g: "(if assigned then following (map_option fst (catalogues rg Scope_Capability (ca_resource v)))
      else (ca_generation v, [])) = (g, remark)" by fastforce
  obtain answer rg1 where p: "PublishCapability ((canon_capability v)\<lparr>ca_generation := g\<rparr>) rg = (answer, rg1)" by fastforce
  show ?thesis
    using assms(2) g p
    by (intro exI [of _ remark] exI [of _ answer]) (auto simp: accept_capability_def d f assigned_generation l c n Let_def publication_reply_ack
        simp del: catalogues.simps)
qed

lemma accept_reservation_responds:
  assumes "reservation_ok v"
    and "respond clock (Reservation assigned v) rg = (replies, goes_on, rg')"
  shows "\<exists>note answer. accept_reservation (assign_flag assigned) (lay_reservation v) rg = (publication_reply note answer, rg') \<and>
    replies = [PublishReply (publication_reply note answer)] \<and> goes_on \<and>
    (\<exists>w. PublishReservation w rg = (answer, rg'))"
proof -
  have d: "fst (decode_reservation (new_reader (lay_reservation v))) = Inr (canon_reservation v)"
    using reservation_codec.dec_lay [OF assms(1), of "[]" "[]"] by (simp add: new_reader_rd)
  have l: "(case map_sum id rs_generation x of Inl _ \<Rightarrow> None | Inr g \<Rightarrow> Some g) =
      (case x of Inl _ \<Rightarrow> None | Inr y \<Rightarrow> Some (rs_generation y))" for x :: "reservation result"
    by (simp split: sum.split)
  have c: "rs_resource (canon_reservation v) = rs_resource v" "rs_generation (canon_reservation v) = rs_generation v"
    by (simp_all add: canon_reservation_def)
  have n: "(if b then (let (g, note) = f in (g, fresh_ack\<lparr>pk_detail := note\<rparr>)) else (g0, fresh_ack)) =
      (let (g, note) = (if b then f else (g0, [])) in (g, fresh_ack\<lparr>pk_detail := note\<rparr>))" for b f g0
    by (simp add: fresh_ack_def)
  have f: "bit (assign_flag assigned) 0 = assigned" by (simp add: assign_flag_def)
  obtain g remark where g: "(if assigned then following (case GetReservation (rs_resource v) (rs_generation v) rg of
      Inl _ \<Rightarrow> None | Inr x \<Rightarrow> Some (rs_generation x)) else (rs_generation v, [])) = (g, remark)" by fastforce
  obtain answer rg1 where p: "PublishReservation ((canon_reservation v)\<lparr>rs_generation := g\<rparr>) rg = (answer, rg1)" by fastforce
  show ?thesis
    using assms(2) g p
    by (intro exI [of _ remark] exI [of _ answer]) (auto simp: accept_reservation_def d f assigned_generation l c n Let_def publication_reply_ack)
qed

lemma publication_reply_digest:
  assumes "registry_ok K rg"
  shows "PublishCapability w rg = (answer, rg') \<Longrightarrow> length (pk_digest (publication_reply remark answer)) = kDigestBytes"
    "PublishReservation v rg = (answer, rg') \<Longrightarrow> length (pk_digest (publication_reply remark answer)) = kDigestBytes"
  using publications_publish(4) [OF assms, of w] publications_publish(5) [OF assms, of v]
  by (cases answer; simp add: publishes_def zero_digest_def kDigestBytes_def [symmetric]
      compute_capability_digest_def compute_reservation_digest_def)+

lemma publication_answered:
  assumes "accept flags payload (sv_registry sv) = (ack, rg)"
    and "accepts (length (server_frame (PublishReply ack)) + n) (sv_connection sv)"
    and "length (pk_digest ack) = kDigestBytes"
  shows "\<exists>sv'. handle_publication accept (flags # payload) sv = (True, sv') \<and> answered sv rg 0 [PublishReply ack] n sv'"
proof -
  obtain sv' where "reply_with MT_PublishAck (encode_publish_ack ack) (sv\<lparr>sv_registry := rg\<rparr>) = (True, sv')"
    "answered sv rg 0 [PublishReply ack] n sv'"
    using one_reply [OF assms(2) _ publish_ack_fits [OF assms(3)], of MT_PublishAck 0 rg] by auto
  then show ?thesis using assms(1) by (simp add: handle_publication_def)
qed

lemma frame_answered:
  assumes "registry_ok K (sv_registry sv)" and "well_formed m"
    and "respond (sv_clock sv (sv_reads sv)) m (sv_registry sv) = (replies, goes_on, rg)"
    and "accepts (length (server_bytes replies) + n) (sv_connection sv)"
  shows "\<exists>sv'. handle_frame (client_frame m) sv = (goes_on, sv') \<and> answered sv rg (readings m) replies n sv'"
proof -
  note e = client_frame_fits [OF assms(2)]
  have d: "decode_frame (client_frame m) = Inr \<lparr>fr_type = client_type m, fr_body = client_body m\<rparr>"
    unfolding e(1) by (rule decode_encoded_frame [OF e(2)])
  show ?thesis
  proof (cases m)
    case (Hello h)
    show ?thesis
      using hello_answered [OF assms(2-4) [unfolded Hello]] d by (simp add: handle_frame_def Hello)
  next
    case (Capability assigned v)
    obtain remark answer w where a:
      "accept_capability (assign_flag assigned) (lay_capability v) (sv_registry sv) = (publication_reply remark answer, rg)"
      "replies = [PublishReply (publication_reply remark answer)]" goes_on "PublishCapability w (sv_registry sv) = (answer, rg)"
      using accept_capability_responds [OF _ assms(3) [unfolded Capability]] assms(2) Capability by auto
    show ?thesis
      using publication_answered [of accept_capability "assign_flag assigned" "lay_capability v" sv
          "publication_reply remark answer" rg n] a(1) publication_reply_digest(1) [OF assms(1) a(4)] d a(2,3) assms(4)
      by (simp add: handle_frame_def Capability)
  next
    case (Reservation assigned v)
    obtain remark answer w where a:
      "accept_reservation (assign_flag assigned) (lay_reservation v) (sv_registry sv) = (publication_reply remark answer, rg)"
      "replies = [PublishReply (publication_reply remark answer)]" goes_on "PublishReservation w (sv_registry sv) = (answer, rg)"
      using accept_reservation_responds [OF _ assms(3) [unfolded Reservation]] assms(2) Reservation by auto
    show ?thesis
      using publication_answered [of accept_reservation "assign_flag assigned" "lay_reservation v" sv
          "publication_reply remark answer" rg n] a(1) publication_reply_digest(2) [OF assms(1) a(4)] d a(2,3) assms(4)
      by (simp add: handle_frame_def Reservation)
  next
    case StatusRequest
    have "replies = [StatusReply (status_of (sv_registry sv))]" "goes_on" "rg = sv_registry sv"
      using assms(3) StatusRequest by (auto simp: status_of_def Let_def)
    then show ?thesis
      using one_reply [of "StatusReply (status_of (sv_registry sv))" n sv MT_RegistryStatus
          "encode_registry_status (status_of (sv_registry sv))" 0 "sv_registry sv"] status_fits d assms(4)
      by (simp add: handle_frame_def StatusRequest)
  next
    case Ping
    have r: "replies = [Pong]" "goes_on" "rg = sv_registry sv" using assms(3) Ping by auto
    with send_all_accepts [of "encode_frame MT_Pong []" n "sv_connection sv"] assms(4) d show ?thesis
      by (auto simp: handle_frame_def Ping answered_def)
  next
    case Bye
    then show ?thesis using assms(3,4) d by (auto simp: handle_frame_def answered_def)
  qed
qed

lemma respond_reaches:
  assumes "respond clock m rg = (replies, goes_on, rg')"
  shows "reaches rg rg'"
proof -
  have r: "RegisterPublisher c p i b t o' rg = (r, rg1) \<Longrightarrow> reaches rg rg1"
    "PublishCapability v rg = (x, rg1) \<Longrightarrow> reaches rg rg1" "PublishReservation w rg = (y, rg1) \<Longrightarrow> reaches rg rg1"
    for c p i b t o' r rg1 v w x y
    using reaches_call [of "DoRegister c p i b t o'" rg] reaches_call [of "DoPublishCapability v" rg]
      reaches_call [of "DoPublishReservation w" rg] by auto
  show ?thesis
    using assms by (cases m) (auto simp: Let_def reaches_refl r split: prod.splits sum.splits if_splits)
qed

lemma session_served:
  assumes "registry_ok capability_checked (sv_registry sv)" and "\<forall>m \<in> set ms. well_formed m"
    and "steady (sv_connection sv)" and "cn_incoming (sv_connection sv) = client_bytes ms"
    and "session (sv_clock sv) (sv_reads sv) ms (sv_registry sv) = (replies, unread, rg)"
    and "accepts (length (server_bytes replies)) (sv_connection sv)"
  shows "sv_registry (serve_frames sv) = rg \<and> cn_incoming (sv_connection (serve_frames sv)) = client_bytes unread \<and>
    cn_sent (sv_connection (serve_frames sv)) = cn_sent (sv_connection sv) @ server_bytes replies"
  using assms
proof (induction ms arbitrary: sv replies)
  case Nil
  obtain ks where "recv_exact kFrameHeaderBytes (sv_connection sv) = (Inl (make_error EC_IoError (cn_failure (sv_connection sv))),
      (sv_connection sv)\<lparr>cn_incoming := [], cn_recvs := ks\<rparr>)"
    using recv_exact_run [OF Nil.prems(3), of kFrameHeaderBytes] Nil.prems(4) by (auto simp: kFrameHeaderBytes_def)
  then show ?case using Nil.prems by (subst (1 2 3) serve_frames.simps) (simp add: recv_frame_def)
next
  case (Cons m ms)
  have wf: "well_formed m" using Cons.prems(2) by simp
  note e = client_frame_fits [OF wf]
  obtain cn where r: "recv_frame (sv_connection sv) = (Inr (client_frame m), cn)" "cn_incoming cn = client_bytes ms" "steady cn"
    using recv_frame_steady [OF Cons.prems(3) _ e(2), of "client_type m" "client_bytes ms"] Cons.prems(4) e(1) by auto
  note k = recv_frame_keeps(2-5) [OF r(1)]
  let ?sv = "sv\<lparr>sv_connection := cn\<rparr>"
  obtain replies1 goes_on rg1 where a: "respond (sv_clock sv (sv_reads sv)) m (sv_registry sv) = (replies1, goes_on, rg1)"
    by (metis prod_cases3)
  define replies2 where "replies2 = drop (length replies1) replies"
  have split: "replies = replies1 @ replies2"
    using Cons.prems(5) a by (auto simp: replies2_def Let_def split: if_splits prod.splits)
  have "accepts (length (server_bytes replies1) + length (server_bytes replies2)) (sv_connection ?sv)"
    using Cons.prems(6) k split by (simp add: accepts_def)
  then obtain sv1 where h: "handle_frame (client_frame m) ?sv = (goes_on, sv1)"
    "answered ?sv rg1 (readings m) replies1 (length (server_bytes replies2)) sv1"
    using frame_answered [of capability_checked ?sv m replies1 goes_on rg1] Cons.prems(1) wf a by auto
  note i = handle_frame_incoming [OF h(1)]
  have s: "serve_frames sv = (if goes_on then serve_frames sv1 else sv1)"
    by (subst serve_frames.simps) (simp add: r(1) h(1))
  show ?case
  proof (cases goes_on)
    case False
    then show ?thesis using Cons.prems(5) a h(2) i r(2) k s by (auto simp: answered_def)
  next
    case True
    have "sv_registry (serve_frames sv1) = rg \<and> cn_incoming (sv_connection (serve_frames sv1)) = client_bytes unread \<and>
      cn_sent (sv_connection (serve_frames sv1)) = cn_sent (sv_connection sv1) @ server_bytes replies2"
    proof (rule Cons.IH)
      show "registry_ok capability_checked (sv_registry sv1)"
        using reaches_ok [OF respond_reaches [OF a] Cons.prems(1)] h(2) by (simp add: answered_def)
      show "\<forall>m \<in> set ms. well_formed m" using Cons.prems(2) by simp
      show "steady (sv_connection sv1)" using i r(3) by (simp add: steady_def)
      show "cn_incoming (sv_connection sv1) = client_bytes ms" using i r(2) by simp
      show "session (sv_clock sv1) (sv_reads sv1) ms (sv_registry sv1) = (replies2, unread, rg)"
        using Cons.prems(5) a True h(2) by (auto simp: answered_def replies2_def Let_def split: prod.splits)
      show "accepts (length (server_bytes replies2)) (sv_connection sv1)" using h(2) by (simp add: answered_def)
    qed
    then show ?thesis using True s h(2) k split by (simp add: answered_def)
  qed
qed

section \<open>The agent's side\<close>

text \<open>An exchange in which everything sent is accepted and the reply follows on the stream.\<close>

lemma exchange_answered:
  assumes "steady cn" and "accepts (length message) cn" and "cn_incoming cn = encode_frame type body @ rest"
    and "kEnvelopeBytes + length body \<le> kMaxWireFrameBytes" and "decode body = Inr reply"
  shows "\<exists>cn'. exchange message type decode a b c d cn = (Inr reply, cn') \<and> cn_sent cn' = cn_sent cn @ message \<and>
    cn_incoming cn' = rest"
proof -
  obtain ks where s: "send_all message cn = (Inr (), cn\<lparr>cn_sent := cn_sent cn @ message, cn_sends := ks\<rparr>)"
    using send_all_accepts [of message 0 cn] assms(2) by auto
  let ?cn = "cn\<lparr>cn_sent := cn_sent cn @ message, cn_sends := ks\<rparr>"
  have "steady ?cn" "cn_incoming ?cn = encode_frame type body @ rest" using assms(1,3) by (simp_all add: steady_def)
  from recv_frame_steady [OF this assms(4)] obtain cn2 where
    r: "recv_frame ?cn = (Inr (encode_frame type body), cn2)" "cn_incoming cn2 = rest" by blast
  then show ?thesis
    using s assms(5) recv_frame_keeps(4) [OF r(1)] by (simp add: exchange_def decode_encoded_frame [OF assms(4)])
qed

lemma accepts_mono: "accepts n cn \<Longrightarrow> m \<le> n \<Longrightarrow> accepts m cn"
  by (simp add: accepts_def)

abbreviation hello_frame :: "agent_options \<Rightarrow> string \<Rightarrow> publisher_incarnation \<Rightarrow> bytes \<Rightarrow> bytes" where
  "hello_frame op publisher incarnation boot \<equiv>
     encode_frame MT_Hello (encode_hello (agent_hello op publisher incarnation boot))"

section \<open>Any bytes at all\<close>

text \<open>
  Whatever bytes any clients send, and whichever replies cannot be sent, the server only runs
  operations of the registry.
\<close>

lemma serving_is_a_run:
  assumes "registry_ok capability_checked (sv_registry sv)"
    and "serve_clients once failure clients served sv = (left, sv')"
  shows "registry_ok capability_checked (sv_registry sv') \<and> advances (sv_registry sv) (sv_registry sv')"
proof -
  have r: "reaches (sv_registry sv) (sv_registry sv')"
    using serve_clients_reaches [of sv once failure clients served] assms(2) by simp
  then show ?thesis using reaches_ok [OF r assms(1)] reaches_advances [OF r assms(1)] by simp
qed

end
