(* ===== verification/Tool_Claims.thy ===== *)
theory Tool_Claims
  imports Sessions Registry_Claims
begin

text \<open>
  The promises of the command-line tools: what the server does with the messages of a client, how
  agent and server understand each other, the generations the server assigns, the boot counter of the agent,
  and the lines of a scenario.
\<close>

section \<open>The server\<close>

text \<open>A server over the leased registry, and a connection that delivers and accepts a byte at a time.\<close>

definition sample_connection :: "bytes \<Rightarrow> connection" where
  "sample_connection bs = \<lparr>cn_open = True, cn_incoming = bs, cn_recvs = replicate (length bs) 1,
     cn_sends = replicate 2048 1, cn_sent = [], cn_failure = ''socket error 104: reset''\<rparr>"

definition sample_server :: "bytes \<Rightarrow> server" where
  "sample_server bs = \<lparr>sv_registry = leased_registry, sv_connection = sample_connection bs, sv_out = [],
     sv_err = [], sv_clock = (\<lambda>_. 0), sv_reads = 0\<rparr>"

lemma sample_steady: "steady (sample_connection bs)"
  by (simp add: steady_def sample_connection_def)

lemma sample_accepts: "n \<le> 2048 \<Longrightarrow> accepts n (sample_connection bs)"
  by (simp add: accepts_def sample_connection_def)

definition sample_options :: agent_options where
  "sample_options = default_agent_options\<lparr>ag_publisher_id := ''agent''\<rparr>"

abbreviation sample_hello :: bytes where
  "sample_hello \<equiv> hello_frame sample_options ''agent'' 2 (replicate 16 1)"

lemma sample_hello_short: "length sample_hello \<le> 512"
proof -
  have "is_valid ''agent''" by code_simp
  then show ?thesis
    using encode_hello_lay [of "agent_hello sample_options ''agent'' 2 (replicate 16 1)"]
    by (simp add: encode_frame_eq agent_hello_def kBootBytes_def)
      (simp add: kFrameHeaderBytes_def kEnvelopeBytes_def kMaxOriginLen_def)
qed

lemma sample_declaration:
  "capability_ok sample_evidence" "may_assert ((canon_capability sample_evidence)\<lparr>ca_generation := 1\<rparr>) leased_registry"
proof -
  have "validate_capability sample_evidence = Inr ()" by code_simp
  then show "capability_ok sample_evidence"
    by (simp add: capability_ok_def) (simp add: sample_evidence_def sample_capability_def)
  have "(canon_capability sample_evidence)\<lparr>ca_generation := 1\<rparr> =
      sample_evidence\<lparr>ca_digest := compute_capability_digest sample_evidence\<rparr>"
    by (simp add: canon_capability_def sample_evidence_def sample_capability_def)
  moreover have "validate_capability (v\<lparr>ca_digest := d\<rparr>) = validate_capability v" for v d
    by (simp add: validate_capability_def)
  ultimately show "may_assert ((canon_capability sample_evidence)\<lparr>ca_generation := 1\<rparr>) leased_registry"
    using sample_may(2) by (simp add: may_assert_def split: option.splits)
qed

text \<open>
  C30: the server implements the session of \<open>Sessions\<close>. When the well-formed messages of a client
  arrive on a steady connection, in any pieces, and everything sent is accepted, serving the
  connection leaves exactly the registry of the session and sends exactly the frames of its replies,
  in order: each hello is registered with its own fields and answered with the lease or the refusal,
  each capability and each reservation is published as what it is and acknowledged, under the
  generation the sender gave or, when it asked for one, the successor of the newest capability or of
  the reservation retained under the sender's own generation; each status request and ping is
  answered; a bye or a refused hello ends the session, what follows it is never read, and the
  connection is closed.
\<close>

theorem server_implements_session:
  assumes "registry_ok capability_checked (sv_registry sv)" and "\<forall>m \<in> set ms. well_formed m"
    and "steady cn" and "cn_incoming cn = client_bytes ms"
    and "session (sv_clock sv) (sv_reads sv) ms (sv_registry sv) = (replies, unread, rg)"
    and "accepts (length (server_bytes replies)) cn"
  shows "sv_registry (serve_connection cn sv) = rg \<and>
    cn_sent (sv_connection (serve_connection cn sv)) = cn_sent cn @ server_bytes replies \<and>
    cn_incoming (sv_connection (serve_connection cn sv)) = client_bytes unread \<and>
    \<not> cn_open (sv_connection (serve_connection cn sv))"
  using session_served [of "sv\<lparr>sv_connection := cn\<rparr>" ms replies unread rg] assms
  by (simp add: serve_connection_def Let_def cn_close_def)

theorem server_implements_session_witness:
  "\<exists>ack status. cn_sent (sv_connection (serve_connection (sample_connection (client_bytes
       [Ping, Capability True sample_evidence, StatusRequest, Bye, Ping])) (sample_server []))) =
     server_bytes [Pong, PublishReply ack, StatusReply status] \<and> pk_status ack = WS_Ok \<and> pk_generation ack = 1 \<and>
     cn_incoming (sv_connection (serve_connection (sample_connection (client_bytes
       [Ping, Capability True sample_evidence, StatusRequest, Bye, Ping])) (sample_server []))) = client_bytes [Ping]"
proof -
  let ?ms = "[Ping, Capability True sample_evidence, StatusRequest, Bye, Ping]"
  let ?w = "(canon_capability sample_evidence)\<lparr>ca_generation := 1\<rparr>"
  have k: "ca_resource ?w = ca_resource sample_evidence" "ca_generation ?w = 1" "ca_generation sample_evidence = 1"
    by (simp_all add: canon_capability_def) (simp add: sample_evidence_def sample_capability_def)
  then obtain pr rg where p: "PublishCapability ?w leased_registry = (Inr pr, rg)"
    using capability_succeeds [OF leased_registry_ok, of empty_journal ?w] sample_declaration(2) sample_may(3) sample_durable
      sample_room [of kMaxCanonicalRecordBytes] by (auto simp: leased_store)
  have n: "catalogues leased_registry Scope_Capability k = None" for k
    by (simp add: leased_registry_def sample_registry_fields catalogue_def find_latest_def)
  let ?ack = "publication_reply [] (Inr pr)"
  obtain status where e: "session (\<lambda>_. 0) 0 ?ms leased_registry = ([Pong, PublishReply ?ack, StatusReply status], [Ping], rg)"
    using p by (simp add: n del: catalogues.simps)
  have g: "pr_generation pr = 1"
    using publications_publish(4) [OF leased_registry_ok, of ?w] p k(2) by (simp add: publishes_def)
  have small: "length (server_bytes [Pong, PublishReply ?ack, StatusReply status]) \<le> 2048"
    using server_frame_small [of Pong] server_frame_small [of "PublishReply ?ack"] server_frame_small [of "StatusReply status"]
      publication_reply_digest(1) [OF leased_registry_ok p, of "[]"] by (simp del: server_frame.simps)
  show ?thesis
    using server_implements_session [of "sample_server []" ?ms "sample_connection (client_bytes ?ms)", OF _ _ sample_steady _ _ sample_accepts [OF small]]
      leased_registry_ok sample_declaration(1) e g
    by (fastforce simp: sample_server_def sample_connection_def)
qed

text \<open>
  C35: how the network cuts the stream into pieces is invisible. When a client's bytes arrive in other
  pieces, as long as the connection keeps delivering, serving it leaves the same registry, prints the
  same lines and sends the same bytes.
\<close>

theorem segmentation_is_invisible:
  assumes "steady cn" and "steady (cn\<lparr>cn_recvs := ks\<rparr>)"
  shows "\<exists>js. serve_connection (cn\<lparr>cn_recvs := ks\<rparr>) sv = recut js (serve_connection cn sv)"
proof -
  have c: "cn_close (c\<lparr>cn_recvs := js\<rparr>) = (cn_close c)\<lparr>cn_recvs := js\<rparr>" for c js by (cases c) (simp add: cn_close_def)
  obtain js where "serve_frames (recut ks (sv\<lparr>sv_connection := cn\<rparr>)) = recut js (serve_frames (sv\<lparr>sv_connection := cn\<rparr>))"
    using serve_frames_recut [of "sv\<lparr>sv_connection := cn\<rparr>" ks] assms by auto
  then show ?thesis by (intro exI [of _ js]) (simp add: serve_connection_def Let_def recut_def c)
qed

theorem segmentation_is_invisible_witness:
  "\<exists>js. serve_connection ((sample_connection [1, 2, 3])\<lparr>cn_recvs := [2, 1, 7]\<rparr>) (sample_server []) =
     recut js (serve_connection (sample_connection [1, 2, 3]) (sample_server []))"
  by (rule segmentation_is_invisible [OF sample_steady]) (simp add: steady_def sample_connection_def)

text \<open>
  C31: agent and server understand each other. When the hello frame of an agent arrives, in any
  pieces, on a connection that accepts a reply, the server registers exactly the publisher,
  incarnation, boot identity and lease duration the agent holds, leaves the rest of the stream alone,
  and sends one answer, whether the registration succeeded or not; it keeps the connection exactly
  when the answer says it succeeded. An agent that sends the hello frame and finds that answer next on
  its stream sends exactly the frame, consumes exactly the answer and reads from it the lease, its
  epoch and its end, or the status and the clipped detail of the refusal.
\<close>

theorem hello_reaches_registry:
  assumes "parse_string_id (ag_publisher_id op) kMaxIdentifierLen = Inr p" and "i \<noteq> 0" and "length boot = kBootBytes"
    and "steady (sv_connection sv)" and "accepts 512 (sv_connection sv)"
    and "cn_incoming (sv_connection sv) = hello_frame op p i boot @ rest"
    and "RegisterPublisher (sv_clock sv (sv_reads sv)) p i boot (ucast (ag_ttl_ms op))
      ''qosfabric_publisher/1.0.0'' (sv_registry sv) = (granted, rg)"
  shows "\<exists>cn keep_going sv' answer ack.
    recv_frame (sv_connection sv) = (Inr (hello_frame op p i boot), cn) \<and>
    handle_frame (hello_frame op p i boot) (sv\<lparr>sv_connection := cn\<rparr>) = (keep_going, sv') \<and>
    sv_registry sv' = rg \<and> (keep_going \<longleftrightarrow> ha_status ack = WS_Ok) \<and>
    cn_incoming (sv_connection sv') = rest \<and> cn_sent (sv_connection sv') = cn_sent (sv_connection sv) @ answer \<and>
    (\<forall>agent rest' a b c d. steady agent \<longrightarrow> accepts (length (hello_frame op p i boot)) agent \<longrightarrow>
      cn_incoming agent = answer @ rest' \<longrightarrow>
      (\<exists>agent'. exchange (hello_frame op p i boot) MT_HelloAck decode_hello_ack a b c d agent = (Inr ack, agent') \<and>
        cn_sent agent' = cn_sent agent @ hello_frame op p i boot \<and> cn_incoming agent' = rest')) \<and>
    (case granted of
       Inr lease \<Rightarrow> ack = \<lparr>ha_status = WS_Ok, ha_epoch = ls_epoch lease, ha_lease = ls_lease lease,
         ha_expires_at_ms = ls_expires_at_ms lease, ha_detail = []\<rparr>
     | Inl e \<Rightarrow> ack = \<lparr>ha_status = status_from_error (err_code e), ha_epoch = rg_current_epoch rg, ha_lease = 0,
         ha_expires_at_ms = 0, ha_detail = take kMaxReasonLen (err_detail e)\<rparr>)"
proof -
  let ?h = "agent_hello op p i boot" and ?ack = "hello_ack_of granted rg"
  have v: "well_formed (Hello ?h)"
    using assms(1-3) by (auto simp: agent_hello_def parse_string_id_def split: if_splits)
  note size = client_frame_fits(2) [OF v, simplified]
  obtain cn where r: "recv_frame (sv_connection sv) = (Inr (hello_frame op p i boot), cn)" "cn_incoming cn = rest"
    using recv_frame_steady [OF assms(4,6) size] by blast
  note keep = recv_frame_keeps(2-5) [OF r(1)]
  let ?sv = "sv\<lparr>sv_connection := cn\<rparr>"
  have o': "take kMaxOriginLen ''qosfabric_publisher/1.0.0'' = ''qosfabric_publisher/1.0.0''"
    by (simp add: kMaxOriginLen_def)
  have a: "respond (sv_clock ?sv (sv_reads ?sv)) (Hello ?h) (sv_registry ?sv) =
      ([HelloReply ?ack], ha_status ?ack = WS_Ok, rg)"
    using assms(7) by (simp add: agent_hello_def o' hello_ack_of_def Let_def split: sum.split)
  have acc: "accepts (length (server_bytes [HelloReply ?ack]) + 0) (sv_connection ?sv)"
    using accepts_mono [OF assms(5) server_frame_small [of "HelloReply ?ack"]] keep by (simp add: accepts_def)
  obtain sv' where h: "handle_hello (encode_hello ?h) ?sv = (ha_status ?ack = WS_Ok, sv')"
    "answered ?sv rg 1 [HelloReply ?ack] 0 sv'"
    using hello_answered [OF v a acc] by blast
  have f: "handle_frame (hello_frame op p i boot) ?sv = (ha_status ?ack = WS_Ok, sv')"
    using h(1) by (simp add: handle_frame_def decode_encoded_frame [OF size])
  let ?reply = "?ack\<lparr>ha_detail := take kMaxReasonLen (ha_detail ?ack)\<rparr>"
  have x: "\<forall>agent rest' a b c d. steady agent \<longrightarrow> accepts (length (hello_frame op p i boot)) agent \<longrightarrow>
      cn_incoming agent = server_frame (HelloReply ?ack) @ rest' \<longrightarrow>
      (\<exists>agent'. exchange (hello_frame op p i boot) MT_HelloAck decode_hello_ack a b c d agent = (Inr ?reply, agent') \<and>
        cn_sent agent' = cn_sent agent @ hello_frame op p i boot \<and> cn_incoming agent' = rest')"
    by (intro allI impI, rule exchange_answered [where decode = decode_hello_ack and body = "encode_hello_ack ?ack"])
      (simp_all add: encode_hello_ack_lay(2) hello_ack_roundtrip)
  have c: "case granted of
       Inr lease \<Rightarrow> ?ack\<lparr>ha_detail := take kMaxReasonLen (ha_detail ?ack)\<rparr> = \<lparr>ha_status = WS_Ok, ha_epoch = ls_epoch lease,
         ha_lease = ls_lease lease, ha_expires_at_ms = ls_expires_at_ms lease, ha_detail = []\<rparr>
     | Inl e \<Rightarrow> ?ack\<lparr>ha_detail := take kMaxReasonLen (ha_detail ?ack)\<rparr> = \<lparr>ha_status = status_from_error (err_code e),
         ha_epoch = rg_current_epoch rg, ha_lease = 0, ha_expires_at_ms = 0, ha_detail = take kMaxReasonLen (err_detail e)\<rparr>"
    by (simp add: hello_ack_of_def Let_def split: sum.split)
  have out: "sv_registry sv' = rg" "cn_sent (sv_connection sv') = cn_sent (sv_connection sv) @ server_frame (HelloReply ?ack)"
    "cn_incoming (sv_connection sv') = rest" "ha_status ?ack = WS_Ok \<longleftrightarrow> ha_status ?reply = WS_Ok"
    using h(2) handle_frame_incoming(1) [OF f] keep r(2) by (simp_all add: answered_def)
  show ?thesis
    by (intro exI conjI) (rule r(1) f out x c)+
qed


theorem hello_reaches_registry_witness:
  "\<exists>cn sv' l agent'. recv_frame (sample_connection sample_hello) = (Inr sample_hello, cn) \<and>
     handle_frame sample_hello ((sample_server sample_hello)\<lparr>sv_connection := cn\<rparr>) = (True, sv') \<and>
     FindLease ''agent'' (sv_registry sv') = Some l \<and> ls_incarnation l = 2 \<and>
     exchange sample_hello MT_HelloAck decode_hello_ack [] [] [] [] (sample_connection (cn_sent (sv_connection sv'))) =
     (Inr \<lparr>ha_status = WS_Ok, ha_epoch = ls_epoch l, ha_lease = ls_lease l,
       ha_expires_at_ms = ls_expires_at_ms l, ha_detail = []\<rparr>, agent')"
proof -
  let ?sv = "sample_server sample_hello"
  have p: "parse_string_id (ag_publisher_id sample_options) kMaxIdentifierLen = Inr ''agent''" by code_simp
  obtain l rg where g: "RegisterPublisher 0 ''agent'' 2 (replicate 16 1) (ucast (ag_ttl_ms sample_options))
      ''qosfabric_publisher/1.0.0'' leased_registry = (Inr l, rg)" "FindLease ''agent'' rg = Some l" "ls_incarnation l = 2"
    using register_succeeds [of leased_registry empty_journal 0 "''agent''" 2 "replicate 16 1"
        "ucast (ag_ttl_ms sample_options)" "''qosfabric_publisher/1.0.0''"] sample_may(1) sample_durable sample_room [of 512]
    by (auto simp: leased_store sample_options_def default_agent_options_def limit_defs)
  have sv: "sv_connection ?sv = sample_connection sample_hello" "sv_clock ?sv (sv_reads ?sv) = 0"
    "sv_registry ?sv = leased_registry" by (simp_all add: sample_server_def)
  obtain cn sv' answer where r: "recv_frame (sample_connection sample_hello) = (Inr sample_hello, cn)"
      "handle_frame sample_hello (?sv\<lparr>sv_connection := cn\<rparr>) = (True, sv')" "sv_registry sv' = rg"
      "cn_sent (sv_connection sv') = answer"
    and x: "\<forall>agent rest' a b c d. steady agent \<longrightarrow> accepts (length sample_hello) agent \<longrightarrow>
      cn_incoming agent = answer @ rest' \<longrightarrow>
      (\<exists>agent'. exchange sample_hello MT_HelloAck decode_hello_ack a b c d agent =
        (Inr \<lparr>ha_status = WS_Ok, ha_epoch = ls_epoch l, ha_lease = ls_lease l,
           ha_expires_at_ms = ls_expires_at_ms l, ha_detail = []\<rparr>, agent') \<and>
        cn_sent agent' = cn_sent agent @ sample_hello \<and> cn_incoming agent' = rest')"
    using hello_reaches_registry [OF p, of 2 "replicate 16 1" ?sv "[]" "Inr l" rg]
      sample_steady sample_accepts [of 512] g(1) unfolding sv
    by (auto simp: kBootBytes_def sample_connection_def)
  have a: "accepts (length sample_hello) (sample_connection answer)"
    using sample_accepts sample_hello_short by simp
  obtain agent' where "exchange sample_hello MT_HelloAck decode_hello_ack [] [] [] [] (sample_connection answer) =
      (Inr \<lparr>ha_status = WS_Ok, ha_epoch = ls_epoch l, ha_lease = ls_lease l,
        ha_expires_at_ms = ls_expires_at_ms l, ha_detail = []\<rparr>, agent')"
    using x sample_steady [of answer] a by (fastforce simp: sample_connection_def)
  with r g show ?thesis by auto
qed

section \<open>Assigned generations\<close>

text \<open>
  C32: a restarted publisher continues its sequence without guessing. When the lease holder asks for
  an assigned generation, and a publication under the next generation is admissible on a store with
  room, the server publishes the declaration under exactly that generation, whatever generation the
  sender filled in, and acknowledges it with the generation and the digest the catalogue then holds.
\<close>

theorem assigned_capability_extends:
  assumes "registry_ok K rg" and "durable (rg_store rg) j" and "has_room kMaxCanonicalRecordBytes (rg_store rg)"
    and "fst (decode_capability (new_reader payload)) = Inr v" and "bit flags 0"
    and "may_assert (v\<lparr>ca_generation := g\<rparr>) rg"
    and "may_extend capability_entity kMaxCapabilitiesRetained (ca_resource v) g rg"
  shows "\<exists>ack rg'. accept_capability flags payload rg = (ack, rg') \<and> pk_status ack = WS_Ok \<and>
    pk_generation ack = g \<and> pk_digest ack = compute_capability_digest (v\<lparr>ca_generation := g\<rparr>) \<and>
    catalogues rg' Scope_Capability (ca_resource v) = Some (g, pk_digest ack)"
proof -
  let ?v = "v\<lparr>ca_generation := g\<rparr>"
  have a: "assign_next (map_sum id ca_generation (LatestCapability (ca_resource v) rg)) fresh_ack = (g, fresh_ack)"
    using assms(7) unfolding latest_capability
    by (auto simp: may_extend_def assign_next_def capability_entity_def split: option.splits)
  obtain pr rg' where p: "PublishCapability ?v rg = (Inr pr, rg')"
    "catalogues rg' Scope_Capability (ca_resource v) = Some (g, compute_capability_digest ?v)"
    using capability_succeeds [OF assms(1-3,6)] assms(7) by auto
  have "publishes Scope_Capability (ca_resource ?v) g (compute_capability_digest ?v) rg (Inr pr, rg')"
    using publications_publish(4) [OF assms(1), of ?v] p(1) by simp
  note n = published_newest [OF this]
  show ?thesis
    using a p n assms(4,5) by (simp add: accept_capability_def Let_def ack_publication_def)
qed

theorem assigned_capability_extends_witness:
  "\<exists>ack rg. accept_capability 1 (lay_capability sample_evidence) leased_registry = (ack, rg) \<and>
     pk_status ack = WS_Ok \<and> pk_generation ack = 1"
proof -
  let ?v = "canon_capability sample_evidence"
  have d: "fst (decode_capability (new_reader (lay_capability sample_evidence))) = Inr ?v"
    using capability_codec.dec_lay [OF sample_declaration(1), of "[]" "[]"] by (simp add: new_reader_rd)
  have c: "ca_resource ?v = ca_resource sample_evidence" "ca_generation sample_evidence = 1"
    by (simp_all add: canon_capability_def sample_evidence_def sample_capability_def)
  show ?thesis
    using assigned_capability_extends [OF leased_registry_ok _ _ d _ sample_declaration(2), of empty_journal 1]
      sample_may(3) sample_durable sample_room [of kMaxCanonicalRecordBytes] c
    by (fastforce simp: leased_store)
qed

text \<open>
  C33: for reservations the assignment does not continue the sequence. When a sender asks for an
  assigned generation and the generation it filled in is not the newest one, the server derives the
  new generation from the sender's: nothing is ever published, and no new generation is acknowledged,
  although the registry holds the newest and could extend it.
\<close>

theorem assigned_reservation_stuck:
  assumes "registry_ok K rg" and "fst (decode_reservation (new_reader payload)) = Inr v" and "bit flags 0"
    and "catalogues rg Scope_Reservation (rs_resource v) = Some (n, d)" and "rs_generation v \<noteq> n"
    and "accept_reservation flags payload rg = (ack, rg')"
  shows "catalogues rg' = catalogues rg \<and> pk_generation ack \<in> {0, n}"
proof -
  let ?a = "assign_next (map_sum id rs_generation (GetReservation (rs_resource v) (rs_generation v) rg)) fresh_ack"
  let ?v = "v\<lparr>rs_generation := fst ?a\<rparr>"
  obtain answer where p: "PublishReservation ?v rg = (answer, rg')" "ack = ack_publication answer (snd ?a)"
    using assms(2,3,6) by (auto simp: accept_reservation_def Let_def split: prod.splits)
  note r = get_reservation_generation [OF assms(1,4)]
  have inj: "a = b" if "try_increment a = Some c" "try_increment b = Some c" for a b c :: u64
    using that by (auto simp: try_increment_def split: if_splits)
  have g: "try_increment n \<noteq> Some (fst ?a)"
  proof (cases "GetReservation (rs_resource v) (rs_generation v) rg")
    case (Inl e)
    then show ?thesis using r(1) by (auto simp: assign_next_def try_increment_def split: if_splits)
  next
    case (Inr x)
    show ?thesis
      using r(2) [OF Inr] assms(5) inj [of n _ "rs_generation v"] try_increment_None [of "rs_generation v"]
        word_order.extremum [of n]
      by (auto simp: assign_next_def Inr split: option.splits) (metis inj word_order.extremum_unique)
  qed
  have z: "pk_generation (snd ?a) = 0" by (auto simp: assign_next_def fresh_ack_def split: sum.splits option.splits)
  have "publishes Scope_Reservation (rs_resource v) (fst ?a) (compute_reservation_digest ?v) rg (answer, rg')"
    using publications_publish(5) [OF assms(1), of ?v] p(1) by simp
  then show ?thesis
    using p(2) g z assms(4)
    by (auto simp: publishes_def admit_def ack_publication_def ack_error_def split: sum.splits if_splits simp del: catalogues.simps)
qed

definition sample_reservation :: reservation where
  "sample_reservation = \<lparr>rs_resource = ''edge'', rs_generation = 1, rs_class_id = ''gold'',
     rs_class_generation = 1, rs_reserved_min_rate_bps = 1000, rs_reserved_burst_bytes = 0, rs_epoch = 1,
     rs_publisher = ''agent'', rs_incarnation = 1, rs_expires_at_ms = 60000, rs_digest = zero_digest,
     rs_provenance = empty_provenance\<rparr>"

definition reserved_registry :: registry where
  "reserved_registry = sample_registry\<lparr>rg_reservations := fmupd ''edge''
     [asserted reservation_entity 1 empty_provenance sample_reservation] fmempty\<rparr>"

lemma reserved_registry_ok: "registry_ok capability_checked reserved_registry"
proof -
  have v: "validate_reservation sample_reservation = Inr ()" by code_simp
  have "reservation_ok (asserted reservation_entity 1 empty_provenance sample_reservation)"
    by (rule pub_reservation.asserted_ok)
      (simp_all add: en_validate_simps v any_def provenance_ok_def empty_provenance_def)
  then have "table_ok reservation_entity reservation_ok (keep sample_registry) kMaxCapabilitiesRetained
      (rg_reservations reserved_registry)"
    using pub_reservation.asserted_simps [of 1 empty_provenance sample_reservation]
    by (simp add: table_ok_def reserved_registry_def consecutive_def fcard_def limit_defs sample_reservation_def
        sample_registry_fields)
  from keeps_tables(5) [OF sample_registry_ok this] show ?thesis by (simp add: reserved_registry_def)
qed

theorem assigned_reservation_stuck_witness:
  "catalogues (snd (accept_reservation 1 (lay_reservation (sample_reservation\<lparr>rs_generation := 7\<rparr>)) reserved_registry)) =
   catalogues reserved_registry"
proof -
  let ?w = "sample_reservation\<lparr>rs_generation := 7\<rparr>"
  have v: "validate_reservation ?w = Inr ()" by code_simp
  have ok: "reservation_ok ?w"
    using v by (simp add: reservation_ok_def) (simp add: sample_reservation_def)
  have d: "fst (decode_reservation (new_reader (lay_reservation ?w))) = Inr (canon_reservation ?w)"
    using reservation_codec.dec_lay [OF ok, of "[]" "[]"] by (simp add: new_reader_rd)
  have c: "rs_resource (canon_reservation ?w) = ''edge''" "rs_generation (canon_reservation ?w) = 7"
    by (simp_all add: canon_reservation_def sample_reservation_def)
  have n: "catalogues reserved_registry Scope_Reservation (rs_resource (canon_reservation ?w)) =
      Some (1, compute_reservation_digest sample_reservation)"
    unfolding c(1) using pub_reservation.asserted_simps [of 1 empty_provenance sample_reservation]
    by (simp add: reserved_registry_def catalogue_def find_latest_def sample_reservation_def del: fold_simps)
  show ?thesis
    using assigned_reservation_stuck [OF reserved_registry_ok d _ n _ prod.collapse [symmetric]] c by simp
qed

section \<open>The boot counter\<close>

text \<open>
  C34: the boot counter across restarts. Once an agent has claimed an incarnation, any later start
  that succeeds on the counter file it wrote claims the next one, unless the file could not be
  opened. A start on a disk where nothing fails always claims the next one. But a single failed open
  counts as a file that was never written: the agent starts over at incarnation one and overwrites
  the counter.
\<close>

theorem boot_counter_across_restarts:
  assumes "path \<noteq> []" and "claim_incarnation path d0 = (Inr i, d1)"
    and "file_at d2 path = file_at d1 path"
  shows "(\<forall>j d3. claim_incarnation path d2 = (Inr j, d3) \<longrightarrow>
      j = i + 1 \<or> j = 1 \<and> (\<exists>k. fst (io_step d2) = Some k)) \<and>
    (d_faults d2 = [] \<longrightarrow> (\<exists>d3. claim_incarnation path d2 = (Inr (i + 1), d3))) \<and>
    (d_faults d2 = [Some k] \<longrightarrow> (\<exists>d3. claim_incarnation path d2 = (Inr 1, d3)))"
proof -
  have f: "file_at d2 path = Some (bytes_of_string (counter_text i))" using claim_holds assms by simp
  have ok: "\<exists>d3. write_incarnation path v d = (Inr (), d3)" if "d_faults d = []" for d v
    using that write_file_atomic_calm [of d] by (auto simp: write_incarnation_def)
  have 1: "j = i + 1 \<or> j = 1 \<and> (\<exists>k. fst (io_step d2) = Some k)" if c: "claim_incarnation path d2 = (Inr j, d3)" for j d3
  proof -
    obtain n d4 where "read_incarnation path d2 = (Inr n, d4)" "j = n + 1" using claim_reads [OF c] by blast
    then show ?thesis using read_counter [OF assms(1) f] by auto
  qed
  have 2: "\<exists>d3. claim_incarnation path d2 = (Inr (i + 1), d3)" if "d_faults d2 = []"
    using ok [OF that, of "i + 1"] read_counter_calm [OF assms(1) f that]
    by (auto simp: claim_incarnation_def Let_def)
  have 3: "\<exists>d3. claim_incarnation path d2 = (Inr 1, d3)" if "d_faults d2 = [Some k]"
  proof -
    have "read_incarnation path d2 = (Inr 0, d2\<lparr>d_faults := []\<rparr>)"
      using that assms(1) by (simp add: read_incarnation_def read_file_def io_step_def Let_def)
    then show ?thesis using ok [of "d2\<lparr>d_faults := []\<rparr>" 1] by (auto simp: claim_incarnation_def Let_def)
  qed
  show ?thesis using 1 2 3 by blast
qed

definition blank_disk :: disk where "blank_disk = \<lparr>d_files = [], d_dirs = [], d_faults = []\<rparr>"

theorem boot_counter_across_restarts_witness:
  "\<exists>d1 d2 d3. claim_incarnation ''boot'' blank_disk = (Inr 1, d1) \<and>
     claim_incarnation ''boot'' (d1\<lparr>d_faults := []\<rparr>) = (Inr 2, d2) \<and>
     claim_incarnation ''boot'' (d1\<lparr>d_faults := [Some 0]\<rparr>) = (Inr 1, d3)"
proof -
  have "fst (claim_incarnation ''boot'' blank_disk) = Inr 1" by code_simp
  then obtain d1 where c: "claim_incarnation ''boot'' blank_disk = (Inr 1, d1)" by (metis prod.collapse)
  have f: "file_at (d1\<lparr>d_faults := fs\<rparr>) ''boot'' = file_at d1 ''boot''" for fs by (simp add: file_at_def)
  from boot_counter_across_restarts [OF _ c f, of "[]" 0] boot_counter_across_restarts [OF _ c f, of "[Some 0]" 0] c
  show ?thesis by fastforce
qed

section \<open>Scenarios\<close>

text \<open>
  C36: a request written as a line of a scenario is read back as that request, with the clock of the
  scenario, except that an identifier with a colon, which is a valid identifier everywhere else,
  cannot be referred to: the first reference whose identifier holds one makes the line an error.
\<close>

theorem request_line_roundtrip:
  assumes "is_valid (rq_contract rq)" and "\<forall>(key, ident, g) \<in> set (request_references rq). is_valid ident"
  shows "tokenize (takeWhile (\<lambda>c. c \<noteq> CHR ''#'') (join_text (CHR '' '') (request_tokens rq))) = request_tokens rq \<and>
    scenario_request (arguments_of (request_tokens rq)) now_ms =
      (case List.find (\<lambda>(key, ident, g). CHR '':'' \<in> set ident) (request_references rq) of
         None \<Rightarrow> Inr (rq\<lparr>rq_request_ms := now_ms, rq_provenance := empty_provenance\<rparr>)
       | Some (key, ident, g) \<Rightarrow> Inl (bad_argument (key @ ''=<id>:<generation>'')))"
proof -
  let ?a = "arguments_of (request_tokens rq)"
  note t = token_chars [OF assms]
  have "set (join_text c ts) \<subseteq> insert c (\<Union>t \<in> set ts. set t)" for c ts
    by (induction c ts rule: join_text.induct) auto
  then have "\<forall>c \<in> set (join_text (CHR '' '') (request_tokens rq)). c \<noteq> CHR ''#''"
    using t by fastforce
  then have tw: "takeWhile (\<lambda>c. c \<noteq> CHR ''#'') (join_text (CHR '' '') (request_tokens rq)) = join_text (CHR '' '') (request_tokens rq)"
    by (simp add: takeWhile_eq_all_conv)
  have tk: "tokenize (join_text (CHR '' '') (request_tokens rq)) = request_tokens rq"
    by (rule tokenize_join) (use t in blast)
  have 1: "tokenize (takeWhile (\<lambda>c. c \<noteq> CHR ''#'') (join_text (CHR '' '') (request_tokens rq))) = request_tokens rq"
    by (simp only: tw tk)
  have r: "request_reference ?a key = (if CHR '':'' \<in> set ident then Inl (bad_argument (key @ ''=<id>:<generation>''))
      else Inr (ident, g))" if "(key, ident, g) \<in> set (request_references rq)" for key ident g
    unfolding request_reference_def
    by (rule reference_value) (use assms(2) request_arguments(2) [OF assms(1) that] that in auto)
  have rs: "request_reference ?a ''subject'' = (if CHR '':'' \<in> set (rq_subject rq)
      then Inl (bad_argument (''subject'' @ ''=<id>:<generation>'')) else Inr (rq_subject rq, rq_subject_generation rq))"
    "request_reference ?a ''class'' = (if CHR '':'' \<in> set (rq_class_id rq)
      then Inl (bad_argument (''class'' @ ''=<id>:<generation>'')) else Inr (rq_class_id rq, rq_class_generation rq))"
    "request_reference ?a ''path'' = (if CHR '':'' \<in> set (rq_path rq)
      then Inl (bad_argument (''path'' @ ''=<id>:<generation>'')) else Inr (rq_path rq, rq_path_generation rq))"
    "request_reference ?a ''policy'' = (if CHR '':'' \<in> set (rq_policy rq)
      then Inl (bad_argument (''policy'' @ ''=<id>:<generation>'')) else Inr (rq_policy rq, rq_policy_generation rq))"
    "request_reference ?a ''priority'' = (if CHR '':'' \<in> set (rq_priority rq)
      then Inl (bad_argument (''priority'' @ ''=<id>:<generation>'')) else Inr (rq_priority rq, rq_priority_generation rq))"
    by (rule r, simp add: request_references_def)+
  have n: "named_generation ?a d = Inr (rq_contract rq, rq_contract_generation rq)" for d
    using assms(1) by (simp add: named_generation_def request_arguments [OF assms(1)] parse_id_valid to_u64_dec)
  have 2: "scenario_request ?a now_ms =
      (case List.find (\<lambda>(key, ident, g). CHR '':'' \<in> set ident) (request_references rq) of
         None \<Rightarrow> Inr (rq\<lparr>rq_request_ms := now_ms, rq_provenance := empty_provenance\<rparr>)
       | Some (key, ident, g) \<Rightarrow> Inl (bad_argument (key @ ''=<id>:<generation>'')))"
    unfolding scenario_request_def n rs request_references_def
    by (simp add: request_arguments [OF assms(1)] to_u64_dec)
  show ?thesis using 1 2 by blast
qed

theorem request_line_roundtrip_witness:
  "scenario_request (arguments_of (request_tokens sample_request)) 5 =
     Inr (sample_request\<lparr>rq_request_ms := 5, rq_provenance := empty_provenance\<rparr>) \<and>
   scenario_request (arguments_of (request_tokens (sample_request\<lparr>rq_path := ''a:b''\<rparr>))) 5 =
     Inl (bad_argument ''path=<id>:<generation>'')"
proof -
  have v: "is_valid (rq_contract sample_request)" "is_valid ''a:b''" by code_simp+
  have r: "\<forall>(key, ident, g) \<in> set (request_references sample_request). is_valid ident"
    "\<forall>(key, ident, g) \<in> set (request_references (sample_request\<lparr>rq_path := ''a:b''\<rparr>)). is_valid ident"
    by code_simp+
  have f: "List.find (\<lambda>(key, ident, g). CHR '':'' \<in> set ident) (request_references sample_request) = None"
    "List.find (\<lambda>(key, ident, g). CHR '':'' \<in> set ident) (request_references (sample_request\<lparr>rq_path := ''a:b''\<rparr>)) =
      Some (''path'', ''a:b'', rq_path_generation sample_request)"
    by code_simp+
  show ?thesis
    using request_line_roundtrip [OF v(1) r(1), of 5] request_line_roundtrip [OF _ r(2), of 5] v(1) f by simp
qed

end
