(* ===== verification/Spec2Isabelle.thy ===== *)
theory Spec2Isabelle
  imports Engine_Claims Record_Claims Wire Store_Claims Registry_Claims Tool_Claims
begin

text \<open>
  A verification development for QoS Fabric, a C++20 runtime that decides which end-to-end service
  class is authoritative for a contract, from published definitions and resource evidence.

  \<^bold>\<open>The program.\<close> Publishers register with a registry, hold leases, and assert capabilities and
  reservations of resources; operators publish classes, policies and paths. A contract request is
  bound to the newest evidence and handed to a pure engine, which plans the obligations, resolves
  every component of the path, composes the declared values, assesses each obligation and rolls
  them up into one of seven outcomes. Everything the registry accepts, and every decision, is
  journalled in a durable store: a write-ahead log of checksummed frames, a snapshot and a
  manifest. Clients talk to the registry in checksummed frames of a wire protocol: a publisher agent
  keeps a boot counter in a file and asks a server for a lease and for generations; an operator tool
  runs that server, inspects a store, and executes scenarios, files of one call per line.

  \<^bold>\<open>Theories and sources.\<close> \<open>include/\<close> below is \<open>src/include/qosfabric/\<close>, \<open>src/\<close> is \<open>src/src/\<close>.
  \<^item> \<open>QF_Prelude\<close>: widths of integers, byte strings, errors as values (\<open>include/error.hpp\<close>) and
    the budgets of \<open>include/limits.hpp\<close>. \<open>Checked\<close>: the overflow helpers of \<open>include/checked.hpp\<close>.
    \<open>Ids\<close>: identifiers, counters, boot identities (\<open>include/ids.hpp\<close>, \<open>src/ids.cpp\<close>).
  \<^item> \<open>Crypto\<close>: SHA-256 with its streaming state and CRC-32C with its table (\<open>src/crypto.cpp\<close>).
    \<open>Serialize\<close>: the budgeted writer and the failing reader (\<open>src/serialize.cpp\<close>). \<open>Codec_Laws\<close>:
    what writers and readers promise each other, as the locale \<open>codec\<close>.
  \<^item> \<open>Model\<close> and \<open>Model_Codec\<close>: classes, policies, paths, capabilities, reservations and requests,
    their validation, canonical encoding, decoding and digests (\<open>src/model.cpp\<close>). \<open>Decision\<close>: the
    decision record, its codec and its explanation (\<open>src/decision.cpp\<close>).
  \<^item> \<open>Engine\<close>, \<open>Evaluate\<close>: the plan, resolution, composition, assessment and roll-up of
    \<open>src/engine.cpp\<close>; \<open>Engine_Props\<close>, \<open>Engine_Claims\<close>: its properties; \<open>Samples\<close>: inputs for them.
  \<^item> \<open>Disk\<close>: files and failing system calls; \<open>Store\<close>: every operation of \<open>src/store.cpp\<close>;
    \<open>Store_Props\<close>, \<open>Store_Claims\<close>: the journal a store stands for, recovery and damage.
  \<^item> \<open>Registry\<close>: every operation of \<open>src/registry.cpp\<close> over the store; \<open>Registry_Laws\<close>: the contract
    of the five entity types, as the locale \<open>published\<close> that extends \<open>codec\<close>, and the invariant;
    \<open>Registry_Inv\<close>, \<open>Registry_Runs\<close>, \<open>Registry_Progress\<close>: every operation against the invariant, the
    catalogue and the authority; \<open>Registry_Claims\<close>: its properties.
  \<^item> \<open>Wire\<close>: frames, stream decoding and control messages of \<open>src/wire.cpp\<close>. \<open>Record_Claims\<close>: the
    properties of digests, encodings and explanations.
  \<^item> \<open>Net\<close>: a connected socket of \<open>src/net.cpp\<close>; \<open>Texts\<close>: error names (\<open>src/version.cpp\<close>), numbers
    and tokens of the tools; \<open>Server\<close>: \<open>run_server\<close>'s loops and message handlers, \<open>Scenario\<close>: the
    class \<open>Scenario\<close>, and \<open>Cli\<close>: options, commands and \<open>main\<close> of \<open>src/tools/qosfabric_cli.cpp\<close>;
    \<open>Agent\<close>: \<open>src/tools/qosfabric_publisher.cpp\<close>; \<open>Sessions\<close>: the specification of a client's
    session on messages instead of bytes, which the server refines; \<open>Tool_Laws\<close>, \<open>Tool_Claims\<close>:
    the properties of the tools.

  \<^bold>\<open>How the code is rendered.\<close> A struct is a record, an enumeration a datatype with its rank, a
  fixed-width integer a word of that width, a \<open>std::string\<close> a list of characters, a hash table a
  finite map, \<open>Result\<close> a sum whose left side is the error. A member function takes the object and
  returns its result with the object afterwards. An iterator or index that would be undefined
  behaviour is \<open>None\<close> of an option, and proved not to occur. A system call consults a list of
  faults of the disk: it succeeds, or fails, or writes a prefix; a disk without faults is calm. A
  crash is the loss of everything but the files, with any torn bytes behind the log. The clock,
  fresh identities and the faults are arguments. A connection holds the bytes still to come and how
  many of them each call of \<open>recv\<close> and \<open>send\<close> may move. A process is a function from its surroundings
  to its exit code, the lines it prints and the disk it leaves; it may end where the code returns.

  \<^bold>\<open>What the lemmas show.\<close> The codec group: writers are sound, layouts are read back, readers are
  safe on any input. The engine group: the plan against its specification, composition against
  arithmetic on the naturals, totality of every lookup, and what each outcome means. The store
  group: frames parse back, replay tracks the abstract journal, every call refines a journal
  event, and a compaction on a failing disk. The registry group: generation tables, what a
  publication, a registration and an evaluation do on every branch, how long a conflict marker is
  kept, and progress with room. The tool group: the server implements the session of messages,
  every frame of a client and every line of a scenario is a run of the registry, the pieces of a
  stream do not show, request and reply are understood, printed numbers parse.

  \<^bold>\<open>Bounds and fuel.\<close> No loop of the model takes fuel except the padding of SHA-256, where 64
  steps are enough because at most 63 bytes are padded (shown in \<open>Crypto\<close>). Loops that are not
  structural (replay, verification of frames, pruning, exact transfers, the frames of a connection)
  are functions with a termination proof. A server's life is the list of the clients that connect
  before \<open>accept\<close> fails.
  The budgets are the code's own; a torn tail is bounded by the mebibyte the code scans beyond
  the log.

  \<^bold>\<open>Not modelled.\<close> The system calls behind listening, accepting, connecting and the text of a
  socket error (arguments of the processes), receive timeouts and the pause between two
  declarations, the benchmark (timing of the library, no behaviour of its own), the branches for
  Windows, mutexes (a call is one step), and the sources of time and randomness (arguments). A send
  to a peer that has reset the connection is a call that fails; that on POSIX it also raises
  SIGPIPE, which nothing in the program blocks, is outside the model. Nothing of the engine reads
  \<open>max_unknown_components\<close> of a policy, so it appears only in validation and encoding.
\<close>

end
